(* ===== verification/Prelude.thy ===== *)
theory Prelude
  imports Main "HOL-Library.Char_ord" "HOL-Library.List_Lexorder" "HOL-Library.AList"
    "HOL-Library.Multiset"
begin

section \<open>Prelude: the shared vocabulary of the development\<close>

text \<open>
  What every component theory uses: the names of the basic types, Go's signed 64-bit
  wrap-around, symbolic \<^verbatim>\<open>float64\<close> values, Go maps that are iterated over (association lists),
  and the generic lemmas on lists, maps and results that the component proofs share.
  \<^item> A Go \<^verbatim>\<open>string\<close> or \<^verbatim>\<open>[]byte\<close> is a list of bytes.
  \<^item> A Go \<^verbatim>\<open>int64\<close> is an \<open>int\<close>; where data of the input takes part in an addition or a
    multiplication, the wrap-around is written out with \<open>wrap64\<close>. Counters that grow by one
    per row of a file are plain \<open>int\<close>s.
  \<^item> A \<^verbatim>\<open>time.Time\<close> is the number of nanoseconds since the zero time (year 1), so that
    \<open>0\<close> is the zero value; a \<^verbatim>\<open>time.Duration\<close> is a number of nanoseconds.
  \<^item> A fallible operation returns a value of a sum type, with \<open>Inl\<close> for the error.
  \<^item> A Go map that is only looked up is a partial function; a map that is ranged over is an
    association list (\<open>map_of\<close>, \<open>AList.update\<close>).
\<close>

type_synonym bytes = string
type_synonym time = int
type_synonym duration = int

named_theorems wf_intros \<open>introduction rules for well-formedness invariants\<close>
named_theorems frame_simps \<open>what an operation leaves unchanged\<close>

subsection \<open>Signed 64-bit integers\<close>

definition wrap64 :: "int \<Rightarrow> int" where
  "wrap64 x = (x + 2 ^ 63) mod 2 ^ 64 - 2 ^ 63"

definition int64 :: "int \<Rightarrow> bool" where
  "int64 x \<longleftrightarrow> - (2 ^ 63) \<le> x \<and> x < 2 ^ 63"

text \<open>Go's integer division truncates towards zero.\<close>

definition quot64 :: "int \<Rightarrow> int \<Rightarrow> int" where
  "quot64 a b = sgn a * sgn b * (\<bar>a\<bar> div \<bar>b\<bar>)"

lemma wrap64_int64 [simp]: "int64 (wrap64 x)"
proof -
  have "0 \<le> (x + 2 ^ 63) mod 2 ^ 64" and "(x + 2 ^ 63) mod 2 ^ 64 < 2 ^ 64"
    by simp_all
  then show ?thesis by (simp add: int64_def wrap64_def)
qed

lemma wrap64_id [simp]: "int64 x \<Longrightarrow> wrap64 x = x"
  by (simp add: int64_def wrap64_def)

lemma wrap64_succ_max: "wrap64 (2 ^ 63) = - (2 ^ 63)"
  by (simp add: wrap64_def)

lemma quot64_nonneg: "0 \<le> a \<Longrightarrow> 0 < b \<Longrightarrow> quot64 a b = a div b"
  by (cases "a = 0") (simp_all add: quot64_def)

subsection \<open>Floating point, symbolically\<close>

text \<open>
  A \<^verbatim>\<open>float64\<close> is kept as the expression that computes it: conversions of an integer, of the
  seconds of a duration, and the sums and divisions the code performs. Where a comparison needs its
  value, the operations are rounded in the theory that compares.
\<close>

datatype float64 =
    FInt int
  | FSeconds duration
  | FAdd float64 float64
  | FDiv float64 float64

subsection \<open>Lists\<close>

lemma filter_False_conv: "(\<And>x. x \<in> set xs \<Longrightarrow> \<not> P x) \<Longrightarrow> filter P xs = []"
  by (simp add: filter_empty_conv)

lemma sum_list_filter_split:
  "sum_list (map f xs) = sum_list (map f (filter P xs)) + sum_list (map f (filter (\<lambda>x. \<not> P x) xs))"
  for f :: "'a \<Rightarrow> int"
  by (induction xs) auto

lemma length_filter_split:
  "length xs = length (filter P xs) + length (filter (\<lambda>x. \<not> P x) xs)"
  by (induction xs) auto

lemma foldl_invariant:
  assumes "I s" and "\<And>s x. I s \<Longrightarrow> x \<in> set xs \<Longrightarrow> I (f s x)"
  shows "I (foldl f s xs)"
  using assms by (induction xs arbitrary: s) auto

text \<open>The numbers of consecutive lines after line \<open>n\<close>.\<close>

lemma upto_line: "(n + 1) # [n + 1 + 1..n + 1 + int k] = [n + 1..n + int (Suc k)]"
  by (simp add: upto_rec1 [of "n + 1"] add.assoc)

subsection \<open>Association lists as Go maps\<close>

lemma map_of_AList_update: "map_of (AList.update k v al) = (map_of al)(k \<mapsto> v)"
  by (rule update_conv')

lemma map_of_AList_update_apply:
  "map_of (AList.update k v al) k' = (if k' = k then Some v else map_of al k')"
  by (simp add: map_of_AList_update)

lemma distinct_AList_update [simp]:
  "distinct (map fst al) \<Longrightarrow> distinct (map fst (AList.update k v al))"
  by (rule distinct_update)

lemma fst_set_AList_update: "fst ` set (AList.update k v al) = insert k (fst ` set al)"
  by (simp add: dom_update)

lemma map_of_SomeD_set: "map_of al k = Some v \<Longrightarrow> (k, v) \<in> set al"
  by (rule map_of_SomeD)

end
