(* ===== verification/Go_Lib.thy ===== *)
theory Go_Lib
  imports Prelude
begin

section \<open>The parts of Go's standard library the program uses\<close>

text \<open>
  \<^verbatim>\<open>strings\<close>, \<^verbatim>\<open>strconv\<close>, \<^verbatim>\<open>path/filepath\<close> and \<^verbatim>\<open>bufio.Scanner\<close>, as far as the program calls
  them. Case mapping and trimming are modelled on ASCII: a byte from 128 upwards is neither a
  letter nor a space here, and every string the program compares against is ASCII.
\<close>

subsection \<open>strings\<close>

definition is_space :: "char \<Rightarrow> bool" where
  "is_space c \<longleftrightarrow> c \<in> {CHR 0x09, CHR 0x0A, CHR 0x0B, CHR 0x0C, CHR 0x0D, CHR '' ''}"

definition TrimSpace :: "string \<Rightarrow> string" where
  "TrimSpace s = rev (dropWhile is_space (rev (dropWhile is_space s)))"

definition upper_char :: "char \<Rightarrow> char" where
  "upper_char c = (let n = of_char c :: nat in if 97 \<le> n \<and> n \<le> 122 then char_of (n - 32) else c)"

definition lower_char :: "char \<Rightarrow> char" where
  "lower_char c = (let n = of_char c :: nat in if 65 \<le> n \<and> n \<le> 90 then char_of (n + 32) else c)"

definition ToUpper :: "string \<Rightarrow> string" where
  "ToUpper s = map upper_char s"

definition ToLower :: "string \<Rightarrow> string" where
  "ToLower s = map lower_char s"

subsection \<open>strconv\<close>

datatype num_error = ErrSyntax | ErrRange

definition is_digit :: "char \<Rightarrow> bool" where
  "is_digit c \<longleftrightarrow> 48 \<le> (of_char c :: nat) \<and> (of_char c :: nat) \<le> 57"

definition digit_val :: "char \<Rightarrow> int" where
  "digit_val c = int (of_char c - 48)"

text \<open>The loop of \<^verbatim>\<open>ParseUint\<close> in base 10: a bad byte or an overflow stops it where it occurs.\<close>

fun parse_digits :: "int \<Rightarrow> string \<Rightarrow> num_error + int" where
  "parse_digits n [] = Inr n"
| "parse_digits n (c # cs) =
     (if \<not> is_digit c then Inl ErrSyntax
      else let n' = 10 * n + digit_val c in
        if n' > 2 ^ 64 - 1 then Inl ErrRange else parse_digits n' cs)"

definition ParseUint :: "string \<Rightarrow> num_error + int" where
  "ParseUint s = (if s = [] then Inl ErrSyntax else parse_digits 0 s)"

definition ParseInt :: "string \<Rightarrow> num_error + int" where
  "ParseInt s =
     (case s of
        [] \<Rightarrow> Inl ErrSyntax
      | c # cs \<Rightarrow>
          (let neg = (c = CHR ''-'');
               body = (if c = CHR ''+'' \<or> c = CHR ''-'' then cs else s)
           in case ParseUint body of
                Inl e \<Rightarrow> Inl e
              | Inr un \<Rightarrow>
                  if \<not> neg \<and> un \<ge> 2 ^ 63 then Inl ErrRange
                  else if neg \<and> un > 2 ^ 63 then Inl ErrRange
                  else Inr (if neg then - un else un)))"

fun format_nat :: "nat \<Rightarrow> string" where
  "format_nat n = (if n < 10 then [char_of (48 + n)]
                   else format_nat (n div 10) @ [char_of (48 + n mod 10)])"

declare format_nat.simps [simp del]

definition FormatInt :: "int \<Rightarrow> string" where
  "FormatInt x = (if x < 0 then CHR ''-'' # format_nat (nat (- x)) else format_nat (nat x))"

definition ParseBool :: "string \<Rightarrow> num_error + bool" where
  "ParseBool s =
     (if s \<in> {''1'', ''t'', ''T'', ''TRUE'', ''true'', ''True''} then Inr True
      else if s \<in> {''0'', ''f'', ''F'', ''FALSE'', ''false'', ''False''} then Inr False
      else Inl ErrSyntax)"

subsection \<open>path/filepath\<close>

text \<open>
  \<^verbatim>\<open>Ext\<close> walks back from the end until a slash, and returns what follows from the last dot.
\<close>

fun ext_rev :: "string \<Rightarrow> string \<Rightarrow> string" where
  "ext_rev [] acc = ''''"
| "ext_rev (c # cs) acc =
     (if c = CHR ''/'' then ''''
      else if c = CHR ''.'' then c # acc
      else ext_rev cs (c # acc))"

definition Ext :: "string \<Rightarrow> string" where
  "Ext path = ext_rev (rev path) ''''"

subsection \<open>bufio.Scanner\<close>

text \<open>
  One call of \<^verbatim>\<open>Scan\<close> with \<^verbatim>\<open>ScanLines\<close>: the next line without its newline and without one
  trailing carriage return, and the input behind it. The line must fit the buffer.
\<close>

datatype scan_result = ScanEOF | ScanTooLong | ScanLine bytes bytes

definition drop_cr :: "string \<Rightarrow> string" where
  "drop_cr s = (if s \<noteq> [] \<and> last s = CHR 0x0D then butlast s else s)"

definition scan_line :: "int \<Rightarrow> bytes \<Rightarrow> scan_result" where
  "scan_line max_token input =
     (if input = [] then ScanEOF
      else let l = takeWhile (\<lambda>c. c \<noteq> CHR 0x0A) input in
        if max_token \<le> int (length l) then ScanTooLong
        else ScanLine (drop_cr l) (drop (length l + 1) input))"

subsection \<open>Facts\<close>

lemma TrimSpace_Nil [simp]: "TrimSpace [] = []"
  by (simp add: TrimSpace_def)

lemma hd_dropWhile_not: "dropWhile P xs \<noteq> [] \<Longrightarrow> \<not> P (hd (dropWhile P xs))"
  by (rule hd_dropWhile)

lemma TrimSpace_id:
  assumes "s \<noteq> []" "\<not> is_space (hd s)" "\<not> is_space (last s)"
  shows "TrimSpace s = s"
proof -
  have "dropWhile is_space s = s"
    using assms by (cases s) auto
  moreover have "dropWhile is_space (rev s) = rev s"
    using assms by (metis dropWhile_eq_self_iff hd_rev)
  ultimately show ?thesis by (simp add: TrimSpace_def)
qed

lemma TrimSpace_ends:
  assumes "TrimSpace s \<noteq> []"
  shows "\<not> is_space (hd (TrimSpace s)) \<and> \<not> is_space (last (TrimSpace s))"
proof -
  let ?d = "dropWhile is_space s"
  let ?t = "dropWhile is_space (rev ?d)"
  have t: "?t \<noteq> []" using assms by (simp add: TrimSpace_def)
  then have l: "\<not> is_space (last (rev ?t))" by (simp add: last_rev hd_dropWhile)
  from t have d: "?d \<noteq> []" by (cases "?d = []") simp_all
  have "hd (rev ?t) = hd ?d"
  proof -
    have "rev ?d = takeWhile is_space (rev ?d) @ ?t" by simp
    then have "?d = rev ?t @ rev (takeWhile is_space (rev ?d))"
      by (metis rev_append rev_rev_ident)
    with t show ?thesis by (metis hd_append2 rev_is_Nil_conv)
  qed
  with d l show ?thesis by (simp add: TrimSpace_def hd_dropWhile)
qed

lemma TrimSpace_idem [simp]: "TrimSpace (TrimSpace s) = TrimSpace s"
  by (cases "TrimSpace s = []") (auto intro: TrimSpace_id dest: TrimSpace_ends)

lemma upper_char_idem [simp]: "upper_char (upper_char c) = upper_char c"
proof -
  have "of_char c < (256::nat)" by simp
  then show ?thesis
    by (auto simp: upper_char_def Let_def)
qed

lemma ToUpper_idem [simp]: "ToUpper (ToUpper s) = ToUpper s"
  by (simp add: ToUpper_def)

lemma ToUpper_empty [simp]: "ToUpper s = [] \<longleftrightarrow> s = []"
  by (simp add: ToUpper_def)

lemma is_digit_char_of: "n < 10 \<Longrightarrow> is_digit (char_of (48 + n))" for n :: nat
  by (simp add: is_digit_def)

lemma digit_val_char_of: "n < 10 \<Longrightarrow> digit_val (char_of (48 + n)) = int n" for n :: nat
  by (simp add: digit_val_def)

lemma parse_digits_append:
  "parse_digits n (xs @ ys) = (case parse_digits n xs of Inl e \<Rightarrow> Inl e | Inr m \<Rightarrow> parse_digits m ys)"
  by (induction n xs rule: parse_digits.induct) (auto simp: Let_def)

lemma parse_digits_format_nat: "int n < 2 ^ 64 \<Longrightarrow> parse_digits 0 (format_nat n) = Inr (int n)"
proof (induction n rule: format_nat.induct)
  case (1 n)
  show ?case
  proof (cases "n < 10")
    case True
    then show ?thesis
      by (simp add: format_nat.simps [of n] is_digit_char_of digit_val_char_of)
  next
    case False
    have m: "n mod 10 < 10" by simp
    have "int (n div 10) < 2 ^ 64" using "1.prems" by simp
    then have "parse_digits 0 (format_nat (n div 10)) = Inr (int (n div 10))"
      using "1.IH" False by simp
    moreover have "10 * int (n div 10) + int (n mod 10) = int n"
      by presburger
    ultimately show ?thesis
      using False "1.prems" is_digit_char_of [OF m] digit_val_char_of [OF m]
      by (simp add: format_nat.simps [of n] parse_digits_append)
  qed
qed

lemma format_nat_head: "\<exists>c cs. format_nat n = c # cs \<and> is_digit c"
proof (induction n rule: format_nat.induct)
  case (1 n)
  show ?case
  proof (cases "n < 10")
    case True
    then show ?thesis by (simp add: format_nat.simps [of n] is_digit_char_of)
  next
    case False
    with "1.IH" show ?thesis by (auto simp: format_nat.simps [of n])
  qed
qed

lemma parse_digits_bound:
  "parse_digits n s = Inr m \<Longrightarrow> 0 \<le> n \<Longrightarrow> n \<le> m"
proof (induction n s rule: parse_digits.induct)
  case (2 n c cs)
  then show ?case
    by (fastforce simp: Let_def digit_val_def split: if_splits)
qed simp

lemma ParseInt_int64: "ParseInt s = Inr v \<Longrightarrow> int64 v"
proof (cases s)
  case (Cons c cs)
  assume "ParseInt s = Inr v"
  then show "int64 v"
    using Cons
    by (auto simp: ParseInt_def ParseUint_def int64_def Let_def simp del: parse_digits.simps
        split: sum.splits if_splits dest!: parse_digits_bound)
qed (simp add: ParseInt_def)

lemma ParseInt_FormatInt:
  assumes "int64 x"
  shows "ParseInt (FormatInt x) = Inr x"
proof -
  obtain c cs where f: "format_nat (nat \<bar>x\<bar>) = c # cs" and c: "is_digit c"
    using format_nat_head by blast
  have ns: "c \<noteq> CHR ''-''" "c \<noteq> CHR ''+''"
    using c by (auto simp: is_digit_def)
  have "parse_digits 0 (c # cs) = Inr \<bar>x\<bar>"
    using assms parse_digits_format_nat [of "nat \<bar>x\<bar>"] f
    by (auto simp: int64_def simp del: parse_digits.simps)
  then show ?thesis
    using assms f ns
    by (auto simp: FormatInt_def ParseInt_def ParseUint_def int64_def simp del: parse_digits.simps)
qed

lemma scan_line_length: "scan_line m input = ScanLine l rest \<Longrightarrow> length rest < length input"
  by (auto simp: scan_line_def Let_def split: if_splits)

end
