(* ===== verification/Go_Json.thy ===== *)
theory Go_Json
  imports Go_Lib
begin

section \<open>encoding/json: the text syntax and its values\<close>

text \<open>
  The reader is a lexer followed by a push-down automaton over the tokens, as Go's scanner is: one
  state per position of the grammar and a stack of open arrays and objects, with Go's limit
  of 10000 on the nesting. A number stays a literal, since its meaning depends on the Go type
  it is stored in. The writer is \<^verbatim>\<open>json.Marshal\<close>'s compact form with its string escapes.
  Bytes from 128 upwards pass through a string unchanged (the text is assumed to be valid UTF-8).
\<close>

datatype jv =
    JNull
  | JBool bool
  | JNum string
  | JStr string
  | JArr "jv list"
  | JObj "(string \<times> jv) list"

subsection \<open>Strings and escapes\<close>

definition hex_val :: "char \<Rightarrow> nat option" where
  "hex_val c = (let n = of_char c :: nat in
     if 48 \<le> n \<and> n \<le> 57 then Some (n - 48)
     else if 97 \<le> n \<and> n \<le> 102 then Some (n - 87)
     else if 65 \<le> n \<and> n \<le> 70 then Some (n - 55)
     else None)"

fun hex4 :: "string \<Rightarrow> (nat \<times> string) option" where
  "hex4 (a # b # c # d # rest) =
     (case (hex_val a, hex_val b, hex_val c, hex_val d) of
        (Some w, Some x, Some y, Some z) \<Rightarrow> Some (4096 * w + 256 * x + 16 * y + z, rest)
      | _ \<Rightarrow> None)"
| "hex4 _ = None"

definition utf8 :: "nat \<Rightarrow> string" where
  "utf8 r =
     (if r < 128 then [char_of r]
      else if r < 2048 then [char_of (192 + r div 64), char_of (128 + r mod 64)]
      else if r < 65536 then
        [char_of (224 + r div 4096), char_of (128 + (r div 64) mod 64), char_of (128 + r mod 64)]
      else
        [char_of (240 + r div 262144), char_of (128 + (r div 4096) mod 64),
         char_of (128 + (r div 64) mod 64), char_of (128 + r mod 64)])"

text \<open>A \<^verbatim>\<open>\uXXXX\<close> escape: a surrogate pair is one rune, a lone surrogate the replacement rune.\<close>

definition unescape_u :: "string \<Rightarrow> (string \<times> string) option" where
  "unescape_u s =
     (case hex4 s of
        None \<Rightarrow> None
      | Some (r, rest) \<Rightarrow>
          if 55296 \<le> r \<and> r < 57344 then
            (case rest of
               b # u # s2 \<Rightarrow>
                 if b = CHR 0x5C \<and> u = CHR ''u'' then
                   (case hex4 s2 of
                      Some (r2, rest2) \<Rightarrow>
                        if r < 56320 \<and> 56320 \<le> r2 \<and> r2 < 57344
                        then Some (utf8 (65536 + 1024 * (r - 55296) + (r2 - 56320)), rest2)
                        else Some (utf8 65533, rest)
                    | None \<Rightarrow> Some (utf8 65533, rest))
                 else Some (utf8 65533, rest)
             | _ \<Rightarrow> Some (utf8 65533, rest))
          else Some (utf8 r, rest))"

definition unescape_simple :: "char \<Rightarrow> char option" where
  "unescape_simple c =
     (if c = CHR 0x22 \<or> c = CHR 0x5C \<or> c = CHR ''/'' then Some c
      else if c = CHR ''b'' then Some (CHR 0x08)
      else if c = CHR ''f'' then Some (CHR 0x0C)
      else if c = CHR ''n'' then Some (CHR 0x0A)
      else if c = CHR ''r'' then Some (CHR 0x0D)
      else if c = CHR ''t'' then Some (CHR 0x09)
      else None)"

lemma hex4_length: "hex4 s = Some (r, rest) \<Longrightarrow> length rest < length s"
  by (induction s rule: hex4.induct) (auto split: option.splits)

lemma unescape_u_length: "unescape_u s = Some (t, rest) \<Longrightarrow> length rest < length s"
  by (fastforce simp: unescape_u_def split: option.splits if_splits list.splits dest: hex4_length)

text \<open>The body of a string up to its closing quote: the decoded bytes and the rest of the input.\<close>

function lex_str :: "string \<Rightarrow> (string \<times> string) option" where
  "lex_str [] = None"
| "lex_str (c # cs) =
     (if c = CHR 0x22 then Some ([], cs)
      else if of_char c < (32::nat) then None
      else if c = CHR 0x5C then
        (case cs of
           [] \<Rightarrow> None
         | e # es \<Rightarrow>
             if e = CHR ''u'' then
               (case unescape_u es of
                  None \<Rightarrow> None
                | Some (t, rest) \<Rightarrow> map_option (\<lambda>(s, r). (t @ s, r)) (lex_str rest))
             else
               (case unescape_simple e of
                  None \<Rightarrow> None
                | Some d \<Rightarrow> map_option (\<lambda>(s, r). (d # s, r)) (lex_str es)))
      else map_option (\<lambda>(s, r). (c # s, r)) (lex_str cs))"
  by pat_completeness auto
termination
  by (relation "measure length") (auto dest: unescape_u_length)

lemma lex_str_length: "lex_str s = Some (t, rest) \<Longrightarrow> length rest < length s"
proof (induction s arbitrary: t rest rule: lex_str.induct)
  case (2 c cs)
  then show ?case
    by (fastforce split: if_splits list.splits option.splits dest: unescape_u_length)
qed simp

subsection \<open>Tokens\<close>

datatype token =
    TLBrace | TRBrace | TLBrack | TRBrack | TColon | TComma
  | TNull | TBool bool | TNum string | TStr string

definition number_char :: "char \<Rightarrow> bool" where
  "number_char c \<longleftrightarrow> is_digit c \<or> c \<in> set ''+-.eE''"

definition exp_ok :: "string \<Rightarrow> bool" where
  "exp_ok s =
     (case s of
        [] \<Rightarrow> True
      | c # cs \<Rightarrow> (c = CHR ''e'' \<or> c = CHR ''E'') \<and>
          (let ds = (case cs of
                       d # ds \<Rightarrow> if d = CHR ''+'' \<or> d = CHR ''-'' then ds else cs
                     | [] \<Rightarrow> [])
           in ds \<noteq> [] \<and> list_all is_digit ds))"

definition frac_exp_ok :: "string \<Rightarrow> bool" where
  "frac_exp_ok s =
     (case s of
        c # cs \<Rightarrow>
          if c = CHR ''.'' then takeWhile is_digit cs \<noteq> [] \<and> exp_ok (dropWhile is_digit cs)
          else exp_ok s
      | [] \<Rightarrow> True)"

definition number_ok :: "string \<Rightarrow> bool" where
  "number_ok s =
     (let body = (case s of c # cs \<Rightarrow> if c = CHR ''-'' then cs else s | [] \<Rightarrow> []);
          ds = takeWhile is_digit body
      in ds \<noteq> [] \<and> (hd ds = CHR ''0'' \<longrightarrow> length ds = 1) \<and> frac_exp_ok (dropWhile is_digit body))"

definition json_space :: "char \<Rightarrow> bool" where
  "json_space c \<longleftrightarrow> c \<in> {CHR '' '', CHR 0x09, CHR 0x0A, CHR 0x0D}"

definition punctuation :: "char \<Rightarrow> token option" where
  "punctuation c =
     (if c = CHR ''{'' then Some TLBrace else if c = CHR ''}'' then Some TRBrace
      else if c = CHR ''['' then Some TLBrack else if c = CHR '']'' then Some TRBrack
      else if c = CHR '':'' then Some TColon else if c = CHR '','' then Some TComma
      else None)"

text \<open>One token at the head of a non-empty input that does not start with a space.\<close>

definition lex_token :: "char \<Rightarrow> string \<Rightarrow> (token \<times> string) option" where
  "lex_token c cs =
     (case punctuation c of
        Some t \<Rightarrow> Some (t, cs)
      | None \<Rightarrow>
          if c = CHR 0x22 then map_option (\<lambda>(s, rest). (TStr s, rest)) (lex_str cs)
          else if take 4 (c # cs) = ''null'' then Some (TNull, drop 3 cs)
          else if take 4 (c # cs) = ''true'' then Some (TBool True, drop 3 cs)
          else if take 5 (c # cs) = ''false'' then Some (TBool False, drop 4 cs)
          else if number_char c then
            (let lit = takeWhile number_char (c # cs) in
             if number_ok lit then Some (TNum lit, dropWhile number_char (c # cs)) else None)
          else None)"

lemma lex_token_length: "lex_token c cs = Some (t, rest) \<Longrightarrow> length rest \<le> length cs"
  by (auto simp: lex_token_def Let_def length_dropWhile_le
      split: option.splits if_splits dest: lex_str_length)

function lex :: "string \<Rightarrow> token list option" where
  "lex [] = Some []"
| "lex (c # cs) =
     (if json_space c then lex cs
      else case lex_token c cs of
             None \<Rightarrow> None
           | Some (t, rest) \<Rightarrow> map_option ((#) t) (lex rest))"
  by pat_completeness auto
termination
  by (relation "measure length") (auto dest: lex_token_length)

subsection \<open>The push-down automaton\<close>

datatype frame = FArr "jv list" | FObj "(string \<times> jv) list" string

datatype pstate =
    PValue "frame list"
  | PArrFirst "frame list"
  | PObjFirst "frame list"
  | PObjKey "(string \<times> jv) list" "frame list"
  | PColon "(string \<times> jv) list" string "frame list"
  | PAfter jv "frame list"

definition max_nesting :: nat where
  "max_nesting = 10000"

fun begin_value :: "frame list \<Rightarrow> token \<Rightarrow> pstate option" where
  "begin_value stk TNull = Some (PAfter JNull stk)"
| "begin_value stk (TBool b) = Some (PAfter (JBool b) stk)"
| "begin_value stk (TNum l) = Some (PAfter (JNum l) stk)"
| "begin_value stk (TStr s) = Some (PAfter (JStr s) stk)"
| "begin_value stk TLBrack = (if length stk < max_nesting then Some (PArrFirst stk) else None)"
| "begin_value stk TLBrace = (if length stk < max_nesting then Some (PObjFirst stk) else None)"
| "begin_value stk _ = None"

fun after_value :: "jv \<Rightarrow> frame list \<Rightarrow> token \<Rightarrow> pstate option" where
  "after_value v (FArr vs # stk) TComma = Some (PValue (FArr (vs @ [v]) # stk))"
| "after_value v (FArr vs # stk) TRBrack = Some (PAfter (JArr (vs @ [v])) stk)"
| "after_value v (FObj ms k # stk) TComma = Some (PObjKey (ms @ [(k, v)]) stk)"
| "after_value v (FObj ms k # stk) TRBrace = Some (PAfter (JObj (ms @ [(k, v)])) stk)"
| "after_value v _ _ = None"

fun jstep :: "pstate \<Rightarrow> token \<Rightarrow> pstate option" where
  "jstep (PValue stk) t = begin_value stk t"
| "jstep (PArrFirst stk) t =
     (if t = TRBrack then Some (PAfter (JArr []) stk) else begin_value (FArr [] # stk) t)"
| "jstep (PObjFirst stk) t =
     (case t of TRBrace \<Rightarrow> Some (PAfter (JObj []) stk) | TStr k \<Rightarrow> Some (PColon [] k stk) | _ \<Rightarrow> None)"
| "jstep (PObjKey ms stk) t = (case t of TStr k \<Rightarrow> Some (PColon ms k stk) | _ \<Rightarrow> None)"
| "jstep (PColon ms k stk) t = (if t = TColon then Some (PValue (FObj ms k # stk)) else None)"
| "jstep (PAfter v stk) t = after_value v stk t"

fun jrun :: "pstate \<Rightarrow> token list \<Rightarrow> pstate option" where
  "jrun s [] = Some s"
| "jrun s (t # ts) = (case jstep s t of None \<Rightarrow> None | Some s' \<Rightarrow> jrun s' ts)"

definition json_parse :: "bytes \<Rightarrow> jv option" where
  "json_parse text =
     (case lex text of
        None \<Rightarrow> None
      | Some ts \<Rightarrow> (case jrun (PValue []) ts of Some (PAfter v []) \<Rightarrow> Some v | _ \<Rightarrow> None))"

subsection \<open>json.Marshal: the text of a value\<close>

definition hex_digit :: "nat \<Rightarrow> char" where
  "hex_digit n = (if n < 10 then char_of (48 + n) else char_of (87 + n))"

definition escape_char :: "char \<Rightarrow> string" where
  "escape_char c =
     (if c = CHR 0x22 \<or> c = CHR 0x5C then [CHR 0x5C, c]
      else if c = CHR 0x08 then [CHR 0x5C, CHR ''b'']
      else if c = CHR 0x0C then [CHR 0x5C, CHR ''f'']
      else if c = CHR 0x0A then [CHR 0x5C, CHR ''n'']
      else if c = CHR 0x0D then [CHR 0x5C, CHR ''r'']
      else if c = CHR 0x09 then [CHR 0x5C, CHR ''t'']
      else if of_char c < (32::nat) \<or> c \<in> {CHR ''<'', CHR ''>'', CHR ''&''} then
        [CHR 0x5C, CHR ''u'', CHR ''0'', CHR ''0'',
         hex_digit (of_char c div 16), hex_digit (of_char c mod 16)]
      else [c])"

definition quote :: "string \<Rightarrow> string" where
  "quote s = CHR 0x22 # concat (map escape_char s) @ [CHR 0x22]"

fun tok_text :: "token \<Rightarrow> string" where
  "tok_text TLBrace = ''{''"
| "tok_text TRBrace = ''}''"
| "tok_text TLBrack = ''[''"
| "tok_text TRBrack = '']''"
| "tok_text TColon = '':''"
| "tok_text TComma = '',''"
| "tok_text TNull = ''null''"
| "tok_text (TBool b) = (if b then ''true'' else ''false'')"
| "tok_text (TNum l) = l"
| "tok_text (TStr s) = quote s"

fun join_comma :: "token list list \<Rightarrow> token list" where
  "join_comma [] = []"
| "join_comma [ts] = ts"
| "join_comma (ts # tss) = ts @ TComma # join_comma tss"

fun tokens_of :: "jv \<Rightarrow> token list" where
  "tokens_of JNull = [TNull]"
| "tokens_of (JBool b) = [TBool b]"
| "tokens_of (JNum l) = [TNum l]"
| "tokens_of (JStr s) = [TStr s]"
| "tokens_of (JArr vs) = TLBrack # join_comma (map tokens_of vs) @ [TRBrack]"
| "tokens_of (JObj ms) =
     TLBrace # join_comma (map (\<lambda>(k, v). TStr k # TColon # tokens_of v) ms) @ [TRBrace]"

definition json_print :: "jv \<Rightarrow> bytes" where
  "json_print v = concat (map tok_text (tokens_of v))"

text \<open>
  The values whose text is read back: every number literal is one, and the nesting stays
  within the reader's limit.
\<close>

definition literal_ok :: "string \<Rightarrow> bool" where
  "literal_ok l \<longleftrightarrow> number_ok l \<and> list_all number_char l"

fun jv_ok :: "nat \<Rightarrow> jv \<Rightarrow> bool" where
  "jv_ok n (JNum l) = literal_ok l"
| "jv_ok n (JArr vs) = (case n of 0 \<Rightarrow> False | Suc m \<Rightarrow> list_all (jv_ok m) vs)"
| "jv_ok n (JObj ms) = (case n of 0 \<Rightarrow> False | Suc m \<Rightarrow> list_all (\<lambda>(k, v). jv_ok m v) ms)"
| "jv_ok n _ = True"

subsection \<open>Reading back what was written\<close>

lemma hex_val_hex_digit: "n < 16 \<Longrightarrow> hex_val (hex_digit n) = Some n"
  by (simp add: hex_digit_def hex_val_def Let_def)

lemma unescape_u_small:
  assumes "n < 128"
  shows "unescape_u (CHR ''0'' # CHR ''0'' # hex_digit (n div 16) # hex_digit (n mod 16) # rest)
    = Some ([char_of n], rest)"
proof -
  have "n div 16 < 16" "n mod 16 < 16" using assms by simp_all
  moreover have "hex_val (CHR ''0'') = Some 0" by (simp add: hex_val_def)
  moreover have "16 * (n div 16) + n mod 16 = n" by simp
  ultimately show ?thesis
    using assms by (simp add: unescape_u_def hex_val_hex_digit utf8_def)
qed

lemma lex_str_escape_char: "lex_str (escape_char c @ rest) = map_option (\<lambda>(s, r). (c # s, r)) (lex_str rest)"
proof -
  have "of_char c < (32::nat) \<Longrightarrow> of_char c < (128::nat)" by simp
  moreover have "char_of (60::nat) = CHR ''<''" "char_of (62::nat) = CHR ''>''"
    "char_of (38::nat) = CHR ''&''" by code_simp+
  ultimately show ?thesis
    using unescape_u_small [of 60 rest] unescape_u_small [of 62 rest] unescape_u_small [of 38 rest]
    by (auto simp: escape_char_def unescape_simple_def unescape_u_small
        simp del: of_char_eq_iff)
qed

lemma lex_str_escape: "lex_str (concat (map escape_char s) @ CHR 0x22 # rest) = Some (s, rest)"
  by (induction s) (simp_all add: lex_str_escape_char)

definition scalar :: "token \<Rightarrow> bool" where
  "scalar t \<longleftrightarrow> t \<notin> {TLBrace, TRBrace, TLBrack, TRBrack, TColon, TComma}"

fun tok_ok :: "token \<Rightarrow> bool" where
  "tok_ok (TNum l) = literal_ok l"
| "tok_ok _ = True"

fun sep_ok :: "token list \<Rightarrow> bool" where
  "sep_ok (t # t' # ts) = ((scalar t \<longrightarrow> \<not> scalar t') \<and> sep_ok (t' # ts))"
| "sep_ok _ = True"

lemma number_ok_head:
  "literal_ok l \<Longrightarrow> \<exists>c cs. l = c # cs \<and> number_char c \<and> (is_digit c \<or> c = CHR ''-'')"
  by (cases l) (auto simp: literal_ok_def number_ok_def Let_def split: if_splits)

lemma takeWhile_stop:
  "list_all P l \<Longrightarrow> rest = [] \<or> \<not> P (hd rest) \<Longrightarrow>
    takeWhile P (l @ rest) = l \<and> dropWhile P (l @ rest) = rest"
  by (induction l) (cases rest; auto)+

lemma lex_num:
  assumes "literal_ok l" and "rest = [] \<or> \<not> number_char (hd rest)"
  shows "lex (l @ rest) = map_option ((#) (TNum l)) (lex rest)"
proof -
  obtain c cs where l: "l = c # cs" and c: "number_char c" "is_digit c \<or> c = CHR ''-''"
    using number_ok_head [OF assms(1)] by blast
  have t: "takeWhile number_char (l @ rest) = l" "dropWhile number_char (l @ rest) = rest"
    using assms takeWhile_stop [of number_char l rest] by (auto simp: literal_ok_def)
  have "\<not> json_space c" "punctuation c = None" "c \<noteq> CHR 0x22" "c \<noteq> CHR ''n''" "c \<noteq> CHR ''t''"
    "c \<noteq> CHR ''f''"
    using c by (auto simp: json_space_def punctuation_def is_digit_def)
  moreover have "lex_token c (cs @ rest) = Some (TNum l, rest)"
    using calculation c t assms(1) unfolding l
    by (simp add: lex_token_def literal_ok_def)
  ultimately show ?thesis by (simp add: l)
qed

lemma lex_tok:
  assumes "tok_ok t" and "scalar t \<Longrightarrow> rest = [] \<or> \<not> number_char (hd rest)"
  shows "lex (tok_text t @ rest) = map_option ((#) t) (lex rest)"
proof (cases t)
  case (TNum l)
  then show ?thesis using assms lex_num [of l rest] by (simp add: scalar_def)
next
  case (TStr s)
  then show ?thesis
    by (simp add: quote_def json_space_def lex_token_def punctuation_def lex_str_escape)
qed (simp_all add: json_space_def lex_token_def punctuation_def)

lemma tok_text_head: "\<not> scalar t \<Longrightarrow> \<exists>c. tok_text t = [c] \<and> \<not> number_char c"
  by (auto simp: scalar_def number_char_def is_digit_def)

lemma lex_tokens_space:
  "list_all tok_ok ts \<Longrightarrow> sep_ok ts \<Longrightarrow> list_all json_space ws \<Longrightarrow> lex (concat (map tok_text ts) @ ws) = Some ts"
proof (induction ts rule: induct_list012)
  case 1
  then show ?case by (induction ws) simp_all
next
  case (2 t)
  have "ws = [] \<or> \<not> number_char (hd ws)" using 2 by (cases ws) (auto simp: json_space_def number_char_def is_digit_def)
  moreover have "lex ws = Some []" using "2.prems"(3) by (induction ws) simp_all
  ultimately show ?case using 2 lex_tok [of t ws] by simp
next
  case (3 t t' ts)
  have "scalar t \<Longrightarrow> \<not> number_char (hd (concat (map tok_text (t' # ts)) @ ws))"
    using 3 tok_text_head [of t'] by auto
  then show ?case using 3 lex_tok [of t "concat (map tok_text (t' # ts)) @ ws"] by simp
qed

lemma sep_ok_append_punct:
  "sep_ok xs \<Longrightarrow> sep_ok (t # ys) \<Longrightarrow> \<not> scalar t \<Longrightarrow> sep_ok (xs @ t # ys)"
  by (induction xs rule: sep_ok.induct) auto

lemma sep_ok_punct_Cons: "\<not> scalar t \<Longrightarrow> sep_ok ts \<Longrightarrow> sep_ok (t # ts)"
  by (cases ts) auto

lemma punct [simp]:
  "\<not> scalar TLBrace" "\<not> scalar TRBrace" "\<not> scalar TLBrack" "\<not> scalar TRBrack"
  "\<not> scalar TColon" "\<not> scalar TComma"
  by (simp_all add: scalar_def)

lemma sep_ok_join:
  "list_all sep_ok tss \<Longrightarrow> sep_ok (join_comma tss)"
proof (induction tss rule: join_comma.induct)
  case (3 ts u us)
  then show ?case by (simp add: sep_ok_append_punct sep_ok_punct_Cons)
qed simp_all

lemma sep_ok_tokens: "sep_ok (tokens_of v)"
proof (induction v)
  case (JArr vs)
  then have "list_all sep_ok (map tokens_of vs)" by (simp add: list_all_iff)
  then show ?case by (simp add: sep_ok_punct_Cons sep_ok_append_punct sep_ok_join)
next
  case (JObj ms)
  have "sep_ok (TStr k # TColon # tokens_of v)" if "(k, v) \<in> set ms" for k v
    using JObj that by (fastforce intro: sep_ok_punct_Cons)
  then have "list_all sep_ok (map (\<lambda>(k, v). TStr k # TColon # tokens_of v) ms)"
    by (auto simp: list_all_iff)
  then show ?case by (simp add: sep_ok_punct_Cons sep_ok_append_punct sep_ok_join)
qed simp_all

lemma tok_ok_join: "list_all (list_all tok_ok) tss \<Longrightarrow> list_all tok_ok (join_comma tss)"
  by (induction tss rule: join_comma.induct) auto

lemma tok_ok_tokens: "jv_ok n v \<Longrightarrow> list_all tok_ok (tokens_of v)"
proof (induction v arbitrary: n)
  case (JArr vs)
  then obtain m where "list_all (jv_ok m) vs" by (cases n) auto
  then have "\<forall>v \<in> set vs. list_all tok_ok (tokens_of v)"
    using JArr.IH by (auto simp: list_all_iff [of "jv_ok m"])
  then have "list_all (list_all tok_ok) (map tokens_of vs)"
    by (induction vs) simp_all
  then show ?case by (simp add: tok_ok_join)
next
  case (JObj ms)
  then obtain m where "list_all (\<lambda>(k, v). jv_ok m v) ms" by (cases n) auto
  then have "\<forall>(k, v) \<in> set ms. list_all tok_ok (tokens_of v)"
    using JObj.IH by (fastforce simp: list_all_iff [of "\<lambda>(k, v). jv_ok m v"])
  then have "list_all (list_all tok_ok) (map (\<lambda>(k, v). TStr k # TColon # tokens_of v) ms)"
    by (induction ms) auto
  then show ?case by (simp add: tok_ok_join)
qed simp_all

lemma tokens_of_head: "\<exists>t ts. tokens_of v = t # ts \<and> t \<noteq> TRBrack"
  by (cases v) simp_all

text \<open>Reading the tokens of a value leaves the automaton just after that value.\<close>

lemma jrun_elements:
  assumes "\<And>v stk' ts. v \<in> set (v0 # vs) \<Longrightarrow> length stk' = Suc (length stk) \<Longrightarrow>
      jrun (PValue stk') (tokens_of v @ ts) = jrun (PAfter v stk') ts"
  shows "jrun (PValue (FArr us # stk)) (join_comma (map tokens_of (v0 # vs)) @ TRBrack # ts)
    = jrun (PAfter (JArr (us @ v0 # vs)) stk) ts"
  using assms
proof (induction vs arbitrary: v0 us)
  case (Cons v1 vs)
  have "jrun (PValue (FArr us # stk)) (join_comma (map tokens_of (v0 # v1 # vs)) @ TRBrack # ts)
    = jrun (PValue (FArr (us @ [v0]) # stk)) (join_comma (map tokens_of (v1 # vs)) @ TRBrack # ts)"
    using Cons.prems by simp
  also have "\<dots> = jrun (PAfter (JArr ((us @ [v0]) @ v1 # vs)) stk) ts"
    using Cons.prems by (intro Cons.IH) simp
  finally show ?case by simp
qed simp

lemma jrun_members:
  assumes "\<And>k v stk' ts. (k, v) \<in> set (m0 # ms) \<Longrightarrow> length stk' = Suc (length stk) \<Longrightarrow>
      jrun (PValue stk') (tokens_of v @ ts) = jrun (PAfter v stk') ts"
  shows "jrun (PObjKey us stk)
      (join_comma (map (\<lambda>(k, v). TStr k # TColon # tokens_of v) (m0 # ms)) @ TRBrace # ts)
    = jrun (PAfter (JObj (us @ m0 # ms)) stk) ts"
  using assms
proof (induction ms arbitrary: m0 us)
  case Nil
  obtain k v where "m0 = (k, v)" by fastforce
  with Nil show ?case by simp
next
  case (Cons m1 ms)
  let ?f = "\<lambda>(k, v). TStr k # TColon # tokens_of v"
  obtain k v where m0: "m0 = (k, v)" by fastforce
  have "jrun (PObjKey us stk) (join_comma (map ?f (m0 # m1 # ms)) @ TRBrace # ts)
    = jrun (PObjKey (us @ [m0]) stk) (join_comma (map ?f (m1 # ms)) @ TRBrace # ts)"
    using Cons.prems [of k v] m0 by simp
  also have "\<dots> = jrun (PAfter (JObj ((us @ [m0]) @ m1 # ms)) stk) ts"
    using Cons.prems by (intro Cons.IH) auto
  finally show ?case by simp
qed

lemma jrun_ObjFirst:
  "ts \<noteq> [] \<Longrightarrow> hd ts \<noteq> TRBrace \<Longrightarrow> jrun (PObjFirst stk) ts = jrun (PObjKey [] stk) ts"
  by (cases ts) (auto split: token.splits)

lemma jrun_ArrFirst:
  "ts \<noteq> [] \<Longrightarrow> hd ts \<noteq> TRBrack \<Longrightarrow> jrun (PArrFirst stk) ts = jrun (PValue (FArr [] # stk)) ts"
  by (cases ts) auto

lemma join_comma_head:
  "xs \<noteq> [] \<Longrightarrow> hd (join_comma (xs # xss) @ ys) = hd xs"
  by (cases xss) auto

lemma jrun_tokens:
  "jv_ok n v \<Longrightarrow> length stk + n \<le> max_nesting \<Longrightarrow>
    jrun (PValue stk) (tokens_of v @ ts) = jrun (PAfter v stk) ts"
proof (induction v arbitrary: n stk ts)
  case (JArr vs)
  then obtain m where n: "n = Suc m" and ok: "list_all (jv_ok m) vs"
    by (cases n) auto
  show ?case
  proof (cases vs)
    case Nil
    then show ?thesis using JArr.prems n by simp
  next
    case (Cons v0 vs')
    let ?rest = "join_comma (map tokens_of vs) @ TRBrack # ts"
    have IH: "jrun (PValue stk') (tokens_of v @ ts) = jrun (PAfter v stk') ts"
      if "v \<in> set vs" "length stk' = Suc (length stk)" for v stk' ts
      using that JArr ok n by (auto simp: list_all_iff intro!: JArr.IH [of v m])
    have "?rest \<noteq> []" "hd ?rest \<noteq> TRBrack"
      using tokens_of_head [of v0] Cons
        join_comma_head [of "tokens_of v0" "map tokens_of vs'" "TRBrack # ts"] by auto
    then have "jrun (PArrFirst stk) ?rest = jrun (PValue (FArr [] # stk)) ?rest"
      by (rule jrun_ArrFirst)
    also have "\<dots> = jrun (PAfter (JArr vs) stk) ts"
      using jrun_elements [of v0 vs' stk "[]" ts] IH Cons by simp
    finally show ?thesis using JArr.prems n by simp
  qed
next
  case (JObj ms)
  then obtain m where n: "n = Suc m" and ok: "list_all (\<lambda>(k, v). jv_ok m v) ms"
    by (cases n) auto
  show ?case
  proof (cases ms)
    case Nil
    then show ?thesis using JObj.prems n by simp
  next
    case (Cons m0 ms')
    let ?f = "\<lambda>(k, v). TStr k # TColon # tokens_of v"
    let ?rest = "join_comma (map ?f ms) @ TRBrace # ts"
    have IH: "jrun (PValue stk') (tokens_of v @ ts) = jrun (PAfter v stk') ts"
      if "(k, v) \<in> set ms" "length stk' = Suc (length stk)" for k v stk' ts
    proof (rule JObj.IH [of "(k, v)" v m])
      show "jv_ok m v" using ok that(1) by (auto simp: list_all_iff)
    qed (use that JObj.prems n in simp_all)
    have "?rest \<noteq> []" "hd ?rest \<noteq> TRBrace"
      using Cons join_comma_head [of "?f m0" "map ?f ms'" "TRBrace # ts"]
      by (cases m0; simp)+
    then have "jrun (PObjFirst stk) ?rest = jrun (PObjKey [] stk) ?rest"
      by (rule jrun_ObjFirst)
    also have "\<dots> = jrun (PAfter (JObj ms) stk) ts"
      using jrun_members [of m0 ms' stk "[]" ts] IH Cons by simp
    finally show ?thesis using JObj.prems n by simp
  qed
qed simp_all

text \<open>The reader inverts the writer, at every nesting the reader accepts and with spaces behind the value.\<close>

lemma json_parse_print_space:
  assumes "jv_ok max_nesting v" "list_all json_space ws"
  shows "json_parse (json_print v @ ws) = Some v"
proof -
  have "lex (json_print v @ ws) = Some (tokens_of v)"
    using assms by (simp add: json_print_def lex_tokens_space sep_ok_tokens tok_ok_tokens)
  moreover have "jrun (PValue []) (tokens_of v) = Some (PAfter v [])"
    using jrun_tokens [OF assms(1), of "[]" "[]"] by simp
  ultimately show ?thesis by (simp add: json_parse_def)
qed

lemma json_parse_print: "jv_ok max_nesting v \<Longrightarrow> json_parse (json_print v) = Some v"
  using json_parse_print_space [of v "[]"] by simp

text \<open>What is written is one line.\<close>

lemma hex_digit_not_newline: "n < 16 \<Longrightarrow> hex_digit n \<noteq> CHR 0x0A"
  using hex_val_hex_digit [of n] by (auto simp: hex_val_def)

lemma escape_char_not_newline: "CHR 0x0A \<notin> set (escape_char c)"
proof -
  have "of_char c div 16 < (16 :: nat)" "of_char c mod 16 < (16 :: nat)"
    using nat_of_char_less_256 [of c] by (simp_all add: less_mult_imp_div_less)
  then have "hex_digit (of_char c div 16) \<noteq> CHR 0x0A" "hex_digit (of_char c mod 16) \<noteq> CHR 0x0A"
    by (simp_all add: hex_digit_not_newline)
  then show ?thesis by (auto simp: escape_char_def)
qed

lemma tok_text_not_newline: "tok_ok t \<Longrightarrow> CHR 0x0A \<notin> set (tok_text t)"
proof (cases t)
  case (TNum l)
  moreover assume "tok_ok t"
  moreover have "\<not> number_char (CHR 0x0A)" by (simp add: number_char_def is_digit_def)
  ultimately show ?thesis by (auto simp: literal_ok_def list_all_iff)
qed (auto simp: quote_def escape_char_not_newline)

lemma json_print_not_newline: "jv_ok n v \<Longrightarrow> CHR 0x0A \<notin> set (json_print v)"
  using tok_ok_tokens [of n v] tok_text_not_newline by (auto simp: json_print_def list_all_iff)

lemma format_nat_digits: "list_all is_digit (format_nat n)"
proof (induction n rule: format_nat.induct)
  case (1 n)
  then show ?case
    by (simp add: format_nat.simps [of n] is_digit_char_of)
qed

lemma format_nat_no_leading_zero: "hd (format_nat n) = CHR ''0'' \<Longrightarrow> length (format_nat n) = 1"
proof (induction n rule: format_nat.induct)
  case (1 n)
  show ?case
  proof (cases "n < 10")
    case False
    have "hd (format_nat n) = hd (format_nat (n div 10))"
      using False format_nat_head [of "n div 10"] by (auto simp: format_nat.simps [of n])
    with "1.prems" "1.IH" False have l: "length (format_nat (n div 10)) = 1"
      and z: "hd (format_nat (n div 10)) = CHR ''0''" by simp_all
    have "n div 10 < 10"
    proof (rule ccontr)
      assume "\<not> n div 10 < 10"
      then show False
        using l format_nat_head [of "n div 10 div 10"] by (auto simp: format_nat.simps [of "n div 10"])
    qed
    with z have "char_of (48 + n div 10) = CHR ''0''" by (simp add: format_nat.simps [of "n div 10"])
    then have "of_char (char_of (48 + n div 10) :: char) = (of_char (CHR ''0'') :: nat)" by simp
    with False \<open>n div 10 < 10\<close> show ?thesis by simp
  qed (simp add: format_nat.simps [of n])
qed

lemma number_ok_digits:
  assumes "list_all is_digit ds" "ds \<noteq> []" "hd ds = CHR ''0'' \<Longrightarrow> length ds = 1"
  shows "number_ok ds" "number_ok (CHR ''-'' # ds)"
proof -
  have d: "takeWhile is_digit ds = ds" "dropWhile is_digit ds = []"
    using assms(1) by (simp_all add: list_all_iff)
  have "hd ds \<noteq> CHR ''-''"
    using assms(1,2) by (cases ds) (auto simp: is_digit_def)
  then have "(case ds of c # cs \<Rightarrow> if c = CHR ''-'' then cs else ds | [] \<Rightarrow> []) = ds"
    by (cases ds) auto
  then show "number_ok ds" "number_ok (CHR ''-'' # ds)"
    using assms(2,3) by (simp_all add: number_ok_def frac_exp_ok_def d del: takeWhile_eq_all_conv)
qed

lemma literal_ok_format_nat:
  "literal_ok (format_nat n)" "literal_ok (CHR ''-'' # format_nat n)"
proof -
  have "format_nat n \<noteq> []" using format_nat_head [of n] by auto
  moreover have "list_all number_char (format_nat n)"
    using format_nat_digits [of n] by (simp add: number_char_def list_all_iff)
  moreover have "number_char (CHR ''-'')" by (simp add: number_char_def)
  ultimately show "literal_ok (format_nat n)" "literal_ok (CHR ''-'' # format_nat n)"
    using number_ok_digits [OF format_nat_digits] format_nat_no_leading_zero
    by (simp_all add: literal_ok_def)
qed

lemma literal_ok_FormatInt: "literal_ok (FormatInt x)"
  by (simp add: FormatInt_def literal_ok_format_nat)

end
