(* ===== verification/Event_Types.thy ===== *)
theory Event_Types
  imports Go_Json
begin

section \<open>internal/event: market events and results\<close>

text \<open>
  The records of \<^verbatim>\<open>internal/event/types.go\<close>, decoding JSON values into Go types, the custom
  \<^verbatim>\<open>PriceLevel.UnmarshalJSON\<close>, and the JSON form of a \<^verbatim>\<open>MarketEvent\<close> that its struct tags give
  (\<^verbatim>\<open>omitempty\<close> drops a zero field). The last section proves what survives a round trip of one
  field through that form.
\<close>

subsection \<open>json.Unmarshal into Go types\<close>

text \<open>
  A type mismatch is remembered and decoding goes on; an error of a type's own
  \<^verbatim>\<open>UnmarshalJSON\<close> ends decoding at once. \<open>JsonUnmarshaler\<close> marks the latter. A field name
  matches without regard to case. JSON \<^verbatim>\<open>null\<close> leaves a plain field as it is (\<open>None\<close> here) and
  sets a pointer or a slice to nil.
\<close>

datatype json_error =
    JsonSyntax
  | JsonType
  | JsonMessage string
  | JsonUnmarshaler json_error

fun dec_string :: "jv \<Rightarrow> json_error + string option" where
  "dec_string (JStr s) = Inr (Some s)"
| "dec_string JNull = Inr None"
| "dec_string _ = Inl JsonType"

fun dec_int64 :: "jv \<Rightarrow> json_error + int option" where
  "dec_int64 (JNum l) = (case ParseInt l of Inr x \<Rightarrow> Inr (Some x) | Inl _ \<Rightarrow> Inl JsonType)"
| "dec_int64 JNull = Inr None"
| "dec_int64 _ = Inl JsonType"

fun dec_bool :: "jv \<Rightarrow> json_error + bool option" where
  "dec_bool (JBool b) = Inr (Some b)"
| "dec_bool JNull = Inr None"
| "dec_bool _ = Inl JsonType"

definition set_plain :: "('a \<Rightarrow> 's \<Rightarrow> 's) \<Rightarrow> json_error + 'a option \<Rightarrow> 's \<Rightarrow> json_error + 's" where
  "set_plain upd r s =
     (case r of Inl e \<Rightarrow> Inl e | Inr None \<Rightarrow> Inr s | Inr (Some x) \<Rightarrow> Inr (upd x s))"

definition set_pointer :: "('a option \<Rightarrow> 's \<Rightarrow> 's) \<Rightarrow> json_error + 'a option \<Rightarrow> 's \<Rightarrow> json_error + 's" where
  "set_pointer upd r s = (case r of Inl e \<Rightarrow> Inl e | Inr x \<Rightarrow> Inr (upd x s))"

fun dec_members ::
  "(string \<Rightarrow> jv \<Rightarrow> 's \<Rightarrow> json_error + 's) \<Rightarrow> (string \<times> jv) list \<Rightarrow> 's \<Rightarrow> json_error option \<Rightarrow>
    json_error + 's" where
  "dec_members set_field [] s saved = (case saved of None \<Rightarrow> Inr s | Some e \<Rightarrow> Inl e)"
| "dec_members set_field ((k, v) # ms) s saved =
     (case set_field (ToLower k) v s of
        Inr s' \<Rightarrow> dec_members set_field ms s' saved
      | Inl (JsonUnmarshaler e) \<Rightarrow> Inl (JsonUnmarshaler e)
      | Inl e \<Rightarrow> dec_members set_field ms s (case saved of None \<Rightarrow> Some e | Some e0 \<Rightarrow> Some e0))"

definition dec_struct ::
  "(string \<Rightarrow> jv \<Rightarrow> 's \<Rightarrow> json_error + 's) \<Rightarrow> 's \<Rightarrow> jv \<Rightarrow> json_error + 's" where
  "dec_struct set_field s v =
     (case v of
        JObj ms \<Rightarrow> dec_members set_field ms s None
      | JNull \<Rightarrow> Inr s
      | _ \<Rightarrow> Inl JsonType)"

definition json_unmarshal ::
  "(string \<Rightarrow> jv \<Rightarrow> 's \<Rightarrow> json_error + 's) \<Rightarrow> 's \<Rightarrow> bytes \<Rightarrow> json_error + 's" where
  "json_unmarshal set_field s text =
     (case json_parse text of None \<Rightarrow> Inl JsonSyntax | Some v \<Rightarrow> dec_struct set_field s v)"

subsection \<open>Market events\<close>

type_synonym EventType = string

definition EventTypeDepth :: EventType where
  "EventTypeDepth = ''depth''"

definition EventTypeAggTrade :: EventType where
  "EventTypeAggTrade = ''aggTrade''"

record PriceLevel =
  pl_Price :: string
  pl_Quantity :: string

record MarketEvent =
  ev_Type :: EventType
  ev_Symbol :: string
  ev_EventTimeMS :: int
  ev_TradeTimeMS :: int
  ev_FirstUpdateID :: int
  ev_FinalUpdateID :: int
  ev_TradeID :: int
  ev_Price :: string
  ev_Quantity :: string
  ev_IsBuyerMaker :: "bool option"
  ev_Bids :: "PriceLevel list"
  ev_Asks :: "PriceLevel list"
  ev_Line :: int

text \<open>The zero value of the struct.\<close>

definition zero_MarketEvent :: MarketEvent where
  "zero_MarketEvent =
     \<lparr>ev_Type = '''', ev_Symbol = '''', ev_EventTimeMS = 0, ev_TradeTimeMS = 0,
      ev_FirstUpdateID = 0, ev_FinalUpdateID = 0, ev_TradeID = 0, ev_Price = '''',
      ev_Quantity = '''', ev_IsBuyerMaker = None, ev_Bids = [], ev_Asks = [], ev_Line = 0\<rparr>"

definition EventTimeMillis :: "MarketEvent \<Rightarrow> int" where
  "EventTimeMillis e = (if ev_EventTimeMS e > 0 then ev_EventTimeMS e else ev_TradeTimeMS e)"

text \<open>
  \<^verbatim>\<open>UnmarshalJSON\<close> first tries \<^verbatim>\<open>[]string\<close> (\<^verbatim>\<open>null\<close> is the nil slice, a \<^verbatim>\<open>null\<close> element an empty
  string) and then an object with \<^verbatim>\<open>price\<close> and \<^verbatim>\<open>quantity\<close>.
\<close>

fun dec_string_list :: "jv list \<Rightarrow> json_error + string list" where
  "dec_string_list [] = Inr []"
| "dec_string_list (v # vs) =
     (case (dec_string v, dec_string_list vs) of
        (Inr x, Inr xs) \<Rightarrow> Inr ((case x of None \<Rightarrow> '''' | Some s \<Rightarrow> s) # xs)
      | _ \<Rightarrow> Inl JsonType)"

definition dec_pair :: "jv \<Rightarrow> json_error + string list" where
  "dec_pair v = (case v of JArr vs \<Rightarrow> dec_string_list vs | JNull \<Rightarrow> Inr [] | _ \<Rightarrow> Inl JsonType)"

definition set_level_field :: "string \<Rightarrow> jv \<Rightarrow> PriceLevel \<Rightarrow> json_error + PriceLevel" where
  "set_level_field k v p =
     (if k = ''price'' then set_plain (\<lambda>s p. p\<lparr>pl_Price := s\<rparr>) (dec_string v) p
      else if k = ''quantity'' then set_plain (\<lambda>s p. p\<lparr>pl_Quantity := s\<rparr>) (dec_string v) p
      else Inr p)"

definition PriceLevel_UnmarshalJSON :: "jv \<Rightarrow> json_error + PriceLevel" where
  "PriceLevel_UnmarshalJSON v =
     (case dec_pair v of
        Inr pair \<Rightarrow>
          (case pair of
             [p, q] \<Rightarrow> Inr \<lparr>pl_Price = p, pl_Quantity = q\<rparr>
           | _ \<Rightarrow> Inl (JsonMessage ''price level array must contain price and quantity''))
      | Inl _ \<Rightarrow>
          (case dec_struct set_level_field \<lparr>pl_Price = '''', pl_Quantity = ''''\<rparr> v of
             Inl e \<Rightarrow> Inl e
           | Inr obj \<Rightarrow>
               if pl_Price obj = '''' \<or> pl_Quantity obj = ''''
               then Inl (JsonMessage ''price level requires price and quantity'')
               else Inr obj))"

fun dec_level_list :: "jv list \<Rightarrow> json_error + PriceLevel list" where
  "dec_level_list [] = Inr []"
| "dec_level_list (v # vs) =
     (case PriceLevel_UnmarshalJSON v of
        Inl e \<Rightarrow> Inl (JsonUnmarshaler e)
      | Inr p \<Rightarrow> (case dec_level_list vs of Inl e \<Rightarrow> Inl e | Inr ps \<Rightarrow> Inr (p # ps)))"

fun dec_levels :: "jv \<Rightarrow> json_error + PriceLevel list" where
  "dec_levels (JArr vs) = dec_level_list vs"
| "dec_levels JNull = Inr []"
| "dec_levels _ = Inl JsonType"

subsection \<open>json.Marshal of an event\<close>

definition enc_level :: "PriceLevel \<Rightarrow> jv" where
  "enc_level p = JObj [(''price'', JStr (pl_Price p)), (''quantity'', JStr (pl_Quantity p))]"

definition enc_int :: "string \<Rightarrow> int \<Rightarrow> (string \<times> jv) list" where
  "enc_int k x = (if x = 0 then [] else [(k, JNum (FormatInt x))])"

definition enc_str :: "string \<Rightarrow> string \<Rightarrow> (string \<times> jv) list" where
  "enc_str k s = (if s = '''' then [] else [(k, JStr s)])"

definition enc_levels :: "string \<Rightarrow> PriceLevel list \<Rightarrow> (string \<times> jv) list" where
  "enc_levels k ps = (if ps = [] then [] else [(k, JArr (map enc_level ps))])"

definition MarketEvent_json :: "MarketEvent \<Rightarrow> jv" where
  "MarketEvent_json e = JObj (
     [(''event_type'', JStr (ev_Type e)), (''symbol'', JStr (ev_Symbol e))] @
     enc_int ''event_time'' (ev_EventTimeMS e) @
     enc_int ''trade_time'' (ev_TradeTimeMS e) @
     enc_int ''first_update_id'' (ev_FirstUpdateID e) @
     enc_int ''final_update_id'' (ev_FinalUpdateID e) @
     enc_int ''trade_id'' (ev_TradeID e) @
     enc_str ''price'' (ev_Price e) @
     enc_str ''quantity'' (ev_Quantity e) @
     (case ev_IsBuyerMaker e of None \<Rightarrow> [] | Some b \<Rightarrow> [(''is_buyer_maker'', JBool b)]) @
     enc_levels ''bids'' (ev_Bids e) @
     enc_levels ''asks'' (ev_Asks e) @
     enc_int ''line'' (ev_Line e))"

text \<open>
  The strings of an event are assumed to be valid UTF-8, as those of a JSON line are. \<^verbatim>\<open>json.Marshal\<close> writes U+FFFD for an invalid
  byte, which a symbol of a CSV row may hold; the model passes it through.
\<close>

definition MarketEvent_Marshal :: "MarketEvent \<Rightarrow> bytes" where
  "MarketEvent_Marshal e = json_print (MarketEvent_json e)"

subsection \<open>Validation results\<close>

text \<open>
  A failure's message is either a fixed text of the validator or the text of the error that made
  a row malformed; the latter is kept as the error itself (type \<open>'e\<close>).
\<close>

datatype 'e message = Text string | ErrorText 'e

record 'e ValidationFailure =
  vf_Line :: int
  vf_Symbol :: string
  vf_Type :: string
  vf_Message :: "'e message"

record 'e ValidationResult =
  vr_Rows :: int
  vr_Events :: int
  vr_MalformedEvents :: int
  vr_SequenceGaps :: int
  vr_OrderingFailures :: int
  vr_SymbolEventCounts :: "string \<Rightarrow> int"
  vr_Failures :: "'e ValidationFailure list"
  vr_StartedAt :: time
  vr_CompletedAt :: time

text \<open>\<^verbatim>\<open>event.ReplayMetric\<close>, what a benchmark run measures.\<close>

record ReplayMetric =
  rm_Rows :: int
  rm_Events :: int
  rm_MalformedEvents :: int
  rm_SequenceGaps :: int
  rm_Duration :: duration
  rm_RowsPerSecond :: float64
  rm_EventsPerSecond :: float64
  rm_P95Latency :: duration
  rm_PeakAllocBytes :: int
  rm_AllocsPerEvent :: float64
  rm_ProcessedAt :: time
  rm_WorkloadFilePath :: string

subsection \<open>Facts\<close>

lemma dec_levels_enc:
  assumes "\<forall>p \<in> set ps. pl_Price p \<noteq> '''' \<and> pl_Quantity p \<noteq> ''''"
  shows "dec_levels (JArr (map enc_level ps)) = Inr ps"
proof -
  have lower: "ToLower ''price'' = ''price''" "ToLower ''quantity'' = ''quantity''"
    by (simp_all add: ToLower_def lower_char_def)
  have "PriceLevel_UnmarshalJSON (enc_level p) = Inr p"
    if "pl_Price p \<noteq> ''''" "pl_Quantity p \<noteq> ''''" for p
    using that
    by (simp add: PriceLevel_UnmarshalJSON_def dec_pair_def enc_level_def dec_struct_def
        set_level_field_def set_plain_def lower)
  with assms have "dec_level_list (map enc_level ps) = Inr ps"
    by (induction ps) simp_all
  then show ?thesis by simp
qed

lemma dec_int64_FormatInt: "int64 x \<Longrightarrow> dec_int64 (JNum (FormatInt x)) = Inr (Some x)"
  by (simp add: ParseInt_FormatInt)

lemma MarketEvent_json_ok: "jv_ok max_nesting (MarketEvent_json e)"
proof -
  have "jv_ok (Suc (Suc 9998)) (MarketEvent_json e)"
    by (auto simp: MarketEvent_json_def enc_int_def enc_str_def enc_levels_def enc_level_def
        literal_ok_FormatInt list_all_iff split: option.splits)
  moreover have "Suc (Suc 9998) = max_nesting" by (simp add: max_nesting_def)
  ultimately show ?thesis by metis
qed

lemma json_parse_Marshal: "json_parse (MarketEvent_Marshal e) = Some (MarketEvent_json e)"
  by (simp add: MarketEvent_Marshal_def json_parse_print MarketEvent_json_ok)

end
