(* ===== verification/Go_Csv.thy ===== *)
theory Go_Csv
  imports Go_Lib
begin

section \<open>encoding/csv: the reader\<close>

text \<open>
  \<^verbatim>\<open>csv.Reader.Read\<close> with the settings the code uses: comma separated, no comment character,
  \<^verbatim>\<open>FieldsPerRecord = -1\<close> (any number of fields), no lazy quotes, and \<^verbatim>\<open>TrimLeadingSpace\<close> as \<open>trim\<close> says.
  A record is read from the first non-empty line; a quoted field may run over several lines.
\<close>

datatype csv_error = ErrBareQuote | ErrQuote

datatype csv_result = CsvEOF | CsvFailed csv_error bytes | CsvRecord "string list" bytes

text \<open>\<^verbatim>\<open>readLine\<close>: the next line with its newline, a carriage return before it dropped.\<close>

definition csv_line :: "bytes \<Rightarrow> (bytes \<times> bytes) option" where
  "csv_line input =
     (if input = [] then None
      else let l = takeWhile (\<lambda>c. c \<noteq> CHR 0x0A) input;
               rest = drop (length l) input
           in if rest = [] then Some (drop_cr l, [])
              else Some (drop_cr l @ [CHR 0x0A], tl rest))"

definition strip_newline :: "string \<Rightarrow> string" where
  "strip_newline s = (if s \<noteq> [] \<and> last s = CHR 0x0A then butlast s else s)"

lemma length_drop_cr: "length (drop_cr l) \<le> length l"
  by (simp add: drop_cr_def)

lemma csv_line_length:
  assumes "csv_line input = Some (l, rest)"
  shows "length l + length rest \<le> length input" "length rest < length input"
proof -
  let ?t = "takeWhile (\<lambda>c. c \<noteq> CHR 0x0A) input"
  have split: "length input = length ?t + length (drop (length ?t) input)"
    by (metis append_take_drop_id length_append takeWhile_eq_take)
  then show "length l + length rest \<le> length input" "length rest < length input"
    using assms length_drop_cr [of ?t]
    by (auto simp: csv_line_def Let_def split: if_splits)
qed

definition csv_lead :: "bool \<Rightarrow> bytes \<Rightarrow> bytes" where
  "csv_lead trim l = (if trim then dropWhile is_space l else l)"

lemma csv_lead_Cons [simp]: "\<not> is_space c \<Longrightarrow> csv_lead trim (c # l) = c # l"
  by (simp add: csv_lead_def)

lemma length_csv_lead: "length (csv_lead trim l) \<le> length l"
  by (simp add: csv_lead_def length_dropWhile_le)

text \<open>
  The two loops of \<^verbatim>\<open>readRecord\<close>: over the fields of a line, and inside a quoted field. They
  return the fields or the error, and the input behind the lines consumed.
\<close>

function parse_field :: "bool \<Rightarrow> bytes \<Rightarrow> bytes \<Rightarrow> string list \<Rightarrow> (csv_error + string list) \<times> bytes"
  and parse_quoted ::
    "bool \<Rightarrow> bytes \<Rightarrow> bytes \<Rightarrow> string list \<Rightarrow> string \<Rightarrow> (csv_error + string list) \<times> bytes"
where
  "parse_field trim line0 rest fields =
     (let line = csv_lead trim line0 in
      if line = [] \<or> hd line \<noteq> CHR 0x22 then
        let f = takeWhile (\<lambda>c. c \<noteq> CHR '','') line;
            comma = length f < length line;
            field = (if comma then f else strip_newline f)
        in if CHR 0x22 \<in> set field then (Inl ErrBareQuote, rest)
           else if comma then parse_field trim (drop (length f + 1) line) rest (fields @ [field])
           else (Inr (fields @ [field]), rest)
      else parse_quoted trim (tl line) rest fields [])"
| "parse_quoted trim line rest fields buf =
     (let pre = takeWhile (\<lambda>c. c \<noteq> CHR 0x22) line in
      if length pre < length line then
        let line2 = drop (length pre + 1) line; buf2 = buf @ pre in
        (case line2 of
           [] \<Rightarrow> (Inr (fields @ [buf2]), rest)
         | c # cs \<Rightarrow>
             if c = CHR 0x22 then parse_quoted trim cs rest fields (buf2 @ [CHR 0x22])
             else if c = CHR '','' then parse_field trim cs rest (fields @ [buf2])
             else if line2 = [CHR 0x0A] then (Inr (fields @ [buf2]), rest)
             else (Inl ErrQuote, rest))
      else if line \<noteq> [] then
        (case csv_line rest of
           None \<Rightarrow> parse_quoted trim [] [] fields (buf @ line)
         | Some (l, r) \<Rightarrow> parse_quoted trim l r fields (buf @ line))
      else (Inl ErrQuote, rest))"
  by pat_completeness auto

termination
proof (relation "measure (\<lambda>x. case x of Inl (_, line, rest, _) \<Rightarrow> 2 * (length line + length rest) + 1
    | Inr (_, line, rest, _) \<Rightarrow> 2 * (length line + length rest))", goal_cases)
  case (2 trim line0 rest fields line f comma field)
  then show ?case
    using length_csv_lead [of trim line0] by auto
next
  case (3 trim line0 rest fields line)
  then have "length (tl line) < length line" by (cases line) auto
  then show ?case
    using 3 length_csv_lead [of trim line0] by auto
next
  case (4 trim line rest fields buf pre line2 buf2 c cs)
  then have "length (c # cs) < length line" by (metis diff_less length_drop less_nat_zero_code not_gr_zero zero_less_Suc Suc_eq_plus1 add_gr_0)
  then show ?case by auto
next
  case (5 trim line rest fields buf pre line2 buf2 c cs)
  then have "length (c # cs) < length line" by (metis diff_less length_drop less_nat_zero_code not_gr_zero zero_less_Suc Suc_eq_plus1 add_gr_0)
  then show ?case by auto
next
  case (7 trim line rest fields buf pre a l r)
  then show ?case using csv_line_length(1) [of rest l r] by (cases line) auto
qed auto

declare parse_field.simps [simp del] parse_quoted.simps [simp del]

function csv_read :: "bool \<Rightarrow> bytes \<Rightarrow> csv_result" where
  "csv_read trim input =
     (case csv_line input of
        None \<Rightarrow> CsvEOF
      | Some (l, rest) \<Rightarrow>
          if strip_newline l = [] then csv_read trim rest
          else case parse_field trim l rest [] of
                 (Inl e, r) \<Rightarrow> CsvFailed e r
               | (Inr fs, r) \<Rightarrow> CsvRecord fs r)"
  by pat_completeness auto
termination
  by (relation "measure (length \<circ> snd)") (auto dest: csv_line_length(2))

declare csv_read.simps [simp del]

subsection \<open>Every read makes progress\<close>

lemma parse_rest_length:
  "length (snd (parse_field trim line rest fields)) \<le> length rest"
  "length (snd (parse_quoted trim line rest fields buf)) \<le> length rest"
proof (induction trim line rest fields and trim line rest fields buf rule: parse_field_parse_quoted.induct)
  case (1 trim line0 rest fields)
  then show ?case
    by (subst parse_field.simps) (simp add: Let_def)
next
  case (2 trim line rest fields buf)
  have *: "csv_line rest = Some (l, r) \<Longrightarrow> length r < length rest" for l r
    by (rule csv_line_length(2))
  show ?case
    using 2 by (subst parse_quoted.simps)
      (fastforce simp: Let_def split: list.splits option.splits dest: *)
qed

lemma csv_read_progress:
  "case csv_read trim input of CsvEOF \<Rightarrow> True
   | CsvFailed e rest \<Rightarrow> length rest < length input
   | CsvRecord fs rest \<Rightarrow> length rest < length input"
proof (induction trim input rule: csv_read.induct)
  case (1 trim input)
  show ?case
  proof (cases "csv_line input")
    case None
    then show ?thesis by (simp add: csv_read.simps [of trim input])
  next
    case (Some p)
    then obtain l rest where l: "csv_line input = Some (l, rest)" by (cases p) auto
    note len = csv_line_length(2) [OF l]
    show ?thesis
    proof (cases "strip_newline l = []")
      case True
      then show ?thesis
        using "1.IH" [OF l refl True] len
        by (auto simp: csv_read.simps [of trim input] l split: csv_result.splits)
    next
      case False
      then show ?thesis
        using parse_rest_length(1) [of trim l rest "[]"] len
        by (auto simp: csv_read.simps [of trim input] l split: prod.splits sum.splits)
    qed
  qed
qed

lemma csv_read_length:
  "csv_read trim input = CsvRecord fs rest \<Longrightarrow> length rest < length input"
  "csv_read trim input = CsvFailed e rest \<Longrightarrow> length rest < length input"
  using csv_read_progress [of input trim] by simp_all

subsection \<open>A reader that fails behind its last byte\<close>

text \<open>
  \<open>csv_read\<close> is a read from a reader that reports \<^verbatim>\<open>io.EOF\<close> behind its bytes. When the reader fails
  there instead, \<^verbatim>\<open>readLine\<close> returns the failure together with what is left of the last line. It is
  met exactly by a read that asks for bytes behind the last one: one that skips empty lines up to the
  end, one whose last line has no newline, and one inside a quoted field that is never closed. The last
  case is recognised by the quote that would close the field.
\<close>

definition csv_unclosed :: "bool \<Rightarrow> bytes \<Rightarrow> bool" where
  "csv_unclosed trim input \<longleftrightarrow>
     csv_read trim input = CsvFailed ErrQuote [] \<and>
     (case csv_read trim (input @ [CHR 0x22]) of CsvRecord _ _ \<Rightarrow> True | _ \<Rightarrow> False)"

definition csv_asks_more :: "bool \<Rightarrow> bytes \<Rightarrow> bool" where
  "csv_asks_more trim input =
     (case csv_read trim input of
        CsvEOF \<Rightarrow> True
      | CsvRecord _ rest \<Rightarrow> rest = [] \<and> last input \<noteq> CHR 0x0A
      | CsvFailed _ rest \<Rightarrow> rest = [] \<and> (last input \<noteq> CHR 0x0A \<or> csv_unclosed trim input))"

text \<open>
  Such a read returns a syntax error found in what was read, \<open>Some e\<close>, and else the failure of the
  reader, \<open>None\<close>; the fields are never returned without an error. \<^verbatim>\<open>readLine\<close> drops a carriage return
  at the very end of the input at \<^verbatim>\<open>io.EOF\<close> only, so it is put back here.
\<close>

definition csv_fault :: "bool \<Rightarrow> bytes \<Rightarrow> csv_error option" where
  "csv_fault trim input =
     (let raw = (if input \<noteq> [] \<and> last input = CHR 0x0D then input @ [CHR 0x0D] else input) in
      case csv_read trim raw of
        CsvFailed e _ \<Rightarrow> (if csv_unclosed trim raw then None else Some e)
      | _ \<Rightarrow> None)"

lemma csv_asks_more_Nil [simp]: "csv_asks_more trim []"
  by (simp add: csv_asks_more_def csv_read.simps csv_line_def)

lemma csv_fault_Nil [simp]: "csv_fault trim [] = None"
  by (simp add: csv_fault_def csv_read.simps csv_line_def)


section \<open>encoding/csv: the writer\<close>

text \<open>
  \<^verbatim>\<open>csv.Writer.Write\<close> with its default settings: fields separated by commas, a newline at the end, and
  quotes around a field that holds a comma, a quote or a line end, or that starts with a space.
\<close>

definition fieldNeedsQuotes :: "string \<Rightarrow> bool" where
  "fieldNeedsQuotes f \<longleftrightarrow> f \<noteq> [] \<and> (f = [CHR 0x5C, CHR ''.''] \<or>
     list_ex (\<lambda>c. c = CHR 0x0A \<or> c = CHR 0x0D \<or> c = CHR 0x22 \<or> c = CHR '','') f \<or> is_space (hd f))"

definition csv_escape :: "string \<Rightarrow> string" where
  "csv_escape f = concat (map (\<lambda>c. if c = CHR 0x22 then [c, c] else [c]) f)"

definition csv_field :: "string \<Rightarrow> string" where
  "csv_field f = (if fieldNeedsQuotes f then [CHR 0x22] @ csv_escape f @ [CHR 0x22] else f)"

fun csv_write :: "string list \<Rightarrow> bytes" where
  "csv_write [] = [CHR 0x0A]"
| "csv_write [f] = csv_field f @ [CHR 0x0A]"
| "csv_write (f # fs) = csv_field f @ [CHR '',''] @ csv_write fs"

subsection \<open>Reading what was written\<close>

lemma csv_line_newline: "csv_line (CHR 0x0A # x) = Some ([CHR 0x0A], x)"
  by (simp add: csv_line_def drop_cr_def)

lemma csv_line_Cons:
  assumes "CHR 0x0A \<in> set x" "c \<noteq> CHR 0x0A" "c \<noteq> CHR 0x0D"
  obtains l r where "csv_line x = Some (l, r)" "csv_line (c # x) = Some (c # l, r)" "l \<noteq> []"
proof -
  let ?t = "takeWhile (\<lambda>c. c \<noteq> CHR 0x0A) x"
  have ne: "drop (length ?t) x \<noteq> []"
    using assms(1) by (auto simp flip: dropWhile_eq_drop simp: dropWhile_eq_Nil_conv)
  have cr: "drop_cr (c # ?t) = c # drop_cr ?t"
    using assms(3) by (simp add: drop_cr_def)
  have "csv_line x = Some (drop_cr ?t @ [CHR 0x0A], tl (drop (length ?t) x))"
    using ne assms(1) by (auto simp: csv_line_def Let_def)
  moreover have "csv_line (c # x) = Some (c # drop_cr ?t @ [CHR 0x0A], tl (drop (length ?t) x))"
    using ne assms(2) cr by (simp add: csv_line_def Let_def)
  ultimately show ?thesis using that by blast
qed

lemma csv_line_push:
  assumes "csv_line x = Some (l, r)" "CHR 0x0A \<in> set x" "c \<noteq> CHR 0x0A" "c \<noteq> CHR 0x0D"
  shows "csv_line (c # x) = Some (c # l, r)"
  using csv_line_Cons [OF assms(2-4)] assms(1) by auto

text \<open>The loops started on the next line of an input.\<close>

definition fields_of :: "bool \<Rightarrow> bytes \<Rightarrow> string list \<Rightarrow> (csv_error + string list) \<times> bytes" where
  "fields_of trim x acc = (case csv_line x of None \<Rightarrow> (Inl ErrQuote, []) | Some (l, r) \<Rightarrow> parse_field trim l r acc)"

definition quoted_of :: "bool \<Rightarrow> bytes \<Rightarrow> string list \<Rightarrow> string \<Rightarrow> (csv_error + string list) \<times> bytes" where
  "quoted_of trim x acc buf = (case csv_line x of None \<Rightarrow> (Inl ErrQuote, []) | Some (l, r) \<Rightarrow> parse_quoted trim l r acc buf)"

lemma parse_quoted_char:
  assumes "c \<noteq> CHR 0x22" "cs \<noteq> []"
  shows "parse_quoted trim (c # cs) r acc buf = parse_quoted trim cs r acc (buf @ [c])"
  using assms by (simp add: parse_quoted.simps [of trim "c # cs"] parse_quoted.simps [of trim cs] Let_def cong: option.case_cong)

lemma quoted_of_char:
  assumes "CHR 0x0A \<in> set x" "c \<noteq> CHR 0x22" "c \<noteq> CHR 0x0D"
  shows "quoted_of trim (c # x) acc buf = quoted_of trim x acc (buf @ [c])"
proof (cases "c = CHR 0x0A")
  case True
  obtain l r where "csv_line x = Some (l, r)"
    using assms(1) by (auto elim: csv_line_Cons [of x "CHR 0x22"])
  then show ?thesis
    using True by (simp add: quoted_of_def csv_line_newline parse_quoted.simps [of trim "[CHR 0x0A]"] Let_def)
next
  case False
  then show ?thesis
    using assms by (auto elim!: csv_line_Cons [of x c] simp: quoted_of_def parse_quoted_char)
qed

lemma quoted_of_quote:
  assumes "CHR 0x0A \<in> set x"
  shows "quoted_of trim (CHR 0x22 # CHR 0x22 # x) acc buf = quoted_of trim x acc (buf @ [CHR 0x22])"
    "quoted_of trim (CHR 0x22 # CHR '','' # x) acc buf = fields_of trim x (acc @ [buf])"
proof -
  obtain l r where l: "csv_line x = Some (l, r)" "csv_line (CHR 0x22 # x) = Some (CHR 0x22 # l, r)"
    using assms by (auto elim: csv_line_Cons [of x "CHR 0x22"])
  moreover have "csv_line (CHR 0x22 # CHR 0x22 # x) = Some (CHR 0x22 # CHR 0x22 # l, r)"
    using csv_line_push [OF l(2)] assms by simp
  moreover have "csv_line (CHR 0x22 # CHR '','' # x) = Some (CHR 0x22 # CHR '','' # l, r)"
    using csv_line_push [OF csv_line_push [OF l(1)]] assms by simp
  ultimately show "quoted_of trim (CHR 0x22 # CHR 0x22 # x) acc buf = quoted_of trim x acc (buf @ [CHR 0x22])"
    "quoted_of trim (CHR 0x22 # CHR '','' # x) acc buf = fields_of trim x (acc @ [buf])"
    by (auto simp: quoted_of_def fields_of_def parse_quoted.simps [of trim "CHR 0x22 # _"] Let_def)
qed

lemma quoted_of_end: "quoted_of trim (CHR 0x22 # CHR 0x0A # y) acc buf = (Inr (acc @ [buf]), y)"
proof -
  have "csv_line (CHR 0x22 # CHR 0x0A # y) = Some ([CHR 0x22, CHR 0x0A], y)"
    by (simp add: csv_line_def drop_cr_def)
  then show ?thesis
    by (simp add: quoted_of_def parse_quoted.simps [of trim "CHR 0x22 # _"] Let_def)
qed

lemma quoted_of_escape:
  assumes "CHR 0x0A \<in> set x" "CHR 0x0D \<notin> set f"
  shows "quoted_of trim (csv_escape f @ x) acc buf = quoted_of trim x acc (buf @ f)"
  using assms
proof (induction f arbitrary: buf)
  case (Cons c f)
  have x: "CHR 0x0A \<in> set (csv_escape f @ x)" using Cons.prems by simp
  show ?case
  proof (cases "c = CHR 0x22")
    case True
    then show ?thesis
      using quoted_of_quote(1) [OF x] Cons by (simp add: csv_escape_def)
  next
    case False
    then show ?thesis
      using quoted_of_char [OF x, of c trim] Cons.IH [of "buf @ [c]"] Cons.prems by (auto simp: csv_escape_def)
  qed
qed (simp add: csv_escape_def)

text \<open>An unquoted field is a piece of one line.\<close>

lemma csv_line_append:
  assumes "CHR 0x0A \<in> set x" "CHR 0x0A \<notin> set f" "CHR 0x0D \<notin> set f" "csv_line x = Some (l, r)"
  shows "csv_line (f @ x) = Some (f @ l, r)"
  using assms(2,3)
proof (induction f)
  case (Cons c f)
  have "CHR 0x0A \<in> set (f @ x)" "c \<noteq> CHR 0x0A" "c \<noteq> CHR 0x0D" using Cons.prems assms(1) by auto
  then show ?case using Cons csv_line_push [of "f @ x" "f @ l" r c] by simp
qed (simp add: assms(4))

lemma fields_of_plain:
  assumes "\<not> fieldNeedsQuotes f"
  shows "CHR 0x0A \<in> set x \<Longrightarrow> fields_of trim (f @ CHR '','' # x) acc = fields_of trim x (acc @ [f])"
    "fields_of trim (f @ CHR 0x0A # y) acc = (Inr (acc @ [f]), y)"
proof -
  have f: "CHR 0x0A \<notin> set f" "CHR 0x0D \<notin> set f" "CHR 0x22 \<notin> set f" "CHR '','' \<notin> set f"
    "f = [] \<or> \<not> is_space (hd f)"
    using assms by (auto simp: fieldNeedsQuotes_def list_ex_iff)
  have head: "csv_lead trim (f @ c # l) = f @ c # l" if "\<not> is_space c" for c l
    using f(5) that by (cases f) (auto simp: csv_lead_def)
  have "\<not> is_space (CHR '','')" "is_space (CHR 0x0A)" by code_simp+
  note sp = this
  have take: "takeWhile (\<lambda>c. c \<noteq> CHR '','') (f @ CHR '','' # l) = f" for l
    using f(4) by (induction f) auto
  have take': "takeWhile (\<lambda>c. c \<noteq> CHR '','') (f @ [CHR 0x0A]) = f @ [CHR 0x0A]"
    using f(4) by (induction f) auto
  have hd': "f = [] \<or> hd (f @ l) \<noteq> CHR 0x22" for l
    using f(3) by (cases f) auto
  show "fields_of trim (f @ CHR '','' # x) acc = fields_of trim x (acc @ [f])" if x: "CHR 0x0A \<in> set x"
  proof -
    obtain l r where l: "csv_line x = Some (l, r)" "csv_line (CHR '','' # x) = Some (CHR '','' # l, r)"
      using x by (auto elim: csv_line_Cons [of x "CHR '',''"])
    have "csv_line (f @ CHR '','' # x) = Some (f @ CHR '','' # l, r)"
      using csv_line_append [of "CHR '','' # x" f] x f l by simp
    then show ?thesis
      using f(3) hd' [of "CHR '','' # l"] l(1)
      by (cases "f = []") (simp_all add: fields_of_def parse_field.simps [of trim "f @ _"] parse_field.simps [of trim "CHR '','' # _"]
          Let_def head [OF sp(1)] take sp(1) del: parse_field.simps)
  qed
  have "csv_line (f @ CHR 0x0A # y) = Some (f @ [CHR 0x0A], y)"
    using csv_line_append [of "CHR 0x0A # y" f] f csv_line_newline by simp
  moreover have "csv_lead trim (f @ [CHR 0x0A]) = (if f = [] \<and> trim then [] else f @ [CHR 0x0A])"
    using f(5) sp(2) by (cases f) (auto simp: csv_lead_def)
  ultimately show "fields_of trim (f @ CHR 0x0A # y) acc = (Inr (acc @ [f]), y)"
    using f(3) hd' [of "[CHR 0x0A]"] take'
    by (cases "f = []") (simp_all add: fields_of_def parse_field.simps [of trim "f @ _"] parse_field.simps [of trim "[CHR 0x0A]"]
        Let_def strip_newline_def sp(2))
qed

lemma fields_of_quoted:
  "CHR 0x0A \<in> set x \<Longrightarrow> fields_of trim (CHR 0x22 # x) acc = quoted_of trim x acc []"
  by (auto elim!: csv_line_Cons [of x "CHR 0x22"] simp: fields_of_def quoted_of_def parse_field.simps [of trim "CHR 0x22 # _"]
      is_space_def)

lemma fields_of_field:
  assumes "CHR 0x0D \<notin> set f"
  shows "CHR 0x0A \<in> set x \<Longrightarrow> fields_of trim (csv_field f @ CHR '','' # x) acc = fields_of trim x (acc @ [f])"
    "fields_of trim (csv_field f @ CHR 0x0A # y) acc = (Inr (acc @ [f]), y)"
  using assms fields_of_plain [of f]
  by (simp_all add: csv_field_def fields_of_quoted quoted_of_escape quoted_of_quote(2) quoted_of_end)

lemma csv_write_newline: "CHR 0x0A \<in> set (csv_write fs)"
  by (induction fs rule: csv_write.induct) simp_all

lemma fields_of_write:
  "fs \<noteq> [] \<Longrightarrow> \<forall>f \<in> set fs. CHR 0x0D \<notin> set f \<Longrightarrow> fields_of trim (csv_write fs @ rest) acc = (Inr (acc @ fs), rest)"
proof (induction fs arbitrary: acc rule: csv_write.induct)
  case (3 f g fs)
  have "CHR 0x0A \<in> set (csv_write (g # fs) @ rest)" using csv_write_newline by simp
  then show ?case using 3 by (simp add: fields_of_field(1))
qed (simp_all add: fields_of_field(2))

lemma csv_field_head:
  assumes "f \<noteq> []" "CHR 0x0D \<notin> set f"
  obtains c x where "csv_field f = c # x" "c \<noteq> CHR 0x0A" "c \<noteq> CHR 0x0D"
proof (cases "fieldNeedsQuotes f")
  case True
  then show ?thesis using that [of "CHR 0x22"] by (simp add: csv_field_def)
next
  case False
  then show ?thesis
    using that [of "hd f" "tl f"] assms by (cases f) (auto simp: csv_field_def fieldNeedsQuotes_def)
qed

lemma csv_read_write:
  assumes "fs \<noteq> []" "fs \<noteq> [[]]" "\<forall>f \<in> set fs. CHR 0x0D \<notin> set f"
  shows "csv_read trim (csv_write fs @ rest) = CsvRecord fs rest"
proof -
  obtain c x where x: "csv_write fs @ rest = c # x" "c \<noteq> CHR 0x0A" "c \<noteq> CHR 0x0D" "CHR 0x0A \<in> set x"
  proof -
    obtain c x where x: "csv_write fs = c # x" "c \<noteq> CHR 0x0A" "c \<noteq> CHR 0x0D"
    proof (cases fs rule: csv_write.cases)
      case (2 f)
      then show ?thesis using that assms by (auto elim!: csv_field_head [of f])
    next
      case (3 f g gs)
      show ?thesis
      proof (cases "f = []")
        case True
        then show ?thesis using 3 that [of "CHR '',''"] by (simp add: csv_field_def fieldNeedsQuotes_def)
      next
        case False
        then show ?thesis using 3 that assms by (auto elim!: csv_field_head [of f])
      qed
    qed (use assms(1) in simp)
    then show ?thesis using that [of c "x @ rest"] csv_write_newline [of fs] by auto
  qed
  obtain l r where l: "csv_line x = Some (l, r)" "csv_line (c # x) = Some (c # l, r)" "l \<noteq> []"
    using x by (auto elim: csv_line_Cons [of x c])
  have "parse_field trim (c # l) r [] = (Inr fs, rest)"
    using fields_of_write [OF assms(1,3), of trim rest "[]"] l x(1) by (simp add: fields_of_def)
  then show ?thesis
    using l x(1) by (simp add: csv_read.simps [of trim "c # x"] strip_newline_def)
qed


text \<open>\<^verbatim>\<open>ReadAll\<close>.\<close>

function csv_read_all :: "bool \<Rightarrow> bytes \<Rightarrow> csv_error + string list list" where
  "csv_read_all trim input =
     (case csv_read trim input of
        CsvEOF \<Rightarrow> Inr []
      | CsvFailed e rest \<Rightarrow> Inl e
      | CsvRecord fs rest \<Rightarrow> (case csv_read_all trim rest of Inl e \<Rightarrow> Inl e | Inr rs \<Rightarrow> Inr (fs # rs)))"
  by pat_completeness auto
termination
  by (relation "measure (length \<circ> snd)") (auto dest: csv_read_length)

declare csv_read_all.simps [simp del]

lemma csv_read_all_write:
  "\<forall>fs \<in> set rows. fs \<noteq> [] \<and> fs \<noteq> [[]] \<and> (\<forall>f \<in> set fs. CHR 0x0D \<notin> set f) \<Longrightarrow>
    csv_read_all trim (concat (map csv_write rows)) = Inr rows"
proof (induction rows)
  case Nil
  then show ?case by (simp add: csv_read_all.simps csv_read.simps csv_line_def)
next
  case (Cons fs rows)
  then show ?case
    using csv_read_write [of fs trim "concat (map csv_write rows)"]
    by (simp add: csv_read_all.simps [of trim "csv_write fs @ _"])
qed

end
