(* ===== verification/Event_Parser.thy ===== *)
theory Event_Parser
  imports Event_Types Go_Csv
begin

section \<open>internal/parser: JSONL and CSV rows as market events\<close>

text \<open>
  \<^verbatim>\<open>parser.go\<close> (streams and formats), \<^verbatim>\<open>jsonl.go\<close> (one JSON object per line) and \<^verbatim>\<open>csv.go\<close> (rows
  under a header). The reader behind a stream is the bytes it has not delivered yet and the
  number of reads that fail behind them before it reports its end. Every error
  the three files return is a constructor of \<open>parse_error\<close> or \<open>stream_error\<close>. The facts at the
  end: the shape of every accepted event, and that draining a stream ends, numbers its
  records one after the other, and what becomes of the reads that fail.
\<close>

type_synonym Format = string

definition FormatAuto :: Format where "FormatAuto = ''auto''"
definition FormatJSONL :: Format where "FormatJSONL = ''jsonl''"
definition FormatCSV :: Format where "FormatCSV = ''csv''"

text \<open>
  Errors of a single row, in the order the code can return them. \<open>CsvRead\<close>, \<open>CsvHeaderRead\<close> and
  \<open>ScanRead\<close> are the error of the underlying reader, as each place returns it.
\<close>

datatype parse_error =
    EmptyLine
  | DecodeJSON json_error
  | UnknownEventType string
  | MissingSymbol
  | EventTimeNotPositive
  | DepthRequiresIDs
  | FinalBeforeFirst
  | DepthRequiresLevel
  | TradeTimeNotPositive
  | TradeRequiresID
  | TradeIDNotPositive
  | TradeRequiresPriceQuantity
  | TradeRequiresBuyerMaker
  | MissingColumn string
  | ParseColumn string num_error
  | ParseBuyerMaker num_error
  | CsvRow csv_error
  | CsvRead

text \<open>Errors of the stream itself.\<close>

datatype stream_error =
    UnsupportedFormat string
  | CannotInfer string
  | OpenFailed string
  | CsvHeaderEOF
  | CsvHeader csv_error
  | CsvHeaderRead
  | TokenTooLong
  | ScanRead

subsection \<open>jsonl.go\<close>

record jsonEvent =
  je_Type :: string
  je_LegacyType :: string
  je_Symbol :: string
  je_EventTimeMS :: int
  je_TradeTimeMS :: int
  je_FirstUpdateID :: "int option"
  je_FinalUpdateID :: "int option"
  je_LegacySeq :: "int option"
  je_LegacyPrevSeq :: "int option"
  je_TradeID :: "int option"
  je_Price :: string
  je_Quantity :: string
  je_IsBuyerMaker :: "bool option"
  je_Bids :: "PriceLevel list"
  je_Asks :: "PriceLevel list"

definition zero_jsonEvent :: jsonEvent where
  "zero_jsonEvent =
     \<lparr>je_Type = '''', je_LegacyType = '''', je_Symbol = '''', je_EventTimeMS = 0,
      je_TradeTimeMS = 0, je_FirstUpdateID = None, je_FinalUpdateID = None, je_LegacySeq = None,
      je_LegacyPrevSeq = None, je_TradeID = None, je_Price = '''', je_Quantity = '''',
      je_IsBuyerMaker = None, je_Bids = [], je_Asks = []\<rparr>"

definition set_levels :: "(PriceLevel list \<Rightarrow> 's \<Rightarrow> 's) \<Rightarrow> jv \<Rightarrow> 's \<Rightarrow> json_error + 's" where
  "set_levels upd v s = (case dec_levels v of Inl e \<Rightarrow> Inl e | Inr ps \<Rightarrow> Inr (upd ps s))"

definition set_jsonEvent :: "string \<Rightarrow> jv \<Rightarrow> jsonEvent \<Rightarrow> json_error + jsonEvent" where
  "set_jsonEvent k v r =
     (if k = ''event_type'' then set_plain (\<lambda>x r. r\<lparr>je_Type := x\<rparr>) (dec_string v) r
      else if k = ''type'' then set_plain (\<lambda>x r. r\<lparr>je_LegacyType := x\<rparr>) (dec_string v) r
      else if k = ''symbol'' then set_plain (\<lambda>x r. r\<lparr>je_Symbol := x\<rparr>) (dec_string v) r
      else if k = ''event_time'' then set_plain (\<lambda>x r. r\<lparr>je_EventTimeMS := x\<rparr>) (dec_int64 v) r
      else if k = ''trade_time'' then set_plain (\<lambda>x r. r\<lparr>je_TradeTimeMS := x\<rparr>) (dec_int64 v) r
      else if k = ''first_update_id'' then
        set_pointer (\<lambda>x r. r\<lparr>je_FirstUpdateID := x\<rparr>) (dec_int64 v) r
      else if k = ''final_update_id'' then
        set_pointer (\<lambda>x r. r\<lparr>je_FinalUpdateID := x\<rparr>) (dec_int64 v) r
      else if k = ''sequence'' then set_pointer (\<lambda>x r. r\<lparr>je_LegacySeq := x\<rparr>) (dec_int64 v) r
      else if k = ''prev_sequence'' then
        set_pointer (\<lambda>x r. r\<lparr>je_LegacyPrevSeq := x\<rparr>) (dec_int64 v) r
      else if k = ''trade_id'' then set_pointer (\<lambda>x r. r\<lparr>je_TradeID := x\<rparr>) (dec_int64 v) r
      else if k = ''price'' then set_plain (\<lambda>x r. r\<lparr>je_Price := x\<rparr>) (dec_string v) r
      else if k = ''quantity'' then set_plain (\<lambda>x r. r\<lparr>je_Quantity := x\<rparr>) (dec_string v) r
      else if k = ''is_buyer_maker'' then
        set_pointer (\<lambda>x r. r\<lparr>je_IsBuyerMaker := x\<rparr>) (dec_bool v) r
      else if k = ''bids'' then set_levels (\<lambda>x r. r\<lparr>je_Bids := x\<rparr>) v r
      else if k = ''asks'' then set_levels (\<lambda>x r. r\<lparr>je_Asks := x\<rparr>) v r
      else Inr r)"

definition normalizeEventType :: "string \<Rightarrow> EventType" where
  "normalizeEventType raw =
     (let t = ToLower (TrimSpace raw) in
      if t = ''depth'' then EventTypeDepth
      else if t = ''aggtrade'' \<or> t = ''trade'' then EventTypeAggTrade
      else raw)"

definition validateEventShape ::
  "MarketEvent \<Rightarrow> bool \<Rightarrow> bool \<Rightarrow> bool \<Rightarrow> parse_error option" where
  "validateEventShape ev hasSequence hasPrevSequence hasTradeID =
     (if ev_Type ev \<noteq> EventTypeDepth \<and> ev_Type ev \<noteq> EventTypeAggTrade
      then Some (UnknownEventType (ev_Type ev))
      else if ev_Symbol ev = '''' then Some MissingSymbol
      else if ev_Type ev = EventTypeDepth then
        (if ev_EventTimeMS ev \<le> 0 then Some EventTimeNotPositive
         else if \<not> hasSequence \<or> \<not> hasPrevSequence then Some DepthRequiresIDs
         else if ev_FinalUpdateID ev < ev_FirstUpdateID ev then Some FinalBeforeFirst
         else if length (ev_Bids ev) = 0 \<and> length (ev_Asks ev) = 0 then Some DepthRequiresLevel
         else None)
      else
        (if ev_TradeTimeMS ev \<le> 0 then Some TradeTimeNotPositive
         else if \<not> hasTradeID then Some TradeRequiresID
         else if ev_TradeID ev \<le> 0 then Some TradeIDNotPositive
         else if ev_Price ev = '''' \<or> ev_Quantity ev = '''' then Some TradeRequiresPriceQuantity
         else if ev_IsBuyerMaker ev = None then Some TradeRequiresBuyerMaker
         else None))"

definition event_of_json :: "jsonEvent \<Rightarrow> int \<Rightarrow> MarketEvent" where
  "event_of_json raw lineNo =
     (let typ = normalizeEventType (if je_Type raw = '''' then je_LegacyType raw else je_Type raw);
          ev = zero_MarketEvent\<lparr>ev_Type := typ,
            ev_Symbol := ToUpper (TrimSpace (je_Symbol raw)),
            ev_EventTimeMS := je_EventTimeMS raw,
            ev_TradeTimeMS := je_TradeTimeMS raw,
            ev_Price := je_Price raw,
            ev_Quantity := je_Quantity raw,
            ev_IsBuyerMaker := je_IsBuyerMaker raw,
            ev_Bids := je_Bids raw,
            ev_Asks := je_Asks raw,
            ev_Line := lineNo\<rparr>;
          ev = (case je_FirstUpdateID raw of None \<Rightarrow> ev | Some x \<Rightarrow> ev\<lparr>ev_FirstUpdateID := x\<rparr>);
          ev = (case je_FinalUpdateID raw of None \<Rightarrow> ev | Some x \<Rightarrow> ev\<lparr>ev_FinalUpdateID := x\<rparr>);
          ev = (case je_LegacyPrevSeq raw of
                  None \<Rightarrow> ev | Some x \<Rightarrow> ev\<lparr>ev_FirstUpdateID := wrap64 (x + 1)\<rparr>);
          ev = (case je_LegacySeq raw of None \<Rightarrow> ev | Some x \<Rightarrow> ev\<lparr>ev_FinalUpdateID := x\<rparr>)
      in (case je_TradeID raw of None \<Rightarrow> ev | Some x \<Rightarrow> ev\<lparr>ev_TradeID := x\<rparr>))"

definition ParseJSONLine :: "bytes \<Rightarrow> int \<Rightarrow> parse_error + MarketEvent" where
  "ParseJSONLine line lineNo =
     (if length (TrimSpace line) = 0 then Inl EmptyLine
      else case json_unmarshal set_jsonEvent zero_jsonEvent line of
        Inl e \<Rightarrow> Inl (DecodeJSON e)
      | Inr raw \<Rightarrow>
          (let ev = event_of_json raw lineNo in
           case validateEventShape ev
               (je_FirstUpdateID raw \<noteq> None \<or> je_LegacyPrevSeq raw \<noteq> None)
               (je_FinalUpdateID raw \<noteq> None \<or> je_LegacySeq raw \<noteq> None)
               (je_TradeID raw \<noteq> None) of
             Some e \<Rightarrow> Inl e
           | None \<Rightarrow> Inr ev))"

subsection \<open>csv.go and the CSV helpers of parser.go\<close>

type_synonym header = "string \<rightharpoonup> nat"

text \<open>A later column of the same name replaces an earlier one.\<close>

definition indexHeader :: "string list \<Rightarrow> header" where
  "indexHeader names =
     foldl (\<lambda>m (i, name). m(ToLower (TrimSpace name) \<mapsto> i)) Map.empty (enumerate 0 names)"

definition csvValue :: "string list \<Rightarrow> header \<Rightarrow> string \<Rightarrow> string" where
  "csvValue cols hdr key =
     (case hdr key of
        None \<Rightarrow> ''''
      | Some i \<Rightarrow> if i \<ge> length cols then '''' else TrimSpace (cols ! i))"

definition csvInt :: "string list \<Rightarrow> header \<Rightarrow> string \<Rightarrow> parse_error + int" where
  "csvInt cols hdr key =
     (let value = csvValue cols hdr key in
      if value = '''' then Inl (MissingColumn key)
      else case ParseInt value of
             Inl e \<Rightarrow> Inl (ParseColumn key e)
           | Inr parsed \<Rightarrow> Inr parsed)"

text \<open>The body of the two cases of \<^verbatim>\<open>parseCSV\<close>'s switch.\<close>

definition parseCSV_depth ::
  "string list \<Rightarrow> header \<Rightarrow> MarketEvent \<Rightarrow> int \<Rightarrow> parse_error + MarketEvent" where
  "parseCSV_depth cols hdr ev0 eventTime =
     (let ev = ev0\<lparr>ev_EventTimeMS := eventTime\<rparr>;
          finalKey = (if csvValue cols hdr ''final_update_id'' = '''' then ''sequence''
                      else ''final_update_id'')
      in case csvInt cols hdr finalKey of
           Inl e \<Rightarrow> Inl e
         | Inr seq \<Rightarrow>
             (let firstKey = (if csvValue cols hdr ''first_update_id'' = '''' then ''prev_sequence''
                              else ''first_update_id'')
              in case csvInt cols hdr firstKey of
                   Inl e \<Rightarrow> Inl e
                 | Inr firstSeq0 \<Rightarrow>
                     (let firstSeq = (if firstKey = ''prev_sequence'' then wrap64 (firstSeq0 + 1)
                                      else firstSeq0)
                      in Inr (ev\<lparr>ev_FirstUpdateID := firstSeq, ev_FinalUpdateID := seq,
                           ev_Bids := [\<lparr>pl_Price = ev_Price ev, pl_Quantity = ev_Quantity ev\<rparr>]\<rparr>))))"

definition parseCSV_trade ::
  "string list \<Rightarrow> header \<Rightarrow> MarketEvent \<Rightarrow> int \<Rightarrow> parse_error + MarketEvent" where
  "parseCSV_trade cols hdr ev0 eventTime =
     (let ev = ev0\<lparr>ev_TradeTimeMS := eventTime\<rparr> in
      case csvInt cols hdr ''trade_id'' of
        Inl e \<Rightarrow> Inl e
      | Inr tradeID \<Rightarrow>
          (case ParseBool (csvValue cols hdr ''is_buyer_maker'') of
             Inl e \<Rightarrow> Inl (ParseBuyerMaker e)
           | Inr b \<Rightarrow> Inr (ev\<lparr>ev_TradeID := tradeID, ev_IsBuyerMaker := Some b\<rparr>)))"

text \<open>The struct literal \<^verbatim>\<open>parseCSV\<close> starts from.\<close>

definition parseCSV_base :: "string list \<Rightarrow> header \<Rightarrow> int \<Rightarrow> MarketEvent" where
  "parseCSV_base cols hdr lineNo =
     (let rawType0 = ToLower (csvValue cols hdr ''type'');
          rawType = (if rawType0 = '''' then csvValue cols hdr ''event_type'' else rawType0)
      in zero_MarketEvent\<lparr>ev_Type := normalizeEventType rawType,
           ev_Symbol := ToUpper (csvValue cols hdr ''symbol''),
           ev_Price := csvValue cols hdr ''price'',
           ev_Quantity := csvValue cols hdr ''quantity'',
           ev_Line := lineNo\<rparr>)"

definition parseCSV :: "string list \<Rightarrow> header \<Rightarrow> int \<Rightarrow> parse_error + MarketEvent" where
  "parseCSV cols hdr lineNo =
     (let ev = parseCSV_base cols hdr lineNo;
          eventTimeKey = (if csvValue cols hdr ''event_time'' = '''' then ''trade_time''
                          else ''event_time'')
      in case csvInt cols hdr eventTimeKey of
           Inl e \<Rightarrow> Inl e
         | Inr eventTime \<Rightarrow>
             (case (if ev_Type ev = EventTypeDepth then parseCSV_depth cols hdr ev eventTime
                    else if ev_Type ev = EventTypeAggTrade then parseCSV_trade cols hdr ev eventTime
                    else Inl (UnknownEventType (ev_Type ev))) of
                Inl e \<Rightarrow> Inl e
              | Inr ev' \<Rightarrow>
                  (case validateEventShape ev' (ev_FirstUpdateID ev' \<noteq> 0)
                      (ev_Type ev' = EventTypeDepth) (ev_TradeID ev' \<noteq> 0) of
                     Some e \<Rightarrow> Inl e
                   | None \<Rightarrow> Inr ev')))"

subsection \<open>parser.go: formats and streams\<close>

definition ResolveFormat :: "string \<Rightarrow> Format \<Rightarrow> stream_error + Format" where
  "ResolveFormat path format =
     (if format \<noteq> '''' \<and> format \<noteq> FormatAuto then
        (if format = FormatJSONL \<or> format = FormatCSV then Inr format
         else Inl (UnsupportedFormat format))
      else let e = ToLower (Ext path) in
        if e = ''.jsonl'' \<or> e = ''.ndjson'' then Inr FormatJSONL
        else if e = ''.csv'' then Inr FormatCSV
        else Inl (CannotInfer (Ext path)))"

record Record =
  rec_Line :: int
  rec_Event :: MarketEvent
  rec_Raw :: bytes
  rec_Err :: "parse_error option"

text \<open>
  \<open>st_input\<close> and \<open>st_faults\<close> are the reader behind \<^verbatim>\<open>scan\<close> or \<^verbatim>\<open>csv\<close>: it delivers the bytes, then fails that
  many times, then reports \<^verbatim>\<open>io.EOF\<close>. A reader that fails forever is the limit of these.
\<close>

record Stream =
  st_format :: Format
  st_input :: bytes
  st_header :: header
  st_line :: int
  st_faults :: nat

definition max_token :: int where
  "max_token = 64 * 1024 * 1024"

definition NewReaderStream :: "bytes \<Rightarrow> nat \<Rightarrow> Format \<Rightarrow> stream_error + Stream" where
  "NewReaderStream r faults format =
     (if format = FormatJSONL then
        Inr \<lparr>st_format = format, st_input = r, st_header = Map.empty, st_line = 0, st_faults = faults\<rparr>
      else if format = FormatCSV then
        (if 0 < faults \<and> csv_asks_more True r then
           (case csv_fault True r of Some e \<Rightarrow> Inl (CsvHeader e) | None \<Rightarrow> Inl CsvHeaderRead)
         else case csv_read True r of
           CsvEOF \<Rightarrow> Inl CsvHeaderEOF
         | CsvFailed e _ \<Rightarrow> Inl (CsvHeader e)
         | CsvRecord names rest \<Rightarrow>
             Inr \<lparr>st_format = format, st_input = rest, st_header = indexHeader names, st_line = 1,
               st_faults = faults\<rparr>)
      else Inl (UnsupportedFormat format))"

text \<open>The readers of the components above are files whose contents can be read to their end.\<close>

definition NewStream :: "bytes \<Rightarrow> Format \<Rightarrow> stream_error + Stream" where
  "NewStream r format = NewReaderStream r 0 format"

text \<open>The file system: the contents of a file, or that it cannot be opened.\<close>

type_synonym file_system = "string \<Rightarrow> bytes option"

definition Open :: "file_system \<Rightarrow> string \<Rightarrow> Format \<Rightarrow> stream_error + Stream" where
  "Open fs path format =
     (case fs path of
        None \<Rightarrow> Inl (OpenFailed path)
      | Some contents \<Rightarrow>
          (case ResolveFormat path format of
             Inl e \<Rightarrow> Inl e
           | Inr resolved \<Rightarrow> NewStream contents resolved))"

datatype next_result = NextEOF | NextError stream_error | NextRecord Record Stream

definition ok_record :: "int \<Rightarrow> bytes \<Rightarrow> parse_error + MarketEvent \<Rightarrow> Record" where
  "ok_record line raw r =
     (case r of
        Inl e \<Rightarrow> \<lparr>rec_Line = line, rec_Event = zero_MarketEvent, rec_Raw = raw, rec_Err = Some e\<rparr>
      | Inr ev \<Rightarrow> \<lparr>rec_Line = line, rec_Event = ev, rec_Raw = raw, rec_Err = None\<rparr>)"

text \<open>
  The scanner hands out what it has read when its reader fails, as at the end of the file, and keeps
  the error for the next call. The CSV reader forgets the error it returned: the next \<^verbatim>\<open>Read\<close> asks the
  reader again.
\<close>

definition nextJSONL :: "Stream \<Rightarrow> next_result" where
  "nextJSONL s =
     (case scan_line max_token (st_input s) of
        ScanEOF \<Rightarrow> (if 0 < st_faults s then NextError ScanRead else NextEOF)
      | ScanTooLong \<Rightarrow> NextError TokenTooLong
      | ScanLine raw rest \<Rightarrow>
          (let line = st_line s + 1 in
           NextRecord (ok_record line raw (ParseJSONLine raw line))
             (s\<lparr>st_line := line, st_input := rest\<rparr>)))"

definition nextCSV :: "Stream \<Rightarrow> next_result" where
  "nextCSV s =
     (let line = st_line s + 1 in
      if 0 < st_faults s \<and> csv_asks_more True (st_input s) then
        NextRecord (ok_record line []
            (Inl (case csv_fault True (st_input s) of Some e \<Rightarrow> CsvRow e | None \<Rightarrow> CsvRead)))
          (s\<lparr>st_line := line, st_input := [], st_faults := st_faults s - 1\<rparr>)
      else case csv_read True (st_input s) of
        CsvEOF \<Rightarrow> NextEOF
      | CsvFailed e rest \<Rightarrow>
          NextRecord (ok_record line [] (Inl (CsvRow e))) (s\<lparr>st_line := line, st_input := rest\<rparr>)
      | CsvRecord cols rest \<Rightarrow>
          NextRecord (ok_record line [] (parseCSV cols (st_header s) line))
            (s\<lparr>st_line := line, st_input := rest\<rparr>))"

definition Next :: "Stream \<Rightarrow> next_result" where
  "Next s =
     (if st_format s = FormatJSONL then nextJSONL s
      else if st_format s = FormatCSV then nextCSV s
      else NextError (UnsupportedFormat (st_format s)))"

definition unread :: "Stream \<Rightarrow> nat" where
  "unread s = length (st_input s) + st_faults s"

lemma Next_shrinks: "Next s = NextRecord r s' \<Longrightarrow> unread s' < unread s"
  by (auto simp: Next_def nextJSONL_def nextCSV_def unread_def Let_def
      split: if_splits scan_result.splits csv_result.splits
      dest: scan_line_length csv_read_length)

text \<open>
  Every consumer of a stream calls \<^verbatim>\<open>Next\<close> until it returns an error, \<^verbatim>\<open>io.EOF\<close> at the end. What
  the calls return does not depend on the consumer: \<open>drain\<close> is the records they return and
  the error that is not \<^verbatim>\<open>io.EOF\<close>, if that is how the stream ends.
\<close>

function drain :: "Stream \<Rightarrow> Record list \<times> stream_error option" where
  "drain s =
     (case Next s of
        NextEOF \<Rightarrow> ([], None)
      | NextError e \<Rightarrow> ([], Some e)
      | NextRecord r s' \<Rightarrow> (let (rs, end) = drain s' in (r # rs, end)))"
  by pat_completeness auto
termination
  by (relation "measure unread") (auto dest: Next_shrinks)

declare drain.simps [simp del]

subsection \<open>The shape of every accepted event\<close>

definition int64_event :: "MarketEvent \<Rightarrow> bool" where
  "int64_event ev \<longleftrightarrow> int64 (ev_EventTimeMS ev) \<and> int64 (ev_TradeTimeMS ev) \<and>
     int64 (ev_FirstUpdateID ev) \<and> int64 (ev_FinalUpdateID ev) \<and> int64 (ev_TradeID ev)"

definition event_shape :: "MarketEvent \<Rightarrow> bool" where
  "event_shape ev \<longleftrightarrow>
     ev_Symbol ev \<noteq> '''' \<and> ToUpper (TrimSpace (ev_Symbol ev)) = ev_Symbol ev \<and> int64_event ev \<and>
     (ev_Type ev = EventTypeDepth \<and> 0 < ev_EventTimeMS ev \<and>
        ev_FirstUpdateID ev \<le> ev_FinalUpdateID ev \<and> (ev_Bids ev \<noteq> [] \<or> ev_Asks ev \<noteq> []) \<or>
      ev_Type ev = EventTypeAggTrade \<and> 0 < ev_TradeTimeMS ev \<and> 0 < ev_TradeID ev \<and>
        ev_Price ev \<noteq> '''' \<and> ev_Quantity ev \<noteq> '''' \<and> ev_IsBuyerMaker ev \<noteq> None)"

text \<open>What \<^verbatim>\<open>validateEventShape\<close> alone establishes.\<close>

lemma validateEventShape_None:
  assumes "validateEventShape ev a b c = None"
  shows "ev_Symbol ev \<noteq> ''''"
    and "ev_Type ev = EventTypeDepth \<and> 0 < ev_EventTimeMS ev \<and> a \<and> b \<and>
        ev_FirstUpdateID ev \<le> ev_FinalUpdateID ev \<and> (ev_Bids ev \<noteq> [] \<or> ev_Asks ev \<noteq> []) \<or>
      ev_Type ev = EventTypeAggTrade \<and> 0 < ev_TradeTimeMS ev \<and> c \<and> 0 < ev_TradeID ev \<and>
        ev_Price ev \<noteq> '''' \<and> ev_Quantity ev \<noteq> '''' \<and> ev_IsBuyerMaker ev \<noteq> None"
  using assms
  by (auto simp: validateEventShape_def EventTypeDepth_def EventTypeAggTrade_def split: if_splits)

lemma upper_char_space: "is_space (upper_char c) \<longleftrightarrow> is_space c"
proof (cases "97 \<le> (of_char c :: nat) \<and> (of_char c :: nat) \<le> 122")
  case True
  define n where "n = (of_char c :: nat) - 32"
  have n: "65 \<le> n" "n \<le> 90" using True by (auto simp: n_def)
  have "c \<noteq> d" if "(of_char d :: nat) < 65" for d using that True by auto
  moreover have "char_of n \<noteq> (d :: char)" if "(of_char d :: nat) < 65" for d
    using that n by auto
  moreover have "upper_char c = char_of n" using True by (simp add: upper_char_def n_def)
  ultimately show ?thesis by (auto simp: is_space_def)
next
  case False
  then show ?thesis by (auto simp: upper_char_def Let_def)
qed

lemma TrimSpace_ToUpper: "TrimSpace (ToUpper s) = ToUpper (TrimSpace s)"
  by (simp add: TrimSpace_def ToUpper_def dropWhile_map comp_def upper_char_space rev_map)

lemma ToUpper_TrimSpace_idem: "ToUpper (TrimSpace (ToUpper (TrimSpace s))) = ToUpper (TrimSpace s)"
  by (simp add: TrimSpace_ToUpper)

definition int64_raw :: "jsonEvent \<Rightarrow> bool" where
  "int64_raw r \<longleftrightarrow> int64 (je_EventTimeMS r) \<and> int64 (je_TradeTimeMS r) \<and>
     (\<forall>x \<in> set_option (je_FirstUpdateID r) \<union> set_option (je_FinalUpdateID r) \<union>
        set_option (je_LegacySeq r) \<union> set_option (je_LegacyPrevSeq r) \<union> set_option (je_TradeID r).
        int64 x)"

lemma dec_int64_range: "dec_int64 v = Inr (Some x) \<Longrightarrow> int64 x"
  by (cases v rule: dec_int64.cases) (auto split: sum.splits dest: ParseInt_int64)

lemma set_jsonEvent_int64:
  "set_jsonEvent k v r = Inr r' \<Longrightarrow> int64_raw r \<Longrightarrow> int64_raw r'"
  unfolding set_jsonEvent_def
  by (auto simp: int64_raw_def set_plain_def set_pointer_def set_levels_def
      split: if_splits sum.splits option.splits dest: dec_int64_range)

lemma dec_members_inv:
  assumes "dec_members f ms s saved = Inr s'" and "I s"
    and "\<And>k v s s'. f k v s = Inr s' \<Longrightarrow> I s \<Longrightarrow> I s'"
  shows "I s'"
  using assms(1,2)
proof (induction ms arbitrary: s saved)
  case (Cons m ms)
  obtain k v where m: "m = (k, v)" by fastforce
  show ?case
  proof (cases "f (ToLower k) v s")
    case (Inl e)
    then show ?thesis using Cons m by (cases e) auto
  next
    case (Inr s1)
    then show ?thesis using Cons m assms(3) by auto
  qed
qed (auto split: option.splits)

lemma event_of_json_fields [simp]:
  "ev_Line (event_of_json raw n) = n"
  "ev_Symbol (event_of_json raw n) = ToUpper (TrimSpace (je_Symbol raw))"
  "ev_EventTimeMS (event_of_json raw n) = je_EventTimeMS raw"
  "ev_TradeTimeMS (event_of_json raw n) = je_TradeTimeMS raw"
  "ev_Price (event_of_json raw n) = je_Price raw"
  "ev_Quantity (event_of_json raw n) = je_Quantity raw"
  "ev_IsBuyerMaker (event_of_json raw n) = je_IsBuyerMaker raw"
  "ev_Bids (event_of_json raw n) = je_Bids raw"
  "ev_Asks (event_of_json raw n) = je_Asks raw"
  by (auto simp: event_of_json_def Let_def split: option.splits)

lemma event_of_json_int64: "int64_raw raw \<Longrightarrow> int64_event (event_of_json raw n)"
  by (auto simp: int64_event_def int64_raw_def event_of_json_def zero_MarketEvent_def Let_def
      int64_def [of 0] split: option.splits)

lemma json_unmarshal_int64:
  assumes "json_unmarshal set_jsonEvent zero_jsonEvent line = Inr raw"
  shows "int64_raw raw"
proof -
  have z: "int64_raw zero_jsonEvent" by (simp add: int64_raw_def zero_jsonEvent_def int64_def)
  from assms obtain v where "dec_struct set_jsonEvent zero_jsonEvent v = Inr raw"
    by (auto simp: json_unmarshal_def split: option.splits)
  with z show ?thesis
    by (auto simp: dec_struct_def split: jv.splits
        intro: dec_members_inv [where I = int64_raw] set_jsonEvent_int64)
qed

lemma csvInt_int64: "csvInt cols hdr k = Inr x \<Longrightarrow> int64 x"
  by (auto simp: csvInt_def Let_def split: if_splits sum.splits dest: ParseInt_int64)

lemma csvValue_trimmed [simp]: "TrimSpace (csvValue cols hdr k) = csvValue cols hdr k"
  by (simp add: csvValue_def split: option.splits)

lemma parseCSV_depth_fields:
  assumes "parseCSV_depth cols hdr ev t = Inr ev'"
  shows "ev_Type ev' = ev_Type ev" "ev_Symbol ev' = ev_Symbol ev" "ev_Line ev' = ev_Line ev"
    "ev_EventTimeMS ev' = t" "ev_TradeTimeMS ev' = ev_TradeTimeMS ev" "ev_TradeID ev' = ev_TradeID ev"
    "int64 (ev_FirstUpdateID ev')" "int64 (ev_FinalUpdateID ev')"
  using assms
  by (auto simp: parseCSV_depth_def Let_def split: sum.splits if_splits dest: csvInt_int64)

lemma parseCSV_trade_fields:
  assumes "parseCSV_trade cols hdr ev t = Inr ev'"
  shows "ev_Type ev' = ev_Type ev" "ev_Symbol ev' = ev_Symbol ev" "ev_Line ev' = ev_Line ev"
    "ev_EventTimeMS ev' = ev_EventTimeMS ev" "ev_TradeTimeMS ev' = t"
    "ev_FirstUpdateID ev' = ev_FirstUpdateID ev" "ev_FinalUpdateID ev' = ev_FinalUpdateID ev"
    "int64 (ev_TradeID ev')"
  using assms
  by (auto simp: parseCSV_trade_def Let_def split: sum.splits dest: csvInt_int64)

lemma zero_MarketEvent_ints [simp]:
  "ev_EventTimeMS zero_MarketEvent = 0" "ev_TradeTimeMS zero_MarketEvent = 0"
  "ev_FirstUpdateID zero_MarketEvent = 0" "ev_FinalUpdateID zero_MarketEvent = 0"
  "ev_TradeID zero_MarketEvent = 0"
  by (simp_all add: zero_MarketEvent_def)

lemma int64_zero [simp]: "int64 0"
  by (simp add: int64_def)

lemma ParseJSONLine_shape:
  assumes "ParseJSONLine line n = Inr ev"
  shows "event_shape ev \<and> ev_Line ev = n"
proof -
  obtain raw a b c where raw: "json_unmarshal set_jsonEvent zero_jsonEvent line = Inr raw"
    and ev: "ev = event_of_json raw n" and sh: "validateEventShape ev a b c = None"
    using assms by (auto simp: ParseJSONLine_def Let_def split: if_splits sum.splits option.splits)
  have "int64_event ev"
    using json_unmarshal_int64 [OF raw] ev by (simp add: event_of_json_int64)
  moreover have "ToUpper (TrimSpace (ev_Symbol ev)) = ev_Symbol ev"
    by (simp add: ev ToUpper_TrimSpace_idem)
  ultimately show ?thesis
    using validateEventShape_None [OF sh] ev by (auto simp: event_shape_def)
qed

lemma parseCSV_shape:
  assumes "parseCSV cols hdr n = Inr ev"
  shows "event_shape ev \<and> ev_Line ev = n"
proof -
  let ?ev0 = "parseCSV_base cols hdr n"
  have ev0: "int64_event ?ev0" "ev_Line ?ev0 = n"
    "ToUpper (TrimSpace (ev_Symbol ?ev0)) = ev_Symbol ?ev0"
    by (simp_all add: parseCSV_base_def Let_def int64_event_def TrimSpace_ToUpper)
  obtain t a b c where t: "int64 t"
    and br: "parseCSV_depth cols hdr ?ev0 t = Inr ev \<or> parseCSV_trade cols hdr ?ev0 t = Inr ev"
    and sh: "validateEventShape ev a b c = None"
    using assms csvInt_int64
    by (fastforce simp: parseCSV_def Let_def split: sum.splits option.splits if_splits)
  from br have "int64_event ev \<and> ev_Line ev = n \<and> ToUpper (TrimSpace (ev_Symbol ev)) = ev_Symbol ev"
    using ev0 t
    by (auto simp: int64_event_def dest: parseCSV_depth_fields parseCSV_trade_fields)
  then show ?thesis
    using validateEventShape_None [OF sh] by (auto simp: event_shape_def)
qed

text \<open>
  C5: an accepted JSON line or CSV row (in the current or the legacy column names) is a depth
  event or an aggregate trade with every field the shape check promises: a non-empty, trimmed,
  upper-case symbol, a positive time, ordered update ids and a price level, or a positive trade id
  with price, quantity and side; all integers fit 64 bits, and the event carries the line number
  it was read at.
\<close>

theorem accepted_event_shape:
  assumes "ParseJSONLine line n = Inr ev \<or> parseCSV cols hdr n = Inr ev"
  shows "event_shape ev \<and> ev_Line ev = n"
  using assms ParseJSONLine_shape parseCSV_shape by blast

subsection \<open>Draining a stream\<close>

definition record_ok :: "Record \<Rightarrow> bool" where
  "record_ok r \<longleftrightarrow> (rec_Err r = None \<longrightarrow> event_shape (rec_Event r) \<and> ev_Line (rec_Event r) = rec_Line r)"

lemma Next_record:
  assumes "Next s = NextRecord r s'"
  shows "rec_Line r = st_line s + 1" "st_line s' = st_line s + 1" "record_ok r"
    "st_format s' = st_format s" "st_header s' = st_header s"
  using assms
  by (auto simp: Next_def nextJSONL_def nextCSV_def ok_record_def record_ok_def Let_def
      split: if_splits scan_result.splits csv_result.splits sum.splits
      dest: ParseJSONLine_shape parseCSV_shape)

lemma drain_cases:
  obtains (eof) "Next s = NextEOF" "drain s = ([], None)"
  | (err) e where "Next s = NextError e" "drain s = ([], Some e)"
  | (more) r s' where "Next s = NextRecord r s'" "drain s = (r # fst (drain s'), snd (drain s'))"
  by (cases "Next s") (auto simp: drain.simps [of s] split: prod.splits)

lemma drain_step:
  "Next s = NextRecord r s' \<Longrightarrow> drain s = (r # fst (drain s'), snd (drain s'))"
  "Next s = NextError e \<Longrightarrow> drain s = ([], Some e)"
  "Next s = NextEOF \<Longrightarrow> drain s = ([], None)"
  by (cases s rule: drain_cases; simp)+

lemma drain_lines:
  "map rec_Line (fst (drain s)) = [st_line s + 1..st_line s + int (length (fst (drain s)))]
   \<and> list_all record_ok (fst (drain s))"
proof (induction s rule: drain.induct)
  case (1 s)
  show ?case
  proof (cases s rule: drain_cases)
    case (more r s')
    have "map rec_Line (fst (drain s')) =
        [st_line s + 1 + 1..st_line s + 1 + int (length (fst (drain s')))]"
      and "list_all record_ok (fst (drain s'))"
      using "1.IH" more Next_record(2) [OF more(1)] by simp_all
    then show ?thesis
      using more Next_record(1,3) [OF more(1)]
        upto_line [of "st_line s" "length (fst (drain s'))"] by simp
  qed simp_all
qed

subsection \<open>Reads that fail\<close>

lemma drain_jsonl_faults:
  assumes "st_format s = FormatJSONL" "0 < st_faults s"
  shows "fst (drain s) = fst (drain (s\<lparr>st_faults := 0\<rparr>)) \<and> snd (drain s) \<noteq> None"
  using assms
proof (induction s rule: drain.induct)
  case (1 s)
  show ?case
  proof (cases "scan_line max_token (st_input s)")
    case (ScanLine raw rest)
    let ?n = "\<lambda>s. s\<lparr>st_line := st_line s + 1, st_input := rest\<rparr>"
    obtain r where r: "Next s = NextRecord r (?n s)"
      "Next (s\<lparr>st_faults := 0\<rparr>) = NextRecord r ((?n s)\<lparr>st_faults := 0\<rparr>)"
      using ScanLine "1.prems" by (simp add: Next_def nextJSONL_def Let_def)
    show ?thesis
      using "1.IH" [OF r(1)] "1.prems" drain_step(1) [OF r(1)] drain_step(1) [OF r(2)] by simp
  qed (use "1.prems" in \<open>simp_all add: drain.simps [of s] drain.simps [of "s\<lparr>st_faults := 0\<rparr>"] Next_def nextJSONL_def\<close>)
qed

text \<open>
  The records of a CSV stream \<open>s\<close> whose reader fails: those of the same stream on a reader that does not
  fail, the last one possibly missing, then one malformed record for each failed read.
\<close>

definition faults_as_rows :: "Stream \<Rightarrow> bool" where
  "faults_as_rows s \<longleftrightarrow> snd (drain s) = None \<and>
     (\<exists>good lost bad. fst (drain (s\<lparr>st_faults := 0\<rparr>)) = good @ lost \<and> length lost \<le> 1 \<and>
        fst (drain s) = good @ bad \<and> length bad = st_faults s \<and> (\<forall>r \<in> set bad. rec_Err r \<noteq> None))"

lemma drain_csv_Nil:
  assumes "st_format s = FormatCSV" "st_input s = []"
  shows "snd (drain s) = None \<and> length (fst (drain s)) = st_faults s \<and>
    (\<forall>r \<in> set (fst (drain s)). rec_Err r \<noteq> None)"
  using assms
proof (induction "st_faults s" arbitrary: s)
  case 0
  then show ?case
    by (simp add: drain.simps [of s] Next_def nextCSV_def csv_read.simps csv_line_def FormatCSV_def FormatJSONL_def)
next
  case (Suc n)
  let ?s' = "s\<lparr>st_line := st_line s + 1, st_input := [], st_faults := n\<rparr>"
  have "0 < st_faults s" "st_faults s - 1 = n" using Suc.hyps(2) by simp_all
  then have "Next s = NextRecord (ok_record (st_line s + 1) [] (Inl CsvRead)) ?s'"
    using Suc.prems by (simp add: Next_def nextCSV_def Let_def FormatCSV_def FormatJSONL_def)
  then show ?case
    using Suc.hyps(1) [of ?s'] Suc.hyps(2) Suc.prems
    by (auto simp: drain_step(1) ok_record_def)
qed

lemma drain_csv_asks_more:
  assumes "st_format s = FormatCSV" "0 < st_faults s" "csv_asks_more True (st_input s)"
  shows "faults_as_rows s"
proof -
  let ?s' = "s\<lparr>st_line := st_line s + 1, st_input := [], st_faults := st_faults s - 1\<rparr>"
  obtain e where r: "Next s = NextRecord (ok_record (st_line s + 1) [] (Inl e)) ?s'"
    using assms by (simp add: Next_def nextCSV_def Let_def FormatCSV_def FormatJSONL_def)
  let ?c = "s\<lparr>st_faults := 0\<rparr>"
  consider "Next ?c = NextEOF" | r s' where "Next ?c = NextRecord r s'" "st_format s' = FormatCSV" "st_input s' = []" "st_faults s' = 0"
    using assms(1,3) by (auto simp: Next_def nextCSV_def csv_asks_more_def Let_def FormatCSV_def FormatJSONL_def split: csv_result.splits)
  then have lost: "length (fst (drain ?c)) \<le> 1"
    by cases (auto simp: drain_step drain_csv_Nil)
  let ?bad = "ok_record (st_line s + 1) [] (Inl e) # fst (drain ?s')"
  have "fst (drain s) = [] @ ?bad" "snd (drain s) = None" "length ?bad = st_faults s"
    "\<forall>r \<in> set ?bad. rec_Err r \<noteq> None" "fst (drain ?c) = [] @ fst (drain ?c)"
    using drain_csv_Nil [of ?s'] assms by (simp_all add: drain_step(1) [OF r] ok_record_def)
  with lost show ?thesis unfolding faults_as_rows_def by blast
qed

lemma drain_csv_faults:
  assumes "st_format s = FormatCSV"
  shows "faults_as_rows s"
  using assms
proof (induction s rule: drain.induct)
  case (1 s)
  let ?c = "s\<lparr>st_faults := 0\<rparr>"
  show ?case
  proof (cases "0 < st_faults s \<and> csv_asks_more True (st_input s)")
    case True
    then show ?thesis using "1.prems" drain_csv_asks_more by simp
  next
    case False
    consider (eof) "Next s = NextEOF" "Next ?c = NextEOF" "st_faults s = 0"
      | (more) r s' where "Next s = NextRecord r s'" "Next ?c = NextRecord r (s'\<lparr>st_faults := 0\<rparr>)"
        "st_format s' = FormatCSV" "st_faults s' = st_faults s"
      using False "1.prems"
      by (auto simp: Next_def nextCSV_def csv_asks_more_def Let_def FormatCSV_def FormatJSONL_def split: csv_result.splits)
    then show ?thesis
    proof cases
      case eof
      then show ?thesis by (simp add: faults_as_rows_def drain_step(3))
    next
      case more
      obtain good lost bad where
        "fst (drain (s'\<lparr>st_faults := 0\<rparr>)) = good @ lost" "length lost \<le> 1" "snd (drain s') = None"
        "fst (drain s') = good @ bad" "length bad = st_faults s'" "\<forall>r \<in> set bad. rec_Err r \<noteq> None"
        using "1.IH" [OF more(1,3)] unfolding faults_as_rows_def by blast
      then have "fst (drain ?c) = (r # good) @ lost" "length lost \<le> 1" "snd (drain s) = None"
        "fst (drain s) = (r # good) @ bad" "length bad = st_faults s" "\<forall>r \<in> set bad. rec_Err r \<noteq> None"
        using more by (simp_all add: drain_step(1))
      then show ?thesis unfolding faults_as_rows_def by blast
    qed
  qed
qed

text \<open>
  C6: draining a stream whose reader delivers some bytes, fails a number of times and then ends
  always ends. The records are numbered one after the other from the stream's line, and every record
  without an error holds a well-shaped event that knows its line. A failing reader ends a JSON lines
  stream with an error, after the records of the bytes read. A CSV stream ends without one, however often
  its reader failed: each failed read is one malformed record behind those of the bytes read, of which the
  last may be missing.
\<close>

theorem drain_numbered:
  "map rec_Line (fst (drain s)) = [st_line s + 1..st_line s + int (length (fst (drain s)))] \<and>
   list_all record_ok (fst (drain s)) \<and>
   (st_format s = FormatJSONL \<and> 0 < st_faults s \<longrightarrow>
      fst (drain s) = fst (drain (s\<lparr>st_faults := 0\<rparr>)) \<and> snd (drain s) \<noteq> None) \<and>
   (st_format s = FormatCSV \<longrightarrow> faults_as_rows s)"
  using drain_lines drain_jsonl_faults drain_csv_faults by blast

lemma drain_jsonl:
  assumes "\<forall>l \<in> set ls. CHR 0x0A \<notin> set l \<and> int (length l) < max_token"
  shows "drain \<lparr>st_format = FormatJSONL, st_input = concat (map (\<lambda>l. l @ [CHR 0x0A]) ls),
      st_header = hdr, st_line = n, st_faults = 0\<rparr>
    = (map2 (\<lambda>k l. ok_record k (drop_cr l) (ParseJSONLine (drop_cr l) k))
         [n + 1..n + int (length ls)] ls, None)"
  using assms
proof (induction ls arbitrary: n)
  case Nil
  show ?case
    by (subst drain.simps) (simp add: Next_def nextJSONL_def scan_line_def)
next
  case (Cons l ls)
  let ?s = "\<lambda>n ls. \<lparr>st_format = FormatJSONL, st_input = concat (map (\<lambda>l. l @ [CHR 0x0A]) ls),
      st_header = hdr, st_line = n, st_faults = 0\<rparr>"
  let ?r = "\<lambda>k l. ok_record k (drop_cr l) (ParseJSONLine (drop_cr l) k)"
  have "takeWhile (\<lambda>c. c \<noteq> CHR 0x0A) (l @ CHR 0x0A # xs) = l" for xs
    using Cons.prems by (subst takeWhile_append2) auto
  then have "Next (?s n (l # ls)) = NextRecord (?r (n + 1) l) (?s (n + 1) ls)"
    using Cons.prems by (simp add: Next_def nextJSONL_def scan_line_def Let_def)
  then have "drain (?s n (l # ls)) =
      (let (rs, end) = drain (?s (n + 1) ls) in (?r (n + 1) l # rs, end))"
    by (subst drain.simps) simp
  also have "drain (?s (n + 1) ls) = (map2 ?r [n + 1 + 1..n + 1 + int (length ls)] ls, None)"
    using Cons.prems by (intro Cons.IH) simp
  finally show ?case
    using upto_line [of n "length ls", symmetric] by simp
qed

text \<open>
  A JSONL input loses no line. Written as lines ended by newlines, each shorter than the
  scanner's limit, it is read back as exactly those lines in order (one carriage return at the end of
  a line dropped), each parsed at its own line number, and the stream ends without an error.
\<close>

theorem drain_jsonl_lines:
  assumes "\<forall>l \<in> set ls. CHR 0x0A \<notin> set l \<and> int (length l) < max_token"
  shows "drain \<lparr>st_format = FormatJSONL, st_input = concat (map (\<lambda>l. l @ [CHR 0x0A]) ls),
      st_header = hdr, st_line = n, st_faults = 0\<rparr>
    = (map2 (\<lambda>k l. ok_record k (drop_cr l) (ParseJSONLine (drop_cr l) k))
         [n + 1..n + int (length ls)] ls, None)"
  by (rule drain_jsonl [OF assms])

subsection \<open>Marshalling an event and parsing it back\<close>

lemma dec_members_append:
  "dec_members f ms s None = Inr s' \<Longrightarrow> dec_members f (ms @ ms') s None = dec_members f ms' s' None"
proof (induction ms arbitrary: s)
  case (Cons m ms)
  obtain k v where m: "m = (k, v)" by fastforce
  have saved: "dec_members f ms s (Some e) \<noteq> Inr s'" for s e
    by (induction ms arbitrary: s) (auto split: sum.splits json_error.splits)
  show ?case
  proof (cases "f (ToLower k) v s")
    case (Inl e)
    then show ?thesis using Cons.prems m saved by (cases e) auto
  next
    case (Inr s1)
    then show ?thesis using Cons m by auto
  qed
qed simp

lemma key_lower:
  "ToLower ''event_type'' = ''event_type''" "ToLower ''symbol'' = ''symbol''"
  "ToLower ''event_time'' = ''event_time''" "ToLower ''trade_time'' = ''trade_time''"
  "ToLower ''first_update_id'' = ''first_update_id''" "ToLower ''final_update_id'' = ''final_update_id''"
  "ToLower ''trade_id'' = ''trade_id''" "ToLower ''price'' = ''price''"
  "ToLower ''quantity'' = ''quantity''" "ToLower ''is_buyer_maker'' = ''is_buyer_maker''"
  "ToLower ''bids'' = ''bids''" "ToLower ''asks'' = ''asks''" "ToLower ''line'' = ''line''"
  by code_simp+

text \<open>The struct a marshalled event decodes to.\<close>

definition raw_of_event :: "MarketEvent \<Rightarrow> jsonEvent" where
  "raw_of_event e =
     (let ptr = (\<lambda>x. if x = 0 then None else Some x) in
      \<lparr>je_Type = ev_Type e, je_LegacyType = '''', je_Symbol = ev_Symbol e,
       je_EventTimeMS = ev_EventTimeMS e, je_TradeTimeMS = ev_TradeTimeMS e,
       je_FirstUpdateID = ptr (ev_FirstUpdateID e), je_FinalUpdateID = ptr (ev_FinalUpdateID e),
       je_LegacySeq = None, je_LegacyPrevSeq = None, je_TradeID = ptr (ev_TradeID e),
       je_Price = ev_Price e, je_Quantity = ev_Quantity e, je_IsBuyerMaker = ev_IsBuyerMaker e,
       je_Bids = ev_Bids e, je_Asks = ev_Asks e\<rparr>)"

definition levels_named :: "MarketEvent \<Rightarrow> bool" where
  "levels_named e \<longleftrightarrow> (\<forall>p \<in> set (ev_Bids e) \<union> set (ev_Asks e). pl_Price p \<noteq> '''' \<and> pl_Quantity p \<noteq> '''')"

text \<open>Decoding each part of the marshalled object, on a struct whose field is still zero.\<close>

lemma dec_event_ints:
  "int64 x \<Longrightarrow> je_EventTimeMS r = 0 \<Longrightarrow> dec_members set_jsonEvent (enc_int ''event_time'' x @ ms) r None
    = dec_members set_jsonEvent ms (r\<lparr>je_EventTimeMS := x\<rparr>) None"
  "int64 x \<Longrightarrow> je_TradeTimeMS r = 0 \<Longrightarrow> dec_members set_jsonEvent (enc_int ''trade_time'' x @ ms) r None
    = dec_members set_jsonEvent ms (r\<lparr>je_TradeTimeMS := x\<rparr>) None"
  "int64 x \<Longrightarrow> je_FirstUpdateID r = None \<Longrightarrow>
    dec_members set_jsonEvent (enc_int ''first_update_id'' x @ ms) r None
    = dec_members set_jsonEvent ms (r\<lparr>je_FirstUpdateID := if x = 0 then None else Some x\<rparr>) None"
  "int64 x \<Longrightarrow> je_FinalUpdateID r = None \<Longrightarrow>
    dec_members set_jsonEvent (enc_int ''final_update_id'' x @ ms) r None
    = dec_members set_jsonEvent ms (r\<lparr>je_FinalUpdateID := if x = 0 then None else Some x\<rparr>) None"
  "int64 x \<Longrightarrow> je_TradeID r = None \<Longrightarrow> dec_members set_jsonEvent (enc_int ''trade_id'' x @ ms) r None
    = dec_members set_jsonEvent ms (r\<lparr>je_TradeID := if x = 0 then None else Some x\<rparr>) None"
  by (cases r; simp add: enc_int_def set_jsonEvent_def set_plain_def set_pointer_def key_lower
      ParseInt_FormatInt)+

lemma dec_event_strings:
  "je_Price r = '''' \<Longrightarrow> dec_members set_jsonEvent (enc_str ''price'' s @ ms) r None
    = dec_members set_jsonEvent ms (r\<lparr>je_Price := s\<rparr>) None"
  "je_Quantity r = '''' \<Longrightarrow> dec_members set_jsonEvent (enc_str ''quantity'' s @ ms) r None
    = dec_members set_jsonEvent ms (r\<lparr>je_Quantity := s\<rparr>) None"
  "je_IsBuyerMaker r = None \<Longrightarrow>
    dec_members set_jsonEvent ((case m of None \<Rightarrow> [] | Some b \<Rightarrow> [(''is_buyer_maker'', JBool b)]) @ ms) r None
    = dec_members set_jsonEvent ms (r\<lparr>je_IsBuyerMaker := m\<rparr>) None"
  by (cases r; simp add: enc_str_def set_jsonEvent_def set_plain_def set_pointer_def key_lower
      split: option.splits)+

lemma dec_event_levels:
  "\<forall>p \<in> set ps. pl_Price p \<noteq> '''' \<and> pl_Quantity p \<noteq> '''' \<Longrightarrow> je_Bids r = [] \<Longrightarrow>
    dec_members set_jsonEvent (enc_levels ''bids'' ps @ ms) r None
    = dec_members set_jsonEvent ms (r\<lparr>je_Bids := ps\<rparr>) None"
  "\<forall>p \<in> set ps. pl_Price p \<noteq> '''' \<and> pl_Quantity p \<noteq> '''' \<Longrightarrow> je_Asks r = [] \<Longrightarrow>
    dec_members set_jsonEvent (enc_levels ''asks'' ps @ ms) r None
    = dec_members set_jsonEvent ms (r\<lparr>je_Asks := ps\<rparr>) None"
  using dec_levels_enc [of ps]
  by (cases r; simp add: enc_levels_def set_jsonEvent_def set_levels_def key_lower)+

lemma dec_event_line: "dec_members set_jsonEvent (enc_int ''line'' x) r None = Inr r"
  by (simp add: enc_int_def set_jsonEvent_def key_lower)

lemma dec_MarketEvent_json:
  assumes "int64_event e" "levels_named e"
  shows "dec_struct set_jsonEvent zero_jsonEvent (MarketEvent_json e) = Inr (raw_of_event e)"
proof -
  have b: "\<forall>p \<in> set (ev_Bids e). pl_Price p \<noteq> '''' \<and> pl_Quantity p \<noteq> ''''"
    and a: "\<forall>p \<in> set (ev_Asks e). pl_Price p \<noteq> '''' \<and> pl_Quantity p \<noteq> ''''"
    using assms(2) by (auto simp: levels_named_def)
  have head: "dec_members set_jsonEvent
      ([(''event_type'', JStr t), (''symbol'', JStr s)] @ ms) r None
    = dec_members set_jsonEvent ms (r\<lparr>je_Type := t, je_Symbol := s\<rparr>) None" for t s ms r
    by (simp add: set_jsonEvent_def set_plain_def key_lower)
  show ?thesis
    using assms(1) b a unfolding int64_event_def
    by (simp only: MarketEvent_json_def dec_struct_def jv.case head append_assoc)
      (simp add: dec_event_ints dec_event_strings dec_event_levels dec_event_line
        zero_jsonEvent_def raw_of_event_def)
qed

lemma TrimSpace_nonempty: "c \<in> set s \<Longrightarrow> \<not> is_space c \<Longrightarrow> TrimSpace s \<noteq> []"
  by (auto simp: TrimSpace_def dropWhile_eq_Nil_conv dest: set_dropWhileD)
     (metis set_append takeWhile_dropWhile_id UnE set_takeWhileD)

lemma Marshal_starts: "CHR 0x7B \<in> set (MarketEvent_Marshal e)"
  by (simp add: MarketEvent_Marshal_def MarketEvent_json_def json_print_def)

lemma normalizeEventType_fixed:
  "normalizeEventType EventTypeDepth = EventTypeDepth"
  "normalizeEventType EventTypeAggTrade = EventTypeAggTrade"
  by code_simp+

lemma types_differ [simp]: "EventTypeAggTrade \<noteq> EventTypeDepth" "EventTypeDepth \<noteq> EventTypeAggTrade"
  by (simp_all add: EventTypeDepth_def EventTypeAggTrade_def)

lemma Marshal_parses:
  assumes "event_shape e" "levels_named e"
    and "ev_Type e = EventTypeDepth \<Longrightarrow> ev_FirstUpdateID e \<noteq> 0 \<and> ev_FinalUpdateID e \<noteq> 0"
  shows "ParseJSONLine (MarketEvent_Marshal e) n = Inr (e\<lparr>ev_Line := n\<rparr>)"
proof -
  let ?raw = "raw_of_event e"
  have t: "ev_Type e \<noteq> ''''" "normalizeEventType (ev_Type e) = ev_Type e"
    using assms(1)
    by (auto simp: event_shape_def EventTypeDepth_def EventTypeAggTrade_def
        normalizeEventType_fixed [unfolded EventTypeDepth_def EventTypeAggTrade_def])
  have "json_unmarshal set_jsonEvent zero_jsonEvent (MarketEvent_Marshal e) = Inr ?raw"
    using assms(1,2)
    by (simp add: json_unmarshal_def json_parse_Marshal dec_MarketEvent_json event_shape_def)
  moreover have "TrimSpace (MarketEvent_Marshal e) \<noteq> []"
    using Marshal_starts [of e] by (rule TrimSpace_nonempty) (simp add: is_space_def)
  moreover have ev: "event_of_json ?raw n = e\<lparr>ev_Line := n\<rparr>"
    using t assms(1)
    by (cases e) (simp add: event_of_json_def raw_of_event_def zero_MarketEvent_def event_shape_def)
  moreover have "validateEventShape (e\<lparr>ev_Line := n\<rparr>)
      (je_FirstUpdateID ?raw \<noteq> None \<or> je_LegacyPrevSeq ?raw \<noteq> None)
      (je_FinalUpdateID ?raw \<noteq> None \<or> je_LegacySeq ?raw \<noteq> None) (je_TradeID ?raw \<noteq> None) = None"
    using assms(1,3)
    by (auto simp: validateEventShape_def raw_of_event_def event_shape_def
        EventTypeDepth_def EventTypeAggTrade_def)
  ultimately show ?thesis
    by (simp add: ParseJSONLine_def)
qed

text \<open>
  C7: an event that has the shape the parser accepts, whose price levels are non-empty and, for a
  depth event, whose update ids are not zero, survives the data plane: parsing the line
  \<^verbatim>\<open>json.Marshal\<close> produces gives the same event back, at the line number of the reader.
\<close>

theorem ParseJSONLine_Marshal:
  assumes "event_shape e" "levels_named e"
    and "ev_Type e = EventTypeDepth \<Longrightarrow> ev_FirstUpdateID e \<noteq> 0 \<and> ev_FinalUpdateID e \<noteq> 0"
  shows "ParseJSONLine (MarketEvent_Marshal e) n = Inr (e\<lparr>ev_Line := n\<rparr>)"
  using assms by (rule Marshal_parses)

text \<open>
  The \<^verbatim>\<open>omitempty\<close> options of the event structure drop a zero update id, and with it the
  whole event: the line a depth event with a zero first or final update id marshals to is refused
  by the parser that accepted the event (\<^const>\<open>event_shape\<close>).
\<close>

theorem ParseJSONLine_Marshal_zero_id:
  assumes "event_shape e" "levels_named e" "ev_Type e = EventTypeDepth"
    "ev_FirstUpdateID e = 0 \<or> ev_FinalUpdateID e = 0"
  shows "ParseJSONLine (MarketEvent_Marshal e) n = Inl DepthRequiresIDs"
proof -
  let ?raw = "raw_of_event e"
  have "json_unmarshal set_jsonEvent zero_jsonEvent (MarketEvent_Marshal e) = Inr ?raw"
    using assms(1,2)
    by (simp add: json_unmarshal_def json_parse_Marshal dec_MarketEvent_json event_shape_def)
  moreover have "TrimSpace (MarketEvent_Marshal e) \<noteq> []"
    using Marshal_starts [of e] by (rule TrimSpace_nonempty) (simp add: is_space_def)
  moreover have "event_of_json ?raw n = e\<lparr>ev_Line := n\<rparr>"
    using assms(1,3) normalizeEventType_fixed(1)
    by (cases e) (auto simp: event_of_json_def raw_of_event_def zero_MarketEvent_def event_shape_def
        EventTypeDepth_def)
  ultimately show ?thesis
    using assms
    by (auto simp: ParseJSONLine_def validateEventShape_def raw_of_event_def event_shape_def Let_def)
qed

subsection \<open>Sample rows\<close>

definition sample_line :: bytes where
  "sample_line = ''{\"event_type\":\"depth\",\"symbol\":\"btcusdt\",\"event_time\":5,'' @
     ''\"first_update_id\":1,\"final_update_id\":2,\"bids\":[[\"1\",\"2\"]]}''"

definition sample_depth :: "int \<Rightarrow> int \<Rightarrow> int \<Rightarrow> int \<Rightarrow> MarketEvent" where
  "sample_depth n t a b = zero_MarketEvent\<lparr>ev_Type := ''depth'', ev_Symbol := ''BTCUSDT'',
     ev_EventTimeMS := t, ev_FirstUpdateID := a, ev_FinalUpdateID := b,
     ev_Bids := [\<lparr>pl_Price = ''1'', pl_Quantity = ''2''\<rparr>], ev_Line := n\<rparr>"

definition sample_record :: "int \<Rightarrow> int \<Rightarrow> int \<Rightarrow> int \<Rightarrow> Record" where
  "sample_record n t a b =
     \<lparr>rec_Line = n, rec_Event = sample_depth n t a b, rec_Raw = [], rec_Err = None\<rparr>"

definition sample_header :: header where
  "sample_header = indexHeader
     [''event_type'', ''symbol'', ''trade_id'', ''price'', ''quantity'', ''trade_time'', ''is_buyer_maker'']"

lemma sample_line_parsed: "ParseJSONLine sample_line 1 = Inr (sample_depth 1 5 1 2)"
  by code_simp

lemma sample_record_ok:
  "0 < t \<Longrightarrow> int64 t \<Longrightarrow> int64 a \<Longrightarrow> int64 b \<Longrightarrow> a \<le> b \<Longrightarrow> record_ok (sample_record n t a b)"
proof -
  assume *: "0 < t" "int64 t" "int64 a" "int64 b" "a \<le> b"
  have "ToUpper (TrimSpace ''BTCUSDT'') = ''BTCUSDT''" by code_simp
  with * show ?thesis
    by (simp add: record_ok_def sample_record_def sample_depth_def event_shape_def int64_event_def
        EventTypeDepth_def)
qed

theorem drain_numbered_witness:
  "faults_as_rows \<lparr>st_format = FormatCSV, st_input = ''a,b'', st_header = Map.empty, st_line = 1, st_faults = 3\<rparr> \<and>
   snd (drain \<lparr>st_format = FormatJSONL, st_input = sample_line, st_header = Map.empty, st_line = 0, st_faults = 1\<rparr>) \<noteq> None"
  using drain_numbered [of "\<lparr>st_format = FormatCSV, st_input = ''a,b'', st_header = Map.empty, st_line = 1, st_faults = 3\<rparr>"]
    drain_numbered [of "\<lparr>st_format = FormatJSONL, st_input = sample_line, st_header = Map.empty, st_line = 0, st_faults = 1\<rparr>"]
  by simp

theorem accepted_event_shape_witness:
  "ParseJSONLine sample_line 1 = Inr (sample_depth 1 5 1 2) \<and> event_shape (sample_depth 1 5 1 2) \<and>
   ev_Line (sample_depth 1 5 1 2) = 1 \<and>
   (case parseCSV [''aggTrade'', ''SOLUSDT'', ''9001'', ''148.1200'', ''12.50'', ''17'', ''true''] sample_header 2 of
     Inl _ \<Rightarrow> False | Inr ev \<Rightarrow> event_shape ev \<and> ev_Line ev = 2)"
proof -
  let ?row = "[''aggTrade'', ''SOLUSDT'', ''9001'', ''148.1200'', ''12.50'', ''17'', ''true'']"
  have "case parseCSV ?row sample_header 2 of Inl _ \<Rightarrow> False | Inr _ \<Rightarrow> True" by code_simp
  then obtain ev where ev: "parseCSV ?row sample_header 2 = Inr ev" by (auto split: sum.splits)
  show ?thesis
    using accepted_event_shape [OF disjI1, OF sample_line_parsed] sample_line_parsed
      accepted_event_shape [OF disjI2, OF ev] ev by simp
qed

theorem drain_jsonl_lines_witness:
  "drain \<lparr>st_format = FormatJSONL, st_input = concat (map (\<lambda>l. l @ [CHR 0x0A]) [sample_line, ''broken'' @ [CHR 0x0D]]),
      st_header = Map.empty, st_line = 0, st_faults = 0\<rparr>
   = ([ok_record 1 sample_line (ParseJSONLine sample_line 1), ok_record 2 ''broken'' (ParseJSONLine ''broken'' 2)], None)"
proof -
  let ?ls = "[sample_line, ''broken'' @ [CHR 0x0D]]"
  have h: "\<forall>l \<in> set ?ls. CHR 0x0A \<notin> set l \<and> int (length l) < max_token"
    by (simp add: sample_line_def max_token_def)
  have "drop_cr sample_line = sample_line" "drop_cr (''broken'' @ [CHR 0x0D]) = ''broken''"
    by (simp_all add: drop_cr_def sample_line_def)
  moreover have "[0 + 1..0 + int (length ?ls)] = [1, 2]" by (simp add: upto_rec1)
  ultimately show ?thesis
    using drain_jsonl_lines [OF h, of Map.empty 0] by simp
qed

theorem ParseJSONLine_Marshal_witness:
  "ParseJSONLine (MarketEvent_Marshal (sample_depth 7 5 1 2)) 3 = Inr (sample_depth 3 5 1 2)"
proof -
  have "event_shape (sample_depth 7 5 1 2)"
    using sample_record_ok [of 5 1 2 7] by (simp add: record_ok_def sample_record_def int64_def)
  moreover have "levels_named (sample_depth 7 5 1 2)"
    by (simp add: levels_named_def sample_depth_def zero_MarketEvent_def)
  moreover have "ev_FirstUpdateID (sample_depth 7 5 1 2) \<noteq> 0 \<and> ev_FinalUpdateID (sample_depth 7 5 1 2) \<noteq> 0"
    by (simp add: sample_depth_def)
  ultimately show ?thesis
    using ParseJSONLine_Marshal [of "sample_depth 7 5 1 2" 3] by (simp add: sample_depth_def)
qed

theorem ParseJSONLine_Marshal_zero_id_witness:
  "ParseJSONLine (MarketEvent_Marshal (sample_depth 7 5 0 2)) 3 = Inl DepthRequiresIDs"
proof -
  have "event_shape (sample_depth 7 5 0 2)"
    using sample_record_ok [of 5 0 2 7] by (simp add: record_ok_def sample_record_def int64_def)
  moreover have "levels_named (sample_depth 7 5 0 2)"
    by (simp add: levels_named_def sample_depth_def zero_MarketEvent_def)
  ultimately show ?thesis
    using ParseJSONLine_Marshal_zero_id [of "sample_depth 7 5 0 2" 3]
    by (simp add: sample_depth_def EventTypeDepth_def)
qed

end
