(* ===== verification/Event_Validator.thy ===== *)
theory Event_Validator
  imports Event_Parser
begin

section \<open>internal/validate: sequence and ordering checks\<close>

text \<open>
  \<^verbatim>\<open>validator.go\<close>: the validator's state, one operation per method, and the loop of
  \<^verbatim>\<open>validate.Stream\<close>. The three \<^verbatim>\<open>last*\<close> maps track, per symbol, the greatest update id, trade id
  and time seen. The facts are about runs, \<open>foldl Process\<close> over the records of a stream: the
  counters partition the rows, the maps hold maxima, symbols do not interfere, a clean run
  is a contiguous one, and priming a prefix is as good as processing it.
\<close>

type_synonym Failure = "parse_error ValidationFailure"
type_synonym Result = "parse_error ValidationResult"

record Options =
  op_Symbol :: string

record Validator =
  v_opts :: Options
  v_result :: Result
  v_lastDepth :: "string \<rightharpoonup> int"
  v_lastTrade :: "string \<rightharpoonup> int"
  v_lastTimeMS :: "string \<rightharpoonup> int"

definition NewValidator :: "time \<Rightarrow> Options \<Rightarrow> Validator" where
  "NewValidator now opts =
     \<lparr>v_opts = opts,
      v_result = \<lparr>vr_Rows = 0, vr_Events = 0, vr_MalformedEvents = 0, vr_SequenceGaps = 0,
        vr_OrderingFailures = 0, vr_SymbolEventCounts = (\<lambda>_. 0), vr_Failures = [],
        vr_StartedAt = now, vr_CompletedAt = 0\<rparr>,
      v_lastDepth = Map.empty, v_lastTrade = Map.empty, v_lastTimeMS = Map.empty\<rparr>"

definition addFailure :: "int \<Rightarrow> string \<Rightarrow> string \<Rightarrow> parse_error message \<Rightarrow> Validator \<Rightarrow> Validator" where
  "addFailure line symbol failureType msg v =
     v\<lparr>v_result := (v_result v)\<lparr>vr_Failures := vr_Failures (v_result v) @
       [\<lparr>vf_Line = line, vf_Symbol = symbol, vf_Type = failureType, vf_Message = msg\<rparr>]\<rparr>\<rparr>"

text \<open>The increments of the result's counters.\<close>

definition inc_Rows :: "Validator \<Rightarrow> Validator" where
  "inc_Rows v = v\<lparr>v_result := (v_result v)\<lparr>vr_Rows := vr_Rows (v_result v) + 1\<rparr>\<rparr>"

definition inc_Malformed :: "Validator \<Rightarrow> Validator" where
  "inc_Malformed v =
     v\<lparr>v_result := (v_result v)\<lparr>vr_MalformedEvents := vr_MalformedEvents (v_result v) + 1\<rparr>\<rparr>"

definition inc_Gaps :: "Validator \<Rightarrow> Validator" where
  "inc_Gaps v = v\<lparr>v_result := (v_result v)\<lparr>vr_SequenceGaps := vr_SequenceGaps (v_result v) + 1\<rparr>\<rparr>"

definition inc_Ordering :: "Validator \<Rightarrow> Validator" where
  "inc_Ordering v =
     v\<lparr>v_result := (v_result v)\<lparr>vr_OrderingFailures := vr_OrderingFailures (v_result v) + 1\<rparr>\<rparr>"

definition inc_Events :: "string \<Rightarrow> Validator \<Rightarrow> Validator" where
  "inc_Events symb v =
     v\<lparr>v_result := (v_result v)\<lparr>vr_Events := vr_Events (v_result v) + 1,
       vr_SymbolEventCounts :=
         (vr_SymbolEventCounts (v_result v))(symb := vr_SymbolEventCounts (v_result v) symb + 1)\<rparr>\<rparr>"

definition checkTime :: "MarketEvent \<Rightarrow> Validator \<Rightarrow> Validator" where
  "checkTime ev v =
     (let eventTime = EventTimeMillis ev; symb = ev_Symbol ev in
      case v_lastTimeMS v symb of
        None \<Rightarrow> v\<lparr>v_lastTimeMS := (v_lastTimeMS v)(symb \<mapsto> eventTime)\<rparr>
      | Some lst \<Rightarrow>
          (let v1 = (if eventTime < lst
                     then addFailure (ev_Line ev) symb ''ordering''
                       (Text ''event_time moved backwards for symbol'') (inc_Ordering v)
                     else v)
           in if eventTime > lst then v1\<lparr>v_lastTimeMS := (v_lastTimeMS v1)(symb \<mapsto> eventTime)\<rparr>
              else v1))"

definition checkDepthSequence :: "MarketEvent \<Rightarrow> Validator \<Rightarrow> Validator" where
  "checkDepthSequence ev v =
     (let symb = ev_Symbol ev in
      case v_lastDepth v symb of
        None \<Rightarrow> v\<lparr>v_lastDepth := (v_lastDepth v)(symb \<mapsto> ev_FinalUpdateID ev)\<rparr>
      | Some lst \<Rightarrow>
          (let v1 = (if ev_FirstUpdateID ev \<noteq> wrap64 (lst + 1)
                     then addFailure (ev_Line ev) symb ''sequence_gap''
                       (Text ''depth first_update_id does not continue after prior final_update_id'')
                       (inc_Gaps v)
                     else v);
               v2 = (if ev_FinalUpdateID ev \<le> lst
                     then addFailure (ev_Line ev) symb ''ordering''
                       (Text ''depth final_update_id did not increase'') (inc_Ordering v1)
                     else v1)
           in if ev_FinalUpdateID ev > lst
              then v2\<lparr>v_lastDepth := (v_lastDepth v2)(symb \<mapsto> ev_FinalUpdateID ev)\<rparr>
              else v2))"

definition checkTradeSequence :: "MarketEvent \<Rightarrow> Validator \<Rightarrow> Validator" where
  "checkTradeSequence ev v =
     (let symb = ev_Symbol ev in
      case v_lastTrade v symb of
        None \<Rightarrow> v\<lparr>v_lastTrade := (v_lastTrade v)(symb \<mapsto> ev_TradeID ev)\<rparr>
      | Some lst \<Rightarrow>
          (let v1 = (if ev_TradeID ev \<noteq> wrap64 (lst + 1)
                     then addFailure (ev_Line ev) symb ''sequence_gap''
                       (Text ''trade_id is not contiguous'') (inc_Gaps v)
                     else v);
               v2 = (if ev_TradeID ev \<le> lst
                     then addFailure (ev_Line ev) symb ''ordering''
                       (Text ''trade_id did not increase'') (inc_Ordering v1)
                     else v1)
           in if ev_TradeID ev > lst
              then v2\<lparr>v_lastTrade := (v_lastTrade v2)(symb \<mapsto> ev_TradeID ev)\<rparr>
              else v2))"

definition checkSequence :: "MarketEvent \<Rightarrow> Validator \<Rightarrow> Validator" where
  "checkSequence ev v =
     (if ev_Type ev = EventTypeDepth then checkDepthSequence ev v
      else if ev_Type ev = EventTypeAggTrade then checkTradeSequence ev v
      else v)"

definition filtered_out :: "Options \<Rightarrow> MarketEvent \<Rightarrow> bool" where
  "filtered_out opts ev \<longleftrightarrow> op_Symbol opts \<noteq> '''' \<and> ev_Symbol ev \<noteq> op_Symbol opts"

definition Process :: "Validator \<Rightarrow> Record \<Rightarrow> Validator" where
  "Process v0 r =
     (let v = inc_Rows v0 in
      case rec_Err r of
        Some e \<Rightarrow> addFailure (rec_Line r) '''' ''malformed'' (ErrorText e) (inc_Malformed v)
      | None \<Rightarrow>
          (let ev = rec_Event r in
           if filtered_out (v_opts v) ev then v
           else checkSequence ev (checkTime ev (inc_Events (ev_Symbol ev) v))))"

text \<open>\<^verbatim>\<open>v.lastX[symb]\<close> of a missing key reads as zero.\<close>

definition raise_to :: "(string \<rightharpoonup> int) \<Rightarrow> string \<Rightarrow> int \<Rightarrow> (string \<rightharpoonup> int)" where
  "raise_to m symb x = (if x > (case m symb of None \<Rightarrow> 0 | Some y \<Rightarrow> y) then m(symb \<mapsto> x) else m)"

definition Prime :: "Validator \<Rightarrow> Record \<Rightarrow> Validator" where
  "Prime v r =
     (case rec_Err r of
        Some _ \<Rightarrow> v
      | None \<Rightarrow>
          (let ev = rec_Event r in
           if filtered_out (v_opts v) ev then v
           else
             let v1 = v\<lparr>v_lastTimeMS := raise_to (v_lastTimeMS v) (ev_Symbol ev) (EventTimeMillis ev)\<rparr>
             in if ev_Type ev = EventTypeDepth
                then v1\<lparr>v_lastDepth := raise_to (v_lastDepth v1) (ev_Symbol ev) (ev_FinalUpdateID ev)\<rparr>
                else if ev_Type ev = EventTypeAggTrade
                then v1\<lparr>v_lastTrade := raise_to (v_lastTrade v1) (ev_Symbol ev) (ev_TradeID ev)\<rparr>
                else v1))"

definition Result_of :: "time \<Rightarrow> Validator \<Rightarrow> Validator \<times> Result" where
  "Result_of now v =
     (let v' = v\<lparr>v_result := (v_result v)\<lparr>vr_CompletedAt := now\<rparr>\<rparr> in (v', v_result v'))"

text \<open>\<^verbatim>\<open>validate.Stream\<close>, \<^verbatim>\<open>validate.Reader\<close> and \<^verbatim>\<open>validate.File\<close>; \<open>t0\<close> and \<open>t1\<close> are the two clock readings.\<close>

definition validate_Stream :: "time \<Rightarrow> time \<Rightarrow> Stream \<Rightarrow> Options \<Rightarrow> stream_error + Result" where
  "validate_Stream t0 t1 s opts =
     (case drain s of
        (rs, None) \<Rightarrow> Inr (snd (Result_of t1 (foldl Process (NewValidator t0 opts) rs)))
      | (rs, Some e) \<Rightarrow> Inl e)"

definition validate_Reader :: "time \<Rightarrow> time \<Rightarrow> bytes \<Rightarrow> Format \<Rightarrow> Options \<Rightarrow> stream_error + Result" where
  "validate_Reader t0 t1 r format opts =
     (case NewStream r format of Inl e \<Rightarrow> Inl e | Inr s \<Rightarrow> validate_Stream t0 t1 s opts)"

definition validate_File ::
  "file_system \<Rightarrow> time \<Rightarrow> time \<Rightarrow> string \<Rightarrow> Format \<Rightarrow> Options \<Rightarrow> stream_error + Result" where
  "validate_File fs t0 t1 path format opts =
     (case Open fs path format of Inl e \<Rightarrow> Inl e | Inr s \<Rightarrow> validate_Stream t0 t1 s opts)"

subsection \<open>The validator as a function of its input\<close>

text \<open>
  The specification the validator refines: what is tracked (three maps of maxima), how one record
  changes it, and the failures one record causes given what is tracked. The counters of the
  result follow from the records and the failures.
\<close>

record Track =
  tr_time :: "string \<rightharpoonup> int"
  tr_depth :: "string \<rightharpoonup> int"
  tr_trade :: "string \<rightharpoonup> int"

definition empty_track :: Track where
  "empty_track = \<lparr>tr_time = Map.empty, tr_depth = Map.empty, tr_trade = Map.empty\<rparr>"

definition track_of :: "Validator \<Rightarrow> Track" where
  "track_of v = \<lparr>tr_time = v_lastTimeMS v, tr_depth = v_lastDepth v, tr_trade = v_lastTrade v\<rparr>"

definition note_max :: "(string \<rightharpoonup> int) \<Rightarrow> string \<Rightarrow> int \<Rightarrow> (string \<rightharpoonup> int)" where
  "note_max m symb x = m(symb \<mapsto> (case m symb of None \<Rightarrow> x | Some y \<Rightarrow> max x y))"

definition relevant :: "Options \<Rightarrow> Record \<Rightarrow> bool" where
  "relevant opts r \<longleftrightarrow> rec_Err r = None \<and> \<not> filtered_out opts (rec_Event r)"

definition track_step :: "Options \<Rightarrow> Track \<Rightarrow> Record \<Rightarrow> Track" where
  "track_step opts tr r =
     (if \<not> relevant opts r then tr
      else let ev = rec_Event r; s = ev_Symbol ev in
        \<lparr>tr_time = note_max (tr_time tr) s (EventTimeMillis ev),
         tr_depth = (if ev_Type ev = EventTypeDepth then note_max (tr_depth tr) s (ev_FinalUpdateID ev)
                     else tr_depth tr),
         tr_trade = (if ev_Type ev = EventTypeAggTrade then note_max (tr_trade tr) s (ev_TradeID ev)
                     else tr_trade tr)\<rparr>)"

definition failure :: "MarketEvent \<Rightarrow> string \<Rightarrow> string \<Rightarrow> Failure" where
  "failure ev t msg = \<lparr>vf_Line = ev_Line ev, vf_Symbol = ev_Symbol ev, vf_Type = t, vf_Message = Text msg\<rparr>"

definition time_failures :: "int option \<Rightarrow> MarketEvent \<Rightarrow> Failure list" where
  "time_failures lst ev =
     (case lst of None \<Rightarrow> []
      | Some l \<Rightarrow> if EventTimeMillis ev < l
                 then [failure ev ''ordering'' ''event_time moved backwards for symbol''] else [])"

definition depth_failures :: "int option \<Rightarrow> MarketEvent \<Rightarrow> Failure list" where
  "depth_failures lst ev =
     (case lst of None \<Rightarrow> []
      | Some l \<Rightarrow>
          (if ev_FirstUpdateID ev \<noteq> wrap64 (l + 1)
           then [failure ev ''sequence_gap''
             ''depth first_update_id does not continue after prior final_update_id''] else []) @
          (if ev_FinalUpdateID ev \<le> l
           then [failure ev ''ordering'' ''depth final_update_id did not increase''] else []))"

definition trade_failures :: "int option \<Rightarrow> MarketEvent \<Rightarrow> Failure list" where
  "trade_failures lst ev =
     (case lst of None \<Rightarrow> []
      | Some l \<Rightarrow>
          (if ev_TradeID ev \<noteq> wrap64 (l + 1)
           then [failure ev ''sequence_gap'' ''trade_id is not contiguous''] else []) @
          (if ev_TradeID ev \<le> l
           then [failure ev ''ordering'' ''trade_id did not increase''] else []))"

definition step_failures :: "Options \<Rightarrow> Track \<Rightarrow> Record \<Rightarrow> Failure list" where
  "step_failures opts tr r =
     (case rec_Err r of
        Some e \<Rightarrow> [\<lparr>vf_Line = rec_Line r, vf_Symbol = '''', vf_Type = ''malformed'',
                    vf_Message = ErrorText e\<rparr>]
      | None \<Rightarrow>
          (let ev = rec_Event r; s = ev_Symbol ev in
           if filtered_out opts ev then []
           else time_failures (tr_time tr s) ev @
             (if ev_Type ev = EventTypeDepth then depth_failures (tr_depth tr s) ev
              else if ev_Type ev = EventTypeAggTrade then trade_failures (tr_trade tr s) ev
              else [])))"

fun run_failures :: "Options \<Rightarrow> Track \<Rightarrow> Record list \<Rightarrow> Failure list" where
  "run_failures opts tr [] = []"
| "run_failures opts tr (r # rs) =
     step_failures opts tr r @ run_failures opts (track_step opts tr r) rs"

definition of_type :: "string \<Rightarrow> Failure list \<Rightarrow> int" where
  "of_type t fs = int (length (filter (\<lambda>f. vf_Type f = t) fs))"

lemma of_type_simps [simp]:
  "of_type t [] = 0"
  "of_type t (f # fs) = (if vf_Type f = t then 1 else 0) + of_type t fs"
  "of_type t (fs @ gs) = of_type t fs + of_type t gs"
  by (simp_all add: of_type_def)

lemma failure_type [simp]: "vf_Type (failure ev t m) = t" "vf_Symbol (failure ev t m) = ev_Symbol ev"
  "vf_Line (failure ev t m) = ev_Line ev"
  by (simp_all add: failure_def)

lemmas inc_defs = inc_Rows_def inc_Malformed_def inc_Gaps_def inc_Ordering_def inc_Events_def
  addFailure_def

lemmas failures_defs = time_failures_def depth_failures_def trade_failures_def

text \<open>Each check, as a change of the tracked maxima and a list of failures.\<close>

definition add_failures :: "Failure list \<Rightarrow> Validator \<Rightarrow> Validator" where
  "add_failures fs v =
     v\<lparr>v_result := (v_result v)\<lparr>
       vr_MalformedEvents := vr_MalformedEvents (v_result v) + of_type ''malformed'' fs,
       vr_SequenceGaps := vr_SequenceGaps (v_result v) + of_type ''sequence_gap'' fs,
       vr_OrderingFailures := vr_OrderingFailures (v_result v) + of_type ''ordering'' fs,
       vr_Failures := vr_Failures (v_result v) @ fs\<rparr>\<rparr>"

lemma checkTime_spec:
  "checkTime ev v = add_failures (time_failures (v_lastTimeMS v (ev_Symbol ev)) ev)
     (v\<lparr>v_lastTimeMS := note_max (v_lastTimeMS v) (ev_Symbol ev) (EventTimeMillis ev)\<rparr>)"
  by (auto simp: checkTime_def inc_defs failures_defs failure_def add_failures_def note_max_def
      fun_upd_idem max_def split: option.splits)

lemma checkDepthSequence_spec:
  "checkDepthSequence ev v = add_failures (depth_failures (v_lastDepth v (ev_Symbol ev)) ev)
     (v\<lparr>v_lastDepth := note_max (v_lastDepth v) (ev_Symbol ev) (ev_FinalUpdateID ev)\<rparr>)"
  by (auto simp: checkDepthSequence_def inc_defs failures_defs failure_def add_failures_def
      note_max_def fun_upd_idem max_def Let_def split: option.splits)

lemma checkTradeSequence_spec:
  "checkTradeSequence ev v = add_failures (trade_failures (v_lastTrade v (ev_Symbol ev)) ev)
     (v\<lparr>v_lastTrade := note_max (v_lastTrade v) (ev_Symbol ev) (ev_TradeID ev)\<rparr>)"
  by (auto simp: checkTradeSequence_def inc_defs failures_defs failure_def add_failures_def
      note_max_def fun_upd_idem max_def Let_def split: option.splits)

lemmas check_specs = checkTime_spec checkDepthSequence_spec checkTradeSequence_spec

lemma Process_opts [simp]: "v_opts (Process v r) = v_opts v"
  by (auto simp: Process_def checkSequence_def check_specs add_failures_def inc_defs Let_def
      split: option.splits)

lemma Process_track: "track_of (Process v r) = track_step (v_opts v) (track_of v) r"
  by (auto simp: Process_def checkSequence_def check_specs add_failures_def inc_defs Let_def
      track_of_def track_step_def relevant_def split: option.splits)

lemma Process_result:
  "vr_Failures (v_result (Process v r)) =
     vr_Failures (v_result v) @ step_failures (v_opts v) (track_of v) r"
  "vr_Rows (v_result (Process v r)) = vr_Rows (v_result v) + 1"
  "vr_Events (v_result (Process v r)) = vr_Events (v_result v) + (if relevant (v_opts v) r then 1 else 0)"
  "vr_MalformedEvents (v_result (Process v r)) = vr_MalformedEvents (v_result v) +
     of_type ''malformed'' (step_failures (v_opts v) (track_of v) r)"
  "vr_SequenceGaps (v_result (Process v r)) = vr_SequenceGaps (v_result v) +
     of_type ''sequence_gap'' (step_failures (v_opts v) (track_of v) r)"
  "vr_OrderingFailures (v_result (Process v r)) = vr_OrderingFailures (v_result v) +
     of_type ''ordering'' (step_failures (v_opts v) (track_of v) r)"
  "vr_SymbolEventCounts (v_result (Process v r)) s = vr_SymbolEventCounts (v_result v) s +
     (if relevant (v_opts v) r \<and> ev_Symbol (rec_Event r) = s then 1 else 0)"
  "vr_StartedAt (v_result (Process v r)) = vr_StartedAt (v_result v)"
  by (auto simp: Process_def checkSequence_def check_specs add_failures_def inc_defs Let_def
      track_of_def step_failures_def relevant_def split: option.splits)

subsection \<open>Runs\<close>

definition count_events :: "Options \<Rightarrow> Record list \<Rightarrow> int" where
  "count_events opts rs = int (length (filter (relevant opts) rs))"

definition count_symbol :: "Options \<Rightarrow> string \<Rightarrow> Record list \<Rightarrow> int" where
  "count_symbol opts s rs =
     int (length (filter (\<lambda>r. relevant opts r \<and> ev_Symbol (rec_Event r) = s) rs))"

lemma foldl_Process_opts [simp]: "v_opts (foldl Process v rs) = v_opts v"
  by (induction rs arbitrary: v) simp_all

lemma foldl_Process_track:
  "track_of (foldl Process v rs) = foldl (track_step (v_opts v)) (track_of v) rs"
  by (induction rs arbitrary: v) (simp_all add: Process_track)

lemma foldl_Process_result:
  "vr_Failures (v_result (foldl Process v rs)) =
     vr_Failures (v_result v) @ run_failures (v_opts v) (track_of v) rs"
  "vr_Rows (v_result (foldl Process v rs)) = vr_Rows (v_result v) + int (length rs)"
  "vr_Events (v_result (foldl Process v rs)) = vr_Events (v_result v) + count_events (v_opts v) rs"
  "vr_MalformedEvents (v_result (foldl Process v rs)) = vr_MalformedEvents (v_result v) +
     of_type ''malformed'' (run_failures (v_opts v) (track_of v) rs)"
  "vr_SequenceGaps (v_result (foldl Process v rs)) = vr_SequenceGaps (v_result v) +
     of_type ''sequence_gap'' (run_failures (v_opts v) (track_of v) rs)"
  "vr_OrderingFailures (v_result (foldl Process v rs)) = vr_OrderingFailures (v_result v) +
     of_type ''ordering'' (run_failures (v_opts v) (track_of v) rs)"
  "vr_SymbolEventCounts (v_result (foldl Process v rs)) s =
     vr_SymbolEventCounts (v_result v) s + count_symbol (v_opts v) s rs"
  by (induction rs arbitrary: v)
    (simp_all add: Process_result Process_track count_events_def count_symbol_def)

lemma NewValidator_simps [simp]:
  "v_opts (NewValidator now opts) = opts" "track_of (NewValidator now opts) = empty_track"
  "vr_Failures (v_result (NewValidator now opts)) = []"
  "vr_Rows (v_result (NewValidator now opts)) = 0" "vr_Events (v_result (NewValidator now opts)) = 0"
  "vr_MalformedEvents (v_result (NewValidator now opts)) = 0"
  "vr_SequenceGaps (v_result (NewValidator now opts)) = 0"
  "vr_OrderingFailures (v_result (NewValidator now opts)) = 0"
  "vr_SymbolEventCounts (v_result (NewValidator now opts)) s = 0"
  by (simp_all add: NewValidator_def track_of_def empty_track_def)

lemma Result_of_simps [simp]:
  "vr_Failures (snd (Result_of t v)) = vr_Failures (v_result v)"
  "vr_Rows (snd (Result_of t v)) = vr_Rows (v_result v)"
  "vr_Events (snd (Result_of t v)) = vr_Events (v_result v)"
  "vr_MalformedEvents (snd (Result_of t v)) = vr_MalformedEvents (v_result v)"
  "vr_SequenceGaps (snd (Result_of t v)) = vr_SequenceGaps (v_result v)"
  "vr_OrderingFailures (snd (Result_of t v)) = vr_OrderingFailures (v_result v)"
  "vr_SymbolEventCounts (snd (Result_of t v)) = vr_SymbolEventCounts (v_result v)"
  by (simp_all add: Result_of_def)

lemma run_failures_append:
  "run_failures opts tr (rs @ rs') =
     run_failures opts tr rs @ run_failures opts (foldl (track_step opts) tr rs) rs'"
  by (induction rs arbitrary: tr) simp_all

lemma step_failures_types:
  "f \<in> set (step_failures opts tr r) \<Longrightarrow> vf_Type f \<in> {''malformed'', ''sequence_gap'', ''ordering''}"
  by (auto simp: step_failures_def failures_defs Let_def split: option.splits if_splits)

lemma run_failures_types:
  "f \<in> set (run_failures opts tr rs) \<Longrightarrow> vf_Type f \<in> {''malformed'', ''sequence_gap'', ''ordering''}"
  by (induction rs arbitrary: tr) (auto dest: step_failures_types)

lemma of_type_sum:
  assumes "\<forall>f \<in> set fs. vf_Type f \<in> {''malformed'', ''sequence_gap'', ''ordering''}"
  shows "int (length fs) = of_type ''malformed'' fs + of_type ''sequence_gap'' fs + of_type ''ordering'' fs"
  using assms by (induction fs) auto

lemma of_type_malformed:
  "of_type ''malformed'' (run_failures opts tr rs) = int (length (filter (\<lambda>r. rec_Err r \<noteq> None) rs))"
  by (induction rs arbitrary: tr)
    (auto simp: step_failures_def failures_defs Let_def split: option.splits)

text \<open>
  C3: the counters of a finished validation agree with its rows and its failures. Every row is
  counted once: as malformed, as an event, or as a row of another symbol. Every failure is counted
  by exactly one of the three failure counters, the malformed counter is the number of malformed
  rows, and the count of a symbol is the number of its events.
\<close>

theorem validate_counters:
  assumes "validate_Stream t0 t1 s opts = Inr res"
  shows "vr_Rows res = int (length (fst (drain s))) \<and>
    vr_Rows res = vr_MalformedEvents res + vr_Events res +
      int (length (filter (\<lambda>r. rec_Err r = None \<and> filtered_out opts (rec_Event r)) (fst (drain s)))) \<and>
    int (length (vr_Failures res)) =
      vr_MalformedEvents res + vr_SequenceGaps res + vr_OrderingFailures res \<and>
    vr_MalformedEvents res = int (length (filter (\<lambda>r. rec_Err r \<noteq> None) (fst (drain s)))) \<and>
    vr_SymbolEventCounts res symb = count_symbol opts symb (fst (drain s))"
proof -
  obtain rs where rs: "drain s = (rs, None)"
    and res: "res = snd (Result_of t1 (foldl Process (NewValidator t0 opts) rs))"
    using assms by (auto simp: validate_Stream_def split: prod.splits option.splits)
  let ?fs = "run_failures opts empty_track rs"
  have "int (length rs) = int (length (filter (\<lambda>r. rec_Err r \<noteq> None) rs)) +
      count_events opts rs +
      int (length (filter (\<lambda>r. rec_Err r = None \<and> filtered_out opts (rec_Event r)) rs))"
    by (induction rs) (auto simp: count_events_def relevant_def)
  moreover have "int (length ?fs) =
      of_type ''malformed'' ?fs + of_type ''sequence_gap'' ?fs + of_type ''ordering'' ?fs"
    by (rule of_type_sum) (rule ballI, rule run_failures_types)
  ultimately show ?thesis
    by (simp add: rs res foldl_Process_result of_type_malformed)
qed

subsection \<open>Priming a prefix\<close>

text \<open>A record whose ids and time are positive, as priming expects.\<close>

definition positive_record :: "Record \<Rightarrow> bool" where
  "positive_record r \<longleftrightarrow> (rec_Err r = None \<longrightarrow>
     (let ev = rec_Event r in
      0 < EventTimeMillis ev \<and> (ev_Type ev = EventTypeDepth \<longrightarrow> 0 < ev_FinalUpdateID ev) \<and>
      (ev_Type ev = EventTypeAggTrade \<longrightarrow> 0 < ev_TradeID ev)))"

lemma raise_to_positive: "0 < x \<Longrightarrow> raise_to m s x = note_max m s x"
  by (auto simp: raise_to_def note_max_def max_def fun_upd_idem split: option.splits)

lemma Prime_track:
  "positive_record r \<Longrightarrow> track_of (Prime v r) = track_step (v_opts v) (track_of v) r"
  by (auto simp: Prime_def track_of_def track_step_def relevant_def positive_record_def Let_def
      raise_to_positive split: option.splits)

lemma Prime_result [simp]: "v_result (Prime v r) = v_result v" "v_opts (Prime v r) = v_opts v"
  by (auto simp: Prime_def Let_def split: option.splits)

lemma foldl_Prime:
  "v_result (foldl Prime v rs) = v_result v" "v_opts (foldl Prime v rs) = v_opts v"
  "list_all positive_record rs \<Longrightarrow>
    track_of (foldl Prime v rs) = foldl (track_step (v_opts v)) (track_of v) rs"
  by (induction rs arbitrary: v) (simp_all add: Prime_track)

lemma parsed_positive:
  "record_ok r \<Longrightarrow> (rec_Err r = None \<Longrightarrow> ev_Type (rec_Event r) = EventTypeDepth \<Longrightarrow>
     0 < ev_FinalUpdateID (rec_Event r)) \<Longrightarrow> positive_record r"
  by (auto simp: record_ok_def event_shape_def positive_record_def Let_def EventTimeMillis_def)

text \<open>
  C2: resuming after a checkpoint is sound. Priming the rows up to the checkpoint and processing
  the rest reports exactly the failures a full run reports for the rest, in the same order,
  and the full run's counters are those of the prefix plus those of the resumed run, provided
  the primed rows have positive update ids (times and trade ids always are, by the parser).
\<close>

theorem resume_equals_full_run:
  assumes "list_all record_ok pre"
    and "\<forall>r \<in> set pre. rec_Err r = None \<longrightarrow> ev_Type (rec_Event r) = EventTypeDepth \<longrightarrow>
      0 < ev_FinalUpdateID (rec_Event r)"
  shows "let v0 = NewValidator t opts;
      full = v_result (foldl Process v0 (pre @ post));
      prefix = v_result (foldl Process v0 pre);
      resumed = v_result (foldl Process (foldl Prime v0 pre) post)
    in vr_Failures full = vr_Failures prefix @ vr_Failures resumed \<and>
      vr_Rows full = vr_Rows prefix + vr_Rows resumed \<and>
      vr_Events full = vr_Events prefix + vr_Events resumed \<and>
      vr_MalformedEvents full = vr_MalformedEvents prefix + vr_MalformedEvents resumed \<and>
      vr_SequenceGaps full = vr_SequenceGaps prefix + vr_SequenceGaps resumed \<and>
      vr_OrderingFailures full = vr_OrderingFailures prefix + vr_OrderingFailures resumed"
proof -
  have "list_all positive_record pre"
    using assms by (auto simp: list_all_iff intro!: parsed_positive)
  then have "track_of (foldl Prime (NewValidator t opts) pre) = foldl (track_step opts) empty_track pre"
    by (simp add: foldl_Prime)
  then show ?thesis
    by (simp add: Let_def foldl_Process_result foldl_Prime(1,2) run_failures_append count_events_def
        del: foldl_append)
qed

text \<open>
  What priming loses without that proviso: a depth event whose final update id is not positive is
  not recorded by priming, so the gap behind it goes unreported after a resume.
\<close>

lemma Prime_nonpositive_id:
  assumes "rec_Err r = None" "ev_Type (rec_Event r) = EventTypeDepth" "ev_FinalUpdateID (rec_Event r) \<le> 0"
    "v_lastDepth v (ev_Symbol (rec_Event r)) = None"
  shows "v_lastDepth (Prime v r) (ev_Symbol (rec_Event r)) = None"
  using assms by (simp add: Prime_def raise_to_def Let_def)

subsection \<open>Filtering by symbol\<close>

definition agree_at :: "string \<Rightarrow> Track \<Rightarrow> Track \<Rightarrow> bool" where
  "agree_at s tr tr' \<longleftrightarrow>
     tr_time tr s = tr_time tr' s \<and> tr_depth tr s = tr_depth tr' s \<and> tr_trade tr s = tr_trade tr' s"

lemma note_max_apply [simp]:
  "note_max m s x s' = (if s' = s then Some (case m s of None \<Rightarrow> x | Some y \<Rightarrow> max x y) else m s')"
  by (simp add: note_max_def)

definition kept :: "string \<Rightarrow> Failure \<Rightarrow> bool" where
  "kept s f \<longleftrightarrow> vf_Symbol f = s \<or> vf_Type f = ''malformed''"

lemma filter_fixed_symbol:
  "(\<And>f. f \<in> set fs \<Longrightarrow> vf_Symbol f = s' \<and> vf_Type f \<noteq> ''malformed'') \<Longrightarrow>
    filter (kept s) fs = (if s' = s then fs else [])"
  by (induction fs) (auto simp: kept_def)

definition event_failures :: "Track \<Rightarrow> MarketEvent \<Rightarrow> Failure list" where
  "event_failures tr ev =
     time_failures (tr_time tr (ev_Symbol ev)) ev @
     (if ev_Type ev = EventTypeDepth then depth_failures (tr_depth tr (ev_Symbol ev)) ev
      else if ev_Type ev = EventTypeAggTrade then trade_failures (tr_trade tr (ev_Symbol ev)) ev
      else [])"

lemma step_failures_event:
  "rec_Err r = None \<Longrightarrow> step_failures opts tr r =
     (if filtered_out opts (rec_Event r) then [] else event_failures tr (rec_Event r))"
  by (simp add: step_failures_def event_failures_def Let_def)

lemma event_failures_symbol:
  "f \<in> set (event_failures tr ev) \<Longrightarrow> vf_Symbol f = ev_Symbol ev \<and> vf_Type f \<noteq> ''malformed''"
  by (auto simp: event_failures_def failures_defs split: option.splits if_splits)

lemma run_failures_filter:
  assumes "list_all record_ok rs" "s \<noteq> ''''" "agree_at s tr tr'"
  shows "run_failures \<lparr>op_Symbol = s\<rparr> tr rs = filter (kept s) (run_failures \<lparr>op_Symbol = ''''\<rparr> tr' rs)"
  using assms(1,3)
proof (induction rs arbitrary: tr tr')
  case (Cons r rs)
  show ?case
  proof (cases "rec_Err r")
    case (Some e)
    then show ?thesis
      using Cons by (simp add: step_failures_def track_step_def relevant_def kept_def)
  next
    case None
    let ?ev = "rec_Event r"
    have un: "\<not> filtered_out \<lparr>op_Symbol = ''''\<rparr> ?ev" by (simp add: filtered_out_def)
    have flt: "filtered_out \<lparr>op_Symbol = s\<rparr> ?ev \<longleftrightarrow> ev_Symbol ?ev \<noteq> s"
      using assms(2) by (simp add: filtered_out_def)
    have "step_failures \<lparr>op_Symbol = s\<rparr> tr r = filter (kept s) (step_failures \<lparr>op_Symbol = ''''\<rparr> tr' r)"
    proof -
      have "filter (kept s) (event_failures tr' ?ev) =
          (if ev_Symbol ?ev = s then event_failures tr' ?ev else [])"
        by (rule filter_fixed_symbol) (rule event_failures_symbol)
      moreover have "ev_Symbol ?ev = s \<Longrightarrow> event_failures tr ?ev = event_failures tr' ?ev"
        using Cons.prems(2) by (simp add: event_failures_def agree_at_def)
      ultimately show ?thesis
        using None un flt by (simp add: step_failures_event)
    qed
    moreover have "agree_at s (track_step \<lparr>op_Symbol = s\<rparr> tr r) (track_step \<lparr>op_Symbol = ''''\<rparr> tr' r)"
      using None un flt Cons.prems(2)
      by (auto simp: agree_at_def track_step_def relevant_def Let_def)
    ultimately show ?thesis using Cons by simp
  qed
qed simp

text \<open>
  C4: validating with a symbol filter reports what an unfiltered validation reports for that
  symbol: the same failures in the same order, together with the malformed rows (which have
  no symbol), and as many events as the unfiltered run counts for the symbol. Events of other
  symbols in between have no influence.
\<close>

theorem symbol_filter_is_projection:
  assumes "list_all record_ok rs" "s \<noteq> ''''"
  shows "let filtered = v_result (foldl Process (NewValidator t \<lparr>op_Symbol = s\<rparr>) rs);
      all = v_result (foldl Process (NewValidator t \<lparr>op_Symbol = ''''\<rparr>) rs)
    in vr_Failures filtered =
         filter (\<lambda>f. vf_Symbol f = s \<or> vf_Type f = ''malformed'') (vr_Failures all) \<and>
       vr_Events filtered = vr_SymbolEventCounts all s"
proof -
  have "run_failures \<lparr>op_Symbol = s\<rparr> empty_track rs =
      filter (kept s) (run_failures \<lparr>op_Symbol = ''''\<rparr> empty_track rs)"
    using assms by (rule run_failures_filter) (simp add: agree_at_def)
  moreover have "count_events \<lparr>op_Symbol = s\<rparr> rs = count_symbol \<lparr>op_Symbol = ''''\<rparr> s rs"
    using assms(2) by (induction rs) (auto simp: count_events_def count_symbol_def relevant_def filtered_out_def)
  ultimately show ?thesis
    by (simp add: foldl_Process_result kept_def [abs_def])
qed

subsection \<open>Clean runs\<close>

definition events_of :: "string \<Rightarrow> Record list \<Rightarrow> MarketEvent list" where
  "events_of s rs = map rec_Event (filter (\<lambda>r. rec_Err r = None \<and> ev_Symbol (rec_Event r) = s) rs)"

definition depths_of :: "string \<Rightarrow> Record list \<Rightarrow> MarketEvent list" where
  "depths_of s rs = filter (\<lambda>e. ev_Type e = EventTypeDepth) (events_of s rs)"

definition trades_of :: "string \<Rightarrow> Record list \<Rightarrow> MarketEvent list" where
  "trades_of s rs = filter (\<lambda>e. ev_Type e = EventTypeAggTrade) (events_of s rs)"

text \<open>
  A clean input: no malformed row, and for every symbol times that do not go back, depth updates
  that continue one another and consecutive trade ids.
\<close>

definition clean_input :: "Record list \<Rightarrow> bool" where
  "clean_input rs \<longleftrightarrow> (\<forall>r \<in> set rs. rec_Err r = None) \<and>
     (\<forall>s. successively (\<lambda>a b. EventTimeMillis a \<le> EventTimeMillis b) (events_of s rs) \<and>
       successively (\<lambda>a b. ev_FirstUpdateID b = ev_FinalUpdateID a + 1) (depths_of s rs) \<and>
       successively (\<lambda>a b. ev_TradeID b = ev_TradeID a + 1) (trades_of s rs))"

definition last_opt :: "'a list \<Rightarrow> 'a option" where
  "last_opt xs = (if xs = [] then None else Some (last xs))"

definition follows :: "('a \<Rightarrow> 'a \<Rightarrow> bool) \<Rightarrow> 'a list \<Rightarrow> 'a \<Rightarrow> bool" where
  "follows P xs y \<longleftrightarrow> (case last_opt xs of None \<Rightarrow> True | Some x \<Rightarrow> P x y)"

lemma successively_snoc: "successively P (xs @ [y]) \<longleftrightarrow> successively P xs \<and> follows P xs y"
  by (auto simp: successively_append_iff follows_def last_opt_def)

lemma of_snoc:
  "events_of s (rs @ [r]) =
     events_of s rs @ (if rec_Err r = None \<and> ev_Symbol (rec_Event r) = s then [rec_Event r] else [])"
  "depths_of s (rs @ [r]) = depths_of s rs @ (if rec_Err r = None \<and> ev_Symbol (rec_Event r) = s \<and>
     ev_Type (rec_Event r) = EventTypeDepth then [rec_Event r] else [])"
  "trades_of s (rs @ [r]) = trades_of s rs @ (if rec_Err r = None \<and> ev_Symbol (rec_Event r) = s \<and>
     ev_Type (rec_Event r) = EventTypeAggTrade then [rec_Event r] else [])"
  by (simp_all add: events_of_def depths_of_def trades_of_def)

lemma last_opt_snoc [simp]: "last_opt (xs @ [x]) = Some x" "last_opt [] = None"
  by (simp_all add: last_opt_def)

lemma clean_snoc:
  assumes "rec_Err r = None"
  defines "ev \<equiv> rec_Event r"
  defines "s \<equiv> ev_Symbol ev"
  shows "clean_input (rs @ [r]) \<longleftrightarrow> clean_input rs \<and>
    follows (\<lambda>a b. EventTimeMillis a \<le> EventTimeMillis b) (events_of s rs) ev \<and>
    (ev_Type ev = EventTypeDepth \<longrightarrow>
      follows (\<lambda>a b. ev_FirstUpdateID b = ev_FinalUpdateID a + 1) (depths_of s rs) ev) \<and>
    (ev_Type ev = EventTypeAggTrade \<longrightarrow>
      follows (\<lambda>a b. ev_TradeID b = ev_TradeID a + 1) (trades_of s rs) ev)"
  using assms(1) unfolding clean_input_def of_snoc ev_def s_def
  by (auto simp: successively_snoc split: if_splits)

definition shaped :: "Record \<Rightarrow> bool" where
  "shaped r \<longleftrightarrow> rec_Err r = None \<longrightarrow> event_shape (rec_Event r)"

lemma continues_iff:
  assumes "int64 l" "int64 x" "int64 y" "x \<le> y"
  shows "(x = wrap64 (l + 1) \<and> l < y) \<longleftrightarrow> x = l + 1"
proof (cases "int64 (l + 1)")
  case True
  then show ?thesis using assms by auto
next
  case False
  then have "l = 2 ^ 63 - 1" using assms(1) by (auto simp: int64_def)
  then show ?thesis using assms(2,3) by (auto simp: int64_def)
qed

lemma time_failures_Nil:
  "time_failures (map_option EventTimeMillis (last_opt xs)) ev = [] \<longleftrightarrow>
    follows (\<lambda>a b. EventTimeMillis a \<le> EventTimeMillis b) xs ev"
  by (auto simp: time_failures_def follows_def split: option.splits)

lemma depth_failures_Nil:
  assumes "event_shape ev" "ev_Type ev = EventTypeDepth" "\<forall>e \<in> set xs. event_shape e"
  shows "depth_failures (map_option ev_FinalUpdateID (last_opt xs)) ev = [] \<longleftrightarrow>
    follows (\<lambda>a b. ev_FirstUpdateID b = ev_FinalUpdateID a + 1) xs ev"
proof (cases "xs = []")
  case False
  then have "event_shape (last xs)" using assms(3) by simp
  then have "int64 (ev_FinalUpdateID (last xs))" "int64 (ev_FirstUpdateID ev)"
    "int64 (ev_FinalUpdateID ev)" "ev_FirstUpdateID ev \<le> ev_FinalUpdateID ev"
    using assms(1,2) by (auto simp: event_shape_def int64_event_def)
  from continues_iff [OF this] show ?thesis
    using False by (auto simp: depth_failures_def follows_def last_opt_def)
qed (simp add: depth_failures_def follows_def)

lemma trade_failures_Nil:
  assumes "event_shape ev" "ev_Type ev = EventTypeAggTrade" "\<forall>e \<in> set xs. event_shape e"
  shows "trade_failures (map_option ev_TradeID (last_opt xs)) ev = [] \<longleftrightarrow>
    follows (\<lambda>a b. ev_TradeID b = ev_TradeID a + 1) xs ev"
proof (cases "xs = []")
  case False
  then have "event_shape (last xs)" using assms(3) by simp
  then have "int64 (ev_TradeID (last xs))" "int64 (ev_TradeID ev)" "int64 (ev_TradeID ev)"
    "ev_TradeID ev \<le> ev_TradeID ev"
    using assms(1,2) by (auto simp: event_shape_def int64_event_def)
  from continues_iff [OF this] show ?thesis
    using False by (auto simp: trade_failures_def follows_def last_opt_def)
qed (simp add: trade_failures_def follows_def)

text \<open>After a clean input, the tracked maxima are the values of the last events.\<close>

definition tracks_last :: "Track \<Rightarrow> Record list \<Rightarrow> bool" where
  "tracks_last tr rs \<longleftrightarrow> (\<forall>s.
     tr_time tr s = map_option EventTimeMillis (last_opt (events_of s rs)) \<and>
     tr_depth tr s = map_option ev_FinalUpdateID (last_opt (depths_of s rs)) \<and>
     tr_trade tr s = map_option ev_TradeID (last_opt (trades_of s rs)))"

abbreviation "no_filter \<equiv> \<lparr>op_Symbol = ''''\<rparr>"

abbreviation "track_run rs \<equiv> foldl (track_step no_filter) empty_track rs"

lemma follows_max:
  "follows (\<lambda>a b. f a \<le> f b) xs y \<Longrightarrow>
    (case map_option f (last_opt xs) of None \<Rightarrow> f y | Some z \<Rightarrow> max (f y) z) = f y"
  for f :: "'a \<Rightarrow> int"
  by (auto simp: follows_def max_def split: option.splits)

lemma follows_mono: "follows P xs y \<Longrightarrow> (\<And>x. P x y \<Longrightarrow> Q x y) \<Longrightarrow> follows Q xs y"
  by (auto simp: follows_def split: option.splits)

lemma tracks_last_step:
  assumes "tracks_last tr rs" "rec_Err r = None" "event_shape (rec_Event r)" "clean_input (rs @ [r])"
  shows "tracks_last (track_step no_filter tr r) (rs @ [r])"
proof -
  let ?ev = "rec_Event r"
  let ?s = "ev_Symbol ?ev"
  note c = clean_snoc [OF assms(2), THEN iffD1, OF assms(4)]
  have "(case map_option EventTimeMillis (last_opt (events_of ?s rs)) of
      None \<Rightarrow> EventTimeMillis ?ev | Some z \<Rightarrow> max (EventTimeMillis ?ev) z) = EventTimeMillis ?ev"
    using c by (intro follows_max) simp
  moreover have "ev_Type ?ev = EventTypeDepth \<Longrightarrow>
      (case map_option ev_FinalUpdateID (last_opt (depths_of ?s rs)) of
        None \<Rightarrow> ev_FinalUpdateID ?ev | Some z \<Rightarrow> max (ev_FinalUpdateID ?ev) z) = ev_FinalUpdateID ?ev"
    using c assms(3)
    by (intro follows_max) (auto simp: event_shape_def elim!: follows_mono)
  moreover have "ev_Type ?ev = EventTypeAggTrade \<Longrightarrow>
      (case map_option ev_TradeID (last_opt (trades_of ?s rs)) of
        None \<Rightarrow> ev_TradeID ?ev | Some z \<Rightarrow> max (ev_TradeID ?ev) z) = ev_TradeID ?ev"
    using c by (intro follows_max) (auto elim!: follows_mono)
  ultimately show ?thesis
    using assms(1,2)
    by (auto simp: tracks_last_def of_snoc track_step_def relevant_def filtered_out_def Let_def)
qed

lemma shaped_events: "list_all shaped rs \<Longrightarrow> e \<in> set (events_of s rs) \<Longrightarrow> event_shape e"
  by (auto simp: events_of_def shaped_def list_all_iff)

lemma step_failures_clean:
  assumes "tracks_last tr rs" "rec_Err r = None" "event_shape (rec_Event r)" "list_all shaped rs"
    "clean_input rs"
  shows "step_failures no_filter tr r = [] \<longleftrightarrow> clean_input (rs @ [r])"
proof -
  let ?ev = "rec_Event r"
  let ?s = "ev_Symbol ?ev"
  have sh: "\<forall>e \<in> set (depths_of ?s rs). event_shape e" "\<forall>e \<in> set (trades_of ?s rs). event_shape e"
    using shaped_events [OF assms(4)] by (auto simp: depths_of_def trades_of_def)
  have "step_failures no_filter tr r = event_failures tr ?ev"
    using assms(2) by (simp add: step_failures_event filtered_out_def)
  also have "\<dots> = [] \<longleftrightarrow> clean_input (rs @ [r])"
    using assms(1,3,5) sh depth_failures_Nil [of ?ev] trade_failures_Nil [of ?ev]
    by (auto simp: event_failures_def tracks_last_def clean_snoc [OF assms(2)] time_failures_Nil)
  finally show ?thesis .
qed

lemma clean_prefix: "clean_input (rs @ [r]) \<Longrightarrow> clean_input rs \<and> rec_Err r = None"
  using clean_snoc [of r rs] by (auto simp: clean_input_def)

lemma run_clean:
  "list_all shaped rs \<Longrightarrow>
    (run_failures no_filter empty_track rs = [] \<longleftrightarrow> clean_input rs) \<and>
    (clean_input rs \<longrightarrow> tracks_last (track_run rs) rs)"
proof (induction rs rule: rev_induct)
  case Nil
  show ?case
    by (simp add: clean_input_def tracks_last_def events_of_def depths_of_def trades_of_def empty_track_def)
next
  case (snoc r rs)
  have IH: "run_failures no_filter empty_track rs = [] \<longleftrightarrow> clean_input rs"
    "clean_input rs \<Longrightarrow> tracks_last (track_run rs) rs"
    using snoc by auto
  show ?case
  proof (cases "clean_input rs \<and> rec_Err r = None")
    case True
    then have "event_shape (rec_Event r)" using snoc.prems by (simp add: shaped_def)
    then show ?thesis
      using True IH snoc.prems step_failures_clean [of "track_run rs" rs r]
        tracks_last_step [of "track_run rs" rs r]
      by (auto simp: run_failures_append)
  next
    case False
    then have "\<not> clean_input (rs @ [r])" using clean_prefix by blast
    moreover have "rec_Err r \<noteq> None \<Longrightarrow> step_failures no_filter tr r \<noteq> []" for tr
      by (auto simp: step_failures_def)
    ultimately show ?thesis using False IH by (auto simp: run_failures_append)
  qed
qed

text \<open>
  C1: the validator reports nothing exactly on clean input. For rows as the parser delivers
  them, an unfiltered run ends without a failure if and only if no row is malformed and, for each
  symbol, times never go back, each depth update starts one after the previous one ended, and
  trade ids are consecutive.
\<close>

theorem no_failures_iff_clean:
  assumes "list_all record_ok rs"
  shows "vr_Failures (v_result (foldl Process (NewValidator t \<lparr>op_Symbol = ''''\<rparr>) rs)) = []
    \<longleftrightarrow> clean_input rs"
proof -
  have "list_all shaped rs"
    using assms by (auto simp: list_all_iff shaped_def record_ok_def)
  then show ?thesis
    using run_clean by (simp add: foldl_Process_result)
qed

subsection \<open>The theorems at work\<close>

text \<open>Three contiguous rows; rows with a gap and a time that goes back.\<close>

abbreviation "clean_rows \<equiv> [sample_record 1 5 1 2, sample_record 2 6 3 3, sample_record 3 6 4 9]"
abbreviation "bad_rows \<equiv> [sample_record 1 5 1 2, sample_record 2 4 4 6]"

lemma sample_rows_ok: "list_all record_ok clean_rows" "list_all record_ok bad_rows"
  by (simp_all add: sample_record_ok int64_def)

theorem validate_counters_witness:
  "case validate_Stream 0 0 \<lparr>st_format = FormatJSONL, st_input = sample_line @ [CHR 0x0A] @ ''broken'',
      st_header = Map.empty, st_line = 0, st_faults = 0\<rparr> \<lparr>op_Symbol = ''''\<rparr> of
     Inl _ \<Rightarrow> False
   | Inr res \<Rightarrow> vr_Rows res = 2 \<and> vr_MalformedEvents res = 1 \<and> vr_Events res = 1 \<and>
       int (length (vr_Failures res)) = 1 + vr_SequenceGaps res + vr_OrderingFailures res"
proof -
  let ?s = "\<lparr>st_format = FormatJSONL, st_input = sample_line @ [CHR 0x0A] @ ''broken'',
      st_header = Map.empty, st_line = 0, st_faults = 0\<rparr>"
  have ev: "case validate_Stream 0 0 ?s \<lparr>op_Symbol = ''''\<rparr> of
     Inl _ \<Rightarrow> False
   | Inr res \<Rightarrow> vr_Rows res = 2 \<and> vr_MalformedEvents res = 1 \<and> vr_Events res = 1" by code_simp
  then obtain res where r: "validate_Stream 0 0 ?s \<lparr>op_Symbol = ''''\<rparr> = Inr res"
    by (auto split: sum.splits)
  show ?thesis using validate_counters [OF r, of "''''"] ev r by simp
qed

theorem resume_equals_full_run_witness:
  "vr_Failures (v_result (foldl Process (NewValidator 0 no_filter) ([sample_record 1 5 1 2] @ [sample_record 2 4 4 6])))
   = vr_Failures (v_result (foldl Process (foldl Prime (NewValidator 0 no_filter) [sample_record 1 5 1 2]) [sample_record 2 4 4 6]))
   \<and> vr_Failures (v_result (foldl Process (NewValidator 0 no_filter) bad_rows)) \<noteq> []"
proof -
  let ?pre = "[sample_record 1 5 1 2]"
  have ok: "list_all record_ok ?pre" by (simp add: sample_record_ok int64_def)
  have pos: "\<forall>r \<in> set ?pre. rec_Err r = None \<longrightarrow> ev_Type (rec_Event r) = EventTypeDepth \<longrightarrow>
      0 < ev_FinalUpdateID (rec_Event r)"
    by (simp add: sample_record_def sample_depth_def)
  have "vr_Failures (v_result (foldl Process (NewValidator 0 no_filter) ?pre)) = []" by code_simp
  moreover have "vr_Failures (v_result (foldl Process (NewValidator 0 no_filter) bad_rows)) \<noteq> []" by code_simp
  ultimately show ?thesis
    using resume_equals_full_run [OF ok pos, of 0 no_filter "[sample_record 2 4 4 6]"]
    by (simp add: Let_def)
qed

theorem symbol_filter_is_projection_witness:
  "vr_Events (v_result (foldl Process (NewValidator 0 \<lparr>op_Symbol = ''BTCUSDT''\<rparr>) bad_rows)) =
   vr_SymbolEventCounts (v_result (foldl Process (NewValidator 0 \<lparr>op_Symbol = ''''\<rparr>) bad_rows)) ''BTCUSDT''"
  using symbol_filter_is_projection [OF sample_rows_ok(2), of "''BTCUSDT''" 0] by (simp add: Let_def)

theorem no_failures_iff_clean_witness: "clean_input clean_rows \<and> \<not> clean_input bad_rows"
proof -
  have "vr_Failures (v_result (foldl Process (NewValidator 0 \<lparr>op_Symbol = ''''\<rparr>) clean_rows)) = []"
    "vr_Failures (v_result (foldl Process (NewValidator 0 \<lparr>op_Symbol = ''''\<rparr>) bad_rows)) \<noteq> []"
    by code_simp+
  then show ?thesis
    using no_failures_iff_clean [OF sample_rows_ok(1), of 0]
      no_failures_iff_clean [OF sample_rows_ok(2), of 0] by simp
qed

end
