(* ===== verification/Replay_Runner.thy ===== *)
theory Replay_Runner
  imports Event_Validator
begin

section \<open>internal/replay: paced replay\<close>

text \<open>
  \<^verbatim>\<open>replay.go\<close>: the speed modes, the runner and its loop. \<^verbatim>\<open>Runner.Sleep\<close> is a function value that
  acts on the world outside the runner; the world is a type variable of the model and the loop
  passes it along, so that a theorem can read off every call. The loop is a recursive function
  on the stream, and ends because each record consumes input.
\<close>

type_synonym SpeedMode = string

definition SpeedMax :: SpeedMode where "SpeedMax = ''max''"
definition Speed1x :: SpeedMode where "Speed1x = ''1x''"
definition Speed10x :: SpeedMode where "Speed10x = ''10x''"

record Summary =
  sm_Rows :: int
  sm_Events :: int
  sm_MalformedEvents :: int
  sm_SequenceGaps :: int
  sm_Duration :: duration

record 'w Runner =
  ru_Sleep :: "(duration \<Rightarrow> 'w \<Rightarrow> 'w) option"

datatype speed_error = UnsupportedSpeed string

definition ParseSpeed :: "string \<Rightarrow> speed_error + SpeedMode" where
  "ParseSpeed value =
     (if value = SpeedMax \<or> value = Speed1x \<or> value = Speed10x then Inr value
      else Inl (UnsupportedSpeed value))"

definition NewRunner :: "(duration \<Rightarrow> 'w \<Rightarrow> 'w) \<Rightarrow> 'w Runner" where
  "NewRunner time_Sleep = \<lparr>ru_Sleep = Some time_Sleep\<rparr>"

text \<open>The new value of \<^verbatim>\<open>*previousEventTime\<close>, and the world after the call of \<^verbatim>\<open>Sleep\<close> if there is one.\<close>

definition sleepForEvent ::
  "'w Runner \<Rightarrow> MarketEvent \<Rightarrow> SpeedMode \<Rightarrow> int \<Rightarrow> 'w \<Rightarrow> int \<times> 'w" where
  "sleepForEvent r ev speed previousEventTime w =
     (let eventTime = EventTimeMillis ev in
      if speed = SpeedMax \<or> eventTime \<le> 0 then (eventTime, w)
      else if previousEventTime = 0 then (eventTime, w)
      else let delta = wrap64 (eventTime - previousEventTime) in
        if delta \<le> 0 then (eventTime, w)
        else let sleep0 = wrap64 (delta * 1000000);
                 sleep = (if speed = Speed10x then quot64 sleep0 10 else sleep0)
             in (case ru_Sleep r of
                   None \<Rightarrow> (eventTime, w)
                 | Some do_sleep \<Rightarrow> (eventTime, if sleep > 0 then do_sleep sleep w else w)))"

definition summary_of :: "Result \<Rightarrow> duration \<Rightarrow> Summary" where
  "summary_of result since =
     \<lparr>sm_Rows = vr_Rows result, sm_Events = vr_Events result,
      sm_MalformedEvents = vr_MalformedEvents result, sm_SequenceGaps = vr_SequenceGaps result,
      sm_Duration = since\<rparr>"

function runner_loop ::
  "'w Runner \<Rightarrow> string \<Rightarrow> SpeedMode \<Rightarrow> time \<Rightarrow> time \<Rightarrow> Stream \<Rightarrow> Validator \<Rightarrow> int \<Rightarrow> 'w
    \<Rightarrow> (stream_error + Summary) \<times> 'w" where
  "runner_loop r symb speed started now s v prev w =
     (case Next s of
        NextEOF \<Rightarrow> (Inr (summary_of (snd (Result_of now v)) (now - started)), w)
      | NextError e \<Rightarrow> (Inl e, w)
      | NextRecord rec s' \<Rightarrow>
          (let v' = Process v rec in
           if rec_Err rec \<noteq> None \<or> (symb \<noteq> '''' \<and> ev_Symbol (rec_Event rec) \<noteq> symb)
           then runner_loop r symb speed started now s' v' prev w
           else let (prev', w') = sleepForEvent r (rec_Event rec) speed prev w
                in runner_loop r symb speed started now s' v' prev' w'))"
  by pat_completeness auto
termination
  by (relation "measure (\<lambda>(r, symb, speed, started, now, s, v, prev, w). unread s)")
    (auto dest: Next_shrinks)

declare runner_loop.simps [simp del]

text \<open>\<open>started\<close> and \<open>now\<close> are the readings of the clock when the run starts and when it ends.\<close>

definition runner_Stream ::
  "'w Runner \<Rightarrow> time \<Rightarrow> time \<Rightarrow> Stream \<Rightarrow> string \<Rightarrow> SpeedMode \<Rightarrow> 'w \<Rightarrow> (stream_error + Summary) \<times> 'w" where
  "runner_Stream r started now s symb speed w =
     runner_loop r symb speed started now s (NewValidator started \<lparr>op_Symbol = symb\<rparr>) 0 w"

definition replay_File ::
  "(duration \<Rightarrow> 'w \<Rightarrow> 'w) \<Rightarrow> file_system \<Rightarrow> time \<Rightarrow> time \<Rightarrow> string \<Rightarrow> Format \<Rightarrow> string \<Rightarrow> SpeedMode \<Rightarrow> 'w
    \<Rightarrow> (stream_error + Summary) \<times> 'w" where
  "replay_File time_Sleep fs started now path format symb speed w =
     (case Open fs path format of
        Inl e \<Rightarrow> (Inl e, w)
      | Inr s \<Rightarrow> runner_Stream (NewRunner time_Sleep) started now s symb speed w)"

subsection \<open>The loop over the records of the stream\<close>

definition runner_step ::
  "'w Runner \<Rightarrow> string \<Rightarrow> SpeedMode \<Rightarrow> int \<times> 'w \<Rightarrow> Record \<Rightarrow> int \<times> 'w" where
  "runner_step r symb speed = (\<lambda>(prev, w) rec.
     if relevant \<lparr>op_Symbol = symb\<rparr> rec then sleepForEvent r (rec_Event rec) speed prev w else (prev, w))"

lemma runner_loop_drain:
  "runner_loop r symb speed started now s v prev w =
     (case drain s of (rs, end) \<Rightarrow>
        (case end of None \<Rightarrow> Inr (summary_of (snd (Result_of now (foldl Process v rs))) (now - started))
         | Some e \<Rightarrow> Inl e,
         snd (foldl (runner_step r symb speed) (prev, w) rs)))"
proof (induction r symb speed started now s v prev w rule: runner_loop.induct)
  case (1 r symb speed started now s v prev w)
  show ?case
  proof (cases "Next s")
    case (NextRecord rec s')
    let ?skip = "rec_Err rec \<noteq> None \<or> (symb \<noteq> '''' \<and> ev_Symbol (rec_Event rec) \<noteq> symb)"
    obtain prev' w' where sl: "sleepForEvent r (rec_Event rec) speed prev w = (prev', w')"
      by (cases "sleepForEvent r (rec_Event rec) speed prev w")
    have rel: "relevant \<lparr>op_Symbol = symb\<rparr> rec \<longleftrightarrow> \<not> ?skip"
      by (auto simp: relevant_def filtered_out_def)
    show ?thesis
      using 1 [OF NextRecord] NextRecord sl rel
      by (auto simp: runner_loop.simps [of r symb speed started now s] drain.simps [of s]
          runner_step_def Let_def split: prod.splits option.splits)
  qed (simp_all add: runner_loop.simps [of r symb speed started now s] drain.simps [of s])
qed

text \<open>
  C8: the speed of a replay and its sleeping have no influence on its result: at every speed and
  for every \<^verbatim>\<open>Sleep\<close> function, the summary (or the error) is that of validating the same stream with
  the same symbol filter.
\<close>

theorem runner_summary_is_validation:
  "fst (runner_Stream r started now s symb speed w) =
     (case validate_Stream started now s \<lparr>op_Symbol = symb\<rparr> of
        Inl e \<Rightarrow> Inl e
      | Inr result \<Rightarrow> Inr (summary_of result (now - started)))"
  by (auto simp: runner_Stream_def runner_loop_drain validate_Stream_def split: prod.splits option.splits)

subsection \<open>How long a replay sleeps\<close>

text \<open>
  The pauses of a run, given the times of the replayed events: the positive differences of
  neighbours, in nanoseconds, divided by ten at \<^verbatim>\<open>10x\<close>.
\<close>

definition nanos_per_ms :: "SpeedMode \<Rightarrow> int" where
  "nanos_per_ms speed = (if speed = Speed10x then 100000 else 1000000)"

definition pause :: "SpeedMode \<Rightarrow> int \<Rightarrow> int \<Rightarrow> duration list" where
  "pause speed prev t = (if prev \<noteq> 0 \<and> prev < t then [(t - prev) * nanos_per_ms speed] else [])"

fun pauses :: "SpeedMode \<Rightarrow> int \<Rightarrow> int list \<Rightarrow> duration list" where
  "pauses speed prev [] = []"
| "pauses speed prev (t # ts) = pause speed prev t @ pauses speed t ts"

definition times_of :: "string \<Rightarrow> Record list \<Rightarrow> int list" where
  "times_of symb rs = map (EventTimeMillis \<circ> rec_Event) (filter (relevant \<lparr>op_Symbol = symb\<rparr>) rs)"

text \<open>Times for which the products fit: positive, at most \<open>2 ^ 63 / 10 ^ 6\<close> milliseconds (about 292 years).\<close>

definition time_range :: "int \<Rightarrow> bool" where
  "time_range t \<longleftrightarrow> 0 < t \<and> t \<le> 9223372036854"

lemma sleepForEvent_pause:
  assumes "speed \<noteq> SpeedMax" "time_range (EventTimeMillis ev)" "prev = 0 \<or> time_range prev"
    "ru_Sleep r = Some slp"
  shows "sleepForEvent r ev speed prev w =
    (EventTimeMillis ev, foldl (\<lambda>w d. slp d w) w (pause speed prev (EventTimeMillis ev)))"
proof -
  let ?t = "EventTimeMillis ev"
  have "wrap64 (?t - prev) = ?t - prev" "prev < ?t \<Longrightarrow> wrap64 ((?t - prev) * 1000000) = (?t - prev) * 1000000"
    using assms(2,3) by (auto simp: time_range_def int64_def intro!: wrap64_id)
  moreover have "prev < ?t \<Longrightarrow> quot64 ((?t - prev) * 1000000) 10 = (?t - prev) * 100000"
    by (subst quot64_nonneg) auto
  ultimately show ?thesis
    using assms
    by (auto simp: sleepForEvent_def pause_def nanos_per_ms_def time_range_def Let_def)
qed

lemma runner_steps_pauses:
  assumes "speed \<noteq> SpeedMax" "ru_Sleep r = Some slp"
    and "\<forall>t \<in> set (times_of symb rs). time_range t" "prev = 0 \<or> time_range prev"
  shows "snd (foldl (runner_step r symb speed) (prev, w) rs) =
    foldl (\<lambda>w d. slp d w) w (pauses speed prev (times_of symb rs))"
  using assms(3,4)
proof (induction rs arbitrary: prev w)
  case (Cons rec rs)
  then show ?case
    using sleepForEvent_pause [OF assms(1) _ _ assms(2)]
    by (simp add: times_of_def runner_step_def)
qed (simp add: times_of_def)

lemma runner_steps_max:
  "snd (foldl (runner_step r symb SpeedMax) (prev, w) rs) = w"
  by (induction rs arbitrary: prev) (auto simp: runner_step_def sleepForEvent_def)

lemma sorted_le_last: "sorted xs \<Longrightarrow> x \<in> set xs \<Longrightarrow> x \<le> last xs"
  for x :: int
  by (induction xs) auto

lemma pauses_sorted:
  assumes "\<forall>t \<in> set ts. 0 < t" "0 < prev" "sorted (prev # ts)"
  shows "sum_list (pauses speed prev ts) = (last (prev # ts) - prev) * nanos_per_ms speed"
  using assms
proof (induction ts arbitrary: prev)
  case (Cons t ts)
  then have "sum_list (pauses speed prev (t # ts)) =
      (t - prev) * nanos_per_ms speed + (last (t # ts) - t) * nanos_per_ms speed"
    by (auto simp: pause_def)
  then show ?case by (simp add: algebra_simps)
qed simp

lemma foldl_add_durations: "foldl (\<lambda>w d. w + d) w ds = w + sum_list ds"
  for w :: int
  by (induction ds arbitrary: w) auto

text \<open>
  C9: a paced replay takes as long as the market did. With the clock as the world and a
  \<^verbatim>\<open>Sleep\<close> that advances it, a replay of events in time order sleeps the time between the first and the
  last event at \<^verbatim>\<open>1x\<close> and exactly a tenth of it at \<^verbatim>\<open>10x\<close>; at \<^verbatim>\<open>max\<close> it never sleeps.
\<close>

theorem runner_sleeps_span:
  assumes "drain s = (rs, None)" "times_of symb rs = t # ts"
    and "sorted (t # ts)" "0 < t" "last (t # ts) \<le> 9223372036854"
  shows "let run = (\<lambda>speed. snd (runner_Stream (NewRunner (\<lambda>d w. w + d)) t0 t1 s symb speed clock)) in
    run Speed1x = clock + (last (t # ts) - t) * 1000000 \<and>
    run Speed10x = clock + (last (t # ts) - t) * 100000 \<and>
    run SpeedMax = clock"
proof -
  have le: "t \<le> x \<and> x \<le> last (t # ts)" if "x \<in> set (t # ts)" for x
    using that assms(3) by (auto intro: sorted_le_last)
  have rng: "\<forall>x \<in> set (times_of symb rs). time_range x"
    using le assms(2,4,5) by (fastforce simp: time_range_def)
  have pos: "\<forall>x \<in> set ts. 0 < x"
    using le assms(4) by fastforce
  have "snd (runner_Stream (NewRunner (\<lambda>d w. w + d)) t0 t1 s symb speed clock) =
      clock + (last (t # ts) - t) * nanos_per_ms speed" if "speed \<noteq> SpeedMax" for speed
    using runner_steps_pauses [OF that _ rng, of "NewRunner (\<lambda>d w. w + d)" "\<lambda>d w. w + d" 0 clock]
      pauses_sorted [OF pos assms(4,3)] assms(1,2)
    by (auto simp: runner_Stream_def runner_loop_drain NewRunner_def foldl_add_durations pause_def)
  moreover have "snd (runner_Stream (NewRunner (\<lambda>d w. w + d)) t0 t1 s symb SpeedMax clock) = clock"
    by (simp add: runner_Stream_def runner_loop_drain assms(1) runner_steps_max)
  ultimately show ?thesis
    by (simp add: nanos_per_ms_def Speed1x_def Speed10x_def SpeedMax_def)
qed


subsection \<open>The theorem at work\<close>

definition sample_paced :: Stream where
  "sample_paced = \<lparr>st_format = FormatCSV,
     st_input = ''trade,X,1710000000000,1,9,2,t'' @ [CHR 0x0A] @ ''broken'' @ [CHR 0x0A] @
       ''trade,X,1710000000200,2,9,2,t'',
     st_header = indexHeader [''type'', ''symbol'', ''trade_time'', ''trade_id'', ''price'', ''quantity'',
       ''is_buyer_maker''],
     st_line = 1, st_faults = 0\<rparr>"

theorem runner_sleeps_span_witness:
  "let run = (\<lambda>speed. snd (runner_Stream (NewRunner (\<lambda>d w. w + d)) 0 0 sample_paced ''X'' speed (5::int))) in
    run Speed1x = 5 + 200 * 1000000 \<and> run Speed10x = 5 + 200 * 100000 \<and> run SpeedMax = 5"
proof -
  have "snd (drain sample_paced) = None \<and>
      times_of ''X'' (fst (drain sample_paced)) = 1710000000000 # [1710000000200]"
    by code_simp
  then have d: "drain sample_paced = (fst (drain sample_paced), None)"
    and t: "times_of ''X'' (fst (drain sample_paced)) = 1710000000000 # [1710000000200]"
    by (simp_all add: prod_eq_iff)
  show ?thesis
    using runner_sleeps_span [OF d t, of 0 0 5] by (simp add: Let_def)
qed

end
