(* ===== verification/Store_Types.thy ===== *)
theory Store_Types
  imports Prelude
begin

section \<open>internal/store: records and the repository interface\<close>

text \<open>
  \<^verbatim>\<open>store.go\<close>: the rows, the parameters and the \<^verbatim>\<open>Repository\<close> interface. An interface value is a
  record of its methods over a state type; a method takes what it reads from the runtime
  (\<open>Io\<close>: the clock, the UUIDs it draws, the order Go ranges over a map in), its parameters and the
  state, and returns the result and the new state. What clients rely on is the locale
  \<open>repository\<close>: every method acts on an abstract database as its name says.
\<close>

datatype store_error = ErrNotFound | ErrAlreadyExists | StoreFailure string

record Dataset =
  ds_ID :: string
  ds_Name :: string
  ds_Description :: string
  ds_CreatedAt :: time

record EventFile =
  ef_ID :: string
  ef_DatasetID :: string
  ef_Path :: string
  ef_Format :: string
  ef_Symbol :: string
  ef_Bytes :: int
  ef_SHA256 :: string
  ef_Rows :: int
  ef_CreatedAt :: time

type_synonym JobStatus = string

definition JobStatusQueued :: JobStatus where "JobStatusQueued = ''queued''"
definition JobStatusRunning :: JobStatus where "JobStatusRunning = ''running''"
definition JobStatusCompleted :: JobStatus where "JobStatusCompleted = ''completed''"
definition JobStatusFailed :: JobStatus where "JobStatusFailed = ''failed''"
definition JobStatusCanceled :: JobStatus where "JobStatusCanceled = ''canceled''"
definition JobStatusDLQ :: JobStatus where "JobStatusDLQ = ''dlq''"

lemmas JobStatus_defs = JobStatusQueued_def JobStatusRunning_def JobStatusCompleted_def
  JobStatusFailed_def JobStatusCanceled_def JobStatusDLQ_def

lemma JobStatus_distinct [simp]:
  "JobStatusQueued \<noteq> JobStatusRunning" "JobStatusQueued \<noteq> JobStatusCompleted"
  "JobStatusQueued \<noteq> JobStatusFailed" "JobStatusQueued \<noteq> JobStatusCanceled"
  "JobStatusQueued \<noteq> JobStatusDLQ" "JobStatusRunning \<noteq> JobStatusQueued"
  "JobStatusRunning \<noteq> JobStatusCompleted" "JobStatusRunning \<noteq> JobStatusFailed"
  "JobStatusRunning \<noteq> JobStatusCanceled" "JobStatusRunning \<noteq> JobStatusDLQ"
  "JobStatusCompleted \<noteq> JobStatusQueued" "JobStatusCompleted \<noteq> JobStatusRunning"
  "JobStatusCompleted \<noteq> JobStatusFailed" "JobStatusCompleted \<noteq> JobStatusCanceled"
  "JobStatusCompleted \<noteq> JobStatusDLQ" "JobStatusFailed \<noteq> JobStatusQueued"
  "JobStatusFailed \<noteq> JobStatusRunning" "JobStatusFailed \<noteq> JobStatusCompleted"
  "JobStatusFailed \<noteq> JobStatusCanceled" "JobStatusFailed \<noteq> JobStatusDLQ"
  "JobStatusCanceled \<noteq> JobStatusQueued" "JobStatusCanceled \<noteq> JobStatusRunning"
  "JobStatusCanceled \<noteq> JobStatusCompleted" "JobStatusCanceled \<noteq> JobStatusFailed"
  "JobStatusCanceled \<noteq> JobStatusDLQ" "JobStatusDLQ \<noteq> JobStatusQueued"
  "JobStatusDLQ \<noteq> JobStatusRunning" "JobStatusDLQ \<noteq> JobStatusCompleted"
  "JobStatusDLQ \<noteq> JobStatusFailed" "JobStatusDLQ \<noteq> JobStatusCanceled"
  by (simp_all add: JobStatus_defs)

record ReplayManifest =
  mf_InputPath :: string
  mf_InputFormat :: string
  mf_InputSymbol :: string
  mf_InputFileSHA256 :: string
  mf_InputBytes :: int
  mf_InputRows :: int
  mf_AppVersion :: string
  mf_StartedAt :: time
  mf_CompletedAt :: time
  mf_Duration :: duration
  mf_CheckpointLine :: int
  mf_ResumeFromLine :: int
  mf_ErrorCount :: int
  mf_MalformedEvents :: int
  mf_SequenceGaps :: int

definition zero_ReplayManifest :: ReplayManifest where
  "zero_ReplayManifest =
     \<lparr>mf_InputPath = '''', mf_InputFormat = '''', mf_InputSymbol = '''', mf_InputFileSHA256 = '''',
      mf_InputBytes = 0, mf_InputRows = 0, mf_AppVersion = '''', mf_StartedAt = 0,
      mf_CompletedAt = 0, mf_Duration = 0, mf_CheckpointLine = 0, mf_ResumeFromLine = 0,
      mf_ErrorCount = 0, mf_MalformedEvents = 0, mf_SequenceGaps = 0\<rparr>"

record ReplayJob =
  rj_ID :: string
  rj_DatasetID :: string
  rj_EventFileID :: string
  rj_IdempotencyKey :: string
  rj_Symbol :: string
  rj_Speed :: string
  rj_Status :: JobStatus
  rj_Attempts :: int
  rj_LastError :: string
  rj_CheckpointLine :: int
  rj_CreatedAt :: time
  rj_StartedAt :: "time option"
  rj_CompletedAt :: "time option"
  rj_CanceledAt :: "time option"
  rj_Manifest :: ReplayManifest

record ValidationError =
  ve_ID :: string
  ve_JobID :: string
  ve_Line :: int
  ve_Symbol :: string
  ve_Type :: string
  ve_Message :: string
  ve_CreatedAt :: time

record StoreMetric =
  me_ID :: string
  me_JobID :: string
  me_Rows :: int
  me_Events :: int
  me_MalformedEvents :: int
  me_SequenceGaps :: int
  me_Duration :: duration
  me_RowsPerSecond :: float64
  me_EventsPerSecond :: float64
  me_P95Latency :: duration
  me_PeakAllocBytes :: int
  me_AllocsPerEvent :: float64
  me_CreatedAt :: time

record CreateDatasetParams =
  cd_Name :: string
  cd_Description :: string

record CreateEventFileParams =
  ce_DatasetID :: string
  ce_Path :: string
  ce_Format :: string
  ce_Symbol :: string
  ce_Bytes :: int
  ce_SHA256 :: string
  ce_Rows :: int

record CreateReplayJobParams =
  cj_DatasetID :: string
  cj_EventFileID :: string
  cj_IdempotencyKey :: string
  cj_Symbol :: string
  cj_Speed :: string

record CompleteReplayJobParams =
  cp_Metric :: StoreMetric
  cp_Errors :: "ValidationError list"

record UpdateEventFileStatsParams =
  us_SHA256 :: string
  us_Rows :: int
  us_Bytes :: int

text \<open>
  What one call reads from the runtime: the clock, the values the calls of \<^verbatim>\<open>uuid.NewString\<close> return
  in order, and a code of the order in which \<^verbatim>\<open>range\<close> visits a map and \<^verbatim>\<open>sort.Slice\<close> leaves equal
  elements.
\<close>

record Io =
  io_now :: time
  io_uuid :: "nat \<Rightarrow> string"
  io_order :: "nat list"

type_synonym ('r, 'a) repo_method = "Io \<Rightarrow> 'r \<Rightarrow> 'a \<times> 'r"

text \<open>
  Every method returns a value or an error; \<^verbatim>\<open>CreateReplayJob\<close> returns the existing job together with
  \<^verbatim>\<open>ErrAlreadyExists\<close>, so its result is Go's pair.
\<close>

record 'r Repository =
  rp_CreateDataset :: "CreateDatasetParams \<Rightarrow> ('r, store_error + Dataset) repo_method"
  rp_ListDatasets :: "('r, store_error + Dataset list) repo_method"
  rp_GetDataset :: "string \<Rightarrow> ('r, store_error + Dataset) repo_method"
  rp_CreateEventFile :: "CreateEventFileParams \<Rightarrow> ('r, store_error + EventFile) repo_method"
  rp_GetEventFile :: "string \<Rightarrow> ('r, store_error + EventFile) repo_method"
  rp_ListEventFiles :: "string \<Rightarrow> ('r, store_error + EventFile list) repo_method"
  rp_UpdateEventFileStats :: "string \<Rightarrow> UpdateEventFileStatsParams \<Rightarrow> ('r, store_error + EventFile) repo_method"
  rp_CreateReplayJob :: "CreateReplayJobParams \<Rightarrow> ('r, ReplayJob \<times> store_error option) repo_method"
  rp_GetReplayJob :: "string \<Rightarrow> ('r, store_error + ReplayJob) repo_method"
  rp_GetReplayJobByIdempotencyKey :: "string \<Rightarrow> ('r, store_error + ReplayJob) repo_method"
  rp_ListReplayJobs :: "('r, store_error + ReplayJob list) repo_method"
  rp_UpdateReplayJobStatus :: "string \<Rightarrow> JobStatus \<Rightarrow> string \<Rightarrow> ('r, store_error + ReplayJob) repo_method"
  rp_UpdateReplayCheckpoint :: "string \<Rightarrow> int \<Rightarrow> ('r, store_error + unit) repo_method"
  rp_UpdateReplayManifest :: "string \<Rightarrow> ReplayManifest \<Rightarrow> ('r, store_error + ReplayJob) repo_method"
  rp_CompleteReplayJob :: "string \<Rightarrow> CompleteReplayJobParams \<Rightarrow> ('r, store_error + ReplayJob) repo_method"
  rp_ListReplayMetrics :: "string \<Rightarrow> ('r, store_error + StoreMetric list) repo_method"
  rp_ListValidationErrors :: "string \<Rightarrow> ('r, store_error + ValidationError list) repo_method"
  rp_CancelReplayJob :: "string \<Rightarrow> ('r, store_error + ReplayJob) repo_method"

definition zero_ReplayJob :: ReplayJob where
  "zero_ReplayJob =
     \<lparr>rj_ID = '''', rj_DatasetID = '''', rj_EventFileID = '''', rj_IdempotencyKey = '''',
      rj_Symbol = '''', rj_Speed = '''', rj_Status = '''', rj_Attempts = 0,
      rj_LastError = '''', rj_CheckpointLine = 0, rj_CreatedAt = 0, rj_StartedAt = None,
      rj_CompletedAt = None, rj_CanceledAt = None, rj_Manifest = zero_ReplayManifest\<rparr>"

subsection \<open>Orders\<close>

text \<open>Every list of numbers codes a rearrangement: insert the elements one after the other, from the last.\<close>

fun rearrange :: "nat list \<Rightarrow> 'a list \<Rightarrow> 'a list" where
  "rearrange ks [] = []"
| "rearrange [] xs = xs"
| "rearrange (k # ks) (x # xs) = (let ys = rearrange ks xs in take k ys @ x # drop k ys)"

lemma mset_rearrange [simp]: "mset (rearrange ks xs) = mset xs"
proof (induction ks xs rule: rearrange.induct)
  case (3 k ks x xs)
  have "mset (take k ys) + mset (drop k ys) = mset ys" for ys :: "'a list"
    by (metis append_take_drop_id mset_append)
  then show ?case using 3 by (simp add: Let_def)
qed simp_all

text \<open>Every order a list can be visited in has a code.\<close>

lemma rearrange_reaches: "mset ys = mset xs \<Longrightarrow> \<exists>ks. rearrange ks xs = ys"
proof (induction xs arbitrary: ys)
  case (Cons x xs)
  then have "x \<in> set ys" by (metis list.set_intros(1) set_mset_mset)
  then obtain as bs where ys: "ys = as @ x # bs" by (auto dest: split_list)
  then have "mset (as @ bs) = mset xs" using Cons.prems by simp
  then obtain ks where "rearrange ks xs = as @ bs" using Cons.IH by blast
  then have "rearrange (length as # ks) (x # xs) = ys" using ys by simp
  then show ?case by blast
qed simp

lemma distinct_sort_key: "distinct (map f (sort_key g xs)) = distinct (map f xs)"
  by (metis mset_eq_imp_distinct_iff mset_map mset_sort)

subsection \<open>The contract of a repository\<close>

text \<open>
  The abstract database: finite tables as partial functions, the idempotency index, and the metrics
  and validation errors stored for a job in the order they were stored.
\<close>

record Db =
  db_datasets :: "string \<rightharpoonup> Dataset"
  db_files :: "string \<rightharpoonup> EventFile"
  db_jobs :: "string \<rightharpoonup> ReplayJob"
  db_keys :: "string \<rightharpoonup> string"
  db_metrics :: "string \<Rightarrow> StoreMetric list"
  db_errors :: "string \<Rightarrow> ValidationError list"

text \<open>Row identifiers are keys, references point to rows, and the index holds exactly the keyed jobs.\<close>

definition wf_db :: "Db \<Rightarrow> bool" where
  "wf_db d \<longleftrightarrow>
     (\<forall>i x. db_datasets d i = Some x \<longrightarrow> ds_ID x = i) \<and>
     (\<forall>i x. db_files d i = Some x \<longrightarrow> ef_ID x = i \<and> ef_DatasetID x \<in> dom (db_datasets d)) \<and>
     (\<forall>i x. db_jobs d i = Some x \<longrightarrow> rj_ID x = i \<and> rj_DatasetID x \<in> dom (db_datasets d) \<and>
        rj_EventFileID x \<in> dom (db_files d) \<and> 0 \<le> rj_CheckpointLine x) \<and>
     (\<forall>k i. db_keys d k = Some i \<longleftrightarrow>
        k \<noteq> '''' \<and> (\<exists>x. db_jobs d i = Some x \<and> rj_IdempotencyKey x = k))"

lemma wf_db_job:
  assumes "wf_db d" "db_jobs d i = Some j"
  shows "rj_ID j = i" "0 \<le> rj_CheckpointLine j"
    "rj_DatasetID j \<in> dom (db_datasets d)" "rj_EventFileID j \<in> dom (db_files d)"
  using assms by (auto simp: wf_db_def)

lemma wf_db_file:
  assumes "wf_db d" "db_files d i = Some f"
  shows "ef_ID f = i" "ef_DatasetID f \<in> dom (db_datasets d)"
  using assms unfolding wf_db_def by blast+

lemma wf_db_key:
  assumes "wf_db d"
  shows "db_keys d k = Some i \<longleftrightarrow> k \<noteq> '''' \<and> (\<exists>j. db_jobs d i = Some j \<and> rj_IdempotencyKey j = k)"
  using assms by (simp add: wf_db_def)

text \<open>Two jobs with the same key are one job: the index is a function.\<close>

lemma wf_db_key_unique:
  assumes "wf_db d" "db_jobs d i = Some j" "db_jobs d i' = Some j'"
    "rj_IdempotencyKey j = rj_IdempotencyKey j'" "rj_IdempotencyKey j \<noteq> ''''"
  shows "i = i'"
proof -
  have "db_keys d (rj_IdempotencyKey j) = Some i" "db_keys d (rj_IdempotencyKey j) = Some i'"
    using assms by (auto simp: wf_db_key)
  then show ?thesis by simp
qed

text \<open>How a status change, and the end of a run, update a job.\<close>

definition with_status :: "time \<Rightarrow> JobStatus \<Rightarrow> string \<Rightarrow> ReplayJob \<Rightarrow> ReplayJob" where
  "with_status now status lastError job =
     (let job1 = job\<lparr>rj_Status := status, rj_LastError := lastError, rj_Attempts := rj_Attempts job + 1\<rparr>
      in if status = JobStatusRunning then job1\<lparr>rj_StartedAt := Some now\<rparr>
         else if status = JobStatusCompleted \<or> status = JobStatusFailed \<or> status = JobStatusDLQ
         then job1\<lparr>rj_CompletedAt := Some now\<rparr>
         else if status = JobStatusCanceled then job1\<lparr>rj_CanceledAt := Some now\<rparr>
         else job1)"

text \<open>The rows that describe a job, which no operation after its creation changes.\<close>

definition same_job :: "ReplayJob \<Rightarrow> ReplayJob \<Rightarrow> bool" where
  "same_job a b \<longleftrightarrow> rj_ID a = rj_ID b \<and> rj_DatasetID a = rj_DatasetID b \<and>
     rj_EventFileID a = rj_EventFileID b \<and> rj_IdempotencyKey a = rj_IdempotencyKey b \<and>
     rj_Symbol a = rj_Symbol b \<and> rj_Speed a = rj_Speed b \<and> rj_CreatedAt a = rj_CreatedAt b"

lemma with_status_simps [simp]:
  "rj_Status (with_status now st e j) = st" "rj_LastError (with_status now st e j) = e"
  "rj_CheckpointLine (with_status now st e j) = rj_CheckpointLine j"
  "rj_Manifest (with_status now st e j) = rj_Manifest j"
  "rj_ID (with_status now st e j) = rj_ID j" "rj_DatasetID (with_status now st e j) = rj_DatasetID j"
  "rj_EventFileID (with_status now st e j) = rj_EventFileID j"
  "rj_IdempotencyKey (with_status now st e j) = rj_IdempotencyKey j"
  "rj_Symbol (with_status now st e j) = rj_Symbol j" "rj_Speed (with_status now st e j) = rj_Speed j"
  "rj_CreatedAt (with_status now st e j) = rj_CreatedAt j"
  "rj_Attempts (with_status now st e j) = rj_Attempts j + 1"
  by (simp_all add: with_status_def Let_def)

lemma wf_db_update_job:
  assumes "wf_db d" "db_jobs d i = Some j" "same_job j' j" "0 \<le> rj_CheckpointLine j'"
  shows "wf_db (d\<lparr>db_jobs := (db_jobs d)(i \<mapsto> j')\<rparr>)"
  using assms by (auto simp: wf_db_def same_job_def)

lemma wf_db_rows [simp]:
  "wf_db (d\<lparr>db_metrics := ms\<rparr>) = wf_db d" "wf_db (d\<lparr>db_errors := es\<rparr>) = wf_db d"
  by (simp_all add: wf_db_def)


text \<open>
  What a finished run stores: the metric and the errors, each with an identifier, the job and a
  time filled in where they are missing. UUIDs are drawn in the order of the rows.
\<close>

definition stamp_metric :: "Io \<Rightarrow> string \<Rightarrow> StoreMetric \<Rightarrow> StoreMetric" where
  "stamp_metric io i m =
     m\<lparr>me_ID := (if me_ID m = '''' then io_uuid io 0 else me_ID m), me_JobID := i,
       me_CreatedAt := (if me_CreatedAt m = 0 then io_now io else me_CreatedAt m)\<rparr>"

fun stamp_errors :: "Io \<Rightarrow> nat \<Rightarrow> string \<Rightarrow> ValidationError list \<Rightarrow> ValidationError list" where
  "stamp_errors io n i [] = []"
| "stamp_errors io n i (e # es) =
     e\<lparr>ve_ID := (if ve_ID e = '''' then io_uuid io n else ve_ID e), ve_JobID := i,
       ve_CreatedAt := (if ve_CreatedAt e = 0 then io_now io else ve_CreatedAt e)\<rparr>
     # stamp_errors io (if ve_ID e = '''' then n + 1 else n) i es"

definition first_error_uuid :: "StoreMetric \<Rightarrow> nat" where
  "first_error_uuid m = (if me_ID m = '''' then 1 else 0)"

lemma stamp_errors_rows:
  "length (stamp_errors io n i es) = length es"
  "map ve_Line (stamp_errors io n i es) = map ve_Line es"
  "map ve_Symbol (stamp_errors io n i es) = map ve_Symbol es"
  "map ve_Type (stamp_errors io n i es) = map ve_Type es"
  "map ve_Message (stamp_errors io n i es) = map ve_Message es"
  "e \<in> set (stamp_errors io n i es) \<Longrightarrow> ve_JobID e = i"
  by (induction es arbitrary: n) auto

lemma stamp_errors_columns:
  "map (\<lambda>e. (ve_Line e, ve_Symbol e, ve_Type e, ve_Message e)) (stamp_errors io n i es) =
   map (\<lambda>e. (ve_Line e, ve_Symbol e, ve_Type e, ve_Message e)) es"
  by (induction es arbitrary: n) auto

definition lookup :: "('k \<rightharpoonup> 'v) \<Rightarrow> 'k \<Rightarrow> store_error + 'v" where
  "lookup m k = (case m k of None \<Rightarrow> Inl ErrNotFound | Some v \<Rightarrow> Inr v)"

lemma lookup_simps [simp]:
  "m k = None \<Longrightarrow> lookup m k = Inl ErrNotFound" "m k = Some v \<Longrightarrow> lookup m k = Inr v"
  by (simp_all add: lookup_def)

text \<open>UUIDs that are new: not empty, pairwise different, and not the key of a row.\<close>

definition fresh_io :: "Io \<Rightarrow> Db \<Rightarrow> bool" where
  "fresh_io io d \<longleftrightarrow> inj (io_uuid io) \<and>
     (\<forall>n. io_uuid io n \<noteq> '''' \<and> io_uuid io n \<notin> dom (db_datasets d) \<and>
        io_uuid io n \<notin> dom (db_files d) \<and> io_uuid io n \<notin> dom (db_jobs d))"

definition put_job :: "string \<Rightarrow> ReplayJob \<Rightarrow> Db \<Rightarrow> Db" where
  "put_job i j d = d\<lparr>db_jobs := (db_jobs d)(i \<mapsto> j)\<rparr>"

lemma put_job_simps [simp]:
  "db_jobs (put_job i j d) i' = (if i' = i then Some j else db_jobs d i')"
  "db_datasets (put_job i j d) = db_datasets d" "db_files (put_job i j d) = db_files d"
  "db_keys (put_job i j d) = db_keys d" "db_metrics (put_job i j d) = db_metrics d"
  "db_errors (put_job i j d) = db_errors d"
  "put_job i j (put_job i j' d) = put_job i j d"
  by (simp_all add: put_job_def)

definition new_job :: "Io \<Rightarrow> CreateReplayJobParams \<Rightarrow> ReplayJob" where
  "new_job io p = zero_ReplayJob\<lparr>rj_ID := io_uuid io 0, rj_DatasetID := cj_DatasetID p,
     rj_EventFileID := cj_EventFileID p, rj_IdempotencyKey := cj_IdempotencyKey p,
     rj_Symbol := cj_Symbol p, rj_Speed := cj_Speed p, rj_Status := JobStatusQueued,
     rj_CreatedAt := io_now io\<rparr>"

definition insert_job :: "ReplayJob \<Rightarrow> Db \<Rightarrow> Db" where
  "insert_job j d = d\<lparr>db_jobs := (db_jobs d)(rj_ID j \<mapsto> j),
     db_keys := (if rj_IdempotencyKey j = '''' then db_keys d
                 else (db_keys d)(rj_IdempotencyKey j \<mapsto> rj_ID j))\<rparr>"

definition complete_job :: "Io \<Rightarrow> string \<Rightarrow> CompleteReplayJobParams \<Rightarrow> ReplayJob \<Rightarrow> Db \<Rightarrow> Db" where
  "complete_job io i p j d =
     (put_job i j d)\<lparr>
       db_metrics := (db_metrics d)(i := db_metrics d i @ [stamp_metric io i (cp_Metric p)]),
       db_errors := (db_errors d)(i := db_errors d i @
         stamp_errors io (first_error_uuid (cp_Metric p)) i (cp_Errors p))\<rparr>"

definition with_stats :: "UpdateEventFileStatsParams \<Rightarrow> EventFile \<Rightarrow> EventFile" where
  "with_stats p f = f\<lparr>ef_SHA256 := us_SHA256 p, ef_Rows := us_Rows p, ef_Bytes := us_Bytes p\<rparr>"

subsection \<open>Sequences of calls\<close>

text \<open>
  A goroutine that makes several calls, among others that work on the same repository. Before its
  \<open>n\<close>-th call the others have done \<open>rt_env n\<close>, and the call reads \<open>rt_io n\<close> from the runtime. The
  state of the goroutine is the repository with the number of calls made so far.
\<close>

record 'r Runtime =
  rt_io :: "nat \<Rightarrow> Io"
  rt_env :: "nat \<Rightarrow> 'r \<Rightarrow> 'r"

type_synonym 'r calls = "'r \<times> nat"

definition call :: "'r Runtime \<Rightarrow> ('r, 'a) repo_method \<Rightarrow> 'r calls \<Rightarrow> 'a \<times> 'r calls" where
  "call rt m = (\<lambda>(r, n). let (a, r') = m (rt_io rt n) (rt_env rt n r) in (a, (r', Suc n)))"

text \<open>\<^verbatim>\<open>if err != nil { return err }\<close>: go on with the value of a call, or return its error.\<close>

definition try_call :: "('s \<Rightarrow> ('e + 'a) \<times> 's) \<Rightarrow> ('a \<Rightarrow> 's \<Rightarrow> ('e + 'b) \<times> 's) \<Rightarrow> 's \<Rightarrow> ('e + 'b) \<times> 's" where
  "try_call m k s = (case m s of (Inl e, s') \<Rightarrow> (Inl e, s') | (Inr a, s') \<Rightarrow> k a s')"

text \<open>Nobody else is at work.\<close>

definition quiet :: "'r Runtime \<Rightarrow> bool" where
  "quiet rt \<longleftrightarrow> (\<forall>n r. rt_env rt n r = r)"

lemma call_quiet:
  "quiet rt \<Longrightarrow> m (rt_io rt n) r = (a, r') \<Longrightarrow> call rt m (r, n) = (a, (r', Suc n))"
  by (simp add: call_def quiet_def)

lemma try_call_simps [simp]:
  "m s = (Inl e, s') \<Longrightarrow> try_call m k s = (Inl e, s')" "m s = (Inr a, s') \<Longrightarrow> try_call m k s = k a s'"
  by (simp_all add: try_call_def)

subsection \<open>The interface as a locale\<close>

text \<open>
  The contract. \<open>db\<close> reads the abstract database off a state and \<open>inv\<close> holds of the states the
  repository gets into. Where the implementations may differ (the attempts counter and the last
  error of a canceled job, which of two errors is reported, statistics that are not set), the
  laws leave it open.
\<close>

locale repository =
  fixes repo :: "'r Repository" and inv :: "'r \<Rightarrow> bool" and db :: "'r \<Rightarrow> Db"
  assumes wf: "inv r \<Longrightarrow> wf_db (db r)"
    and GetDataset: "inv r \<Longrightarrow> rp_GetDataset repo i io r = (lookup (db_datasets (db r)) i, r)"
    and GetEventFile: "inv r \<Longrightarrow> rp_GetEventFile repo i io r = (lookup (db_files (db r)) i, r)"
    and GetReplayJob: "inv r \<Longrightarrow> rp_GetReplayJob repo i io r = (lookup (db_jobs (db r)) i, r)"
    and GetReplayJobByIdempotencyKey:
      "inv r \<Longrightarrow> rp_GetReplayJobByIdempotencyKey repo k io r =
         (case db_keys (db r) k of None \<Rightarrow> Inl ErrNotFound | Some i \<Rightarrow> lookup (db_jobs (db r)) i, r)"
    and CreateReplayJob_new:
      "inv r \<Longrightarrow> fresh_io io (db r) \<Longrightarrow> cj_DatasetID p \<in> dom (db_datasets (db r)) \<Longrightarrow>
         cj_EventFileID p \<in> dom (db_files (db r)) \<Longrightarrow> db_keys (db r) (cj_IdempotencyKey p) = None \<Longrightarrow>
         \<exists>r'. rp_CreateReplayJob repo p io r = ((new_job io p, None), r') \<and> inv r' \<and>
           db r' = insert_job (new_job io p) (db r)"
    and CreateReplayJob_existing:
      "inv r \<Longrightarrow> cj_DatasetID p \<in> dom (db_datasets (db r)) \<Longrightarrow>
         cj_EventFileID p \<in> dom (db_files (db r)) \<Longrightarrow> db_keys (db r) (cj_IdempotencyKey p) = Some i \<Longrightarrow>
         db_jobs (db r) i = Some j \<Longrightarrow> rp_CreateReplayJob repo p io r = ((j, Some ErrAlreadyExists), r)"
    and CreateReplayJob_missing:
      "inv r \<Longrightarrow> cj_DatasetID p \<notin> dom (db_datasets (db r)) \<or> cj_EventFileID p \<notin> dom (db_files (db r)) \<Longrightarrow>
         db_keys (db r) (cj_IdempotencyKey p) = None \<Longrightarrow>
         \<exists>j. rp_CreateReplayJob repo p io r = ((j, Some ErrNotFound), r)"
    and UpdateEventFileStats:
      "inv r \<Longrightarrow> us_SHA256 u \<noteq> '''' \<Longrightarrow> 0 \<le> us_Rows u \<Longrightarrow> 0 \<le> us_Bytes u \<Longrightarrow>
         db_files (db r) i = Some f \<Longrightarrow>
         \<exists>r'. rp_UpdateEventFileStats repo i u io r = (Inr (with_stats u f), r') \<and> inv r' \<and>
           db r' = (db r)\<lparr>db_files := (db_files (db r))(i \<mapsto> with_stats u f)\<rparr>"
    and UpdateReplayJobStatus:
      "inv r \<Longrightarrow> db_jobs (db r) i = Some j \<Longrightarrow>
         \<exists>r'. rp_UpdateReplayJobStatus repo i st e io r = (Inr (with_status (io_now io) st e j), r') \<and>
           inv r' \<and> db r' = put_job i (with_status (io_now io) st e j) (db r)"
    and UpdateReplayJobStatus_missing:
      "inv r \<Longrightarrow> db_jobs (db r) i = None \<Longrightarrow> rp_UpdateReplayJobStatus repo i st e io r = (Inl ErrNotFound, r)"
    and UpdateReplayCheckpoint:
      "inv r \<Longrightarrow> db_jobs (db r) i = Some j \<Longrightarrow>
         \<exists>r'. rp_UpdateReplayCheckpoint repo i n io r = (Inr (), r') \<and> inv r' \<and>
           db r' = put_job i (j\<lparr>rj_CheckpointLine := max (rj_CheckpointLine j) n\<rparr>) (db r)"
    and UpdateReplayManifest:
      "inv r \<Longrightarrow> db_jobs (db r) i = Some j \<Longrightarrow>
         \<exists>r'. rp_UpdateReplayManifest repo i m io r = (Inr (j\<lparr>rj_Manifest := m\<rparr>), r') \<and> inv r' \<and>
           db r' = put_job i (j\<lparr>rj_Manifest := m\<rparr>) (db r)"
    and CompleteReplayJob:
      "inv r \<Longrightarrow> db_jobs (db r) i = Some j \<Longrightarrow>
         \<exists>r' j'. j' = j\<lparr>rj_Status := JobStatusCompleted, rj_CompletedAt := Some (io_now io)\<rparr> \<and>
           rp_CompleteReplayJob repo i q io r = (Inr j', r') \<and> inv r' \<and>
           db r' = complete_job io i q j' (db r)"
    and CancelReplayJob:
      "inv r \<Longrightarrow> db_jobs (db r) i = Some j \<Longrightarrow>
         \<exists>r' j'. rp_CancelReplayJob repo i io r = (Inr j', r') \<and> inv r' \<and>
           same_job j' j \<and> rj_Status j' = JobStatusCanceled \<and>
           rj_CheckpointLine j' = rj_CheckpointLine j \<and> db r' = put_job i j' (db r)"
    and CancelReplayJob_missing:
      "inv r \<Longrightarrow> db_jobs (db r) i = None \<Longrightarrow> rp_CancelReplayJob repo i io r = (Inl ErrNotFound, r)"
    and ListReplayMetrics:
      "inv r \<Longrightarrow> rp_ListReplayMetrics repo i io r = (Inr (db_metrics (db r) i), r)"
    and ListValidationErrors:
      "inv r \<Longrightarrow> \<exists>es. rp_ListValidationErrors repo i io r = (Inr es, r) \<and>
         mset es = mset (db_errors (db r) i)"
    and ListReplayJobs:
      "inv r \<Longrightarrow> \<exists>js. rp_ListReplayJobs repo io r = (Inr js, r) \<and> distinct (map rj_ID js) \<and>
         set js = ran (db_jobs (db r)) \<and> sorted (map rj_CreatedAt js)"
    and ListEventFiles:
      "inv r \<Longrightarrow> i \<in> dom (db_datasets (db r)) \<Longrightarrow>
         \<exists>fs. rp_ListEventFiles repo i io r = (Inr fs, r) \<and> distinct (map ef_ID fs) \<and>
           set fs = {f \<in> ran (db_files (db r)). ef_DatasetID f = i} \<and> sorted (map ef_CreatedAt fs)"
begin

text \<open>Creating a job with a key twice creates it once and returns it both times.\<close>

lemma create_twice:
  assumes "inv r" "fresh_io io (db r)" "cj_DatasetID p \<in> dom (db_datasets (db r))"
    "cj_EventFileID p \<in> dom (db_files (db r))" "db_keys (db r) (cj_IdempotencyKey p) = None"
    "cj_IdempotencyKey p \<noteq> ''''"
  obtains r' where "rp_CreateReplayJob repo p io r = ((new_job io p, None), r')"
    "rp_CreateReplayJob repo p io' r' = ((new_job io p, Some ErrAlreadyExists), r')" "inv r'"
    "db r' = insert_job (new_job io p) (db r)"
proof -
  obtain r' where r': "rp_CreateReplayJob repo p io r = ((new_job io p, None), r')" "inv r'"
    "db r' = insert_job (new_job io p) (db r)"
    using CreateReplayJob_new [OF assms(1-5)] by blast
  have "rp_CreateReplayJob repo p io' r' = ((new_job io p, Some ErrAlreadyExists), r')"
    by (rule CreateReplayJob_existing [OF r'(2), where i = "io_uuid io 0"])
      (use assms r' in \<open>auto simp: insert_job_def new_job_def\<close>)
  then show ?thesis using that r' by blast
qed

text \<open>A created job can be read back by its identifier and by its key.\<close>

lemma create_get:
  assumes "inv r'" "db r' = insert_job (new_job io p) (db r)"
  shows "rp_GetReplayJob repo (io_uuid io 0) io' r' = (Inr (new_job io p), r')"
    "cj_IdempotencyKey p \<noteq> '''' \<Longrightarrow>
      rp_GetReplayJobByIdempotencyKey repo (cj_IdempotencyKey p) io' r' = (Inr (new_job io p), r')"
  using assms
  by (auto simp: GetReplayJob GetReplayJobByIdempotencyKey insert_job_def new_job_def)

text \<open>A canceled job reads as canceled.\<close>

lemma cancel_get:
  assumes "inv r" "db_jobs (db r) i = Some j"
  obtains r' j' where "rp_CancelReplayJob repo i io r = (Inr j', r')" "inv r'"
    "rp_GetReplayJob repo i io' r' = (Inr j', r')" "rj_Status j' = JobStatusCanceled" "same_job j' j"
  using CancelReplayJob [OF assms, of io] GetReplayJob that by (auto simp: lookup_def)

text \<open>The reads, as calls of an undisturbed goroutine.\<close>

lemma call_reads:
  assumes "quiet rt" "inv r"
  shows "call rt (rp_GetDataset repo i) (r, n) = (lookup (db_datasets (db r)) i, (r, Suc n))"
    "call rt (rp_GetEventFile repo i) (r, n) = (lookup (db_files (db r)) i, (r, Suc n))"
    "call rt (rp_GetReplayJob repo i) (r, n) = (lookup (db_jobs (db r)) i, (r, Suc n))"
    "call rt (rp_ListReplayMetrics repo i) (r, n) = (Inr (db_metrics (db r) i), (r, Suc n))"
    "\<exists>es. call rt (rp_ListValidationErrors repo i) (r, n) = (Inr es, (r, Suc n)) \<and>
      mset es = mset (db_errors (db r) i)"
    "\<exists>js. call rt (rp_ListReplayJobs repo) (r, n) = (Inr js, (r, Suc n)) \<and> distinct (map rj_ID js) \<and>
      set js = ran (db_jobs (db r)) \<and> sorted (map rj_CreatedAt js)"
    "i \<in> dom (db_datasets (db r)) \<Longrightarrow>
      \<exists>fs. call rt (rp_ListEventFiles repo i) (r, n) = (Inr fs, (r, Suc n)) \<and> distinct (map ef_ID fs) \<and>
        set fs = {f \<in> ran (db_files (db r)). ef_DatasetID f = i} \<and> sorted (map ef_CreatedAt fs)"
  using assms GetDataset GetEventFile GetReplayJob ListReplayMetrics ListValidationErrors [of r i "rt_io rt n"]
    ListReplayJobs [of r "rt_io rt n"] ListEventFiles [of r i "rt_io rt n"]
  by (auto simp: call_def quiet_def)

end

end
