(* ===== verification/Store_Spec.thy ===== *)
theory Store_Spec
  imports Store_Types
begin

section \<open>internal/store: what the operations do to a database\<close>

text \<open>
  The abstract specification of the repository: each operation that changes the store as a function on the database \<open>Db\<close>.
  The implementations differ in the precision they keep times with (\<open>keep\<close>) and in what canceling a job does to it
  (\<open>cancel\<close>), and each accepts the operations that satisfy a condition of its own. The locale \<open>refines_spec\<close> says that an
  implementation does what the specification says, and proves it of sequences of operations.
\<close>

subsection \<open>The operations\<close>

datatype store_op =
    OpCreateDataset CreateDatasetParams
  | OpCreateEventFile CreateEventFileParams
  | OpUpdateEventFileStats string UpdateEventFileStatsParams
  | OpCreateReplayJob CreateReplayJobParams
  | OpUpdateReplayJobStatus string JobStatus string
  | OpUpdateReplayCheckpoint string int
  | OpUpdateReplayManifest string ReplayManifest
  | OpCompleteReplayJob string CompleteReplayJobParams
  | OpCancelReplayJob string

definition keep_metric :: "(time \<Rightarrow> time) \<Rightarrow> StoreMetric \<Rightarrow> StoreMetric" where
  "keep_metric keep m = m\<lparr>me_CreatedAt := keep (me_CreatedAt m)\<rparr>"

definition keep_error :: "(time \<Rightarrow> time) \<Rightarrow> ValidationError \<Rightarrow> ValidationError" where
  "keep_error keep e = e\<lparr>ve_CreatedAt := keep (ve_CreatedAt e)\<rparr>"

definition spec_dataset :: "(time \<Rightarrow> time) \<Rightarrow> Io \<Rightarrow> CreateDatasetParams \<Rightarrow> Dataset" where
  "spec_dataset keep io p = \<lparr>ds_ID = io_uuid io 0, ds_Name = cd_Name p, ds_Description = cd_Description p,
     ds_CreatedAt = keep (io_now io)\<rparr>"

definition spec_file :: "(time \<Rightarrow> time) \<Rightarrow> Io \<Rightarrow> CreateEventFileParams \<Rightarrow> EventFile" where
  "spec_file keep io p = \<lparr>ef_ID = io_uuid io 0, ef_DatasetID = ce_DatasetID p, ef_Path = ce_Path p,
     ef_Format = ce_Format p, ef_Symbol = ce_Symbol p, ef_Bytes = ce_Bytes p, ef_SHA256 = ce_SHA256 p,
     ef_Rows = ce_Rows p, ef_CreatedAt = keep (io_now io)\<rparr>"

definition spec_job :: "(time \<Rightarrow> time) \<Rightarrow> Io \<Rightarrow> CreateReplayJobParams \<Rightarrow> ReplayJob" where
  "spec_job keep io p = (new_job io p)\<lparr>rj_CreatedAt := keep (io_now io)\<rparr>"

definition on_job :: "string \<Rightarrow> (ReplayJob \<Rightarrow> ReplayJob) \<Rightarrow> Db \<Rightarrow> Db" where
  "on_job i f d = (case db_jobs d i of None \<Rightarrow> d | Some j \<Rightarrow> put_job i (f j) d)"

fun db_step :: "(time \<Rightarrow> time) \<Rightarrow> (time \<Rightarrow> ReplayJob \<Rightarrow> ReplayJob) \<Rightarrow> store_op \<Rightarrow> Io \<Rightarrow> Db \<Rightarrow> Db" where
  "db_step keep cancel (OpCreateDataset p) io d =
     d\<lparr>db_datasets := (db_datasets d)(io_uuid io 0 \<mapsto> spec_dataset keep io p)\<rparr>"
| "db_step keep cancel (OpCreateEventFile p) io d =
     (if db_datasets d (ce_DatasetID p) = None then d
      else d\<lparr>db_files := (db_files d)(io_uuid io 0 \<mapsto> spec_file keep io p)\<rparr>)"
| "db_step keep cancel (OpUpdateEventFileStats i u) io d =
     (case db_files d i of None \<Rightarrow> d | Some f \<Rightarrow> d\<lparr>db_files := (db_files d)(i \<mapsto> with_stats u f)\<rparr>)"
| "db_step keep cancel (OpCreateReplayJob p) io d =
     (if db_datasets d (cj_DatasetID p) = None \<or> db_files d (cj_EventFileID p) = None \<or>
         db_keys d (cj_IdempotencyKey p) \<noteq> None then d
      else insert_job (spec_job keep io p) d)"
| "db_step keep cancel (OpUpdateReplayJobStatus i st e) io d = on_job i (with_status (keep (io_now io)) st e) d"
| "db_step keep cancel (OpUpdateReplayCheckpoint i n) io d =
     on_job i (\<lambda>j. j\<lparr>rj_CheckpointLine := max (rj_CheckpointLine j) n\<rparr>) d"
| "db_step keep cancel (OpUpdateReplayManifest i m) io d = on_job i (\<lambda>j. j\<lparr>rj_Manifest := m\<rparr>) d"
| "db_step keep cancel (OpCompleteReplayJob i p) io d =
     (if db_jobs d i = None then d
      else (on_job i (\<lambda>j. j\<lparr>rj_Status := JobStatusCompleted, rj_CompletedAt := Some (keep (io_now io))\<rparr>) d)
        \<lparr>db_metrics := (db_metrics d)(i := db_metrics d i @ [keep_metric keep (stamp_metric io i (cp_Metric p))]),
         db_errors := (db_errors d)(i := db_errors d i @
           map (keep_error keep) (stamp_errors io (first_error_uuid (cp_Metric p)) i (cp_Errors p)))\<rparr>)"
| "db_step keep cancel (OpCancelReplayJob i) io d = on_job i (cancel (keep (io_now io))) d"

subsection \<open>Refinement\<close>

text \<open>A sequence of operations each of which is accepted when its turn comes.\<close>

fun can_run :: "(store_op \<Rightarrow> Io \<Rightarrow> Db \<Rightarrow> bool) \<Rightarrow> (time \<Rightarrow> time) \<Rightarrow> (time \<Rightarrow> ReplayJob \<Rightarrow> ReplayJob) \<Rightarrow>
    (store_op \<times> Io) list \<Rightarrow> Db \<Rightarrow> bool" where
  "can_run can keep cancel [] d = True"
| "can_run can keep cancel ((op, io) # ops) d \<longleftrightarrow>
     can op io d \<and> can_run can keep cancel ops (db_step keep cancel op io d)"

locale refines_spec =
  fixes exec :: "store_op \<Rightarrow> Io \<Rightarrow> 's \<Rightarrow> 's" and inv :: "'s \<Rightarrow> bool" and db :: "'s \<Rightarrow> Db"
    and keep :: "time \<Rightarrow> time" and cancel :: "time \<Rightarrow> ReplayJob \<Rightarrow> ReplayJob"
    and can :: "store_op \<Rightarrow> Io \<Rightarrow> Db \<Rightarrow> bool"
  assumes step: "inv s \<Longrightarrow> can op io (db s) \<Longrightarrow> inv (exec op io s) \<and> db (exec op io s) = db_step keep cancel op io (db s)"
begin

lemma run:
  "inv s \<Longrightarrow> can_run can keep cancel ops (db s) \<Longrightarrow>
    inv (fold (\<lambda>(op, io). exec op io) ops s) \<and>
    db (fold (\<lambda>(op, io). exec op io) ops s) = fold (\<lambda>(op, io). db_step keep cancel op io) ops (db s)"
proof (induction ops arbitrary: s)
  case (Cons o1 ops)
  obtain op io where o1: "o1 = (op, io)" by (cases o1)
  then show ?case using Cons step [of s op io] by simp
qed simp

end

end
