(* ===== verification/Memory_Store.thy ===== *)
theory Memory_Store
  imports Store_Spec
begin

section \<open>internal/store/memory.go: the in-memory repository\<close>

text \<open>
  The maps of \<^verbatim>\<open>MemoryRepository\<close> that are ranged over are association lists, the others functions.
  Each method runs under the repository's mutex and is one step. \<^verbatim>\<open>range\<close> visits a map in any
  order: the list of its values is rearranged by the code \<open>io_order\<close>, and since every rearrangement
  is allowed, a stable sort of it covers what \<^verbatim>\<open>sort.Slice\<close> may return. The repository satisfies
  the contract \<open>repository\<close>, and every sequence of calls keeps the database well formed.
\<close>

record MemoryRepository =
  mr_datasets :: "(string \<times> Dataset) list"
  mr_eventFiles :: "(string \<times> EventFile) list"
  mr_jobs :: "(string \<times> ReplayJob) list"
  mr_idempotencyMap :: "string \<rightharpoonup> string"
  mr_metrics :: "string \<Rightarrow> StoreMetric list"
  mr_errors :: "string \<Rightarrow> ValidationError list"

definition NewMemoryRepository :: MemoryRepository where
  "NewMemoryRepository =
     \<lparr>mr_datasets = [], mr_eventFiles = [], mr_jobs = [], mr_idempotencyMap = Map.empty,
      mr_metrics = (\<lambda>_. []), mr_errors = (\<lambda>_. [])\<rparr>"

definition range_values :: "Io \<Rightarrow> (string \<times> 'a) list \<Rightarrow> 'a list" where
  "range_values io m = rearrange (io_order io) (map snd m)"

definition CreateDataset :: "CreateDatasetParams \<Rightarrow> (MemoryRepository, store_error + Dataset) repo_method" where
  "CreateDataset p io r =
     (let dataset = \<lparr>ds_ID = io_uuid io 0, ds_Name = cd_Name p, ds_Description = cd_Description p,
                     ds_CreatedAt = io_now io\<rparr>
      in (Inr dataset, r\<lparr>mr_datasets := AList.update (ds_ID dataset) dataset (mr_datasets r)\<rparr>))"

definition ListDatasets :: "(MemoryRepository, store_error + Dataset list) repo_method" where
  "ListDatasets io r = (Inr (sort_key ds_CreatedAt (range_values io (mr_datasets r))), r)"

definition GetDataset :: "string \<Rightarrow> (MemoryRepository, store_error + Dataset) repo_method" where
  "GetDataset i io r =
     (case map_of (mr_datasets r) i of None \<Rightarrow> (Inl ErrNotFound, r) | Some dataset \<Rightarrow> (Inr dataset, r))"

definition CreateEventFile :: "CreateEventFileParams \<Rightarrow> (MemoryRepository, store_error + EventFile) repo_method" where
  "CreateEventFile p io r =
     (if map_of (mr_datasets r) (ce_DatasetID p) = None then (Inl ErrNotFound, r)
      else let file = \<lparr>ef_ID = io_uuid io 0, ef_DatasetID = ce_DatasetID p, ef_Path = ce_Path p,
                       ef_Format = ce_Format p, ef_Symbol = ce_Symbol p, ef_Bytes = ce_Bytes p,
                       ef_SHA256 = ce_SHA256 p, ef_Rows = ce_Rows p, ef_CreatedAt = io_now io\<rparr>
           in (Inr file, r\<lparr>mr_eventFiles := AList.update (ef_ID file) file (mr_eventFiles r)\<rparr>))"

definition GetEventFile :: "string \<Rightarrow> (MemoryRepository, store_error + EventFile) repo_method" where
  "GetEventFile i io r =
     (case map_of (mr_eventFiles r) i of None \<Rightarrow> (Inl ErrNotFound, r) | Some file \<Rightarrow> (Inr file, r))"

definition ListEventFiles :: "string \<Rightarrow> (MemoryRepository, store_error + EventFile list) repo_method" where
  "ListEventFiles datasetID io r =
     (if map_of (mr_datasets r) datasetID = None then (Inl ErrNotFound, r)
      else (Inr (sort_key ef_CreatedAt
              (filter (\<lambda>file. ef_DatasetID file = datasetID) (range_values io (mr_eventFiles r)))), r))"

definition UpdateEventFileStats ::
  "string \<Rightarrow> UpdateEventFileStatsParams \<Rightarrow> (MemoryRepository, store_error + EventFile) repo_method" where
  "UpdateEventFileStats i p io r =
     (case map_of (mr_eventFiles r) i of
        None \<Rightarrow> (Inl ErrNotFound, r)
      | Some file \<Rightarrow>
          (let file1 = (if us_SHA256 p \<noteq> '''' then file\<lparr>ef_SHA256 := us_SHA256 p\<rparr> else file);
               file2 = (if us_Rows p \<ge> 0 then file1\<lparr>ef_Rows := us_Rows p\<rparr> else file1);
               file3 = (if us_Bytes p \<ge> 0 then file2\<lparr>ef_Bytes := us_Bytes p\<rparr> else file2)
           in (Inr file3, r\<lparr>mr_eventFiles := AList.update i file3 (mr_eventFiles r)\<rparr>)))"

text \<open>\<^verbatim>\<open>r.jobs[id]\<close> of a missing key is the zero job.\<close>

definition job_or_zero :: "MemoryRepository \<Rightarrow> string \<Rightarrow> ReplayJob" where
  "job_or_zero r i = (case map_of (mr_jobs r) i of None \<Rightarrow> zero_ReplayJob | Some job \<Rightarrow> job)"

definition insert_new_job :: "CreateReplayJobParams \<Rightarrow> (MemoryRepository, ReplayJob \<times> store_error option) repo_method" where
  "insert_new_job p io r =
     (let job = \<lparr>rj_ID = io_uuid io 0, rj_DatasetID = cj_DatasetID p, rj_EventFileID = cj_EventFileID p,
             rj_IdempotencyKey = cj_IdempotencyKey p, rj_Symbol = cj_Symbol p, rj_Speed = cj_Speed p,
             rj_Status = JobStatusQueued, rj_Attempts = 0, rj_LastError = '''', rj_CheckpointLine = 0,
             rj_CreatedAt = io_now io, rj_StartedAt = None, rj_CompletedAt = None,
             rj_CanceledAt = None, rj_Manifest = zero_ReplayManifest\<rparr>;
          r1 = r\<lparr>mr_jobs := AList.update (rj_ID job) job (mr_jobs r)\<rparr>;
          r2 = (if cj_IdempotencyKey p \<noteq> ''''
                then r1\<lparr>mr_idempotencyMap := (mr_idempotencyMap r1)(cj_IdempotencyKey p \<mapsto> rj_ID job)\<rparr>
                else r1)
      in ((job, None), r2))"

definition CreateReplayJob ::
  "CreateReplayJobParams \<Rightarrow> (MemoryRepository, ReplayJob \<times> store_error option) repo_method" where
  "CreateReplayJob p io r =
     (if map_of (mr_datasets r) (cj_DatasetID p) = None then ((zero_ReplayJob, Some ErrNotFound), r)
      else if map_of (mr_eventFiles r) (cj_EventFileID p) = None
      then ((zero_ReplayJob, Some ErrNotFound), r)
      else case (if cj_IdempotencyKey p \<noteq> '''' then mr_idempotencyMap r (cj_IdempotencyKey p) else None) of
             Some i \<Rightarrow> ((job_or_zero r i, Some ErrAlreadyExists), r)
           | None \<Rightarrow> insert_new_job p io r)"

definition GetReplayJob :: "string \<Rightarrow> (MemoryRepository, store_error + ReplayJob) repo_method" where
  "GetReplayJob i io r =
     (case map_of (mr_jobs r) i of None \<Rightarrow> (Inl ErrNotFound, r) | Some job \<Rightarrow> (Inr job, r))"

definition GetReplayJobByIdempotencyKey :: "string \<Rightarrow> (MemoryRepository, store_error + ReplayJob) repo_method" where
  "GetReplayJobByIdempotencyKey key io r =
     (case mr_idempotencyMap r key of
        None \<Rightarrow> (Inl ErrNotFound, r)
      | Some i \<Rightarrow> (Inr (job_or_zero r i), r))"

definition ListReplayJobs :: "(MemoryRepository, store_error + ReplayJob list) repo_method" where
  "ListReplayJobs io r = (Inr (sort_key rj_CreatedAt (range_values io (mr_jobs r))), r)"

definition set_job :: "string \<Rightarrow> ReplayJob \<Rightarrow> MemoryRepository \<Rightarrow> MemoryRepository" where
  "set_job i job r = r\<lparr>mr_jobs := AList.update i job (mr_jobs r)\<rparr>"

definition UpdateReplayJobStatus ::
  "string \<Rightarrow> JobStatus \<Rightarrow> string \<Rightarrow> (MemoryRepository, store_error + ReplayJob) repo_method" where
  "UpdateReplayJobStatus i status lastError io r =
     (case map_of (mr_jobs r) i of
        None \<Rightarrow> (Inl ErrNotFound, r)
      | Some job \<Rightarrow>
          (let now = io_now io;
               job1 = job\<lparr>rj_Status := status, rj_LastError := lastError,
                          rj_Attempts := rj_Attempts job + 1\<rparr>;
               job2 = (if status = JobStatusRunning then job1\<lparr>rj_StartedAt := Some now\<rparr>
                       else if status = JobStatusCompleted \<or> status = JobStatusFailed \<or> status = JobStatusDLQ
                       then job1\<lparr>rj_CompletedAt := Some now\<rparr>
                       else if status = JobStatusCanceled then job1\<lparr>rj_CanceledAt := Some now\<rparr>
                       else job1)
           in (Inr job2, set_job i job2 r)))"

definition UpdateReplayCheckpoint :: "string \<Rightarrow> int \<Rightarrow> (MemoryRepository, store_error + unit) repo_method" where
  "UpdateReplayCheckpoint i checkpointLine io r =
     (case map_of (mr_jobs r) i of
        None \<Rightarrow> (Inl ErrNotFound, r)
      | Some job \<Rightarrow>
          (if checkpointLine > rj_CheckpointLine job
           then (Inr (), set_job i (job\<lparr>rj_CheckpointLine := checkpointLine\<rparr>) r)
           else (Inr (), r)))"

definition UpdateReplayManifest ::
  "string \<Rightarrow> ReplayManifest \<Rightarrow> (MemoryRepository, store_error + ReplayJob) repo_method" where
  "UpdateReplayManifest i manifest io r =
     (case map_of (mr_jobs r) i of
        None \<Rightarrow> (Inl ErrNotFound, r)
      | Some job \<Rightarrow>
          (let job1 = job\<lparr>rj_Manifest := manifest\<rparr> in (Inr job1, set_job i job1 r)))"

text \<open>The loop over the errors of a finished run, with the number of UUIDs drawn so far.\<close>

fun append_errors ::
  "Io \<Rightarrow> string \<Rightarrow> ValidationError list \<Rightarrow> nat \<Rightarrow> MemoryRepository \<Rightarrow> MemoryRepository" where
  "append_errors io jobID [] n r = r"
| "append_errors io jobID (e # es) n r =
     (let (e1, n1) = (if ve_ID e = '''' then (e\<lparr>ve_ID := io_uuid io n\<rparr>, n + 1) else (e, n));
          e2 = e1\<lparr>ve_JobID := jobID\<rparr>;
          e3 = (if ve_CreatedAt e2 = 0 then e2\<lparr>ve_CreatedAt := io_now io\<rparr> else e2)
      in append_errors io jobID es n1
           (r\<lparr>mr_errors := (mr_errors r)(jobID := mr_errors r jobID @ [e3])\<rparr>))"

definition CompleteReplayJob ::
  "string \<Rightarrow> CompleteReplayJobParams \<Rightarrow> (MemoryRepository, store_error + ReplayJob) repo_method" where
  "CompleteReplayJob jobID p io r =
     (case map_of (mr_jobs r) jobID of
        None \<Rightarrow> (Inl ErrNotFound, r)
      | Some job \<Rightarrow>
          (let now = io_now io;
               job1 = job\<lparr>rj_Status := JobStatusCompleted, rj_CompletedAt := Some now\<rparr>;
               r1 = set_job jobID job1 r;
               (metric, n) = (if me_ID (cp_Metric p) = ''''
                              then ((cp_Metric p)\<lparr>me_ID := io_uuid io 0\<rparr>, 1) else (cp_Metric p, 0));
               metric1 = metric\<lparr>me_JobID := jobID\<rparr>;
               metric2 = (if me_CreatedAt metric1 = 0 then metric1\<lparr>me_CreatedAt := now\<rparr> else metric1);
               r2 = r1\<lparr>mr_metrics := (mr_metrics r1)(jobID := mr_metrics r1 jobID @ [metric2])\<rparr>
           in (Inr job1, append_errors io jobID (cp_Errors p) n r2)))"

definition ListReplayMetrics :: "string \<Rightarrow> (MemoryRepository, store_error + StoreMetric list) repo_method" where
  "ListReplayMetrics jobID io r = (Inr (mr_metrics r jobID), r)"

definition ListValidationErrors :: "string \<Rightarrow> (MemoryRepository, store_error + ValidationError list) repo_method" where
  "ListValidationErrors jobID io r = (Inr (mr_errors r jobID), r)"

definition CancelReplayJob :: "string \<Rightarrow> (MemoryRepository, store_error + ReplayJob) repo_method" where
  "CancelReplayJob jobID = UpdateReplayJobStatus jobID JobStatusCanceled ''''"

text \<open>The repository as a value of the interface.\<close>

definition memory_repository :: "MemoryRepository Repository" where
  "memory_repository =
     \<lparr>rp_CreateDataset = CreateDataset, rp_ListDatasets = ListDatasets, rp_GetDataset = GetDataset,
      rp_CreateEventFile = CreateEventFile, rp_GetEventFile = GetEventFile,
      rp_ListEventFiles = ListEventFiles, rp_UpdateEventFileStats = UpdateEventFileStats,
      rp_CreateReplayJob = CreateReplayJob, rp_GetReplayJob = GetReplayJob,
      rp_GetReplayJobByIdempotencyKey = GetReplayJobByIdempotencyKey,
      rp_ListReplayJobs = ListReplayJobs, rp_UpdateReplayJobStatus = UpdateReplayJobStatus,
      rp_UpdateReplayCheckpoint = UpdateReplayCheckpoint,
      rp_UpdateReplayManifest = UpdateReplayManifest, rp_CompleteReplayJob = CompleteReplayJob,
      rp_ListReplayMetrics = ListReplayMetrics, rp_ListValidationErrors = ListValidationErrors,
      rp_CancelReplayJob = CancelReplayJob\<rparr>"

subsection \<open>The abstract database of a repository\<close>

definition memory_db :: "MemoryRepository \<Rightarrow> Db" where
  "memory_db r = \<lparr>db_datasets = map_of (mr_datasets r), db_files = map_of (mr_eventFiles r),
     db_jobs = map_of (mr_jobs r), db_keys = mr_idempotencyMap r, db_metrics = mr_metrics r,
     db_errors = mr_errors r\<rparr>"

definition memory_inv :: "MemoryRepository \<Rightarrow> bool" where
  "memory_inv r \<longleftrightarrow> distinct (map fst (mr_datasets r)) \<and> distinct (map fst (mr_eventFiles r)) \<and>
     distinct (map fst (mr_jobs r)) \<and> wf_db (memory_db r)"

lemma memory_db_simps [simp]:
  "db_datasets (memory_db r) = map_of (mr_datasets r)"
  "db_files (memory_db r) = map_of (mr_eventFiles r)" "db_jobs (memory_db r) = map_of (mr_jobs r)"
  "db_keys (memory_db r) = mr_idempotencyMap r" "db_metrics (memory_db r) = mr_metrics r"
  "db_errors (memory_db r) = mr_errors r"
  by (simp_all add: memory_db_def)

lemma range_values_set:
  "distinct (map fst m) \<Longrightarrow> set (range_values io m) = ran (map_of m)"
  by (metis mset_rearrange range_values_def ran_distinct set_map set_mset_mset)

lemma range_values_distinct:
  assumes "distinct (map fst m)" "\<And>k x. map_of m k = Some x \<Longrightarrow> f x = k"
  shows "distinct (map f (range_values io m))"
proof -
  have "map f (map snd m) = map fst m"
    using assms by (auto simp: map_of_eq_Some_iff)
  moreover have "mset (map f (range_values io m)) = mset (map f (map snd m))"
    by (simp add: range_values_def multiset.map_comp)
  ultimately show ?thesis
    using assms(1) by (metis mset_eq_imp_distinct_iff)
qed

lemma distinct_map_filter_values: "distinct (map f xs) \<Longrightarrow> distinct (map f (filter P xs))"
  by (rule distinct_map_filter)

subsection \<open>Each method on the abstract database\<close>

lemma set_job_db [simp]: "memory_db (set_job i j r) = put_job i j (memory_db r)"
  by (simp add: memory_db_def set_job_def put_job_def map_of_AList_update)

lemma set_job_simps [simp]:
  "mr_datasets (set_job i j r) = mr_datasets r" "mr_eventFiles (set_job i j r) = mr_eventFiles r"
  "mr_jobs (set_job i j r) = AList.update i j (mr_jobs r)" "mr_metrics (set_job i j r) = mr_metrics r"
  "mr_errors (set_job i j r) = mr_errors r"
  by (simp_all add: set_job_def)

lemma set_job_inv:
  assumes "memory_inv r" "map_of (mr_jobs r) i = Some j" "same_job j' j" "0 \<le> rj_CheckpointLine j'"
  shows "memory_inv (set_job i j' r)"
  using assms wf_db_update_job [of "memory_db r" i j j']
  by (simp add: memory_inv_def put_job_def)

lemma memory_inv_job:
  assumes "memory_inv r" "map_of (mr_jobs r) i = Some j"
  shows "rj_ID j = i" "0 \<le> rj_CheckpointLine j"
  using assms wf_db_job [of "memory_db r" i j] by (simp_all add: memory_inv_def)

lemma same_job_simps [simp]:
  "same_job j j" "same_job (with_status t st e j) j"
  "same_job (j\<lparr>rj_CheckpointLine := n\<rparr>) j" "same_job (j\<lparr>rj_Manifest := m\<rparr>) j"
  "same_job (j\<lparr>rj_Status := st, rj_CompletedAt := c\<rparr>) j"
  by (simp_all add: same_job_def)

lemma UpdateReplayJobStatus_alt:
  "UpdateReplayJobStatus i st e io r =
     (case map_of (mr_jobs r) i of
        None \<Rightarrow> (Inl ErrNotFound, r)
      | Some j \<Rightarrow> (Inr (with_status (io_now io) st e j), set_job i (with_status (io_now io) st e j) r))"
  by (simp add: UpdateReplayJobStatus_def with_status_def Let_def split: option.splits)

lemma append_errors_db:
  "memory_db (append_errors io i es n r) =
     (memory_db r)\<lparr>db_errors := (mr_errors r)(i := mr_errors r i @ stamp_errors io n i es)\<rparr>"
proof (induction es arbitrary: n r)
  case Nil
  then show ?case by (simp add: memory_db_def)
next
  case (Cons e es)
  then show ?case by (auto simp: memory_db_def Let_def)
qed

lemma append_errors_rows [simp]:
  "mr_datasets (append_errors io i es n r) = mr_datasets r"
  "mr_eventFiles (append_errors io i es n r) = mr_eventFiles r"
  "mr_jobs (append_errors io i es n r) = mr_jobs r"
  by (induction es arbitrary: n r) (simp_all add: Let_def)

lemma CompleteReplayJob_alt:
  assumes "map_of (mr_jobs r) i = Some j"
    "j' = j\<lparr>rj_Status := JobStatusCompleted, rj_CompletedAt := Some (io_now io)\<rparr>"
  shows "CompleteReplayJob i p io r = (Inr j',
     append_errors io i (cp_Errors p) (first_error_uuid (cp_Metric p))
       ((set_job i j' r)\<lparr>mr_metrics := (mr_metrics r)(i := mr_metrics r i @ [stamp_metric io i (cp_Metric p)])\<rparr>))"
  using assms by (simp add: CompleteReplayJob_def Let_def first_error_uuid_def stamp_metric_def)

lemma CompleteReplayJob_db:
  assumes "memory_inv r" "map_of (mr_jobs r) i = Some j"
  shows "\<exists>r' j'. j' = j\<lparr>rj_Status := JobStatusCompleted, rj_CompletedAt := Some (io_now io)\<rparr> \<and>
    CompleteReplayJob i p io r = (Inr j', r') \<and> memory_inv r' \<and>
    memory_db r' = complete_job io i p j' (memory_db r)"
proof -
  let ?j = "j\<lparr>rj_Status := JobStatusCompleted, rj_CompletedAt := Some (io_now io)\<rparr>"
  obtain r' where r': "CompleteReplayJob i p io r = (Inr ?j, r')"
    "mr_datasets r' = mr_datasets r" "mr_eventFiles r' = mr_eventFiles r"
    "mr_jobs r' = AList.update i ?j (mr_jobs r)"
    "memory_db r' = complete_job io i p ?j (memory_db r)"
    by (simp add: CompleteReplayJob_alt [OF assms(2)] append_errors_db complete_job_def put_job_def)
      (simp add: memory_db_def map_of_AList_update set_job_def)
  have "wf_db (put_job i ?j (memory_db r))"
    using assms wf_db_update_job [of "memory_db r" i j ?j] memory_inv_job [OF assms]
    by (simp add: memory_inv_def put_job_def)
  then have "memory_inv r'"
    using assms(1) r' by (simp add: memory_inv_def complete_job_def)
  with r' show ?thesis by blast
qed

lemma insert_new_job_alt:
  "insert_new_job p io r = ((new_job io p, None),
     r\<lparr>mr_jobs := AList.update (io_uuid io 0) (new_job io p) (mr_jobs r),
       mr_idempotencyMap := (if cj_IdempotencyKey p = '''' then mr_idempotencyMap r
         else (mr_idempotencyMap r)(cj_IdempotencyKey p \<mapsto> io_uuid io 0))\<rparr>)"
  by (simp add: insert_new_job_def new_job_def zero_ReplayJob_def Let_def)

lemma new_job_simps [simp]:
  "rj_ID (new_job io p) = io_uuid io 0" "rj_DatasetID (new_job io p) = cj_DatasetID p"
  "rj_EventFileID (new_job io p) = cj_EventFileID p"
  "rj_IdempotencyKey (new_job io p) = cj_IdempotencyKey p" "rj_CheckpointLine (new_job io p) = 0"
  "rj_Status (new_job io p) = JobStatusQueued"
  by (simp_all add: new_job_def zero_ReplayJob_def)

lemma insert_job_wf:
  assumes "wf_db d" "fresh_io io d" "cj_DatasetID p \<in> dom (db_datasets d)"
    "cj_EventFileID p \<in> dom (db_files d)" "db_keys d (cj_IdempotencyKey p) = None"
  shows "wf_db (insert_job (new_job io p) d)"
proof -
  have "rj_IdempotencyKey x \<noteq> cj_IdempotencyKey p" if "cj_IdempotencyKey p \<noteq> ''''" "db_jobs d i = Some x" for i x
    using that assms(5) wf_db_key [OF assms(1), of "cj_IdempotencyKey p" i] by auto
  then show ?thesis
    using assms by (auto simp: wf_db_def insert_job_def fresh_io_def domIff)
qed

lemma CreateReplayJob_new_db:
  assumes "memory_inv r" "fresh_io io (memory_db r)" "cj_DatasetID p \<in> dom (map_of (mr_datasets r))"
    "cj_EventFileID p \<in> dom (map_of (mr_eventFiles r))" "mr_idempotencyMap r (cj_IdempotencyKey p) = None"
  shows "\<exists>r'. CreateReplayJob p io r = ((new_job io p, None), r') \<and> memory_inv r' \<and>
    memory_db r' = insert_job (new_job io p) (memory_db r)"
proof -
  let ?r = "snd (insert_new_job p io r)"
  have db: "memory_db ?r = insert_job (new_job io p) (memory_db r)"
    by (simp add: insert_new_job_alt insert_job_def) (simp add: memory_db_def map_of_AList_update)
  have "memory_inv ?r"
    using assms insert_job_wf [of "memory_db r" io p]
    by (auto simp: memory_inv_def db) (auto simp: insert_new_job_alt)
  moreover have "CreateReplayJob p io r = ((new_job io p, None), ?r)"
    using assms(3-5) by (auto simp: CreateReplayJob_def insert_new_job_alt)
  ultimately show ?thesis using db by blast
qed

lemma CreateReplayJob_existing_db:
  assumes "memory_inv r" "cj_DatasetID p \<in> dom (map_of (mr_datasets r))"
    "cj_EventFileID p \<in> dom (map_of (mr_eventFiles r))"
    "mr_idempotencyMap r (cj_IdempotencyKey p) = Some i" "map_of (mr_jobs r) i = Some j"
  shows "CreateReplayJob p io r = ((j, Some ErrAlreadyExists), r)"
proof -
  have "cj_IdempotencyKey p \<noteq> ''''"
    using assms(1,4) wf_db_key [of "memory_db r" "cj_IdempotencyKey p" i] by (auto simp: memory_inv_def)
  then show ?thesis
    using assms by (auto simp: CreateReplayJob_def job_or_zero_def)
qed

lemma UpdateEventFileStats_inv:
  assumes "memory_inv r" "map_of (mr_eventFiles r) i = Some f" "ef_ID f' = ef_ID f" "ef_DatasetID f' = ef_DatasetID f"
  shows "memory_inv (r\<lparr>mr_eventFiles := AList.update i f' (mr_eventFiles r)\<rparr>)"
  using assms
  by (auto simp: memory_inv_def wf_db_def map_of_AList_update domIff)

lemma ListEventFiles_db:
  assumes "memory_inv r" "i \<in> dom (map_of (mr_datasets r))"
  shows "\<exists>fs. ListEventFiles i io r = (Inr fs, r) \<and> distinct (map ef_ID fs) \<and>
    set fs = {f \<in> ran (map_of (mr_eventFiles r)). ef_DatasetID f = i} \<and> sorted (map ef_CreatedAt fs)"
proof -
  have d: "distinct (map fst (mr_eventFiles r))" and
    k: "\<And>i f. map_of (mr_eventFiles r) i = Some f \<Longrightarrow> ef_ID f = i"
    using assms(1) by (auto simp: memory_inv_def wf_db_def)
  show ?thesis
    using assms(2) range_values_set [OF d, of io] range_values_distinct [OF d k, where io = io]
    by (auto simp: ListEventFiles_def distinct_sort_key distinct_map_filter_values)
qed

lemma ListReplayJobs_db:
  assumes "memory_inv r"
  shows "\<exists>js. ListReplayJobs io r = (Inr js, r) \<and> distinct (map rj_ID js) \<and>
    set js = ran (map_of (mr_jobs r)) \<and> sorted (map rj_CreatedAt js)"
proof -
  have d: "distinct (map fst (mr_jobs r))" and
    k: "\<And>i f. map_of (mr_jobs r) i = Some f \<Longrightarrow> rj_ID f = i"
    using assms(1) by (auto simp: memory_inv_def wf_db_def)
  show ?thesis
    using range_values_set [OF d, of io] range_values_distinct [OF d k, where io = io]
    by (auto simp: ListReplayJobs_def distinct_sort_key)
qed

lemma with_stats_alt:
  "us_SHA256 u \<noteq> '''' \<Longrightarrow> 0 \<le> us_Rows u \<Longrightarrow> 0 \<le> us_Bytes u \<Longrightarrow> map_of (mr_eventFiles r) i = Some f \<Longrightarrow>
    UpdateEventFileStats i u io r =
      (Inr (with_stats u f), r\<lparr>mr_eventFiles := AList.update i (with_stats u f) (mr_eventFiles r)\<rparr>)"
  by (simp add: UpdateEventFileStats_def with_stats_def Let_def)

lemmas memory_methods = memory_repository_def GetDataset_def GetEventFile_def GetReplayJob_def
  GetReplayJobByIdempotencyKey_def UpdateReplayJobStatus_alt CancelReplayJob_def
  UpdateReplayManifest_def ListReplayMetrics_def ListValidationErrors_def lookup_def

interpretation memory: repository memory_repository memory_inv memory_db
proof (unfold_locales, goal_cases)
  case (1 r)
  then show ?case by (simp add: memory_inv_def)
next
  case (5 r k io)
  have "mr_idempotencyMap r k = Some i \<Longrightarrow> map_of (mr_jobs r) i \<noteq> None" for i
    using 5 wf_db_key [of "memory_db r" k i] by (auto simp: memory_inv_def)
  then show ?case
    by (fastforce simp: memory_methods job_or_zero_def split: option.splits)
next
  case (6 r io p)
  then show ?case using CreateReplayJob_new_db [of r io p] by (simp add: memory_repository_def)
next
  case (7 r p i j io)
  then show ?case using CreateReplayJob_existing_db [of r p i j io] by (simp add: memory_repository_def)
next
  case (8 r p io)
  then show ?case by (auto simp: memory_repository_def CreateReplayJob_def domIff)
next
  case (9 r u i f io)
  then show ?case
    using UpdateEventFileStats_inv [of r i f "with_stats u f"]
    by (simp add: memory_repository_def with_stats_alt)
      (simp add: memory_db_def map_of_AList_update with_stats_def)
next
  case (10 r i j st e io)
  then show ?case
    using set_job_inv [of r i j "with_status (io_now io) st e j"] memory_inv_job [of r i j]
    by (simp add: memory_methods)
next
  case (12 r i j n io)
  then show ?case
    using set_job_inv [of r i j "j\<lparr>rj_CheckpointLine := n\<rparr>"] memory_inv_job [of r i j]
    by (auto simp: memory_repository_def UpdateReplayCheckpoint_def put_job_def max_def fun_upd_idem)
next
  case (13 r i j m io)
  then show ?case
    using set_job_inv [of r i j "j\<lparr>rj_Manifest := m\<rparr>"] memory_inv_job [of r i j]
    by (simp add: memory_methods Let_def)
next
  case (14 r i j io q)
  then show ?case using CompleteReplayJob_db [of r i j io q] by (simp add: memory_repository_def)
next
  case (15 r i j io)
  then show ?case
    using set_job_inv [of r i j "with_status (io_now io) JobStatusCanceled '''' j"] memory_inv_job [of r i j]
    by (simp add: memory_methods)
next
  case (19 r io)
  then show ?case using ListReplayJobs_db by (simp add: memory_repository_def)
next
  case (20 r i io)
  then show ?case using ListEventFiles_db by (simp add: memory_repository_def)
qed (auto simp: memory_methods split: option.splits)


subsection \<open>Sequences of calls\<close>

text \<open>The methods that change the repository, as the steps of a state machine.\<close>

fun exec_op :: "store_op \<Rightarrow> Io \<Rightarrow> MemoryRepository \<Rightarrow> MemoryRepository" where
  "exec_op (OpCreateDataset p) io r = snd (CreateDataset p io r)"
| "exec_op (OpCreateEventFile p) io r = snd (CreateEventFile p io r)"
| "exec_op (OpUpdateEventFileStats i p) io r = snd (UpdateEventFileStats i p io r)"
| "exec_op (OpCreateReplayJob p) io r = snd (CreateReplayJob p io r)"
| "exec_op (OpUpdateReplayJobStatus i st e) io r = snd (UpdateReplayJobStatus i st e io r)"
| "exec_op (OpUpdateReplayCheckpoint i n) io r = snd (UpdateReplayCheckpoint i n io r)"
| "exec_op (OpUpdateReplayManifest i m) io r = snd (UpdateReplayManifest i m io r)"
| "exec_op (OpCompleteReplayJob i p) io r = snd (CompleteReplayJob i p io r)"
| "exec_op (OpCancelReplayJob i) io r = snd (CancelReplayJob i io r)"

inductive memory_step :: "MemoryRepository \<Rightarrow> MemoryRepository \<Rightarrow> bool" where
  step: "fresh_io io (memory_db r) \<Longrightarrow> memory_step r (exec_op op io r)"

inductive_cases memory_stepE: "memory_step r r'"

text \<open>The memory repository refines the specification: it keeps times as they are, and canceling is a change of status.\<close>

definition memory_cancel :: "time \<Rightarrow> ReplayJob \<Rightarrow> ReplayJob" where
  "memory_cancel now = with_status now JobStatusCanceled ''''"

definition memory_can :: "store_op \<Rightarrow> Io \<Rightarrow> Db \<Rightarrow> bool" where
  "memory_can op io d \<longleftrightarrow> fresh_io io d \<and>
     (case op of OpUpdateEventFileStats i u \<Rightarrow> us_SHA256 u \<noteq> '''' \<and> 0 \<le> us_Rows u \<and> 0 \<le> us_Bytes u | _ \<Rightarrow> True)"

lemma memory_on_job:
  assumes "memory_inv r" "\<And>j. map_of (mr_jobs r) i = Some j \<Longrightarrow> same_job (f j) j \<and> 0 \<le> rj_CheckpointLine (f j)"
    "r' = (case map_of (mr_jobs r) i of None \<Rightarrow> r | Some j \<Rightarrow> set_job i (f j) r)"
  shows "memory_inv r' \<and> memory_db r' = on_job i f (memory_db r)"
  using assms set_job_inv [OF assms(1)] by (auto simp: on_job_def split: option.splits)

text \<open>What is kept of a database when it becomes another one.\<close>

definition continues :: "Db \<Rightarrow> Db \<Rightarrow> bool" where
  "continues d d' \<longleftrightarrow>
     dom (db_datasets d) \<subseteq> dom (db_datasets d') \<and> dom (db_files d) \<subseteq> dom (db_files d') \<and>
     (\<forall>i j. db_jobs d i = Some j \<longrightarrow> (\<exists>j'. db_jobs d' i = Some j' \<and> same_job j' j \<and>
        rj_CheckpointLine j \<le> rj_CheckpointLine j' \<and> rj_Attempts j \<le> rj_Attempts j')) \<and>
     (\<forall>i. (\<exists>ms. db_metrics d' i = db_metrics d i @ ms) \<and> (\<exists>es. db_errors d' i = db_errors d i @ es))"

lemma continues_refl [simp]: "continues d d"
  by (auto simp: continues_def)

lemma same_job_trans: "same_job a b \<Longrightarrow> same_job b c \<Longrightarrow> same_job a c"
  by (simp add: same_job_def)

lemma continues_trans:
  assumes "continues a b" "continues b c"
  shows "continues a c"
proof -
  have "\<exists>j'. db_jobs c i = Some j' \<and> same_job j' j \<and> rj_CheckpointLine j \<le> rj_CheckpointLine j' \<and>
      rj_Attempts j \<le> rj_Attempts j'" if "db_jobs a i = Some j" for i j
    using assms that unfolding continues_def by (meson order_trans same_job_trans)
  moreover have "\<exists>ms. db_metrics c i = db_metrics a i @ ms" "\<exists>es. db_errors c i = db_errors a i @ es" for i
    using assms unfolding continues_def by (metis append_assoc)+
  moreover have "dom (db_datasets a) \<subseteq> dom (db_datasets c)" "dom (db_files a) \<subseteq> dom (db_files c)"
    using assms unfolding continues_def by (meson order_trans)+
  ultimately show ?thesis
    by (simp add: continues_def)
qed

lemma put_job_continues:
  assumes "db_jobs d i = Some j" "same_job j' j" "rj_CheckpointLine j \<le> rj_CheckpointLine j'"
    "rj_Attempts j \<le> rj_Attempts j'"
  shows "continues d (put_job i j' d)"
  using assms by (auto simp: continues_def)

lemma complete_job_continues:
  assumes "db_jobs d i = Some j" "same_job j' j" "rj_CheckpointLine j \<le> rj_CheckpointLine j'"
    "rj_Attempts j \<le> rj_Attempts j'"
  shows "continues d (complete_job io i p j' d)"
  using assms by (auto simp: continues_def complete_job_def)

text \<open>Each method keeps the invariant and continues the database.\<close>

definition good_step :: "MemoryRepository \<Rightarrow> MemoryRepository \<Rightarrow> bool" where
  "good_step r r' \<longleftrightarrow> memory_inv r' \<and> continues (memory_db r) (memory_db r')"

lemma good_step_refl: "memory_inv r \<Longrightarrow> good_step r r"
  by (simp add: good_step_def)

lemma good_set_job:
  assumes "memory_inv r" "map_of (mr_jobs r) i = Some j" "same_job j' j"
    "rj_CheckpointLine j \<le> rj_CheckpointLine j'" "rj_Attempts j \<le> rj_Attempts j'"
  shows "good_step r (set_job i j' r)"
  using assms set_job_inv [of r i j j'] put_job_continues [of "memory_db r" i j j'] memory_inv_job [of r i j]
  by (auto simp: good_step_def)

lemma wf_db_new_row:
  "wf_db d \<Longrightarrow> ds_ID x = i \<Longrightarrow> wf_db (d\<lparr>db_datasets := (db_datasets d)(i \<mapsto> x)\<rparr>)"
  "wf_db d \<Longrightarrow> ef_ID f = i \<Longrightarrow> ef_DatasetID f \<in> dom (db_datasets d) \<Longrightarrow>
    wf_db (d\<lparr>db_files := (db_files d)(i \<mapsto> f)\<rparr>)"
  by (auto simp: wf_db_def)

lemma continues_new_row [simp]:
  "continues d (d\<lparr>db_datasets := (db_datasets d)(i \<mapsto> x)\<rparr>)"
  "continues d (d\<lparr>db_files := (db_files d)(i \<mapsto> f)\<rparr>)"
  by (auto simp: continues_def)

lemma memory_db_new_row:
  "memory_db (r\<lparr>mr_datasets := AList.update i x (mr_datasets r)\<rparr>) =
    (memory_db r)\<lparr>db_datasets := (map_of (mr_datasets r))(i \<mapsto> x)\<rparr>"
  "memory_db (r\<lparr>mr_eventFiles := AList.update i f (mr_eventFiles r)\<rparr>) =
    (memory_db r)\<lparr>db_files := (map_of (mr_eventFiles r))(i \<mapsto> f)\<rparr>"
  by (simp_all add: memory_db_def map_of_AList_update)

lemma memory_wf_new_row:
  "wf_db (memory_db r) \<Longrightarrow> ds_ID x = i \<Longrightarrow>
    wf_db ((memory_db r)\<lparr>db_datasets := (map_of (mr_datasets r))(i \<mapsto> x)\<rparr>)"
  "wf_db (memory_db r) \<Longrightarrow> ef_ID f = i \<Longrightarrow> map_of (mr_datasets r) (ef_DatasetID f) \<noteq> None \<Longrightarrow>
    wf_db ((memory_db r)\<lparr>db_files := (map_of (mr_eventFiles r))(i \<mapsto> f)\<rparr>)"
  using wf_db_new_row [of "memory_db r"] by (auto simp: domIff)

lemma memory_continues_new_row:
  "continues (memory_db r) ((memory_db r)\<lparr>db_datasets := (map_of (mr_datasets r))(i \<mapsto> x)\<rparr>)"
  "continues (memory_db r) ((memory_db r)\<lparr>db_files := (map_of (mr_eventFiles r))(i \<mapsto> f)\<rparr>)"
  using continues_new_row [of "memory_db r"] by auto

lemmas new_row_simps = memory_db_new_row memory_wf_new_row memory_continues_new_row

lemma good_CreateDataset:
  "memory_inv r \<Longrightarrow> good_step r (snd (CreateDataset p io r))"
  by (simp add: good_step_def CreateDataset_def Let_def memory_inv_def new_row_simps)

lemma good_CreateEventFile:
  "memory_inv r \<Longrightarrow> good_step r (snd (CreateEventFile p io r))"
  by (simp add: good_step_def CreateEventFile_def Let_def memory_inv_def new_row_simps
      del: map_of_eq_Some_iff not_None_eq)

lemma good_UpdateEventFileStats:
  assumes "memory_inv r"
  shows "good_step r (snd (UpdateEventFileStats i p io r))"
proof (cases "map_of (mr_eventFiles r) i")
  case None
  then show ?thesis using assms by (simp add: UpdateEventFileStats_def good_step_refl)
next
  case (Some f)
  then obtain f' where f': "snd (UpdateEventFileStats i p io r) =
      r\<lparr>mr_eventFiles := AList.update i f' (mr_eventFiles r)\<rparr>" "ef_ID f' = ef_ID f" "ef_DatasetID f' = ef_DatasetID f"
    by (simp add: UpdateEventFileStats_def Let_def)
  then show ?thesis
    using UpdateEventFileStats_inv [OF assms Some f'(2,3)]
    by (simp add: good_step_def new_row_simps)
qed

lemma good_CreateReplayJob:
  assumes "memory_inv r" "fresh_io io (memory_db r)"
  shows "good_step r (snd (CreateReplayJob p io r))"
proof (cases "snd (CreateReplayJob p io r) = r")
  case True
  then show ?thesis using assms by (simp add: good_step_refl)
next
  case False
  then have "cj_DatasetID p \<in> dom (map_of (mr_datasets r))" "cj_EventFileID p \<in> dom (map_of (mr_eventFiles r))"
    "cj_IdempotencyKey p \<noteq> '''' \<Longrightarrow> mr_idempotencyMap r (cj_IdempotencyKey p) = None"
    by (auto simp: CreateReplayJob_def split: if_splits option.splits)
  moreover have "mr_idempotencyMap r '''' = None"
    using assms(1) wf_db_key [of "memory_db r" "''''"] by (auto simp: memory_inv_def)
  ultimately obtain r' where r': "CreateReplayJob p io r = ((new_job io p, None), r')" "memory_inv r'"
    "memory_db r' = insert_job (new_job io p) (memory_db r)"
    using CreateReplayJob_new_db [OF assms, of p] by metis
  then show ?thesis
    using assms(2) by (auto simp: good_step_def continues_def insert_job_def fresh_io_def domIff)
qed

lemma good_CompleteReplayJob:
  assumes "memory_inv r"
  shows "good_step r (snd (CompleteReplayJob i p io r))"
proof (cases "map_of (mr_jobs r) i")
  case None
  then show ?thesis using assms by (simp add: CompleteReplayJob_def good_step_refl)
next
  case (Some j)
  let ?j = "j\<lparr>rj_Status := JobStatusCompleted, rj_CompletedAt := Some (io_now io)\<rparr>"
  obtain r' where "CompleteReplayJob i p io r = (Inr ?j, r')" "memory_inv r'"
    "memory_db r' = complete_job io i p ?j (memory_db r)"
    using CompleteReplayJob_db [OF assms Some, of io p] by blast
  then show ?thesis
    using complete_job_continues [of "memory_db r" i j ?j io p] Some by (simp add: good_step_def)
qed

lemma exec_op_good:
  assumes "memory_inv r" "fresh_io io (memory_db r)"
  shows "good_step r (exec_op op io r)"
proof (cases op)
  case (OpUpdateReplayJobStatus i st e)
  then show ?thesis
    using assms good_set_job by (auto simp: UpdateReplayJobStatus_alt good_step_refl split: option.splits)
next
  case (OpUpdateReplayCheckpoint i n)
  then show ?thesis
    using assms good_set_job by (auto simp: UpdateReplayCheckpoint_def good_step_refl split: option.splits)
next
  case (OpUpdateReplayManifest i m)
  then show ?thesis
    using assms good_set_job
    by (auto simp: UpdateReplayManifest_def Let_def good_step_refl split: option.splits)
next
  case (OpCancelReplayJob i)
  then show ?thesis
    using assms good_set_job
    by (auto simp: CancelReplayJob_def UpdateReplayJobStatus_alt good_step_refl split: option.splits)
qed (simp_all add: assms good_CreateDataset good_CreateEventFile good_UpdateEventFileStats
    good_CreateReplayJob good_CompleteReplayJob)

lemma memory_create_job_step:
  assumes "memory_inv r" "fresh_io io (memory_db r)"
  shows "memory_inv (snd (CreateReplayJob p io r)) \<and>
    memory_db (snd (CreateReplayJob p io r)) = db_step (\<lambda>t. t) memory_cancel (OpCreateReplayJob p) io (memory_db r)"
proof -
  have empty: "mr_idempotencyMap r '''' = None"
    using assms(1) wf_db_key [of "memory_db r" "''''"] by (cases "mr_idempotencyMap r ''''") (auto simp: memory_inv_def)
  show ?thesis
  proof (cases "map_of (mr_datasets r) (cj_DatasetID p) = None \<or> map_of (mr_eventFiles r) (cj_EventFileID p) = None \<or>
      mr_idempotencyMap r (cj_IdempotencyKey p) \<noteq> None")
    case True
    then have "snd (CreateReplayJob p io r) = r" using empty by (auto simp: CreateReplayJob_def)
    then show ?thesis using True assms(1) by auto
  next
    case False
    then have *: "cj_DatasetID p \<in> dom (map_of (mr_datasets r))" "cj_EventFileID p \<in> dom (map_of (mr_eventFiles r))"
      "mr_idempotencyMap r (cj_IdempotencyKey p) = None" by (simp_all add: domIff)
    have "spec_job (\<lambda>t. t) io p = new_job io p" by (simp add: spec_job_def new_job_def)
    with CreateReplayJob_new_db [OF assms *] False show ?thesis by auto
  qed
qed

lemma memory_complete_step:
  assumes "memory_inv r"
  shows "memory_inv (snd (CompleteReplayJob i p io r)) \<and>
    memory_db (snd (CompleteReplayJob i p io r)) = db_step (\<lambda>t. t) memory_cancel (OpCompleteReplayJob i p) io (memory_db r)"
proof (cases "map_of (mr_jobs r) i")
  case None
  then show ?thesis using assms by (simp add: CompleteReplayJob_def)
next
  case (Some j)
  have "map (keep_error (\<lambda>t. t)) es = es" for es by (simp add: keep_error_def map_idI)
  then show ?thesis
    using CompleteReplayJob_db [OF assms Some, of io p] Some
    by (auto simp: on_job_def complete_job_def keep_metric_def)
qed

interpretation memory_spec: refines_spec exec_op memory_inv memory_db "\<lambda>t. t" memory_cancel memory_can
proof (unfold_locales, goal_cases)
  case (1 r op io)
  note inv = 1(1) and fresh = 1(2) [unfolded memory_can_def]
  have good: "memory_inv (exec_op op io r)"
    using exec_op_good [OF inv, of io op] fresh by (simp add: good_step_def)
  show ?case
  proof (cases op)
    case (OpCreateReplayJob p)
    then show ?thesis using memory_create_job_step [OF inv] fresh by simp
  next
    case (OpCompleteReplayJob i p)
    then show ?thesis using memory_complete_step [OF inv] by simp
  next
    case (OpUpdateReplayCheckpoint i n)
    have "j\<lparr>rj_CheckpointLine := rj_CheckpointLine j\<rparr> = j" for j :: ReplayJob by simp
    then show ?thesis
      using good OpUpdateReplayCheckpoint
      by (auto simp: UpdateReplayCheckpoint_def on_job_def max_def put_job_def fun_upd_idem split: option.splits)
  qed (use good fresh in \<open>auto simp: CreateDataset_def CreateEventFile_def with_stats_alt UpdateEventFileStats_def UpdateReplayJobStatus_alt
      UpdateReplayManifest_def CancelReplayJob_def on_job_def memory_cancel_def memory_db_def map_of_AList_update
      spec_dataset_def spec_file_def with_stats_def Let_def put_job_def set_job_def split: option.splits\<close>)
qed

lemma memory_steps_good: "memory_step\<^sup>*\<^sup>* r r' \<Longrightarrow> memory_inv r \<Longrightarrow> good_step r r'"
proof (induction rule: rtranclp_induct)
  case base
  then show ?case by (rule good_step_refl)
next
  case (step r' r'')
  from step.hyps(2) obtain op io where "fresh_io io (memory_db r')" "r'' = exec_op op io r'"
    by (rule memory_stepE)
  then show ?case
    using step.IH [OF step.prems] exec_op_good [of r' io op] continues_trans
    by (auto simp: good_step_def)
qed

lemma memory_inv_new: "memory_inv NewMemoryRepository"
  by (simp add: memory_inv_def NewMemoryRepository_def wf_db_def)

text \<open>
  C10: whatever calls are made, in whatever order, starting from an empty repository and with UUIDs that are
  new, the repository stays consistent: identifiers are the keys of their rows, every job refers
  to an existing data set and event file, checkpoints are not negative, and no two jobs have
  the same idempotency key.
\<close>

theorem memory_reachable_consistent:
  assumes "memory_step\<^sup>*\<^sup>* NewMemoryRepository r"
  shows "wf_db (memory_db r) \<and>
    (\<forall>i i' j j'. map_of (mr_jobs r) i = Some j \<longrightarrow> map_of (mr_jobs r) i' = Some j' \<longrightarrow>
      rj_IdempotencyKey j = rj_IdempotencyKey j' \<longrightarrow> rj_IdempotencyKey j \<noteq> '''' \<longrightarrow> i = i')"
proof -
  have wf: "wf_db (memory_db r)"
    using memory_steps_good [OF assms memory_inv_new] by (simp add: good_step_def memory_inv_def)
  then show ?thesis using wf_db_key_unique [OF wf] by auto
qed

text \<open>
  C11: the life of a job. Whatever calls follow, a job keeps its identity (data set, file, key, symbol,
  speed and creation time), its checkpoint and its attempts never decrease, and the metrics and
  validation errors stored for it are never removed or reordered.
\<close>

theorem memory_job_history:
  assumes "memory_step\<^sup>*\<^sup>* NewMemoryRepository r" "memory_step\<^sup>*\<^sup>* r r'"
    "map_of (mr_jobs r) i = Some j"
  shows "\<exists>j'. map_of (mr_jobs r') i = Some j' \<and> same_job j' j \<and>
    rj_CheckpointLine j \<le> rj_CheckpointLine j' \<and> rj_Attempts j \<le> rj_Attempts j' \<and>
    (\<exists>ms. mr_metrics r' i = mr_metrics r i @ ms) \<and> (\<exists>es. mr_errors r' i = mr_errors r i @ es)"
proof -
  have "memory_inv r"
    using memory_steps_good [OF assms(1) memory_inv_new] by (simp add: good_step_def)
  then have "continues (memory_db r) (memory_db r')"
    using memory_steps_good [OF assms(2)] by (simp add: good_step_def)
  then show ?thesis
    using assms(3) by (simp add: continues_def)
qed

text \<open>A job with a key stays the job of that key.\<close>

lemma memory_key_kept:
  assumes "memory_inv r" "map_of (mr_jobs r) i = Some j" "rj_IdempotencyKey j \<noteq> ''''" "memory_step\<^sup>*\<^sup>* r r'"
  obtains j' where "memory_inv r'" "continues (memory_db r) (memory_db r')"
    "mr_idempotencyMap r' (rj_IdempotencyKey j) = Some i" "map_of (mr_jobs r') i = Some j'" "same_job j' j"
proof -
  have inv': "memory_inv r'" and c: "continues (memory_db r) (memory_db r')"
    using memory_steps_good [OF assms(4,1)] by (simp_all add: good_step_def)
  obtain j' where j': "map_of (mr_jobs r') i = Some j'" "same_job j' j"
    using c assms(2) unfolding continues_def memory_db_simps by blast
  then have "mr_idempotencyMap r' (rj_IdempotencyKey j) = Some i"
    using wf_db_key [of "memory_db r'" "rj_IdempotencyKey j" i] inv' assms(3)
    by (auto simp: memory_inv_def same_job_def)
  then show ?thesis using that inv' c j' by blast
qed

text \<open>
  C12: creating a job is idempotent in its key, however much later the request is repeated. Once a job
  with a key exists, every later request with that key for an existing data set and file
  returns that job with \<^verbatim>\<open>ErrAlreadyExists\<close> and changes nothing.
\<close>

theorem memory_create_idempotent:
  assumes "memory_step\<^sup>*\<^sup>* NewMemoryRepository r" "map_of (mr_jobs r) i = Some j" "rj_IdempotencyKey j \<noteq> ''''"
    and "memory_step\<^sup>*\<^sup>* r r'" "cj_IdempotencyKey p = rj_IdempotencyKey j"
    "cj_DatasetID p \<in> dom (map_of (mr_datasets r))" "cj_EventFileID p \<in> dom (map_of (mr_eventFiles r))"
  shows "\<exists>j'. same_job j' j \<and> CreateReplayJob p io r' = ((j', Some ErrAlreadyExists), r')"
proof -
  have inv: "memory_inv r"
    using memory_steps_good [OF assms(1) memory_inv_new] by (simp add: good_step_def)
  from inv assms(2-4) show ?thesis
  proof (rule memory_key_kept)
    fix j' assume *: "memory_inv r'" "continues (memory_db r) (memory_db r')"
      "mr_idempotencyMap r' (rj_IdempotencyKey j) = Some i" "map_of (mr_jobs r') i = Some j'" "same_job j' j"
    then have "cj_DatasetID p \<in> dom (map_of (mr_datasets r'))" "cj_EventFileID p \<in> dom (map_of (mr_eventFiles r'))"
      using assms(6,7) by (auto simp: continues_def)
    then show ?thesis
      using CreateReplayJob_existing_db [OF *(1)] * assms(5) by metis
  qed
qed


lemma ListDatasets_db:
  assumes "memory_inv r"
  shows "\<exists>ds. ListDatasets io r = (Inr ds, r) \<and> distinct (map ds_ID ds) \<and>
    set ds = ran (map_of (mr_datasets r)) \<and> sorted (map ds_CreatedAt ds)"
proof -
  have d: "distinct (map fst (mr_datasets r))" and
    k: "\<And>i f. map_of (mr_datasets r) i = Some f \<Longrightarrow> ds_ID f = i"
    using assms(1) by (auto simp: memory_inv_def wf_db_def)
  show ?thesis
    using range_values_set [OF d, of io] range_values_distinct [OF d k, where io = io]
    by (auto simp: ListDatasets_def distinct_sort_key)
qed

text \<open>
  Listings are complete and ordered, in whatever order Go visits the maps: the data sets, the
  jobs and the event files of a data set are each listed exactly once, in the order of their
  creation times.
\<close>

theorem memory_listings:
  assumes "memory_step\<^sup>*\<^sup>* NewMemoryRepository r"
  shows "(\<exists>ds. ListDatasets io r = (Inr ds, r) \<and> distinct (map ds_ID ds) \<and>
      set ds = ran (map_of (mr_datasets r)) \<and> sorted (map ds_CreatedAt ds)) \<and>
    (\<exists>js. ListReplayJobs io r = (Inr js, r) \<and> distinct (map rj_ID js) \<and>
      set js = ran (map_of (mr_jobs r)) \<and> sorted (map rj_CreatedAt js)) \<and>
    (i \<in> dom (map_of (mr_datasets r)) \<longrightarrow>
      (\<exists>fs. ListEventFiles i io r = (Inr fs, r) \<and> distinct (map ef_ID fs) \<and>
        set fs = {f \<in> ran (map_of (mr_eventFiles r)). ef_DatasetID f = i} \<and> sorted (map ef_CreatedAt fs)))"
proof -
  have inv: "memory_inv r"
    using memory_steps_good [OF assms memory_inv_new] by (simp add: good_step_def)
  show ?thesis
    using ListDatasets_db [OF inv] ListReplayJobs_db [OF inv] ListEventFiles_db [OF inv, of i io] by blast
qed

text \<open>
  C13: completing a job stores what the run found. The job reads back as completed; its metric is
  appended to the job's metrics, the errors to its errors, in order and with line, symbol, type and
  message as given and the job filled in; other jobs keep theirs.
\<close>

theorem memory_complete_stores:
  assumes "memory_step\<^sup>*\<^sup>* NewMemoryRepository r" "map_of (mr_jobs r) i = Some j"
  shows "\<exists>r' j' m es. CompleteReplayJob i p io r = (Inr j', r') \<and> GetReplayJob i io' r' = (Inr j', r') \<and>
    rj_Status j' = JobStatusCompleted \<and> rj_CompletedAt j' = Some (io_now io) \<and> same_job j' j \<and>
    ListReplayMetrics i io' r' = (Inr (mr_metrics r i @ [m]), r') \<and> me_JobID m = i \<and>
    me_Rows m = me_Rows (cp_Metric p) \<and> me_Events m = me_Events (cp_Metric p) \<and>
    ListValidationErrors i io' r' = (Inr (mr_errors r i @ es), r') \<and>
    map (\<lambda>e. (ve_Line e, ve_Symbol e, ve_Type e, ve_Message e)) es =
      map (\<lambda>e. (ve_Line e, ve_Symbol e, ve_Type e, ve_Message e)) (cp_Errors p) \<and>
    (\<forall>e \<in> set es. ve_JobID e = i) \<and>
    (\<forall>i'. i' \<noteq> i \<longrightarrow> map_of (mr_jobs r') i' = map_of (mr_jobs r) i' \<and>
      mr_metrics r' i' = mr_metrics r i' \<and> mr_errors r' i' = mr_errors r i')"
proof -
  have inv: "memory_inv r"
    using memory_steps_good [OF assms(1) memory_inv_new] by (simp add: good_step_def)
  let ?j = "j\<lparr>rj_Status := JobStatusCompleted, rj_CompletedAt := Some (io_now io)\<rparr>"
  let ?es = "stamp_errors io (first_error_uuid (cp_Metric p)) i (cp_Errors p)"
  obtain r' where r': "CompleteReplayJob i p io r = (Inr ?j, r')"
    "memory_db r' = complete_job io i p ?j (memory_db r)"
    using CompleteReplayJob_db [OF inv assms(2), of io p] by blast
  have "db_jobs (memory_db r') i' = (if i' = i then Some ?j else map_of (mr_jobs r) i')"
    "db_metrics (memory_db r') i' = mr_metrics r i' @ (if i' = i then [stamp_metric io i (cp_Metric p)] else [])"
    "db_errors (memory_db r') i' = mr_errors r i' @ (if i' = i then ?es else [])" for i'
    unfolding r'(2) by (simp_all add: complete_job_def)
  note db = this [unfolded memory_db_simps]
  have "map (\<lambda>e. (ve_Line e, ve_Symbol e, ve_Type e, ve_Message e)) ?es =
      map (\<lambda>e. (ve_Line e, ve_Symbol e, ve_Type e, ve_Message e)) (cp_Errors p)"
    by (rule stamp_errors_columns)
  then show ?thesis
    by (intro exI [of _ r'] exI [of _ ?j] exI [of _ "stamp_metric io i (cp_Metric p)"] exI [of _ ?es])
      (simp add: r'(1) db GetReplayJob_def ListReplayMetrics_def ListValidationErrors_def
        stamp_metric_def stamp_errors_rows(6))
qed

subsection \<open>The theorems at work\<close>

text \<open>A run of the repository: a data set, a file, a job with a key, and a change of its status.\<close>

definition sample_io :: "char \<Rightarrow> time \<Rightarrow> Io" where
  "sample_io c t = \<lparr>io_now = t, io_uuid = (\<lambda>n. c # replicate n (CHR ''x'')), io_order = [1]\<rparr>"

abbreviation "sample_job_params \<equiv>
  \<lparr>cj_DatasetID = ''d'', cj_EventFileID = ''f'', cj_IdempotencyKey = ''key'', cj_Symbol = '''', cj_Speed = ''max''\<rparr>"

definition sample_store1 :: MemoryRepository where
  "sample_store1 = exec_op (OpCreateDataset \<lparr>cd_Name = ''demo'', cd_Description = ''''\<rparr>)
     (sample_io (CHR ''d'') 1) NewMemoryRepository"

definition sample_store2 :: MemoryRepository where
  "sample_store2 = exec_op (OpCreateEventFile \<lparr>ce_DatasetID = ''d'', ce_Path = ''a.csv'', ce_Format = ''auto'',
     ce_Symbol = '''', ce_Bytes = 0, ce_SHA256 = '''', ce_Rows = 0\<rparr>) (sample_io (CHR ''f'') 2) sample_store1"

definition sample_store :: MemoryRepository where
  "sample_store = exec_op (OpCreateReplayJob sample_job_params) (sample_io (CHR ''j'') 3) sample_store2"

lemma sample_io_inj: "inj (io_uuid (sample_io c t))"
  by (rule injI) (auto simp: sample_io_def dest: arg_cong [of _ _ length])

lemma sample_store_values:
  "mr_datasets sample_store1 = [(''d'', \<lparr>ds_ID = ''d'', ds_Name = ''demo'', ds_Description = '''', ds_CreatedAt = 1\<rparr>)]"
  "mr_eventFiles sample_store1 = []" "mr_jobs sample_store1 = []"
  "mr_datasets sample_store2 = [(''d'', \<lparr>ds_ID = ''d'', ds_Name = ''demo'', ds_Description = '''', ds_CreatedAt = 1\<rparr>)]"
  "map fst (mr_eventFiles sample_store2) = [''f'']" "mr_jobs sample_store2 = []"
  "map_of (mr_jobs sample_store) ''j'' = Some (new_job (sample_io (CHR ''j'') 3) sample_job_params)"
  "map fst (mr_jobs sample_store) = [''j'']"
  "map fst (mr_datasets sample_store) = [''d'']" "map fst (mr_eventFiles sample_store) = [''f'']"
  by code_simp+

lemma sample_store2_reachable: "memory_step\<^sup>*\<^sup>* NewMemoryRepository sample_store2"
proof -
  have dom: "dom (map_of m) = set (map fst m)" for m :: "(string \<times> 'a) list"
    by (simp add: dom_map_of_conv_image_fst)
  have "memory_step NewMemoryRepository sample_store1"
    unfolding sample_store1_def
    by (rule memory_step.step) (simp add: fresh_io_def sample_io_inj, simp add: sample_io_def NewMemoryRepository_def)
  moreover have "memory_step sample_store1 sample_store2"
    unfolding sample_store2_def
    by (rule memory_step.step) (simp add: fresh_io_def sample_io_inj sample_store_values dom, simp add: sample_io_def)
  ultimately show ?thesis by (meson converse_rtranclp_into_rtranclp rtranclp.rtrancl_refl)
qed

lemma sample_store_reachable: "memory_step\<^sup>*\<^sup>* NewMemoryRepository sample_store"
proof -
  have dom: "dom (map_of m) = set (map fst m)" for m :: "(string \<times> 'a) list"
    by (simp add: dom_map_of_conv_image_fst)
  have "memory_step sample_store2 sample_store"
    unfolding sample_store_def
    by (rule memory_step.step) (simp add: fresh_io_def sample_io_inj sample_store_values dom, simp add: sample_io_def)
  then show ?thesis using sample_store2_reachable by (rule rtranclp.rtrancl_into_rtrancl [rotated])
qed


text \<open>A further step: the sample job runs and reaches line 7.\<close>

definition sample_store_later :: MemoryRepository where
  "sample_store_later = exec_op (OpUpdateReplayCheckpoint ''j'' 7) (sample_io (CHR ''k'') 4) sample_store"

lemma sample_store_later_reachable: "memory_step\<^sup>*\<^sup>* sample_store sample_store_later"
proof -
  have dom: "dom (map_of m) = set (map fst m)" for m :: "(string \<times> 'a) list"
    by (simp add: dom_map_of_conv_image_fst)
  have "memory_step sample_store sample_store_later"
    unfolding sample_store_later_def
    by (rule memory_step.step) (simp add: fresh_io_def sample_io_inj sample_store_values dom, simp add: sample_io_def)
  then show ?thesis by blast
qed

theorem memory_reachable_consistent_witness: "wf_db (memory_db sample_store)"
  using memory_reachable_consistent [OF sample_store_reachable] by simp

theorem memory_job_history_witness:
  "\<exists>j'. map_of (mr_jobs sample_store_later) ''j'' = Some j' \<and> rj_IdempotencyKey j' = ''key'' \<and> 0 \<le> rj_CheckpointLine j'"
  using memory_job_history [OF sample_store_reachable sample_store_later_reachable sample_store_values(7)]
  by (auto simp: same_job_def)

theorem memory_create_idempotent_witness:
  "\<exists>j'. rj_ID j' = ''j'' \<and>
     CreateReplayJob (sample_job_params\<lparr>cj_Speed := ''10x''\<rparr>) (sample_io (CHR ''z'') 9) sample_store_later =
       ((j', Some ErrAlreadyExists), sample_store_later)"
proof -
  have dom: "dom (map_of m) = set (map fst m)" for m :: "(string \<times> 'a) list"
    by (simp add: dom_map_of_conv_image_fst)
  have "io_uuid (sample_io (CHR ''j'') 3) 0 = ''j''" by (simp add: sample_io_def)
  then show ?thesis
    using memory_create_idempotent [OF sample_store_reachable sample_store_values(7) _
        sample_store_later_reachable, of "sample_job_params\<lparr>cj_Speed := ''10x''\<rparr>" "sample_io (CHR ''z'') 9"]
    by (auto simp: dom sample_store_values same_job_def simp del: set_map)
qed

definition sample_metric :: StoreMetric where
  "sample_metric = \<lparr>me_ID = '''', me_JobID = '''', me_Rows = 3, me_Events = 2, me_MalformedEvents = 1,
     me_SequenceGaps = 0, me_Duration = 5, me_RowsPerSecond = FInt 0, me_EventsPerSecond = FInt 0,
     me_P95Latency = 0, me_PeakAllocBytes = 0, me_AllocsPerEvent = FInt 0, me_CreatedAt = 0\<rparr>"

definition sample_error :: ValidationError where
  "sample_error = \<lparr>ve_ID = '''', ve_JobID = '''', ve_Line = 2, ve_Symbol = '''', ve_Type = ''malformed'',
     ve_Message = ''missing symbol'', ve_CreatedAt = 0\<rparr>"

theorem memory_complete_stores_witness:
  "\<exists>r' es. snd (CompleteReplayJob ''j'' \<lparr>cp_Metric = sample_metric, cp_Errors = [sample_error]\<rparr>
        (sample_io (CHR ''z'') 9) sample_store) = r' \<and>
     ListValidationErrors ''j'' (sample_io (CHR ''y'') 9) r' = (Inr (mr_errors sample_store ''j'' @ es), r') \<and>
     map ve_Line es = [2]"
proof -
  note * = memory_complete_stores [OF sample_store_reachable sample_store_values(7),
      of "\<lparr>cp_Metric = sample_metric, cp_Errors = [sample_error]\<rparr>" "sample_io (CHR ''z'') 9" "sample_io (CHR ''y'') 9"]
  show ?thesis
    using * by (auto simp: sample_error_def)
qed

end
