(* ===== verification/Job_Queue.thy ===== *)
theory Job_Queue
  imports Memory_Store Event_Types
begin

section \<open>internal/queue: submitting replay jobs\<close>

text \<open>
  \<^verbatim>\<open>replay.go\<close>: the task payload, the enqueuer and its configuration. The Asynq client is not part of
  the repository: it is a function on a state of its own, as is the hexadecimal SHA-256 digest. The
  store is any value of the \<^verbatim>\<open>Repository\<close> interface; what is proved for every repository that
  satisfies the contract then holds for the in-memory one.
\<close>

definition TypeReplayJob :: string where "TypeReplayJob = ''replay:run''"
definition DefaultQueue :: string where "DefaultQueue = ''replay''"

record ReplayPayload =
  pa_JobID :: string

record ReplayEnqueueConfig =
  qc_Queue :: string
  qc_MaxRetry :: int
  qc_Timeout :: duration
  qc_UniqueTTL :: duration
  qc_TaskIDPrefix :: string
  qc_RetryBackoff :: duration
  qc_DeadLetterName :: string

record Task =
  tk_Type :: string
  tk_Payload :: bytes

datatype task_option =
    OptQueue string
  | OptMaxRetry int
  | OptTimeout duration
  | OptTaskID string
  | OptUnique duration

datatype queue_error =
    PayloadRequiresJobID
  | DecodePayload json_error
  | QueueStore store_error
  | ErrDuplicateTask
  | ErrTaskIDConflict
  | EnqueueFailed string

type_synonym ('c, 'i) Client = "Task \<Rightarrow> task_option list \<Rightarrow> 'c \<Rightarrow> (queue_error + 'i) \<times> 'c"

record ('r, 'c, 'i) ReplayEnqueuer =
  en_repo :: "'r Repository"
  en_client :: "('c, 'i) Client"
  en_cfg :: ReplayEnqueueConfig

definition second :: duration where "second = 1000000000"

definition withDefaults :: "ReplayEnqueueConfig \<Rightarrow> ReplayEnqueueConfig" where
  "withDefaults c0 =
     (let c1 = (if qc_Queue c0 = '''' then c0\<lparr>qc_Queue := DefaultQueue\<rparr> else c0);
          c2 = (if qc_MaxRetry c1 = 0 then c1\<lparr>qc_MaxRetry := 3\<rparr> else c1);
          c3 = (if qc_Timeout c2 = 0 then c2\<lparr>qc_Timeout := 30 * 60 * second\<rparr> else c2);
          c4 = (if qc_UniqueTTL c3 = 0 then c3\<lparr>qc_UniqueTTL := 24 * 60 * 60 * second\<rparr> else c3);
          c5 = (if qc_TaskIDPrefix c4 = '''' then c4\<lparr>qc_TaskIDPrefix := ''replay-job:''\<rparr> else c4);
          c6 = (if qc_RetryBackoff c5 = 0 then c5\<lparr>qc_RetryBackoff := 15 * second\<rparr> else c5)
      in if qc_DeadLetterName c6 = '''' then c6\<lparr>qc_DeadLetterName := ''asynq-archive''\<rparr> else c6)"

definition NewReplayEnqueuer ::
  "'r Repository \<Rightarrow> ('c, 'i) Client \<Rightarrow> ReplayEnqueueConfig \<Rightarrow> ('r, 'c, 'i) ReplayEnqueuer" where
  "NewReplayEnqueuer repo client cfg =
     \<lparr>en_repo = repo, en_client = client, en_cfg = withDefaults cfg\<rparr>"

definition ReplayPayload_Marshal :: "ReplayPayload \<Rightarrow> bytes" where
  "ReplayPayload_Marshal p = json_print (JObj [(''job_id'', JStr (pa_JobID p))])"

definition set_payload_field :: "string \<Rightarrow> jv \<Rightarrow> ReplayPayload \<Rightarrow> json_error + ReplayPayload" where
  "set_payload_field k v p =
     (if k = ''job_id'' then set_plain (\<lambda>x p. p\<lparr>pa_JobID := x\<rparr>) (dec_string v) p else Inr p)"

definition EncodeReplayPayload :: "ReplayPayload \<Rightarrow> queue_error + bytes" where
  "EncodeReplayPayload payload =
     (if TrimSpace (pa_JobID payload) = '''' then Inl PayloadRequiresJobID
      else Inr (ReplayPayload_Marshal payload))"

definition DecodeReplayPayload :: "bytes \<Rightarrow> queue_error + ReplayPayload" where
  "DecodeReplayPayload data =
     (case json_unmarshal set_payload_field \<lparr>pa_JobID = ''''\<rparr> data of
        Inl e \<Rightarrow> Inl (DecodePayload e)
      | Inr payload \<Rightarrow>
          (if TrimSpace (pa_JobID payload) = '''' then Inl PayloadRequiresJobID else Inr payload))"

definition taskID :: "(bytes \<Rightarrow> string) \<Rightarrow> ReplayEnqueueConfig \<Rightarrow> ReplayJob \<Rightarrow> string" where
  "taskID sha256_hex cfg job =
     (if rj_IdempotencyKey job = '''' then qc_TaskIDPrefix cfg @ rj_ID job
      else let key = (if length (rj_IdempotencyKey job) > 96 then sha256_hex (rj_IdempotencyKey job)
                      else rj_IdempotencyKey job)
           in qc_TaskIDPrefix cfg @ key)"

definition OptionsForJob :: "(bytes \<Rightarrow> string) \<Rightarrow> ReplayEnqueueConfig \<Rightarrow> ReplayJob \<Rightarrow> task_option list" where
  "OptionsForJob sha256_hex cfg job =
     (let opts = [OptQueue (qc_Queue cfg), OptMaxRetry (qc_MaxRetry cfg), OptTimeout (qc_Timeout cfg)];
          tid = taskID sha256_hex cfg job;
          opts1 = (if tid \<noteq> '''' then opts @ [OptTaskID tid] else opts)
      in if rj_IdempotencyKey job \<noteq> '''' \<and> qc_UniqueTTL cfg \<ge> second
         then opts1 @ [OptUnique (qc_UniqueTTL cfg)] else opts1)"

definition EnqueueReplayJob ::
  "(bytes \<Rightarrow> string) \<Rightarrow> ('r, 'c, 'i) ReplayEnqueuer \<Rightarrow> ReplayJob \<Rightarrow> 'c \<Rightarrow> (queue_error + 'i) \<times> 'c" where
  "EnqueueReplayJob sha256_hex e job c =
     (case EncodeReplayPayload \<lparr>pa_JobID = rj_ID job\<rparr> of
        Inl err \<Rightarrow> (Inl err, c)
      | Inr payload \<Rightarrow>
          en_client e \<lparr>tk_Type = TypeReplayJob, tk_Payload = payload\<rparr>
            (OptionsForJob sha256_hex (en_cfg e) job) c)"

definition SubmitReplay ::
  "(bytes \<Rightarrow> string) \<Rightarrow> ('r, 'c, 'i) ReplayEnqueuer \<Rightarrow> 'r Runtime \<Rightarrow> CreateReplayJobParams \<Rightarrow> 'r calls \<Rightarrow> 'c \<Rightarrow>
    (queue_error + ReplayJob \<times> 'i option) \<times> 'r calls \<times> 'c" where
  "SubmitReplay sha256_hex e rt p s c =
     (case call rt (rp_CreateReplayJob (en_repo e) p) s of
        ((_, Some err), s1) \<Rightarrow>
          (if err = ErrAlreadyExists \<and> cj_IdempotencyKey p \<noteq> '''' then
             (case call rt (rp_GetReplayJobByIdempotencyKey (en_repo e) (cj_IdempotencyKey p)) s1 of
                (Inl getErr, s2) \<Rightarrow> (Inl (QueueStore getErr), s2, c)
              | (Inr existing, s2) \<Rightarrow> (Inr (existing, None), s2, c))
           else (Inl (QueueStore err), s1, c))
      | ((job, None), s1) \<Rightarrow>
          (case EnqueueReplayJob sha256_hex e job c of
             (Inl err, c1) \<Rightarrow>
               (if err = ErrDuplicateTask \<or> err = ErrTaskIDConflict then (Inr (job, None), s1, c1)
                else (Inl err, s1, c1))
           | (Inr info, c1) \<Rightarrow> (Inr (job, Some info), s1, c1)))"

subsection \<open>Payloads, options and defaults\<close>

lemma json_parse_payload:
  "json_parse (ReplayPayload_Marshal p) = Some (JObj [(''job_id'', JStr (pa_JobID p))])"
  unfolding ReplayPayload_Marshal_def
  by (rule json_parse_print) (simp add: max_nesting_def)

lemma DecodeReplayPayload_Marshal:
  "DecodeReplayPayload (ReplayPayload_Marshal p) =
    (if TrimSpace (pa_JobID p) = '''' then Inl PayloadRequiresJobID else Inr p)"
proof -
  have "ToLower ''job_id'' = ''job_id''" by code_simp
  then show ?thesis
    by (simp add: DecodeReplayPayload_def json_unmarshal_def json_parse_payload dec_struct_def
        set_payload_field_def set_plain_def)
qed

text \<open>
  A payload the enqueuer writes is read back by the worker as the same payload, and a
  payload with a blank job id is refused on both sides.
\<close>

theorem payload_roundtrip:
  "(case EncodeReplayPayload p of
      Inr data \<Rightarrow> DecodeReplayPayload data = Inr p \<and> TrimSpace (pa_JobID p) \<noteq> ''''
    | Inl err \<Rightarrow> err = PayloadRequiresJobID \<and> TrimSpace (pa_JobID p) = '''' \<and>
        DecodeReplayPayload (ReplayPayload_Marshal p) = Inl PayloadRequiresJobID)"
  by (simp add: EncodeReplayPayload_def DecodeReplayPayload_Marshal)


lemma withDefaults_fields:
  "qc_Queue (withDefaults c) = (if qc_Queue c = '''' then DefaultQueue else qc_Queue c)"
  "qc_MaxRetry (withDefaults c) = (if qc_MaxRetry c = 0 then 3 else qc_MaxRetry c)"
  "qc_Timeout (withDefaults c) = (if qc_Timeout c = 0 then 30 * 60 * second else qc_Timeout c)"
  "qc_UniqueTTL (withDefaults c) = (if qc_UniqueTTL c = 0 then 24 * 60 * 60 * second else qc_UniqueTTL c)"
  "qc_TaskIDPrefix (withDefaults c) = (if qc_TaskIDPrefix c = '''' then ''replay-job:'' else qc_TaskIDPrefix c)"
  "qc_RetryBackoff (withDefaults c) = (if qc_RetryBackoff c = 0 then 15 * second else qc_RetryBackoff c)"
  "qc_DeadLetterName (withDefaults c) =
    (if qc_DeadLetterName c = '''' then ''asynq-archive'' else qc_DeadLetterName c)"
  by (simp_all add: withDefaults_def Let_def if_distrib [of qc_Queue] if_distrib [of qc_MaxRetry]
      if_distrib [of qc_Timeout] if_distrib [of qc_UniqueTTL] if_distrib [of qc_TaskIDPrefix]
      if_distrib [of qc_RetryBackoff] if_distrib [of qc_DeadLetterName] cong: if_cong split del: if_split)

text \<open>
  The options of a task. A key within the limit is the task id behind the prefix, so that
  different keys have different task ids; longer keys are replaced by their digest, and the id
  is never longer than the prefix and 96 bytes, given that a digest has 64 hexadecimal digits.
  Retries, timeout and queue are those of the configuration, whose zero values the defaults replace.
\<close>

theorem task_options:
  assumes "\<And>b. length (sha256_hex b) = 64"
  shows "(rj_IdempotencyKey job \<noteq> '''' \<longrightarrow>
      length (taskID sha256_hex cfg job) \<le> length (qc_TaskIDPrefix cfg) + 96) \<and>
    (rj_IdempotencyKey job \<noteq> '''' \<and> length (rj_IdempotencyKey job) \<le> 96 \<and>
      rj_IdempotencyKey job' \<noteq> '''' \<and> length (rj_IdempotencyKey job') \<le> 96 \<longrightarrow>
      (taskID sha256_hex cfg job = taskID sha256_hex cfg job') =
      (rj_IdempotencyKey job = rj_IdempotencyKey job')) \<and>
    OptQueue (qc_Queue cfg) \<in> set (OptionsForJob sha256_hex cfg job) \<and>
    OptMaxRetry (qc_MaxRetry cfg) \<in> set (OptionsForJob sha256_hex cfg job) \<and>
    (OptTaskID t \<in> set (OptionsForJob sha256_hex cfg job) \<longleftrightarrow>
      t \<noteq> '''' \<and> t = taskID sha256_hex cfg job) \<and>
    qc_Queue (withDefaults cfg) \<noteq> '''' \<and> qc_MaxRetry (withDefaults cfg) \<noteq> 0 \<and>
    qc_Timeout (withDefaults cfg) \<noteq> 0 \<and> qc_TaskIDPrefix (withDefaults cfg) \<noteq> '''' \<and>
    withDefaults (withDefaults cfg) = withDefaults cfg"
proof -
  have "withDefaults (withDefaults cfg) = withDefaults cfg"
    by (rule ReplayEnqueueConfig.equality) (simp_all add: withDefaults_fields DefaultQueue_def second_def)
  moreover have "OptQueue (qc_Queue cfg) \<in> set (OptionsForJob sha256_hex cfg job)"
    "OptMaxRetry (qc_MaxRetry cfg) \<in> set (OptionsForJob sha256_hex cfg job)"
    "OptTaskID t \<in> set (OptionsForJob sha256_hex cfg job) \<longleftrightarrow> t \<noteq> '''' \<and> t = taskID sha256_hex cfg job"
    by (auto simp: OptionsForJob_def Let_def)
  moreover have "rj_IdempotencyKey job \<noteq> '''' \<longrightarrow>
      length (taskID sha256_hex cfg job) \<le> length (qc_TaskIDPrefix cfg) + 96"
    using assms by (simp add: taskID_def Let_def)
  ultimately show ?thesis
    by (simp add: withDefaults_fields DefaultQueue_def second_def) (simp add: taskID_def Let_def)
qed

subsection \<open>Submitting, for every repository that keeps the contract\<close>

context repository
begin

lemma submit_existing:
  assumes "en_repo e = repo" "quiet rt" "inv r" "cj_DatasetID p \<in> dom (db_datasets (db r))"
    "cj_EventFileID p \<in> dom (db_files (db r))" "cj_IdempotencyKey p \<noteq> ''''"
    "db_keys (db r) (cj_IdempotencyKey p) = Some i" "db_jobs (db r) i = Some j"
  shows "SubmitReplay sha e rt p (r, n) c = (Inr (j, None), (r, Suc (Suc n)), c)"
proof -
  have "call rt (rp_CreateReplayJob repo p) (r, n) = ((j, Some ErrAlreadyExists), (r, Suc n))"
    using assms by (intro call_quiet CreateReplayJob_existing) auto
  moreover have "call rt (rp_GetReplayJobByIdempotencyKey repo (cj_IdempotencyKey p)) (r, Suc n) =
      (Inr j, (r, Suc (Suc n)))"
    using assms by (intro call_quiet) (auto simp: GetReplayJobByIdempotencyKey)
  ultimately show ?thesis
    using assms(1,6) by (simp add: SubmitReplay_def)
qed

lemma submit_new:
  assumes "en_repo e = repo" "quiet rt" "inv r" "fresh_io (rt_io rt n) (db r)"
    "cj_DatasetID p \<in> dom (db_datasets (db r))" "cj_EventFileID p \<in> dom (db_files (db r))"
    "db_keys (db r) (cj_IdempotencyKey p) = None"
  obtains r' where "inv r'" "db r' = insert_job (new_job (rt_io rt n) p) (db r)"
    "SubmitReplay sha e rt p (r, n) c =
      (case EnqueueReplayJob sha e (new_job (rt_io rt n) p) c of
         (Inl err, c1) \<Rightarrow>
           (if err = ErrDuplicateTask \<or> err = ErrTaskIDConflict
            then (Inr (new_job (rt_io rt n) p, None), (r', Suc n), c1) else (Inl err, (r', Suc n), c1))
       | (Inr info, c1) \<Rightarrow> (Inr (new_job (rt_io rt n) p, Some info), (r', Suc n), c1))"
proof -
  obtain r' where r': "rp_CreateReplayJob repo p (rt_io rt n) r = ((new_job (rt_io rt n) p, None), r')"
    "inv r'" "db r' = insert_job (new_job (rt_io rt n) p) (db r)"
    using CreateReplayJob_new [OF assms(3-7)] by blast
  have "call rt (rp_CreateReplayJob repo p) (r, n) = ((new_job (rt_io rt n) p, None), (r', Suc n))"
    using assms(2) r'(1) by (rule call_quiet)
  then show ?thesis
    using that r' assms(1) by (simp add: SubmitReplay_def)
qed

end

text \<open>What is sent to the queue for a job whose identifier is not blank.\<close>

definition replay_task :: "ReplayJob \<Rightarrow> Task" where
  "replay_task job = \<lparr>tk_Type = TypeReplayJob, tk_Payload = ReplayPayload_Marshal \<lparr>pa_JobID = rj_ID job\<rparr>\<rparr>"

lemma EnqueueReplayJob_task:
  "TrimSpace (rj_ID job) \<noteq> '''' \<Longrightarrow>
    EnqueueReplayJob sha e job c = en_client e (replay_task job) (OptionsForJob sha (en_cfg e) job) c"
  by (simp add: EnqueueReplayJob_def EncodeReplayPayload_def replay_task_def)

subsection \<open>Submitting to the in-memory repository\<close>

lemma submit_repeated:
  assumes "memory_inv r" "map_of (mr_jobs r) i = Some j" "rj_IdempotencyKey j \<noteq> ''''"
    and "memory_step\<^sup>*\<^sup>* r r'" "quiet rt" "en_repo e = memory_repository" "cj_IdempotencyKey p = rj_IdempotencyKey j"
    "cj_DatasetID p \<in> dom (map_of (mr_datasets r'))" "cj_EventFileID p \<in> dom (map_of (mr_eventFiles r'))"
  shows "\<exists>j'. same_job j' j \<and> SubmitReplay sha e rt p (r', n) c = (Inr (j', None), (r', Suc (Suc n)), c)"
  using assms(1-4)
proof (rule memory_key_kept)
  fix j' assume *: "memory_inv r'" "mr_idempotencyMap r' (rj_IdempotencyKey j) = Some i"
    "map_of (mr_jobs r') i = Some j'" "same_job j' j"
  show ?thesis
    using memory.submit_existing [OF assms(6,5) *(1), of p i j' sha n c] assms(3,7-9) * by auto
qed

lemma insert_job_stored:
  "memory_db r' = insert_job (new_job io p) d \<Longrightarrow> map_of (mr_jobs r') (io_uuid io 0) = Some (new_job io p)"
  by (drule arg_cong [of _ _ db_jobs]) (simp add: insert_job_def)

text \<open>
  C17: a replay is enqueued exactly once per idempotency key. Submitting with a key that is new
  creates a queued job and hands the queue one task, whose payload decodes to the job's
  identifier. Every submission with the same key after that, whatever has happened to the store
  in between, returns that job without calling the queue or changing the store.
\<close>

theorem submit_once:
  assumes "en_repo e = memory_repository" "quiet rt" "memory_inv r" "fresh_io (rt_io rt n) (memory_db r)"
    "cj_DatasetID p \<in> dom (map_of (mr_datasets r))" "cj_EventFileID p \<in> dom (map_of (mr_eventFiles r))"
    "cj_IdempotencyKey p \<noteq> ''''" "mr_idempotencyMap r (cj_IdempotencyKey p) = None"
    "TrimSpace (io_uuid (rt_io rt n) 0) \<noteq> ''''"
    and "en_client e (replay_task (new_job (rt_io rt n) p))
      (OptionsForJob sha (en_cfg e) (new_job (rt_io rt n) p)) c = (Inr info, c1)"
  shows "\<exists>r'. let job = new_job (rt_io rt n) p in
    SubmitReplay sha e rt p (r, n) c = (Inr (job, Some info), (r', Suc n), c1) \<and>
    DecodeReplayPayload (tk_Payload (replay_task job)) = Inr \<lparr>pa_JobID = rj_ID job\<rparr> \<and>
    map_of (mr_jobs r') (rj_ID job) = Some job \<and> rj_Status job = JobStatusQueued \<and>
    (\<forall>r'' rt' n' p' c'. memory_step\<^sup>*\<^sup>* r' r'' \<longrightarrow> quiet rt' \<longrightarrow> cj_IdempotencyKey p' = cj_IdempotencyKey p \<longrightarrow>
      cj_DatasetID p' \<in> dom (map_of (mr_datasets r)) \<longrightarrow> cj_EventFileID p' \<in> dom (map_of (mr_eventFiles r)) \<longrightarrow>
      (\<exists>j. same_job j job \<and> SubmitReplay sha e rt' p' (r'', n') c' = (Inr (j, None), (r'', Suc (Suc n')), c')))"
proof -
  let ?job = "new_job (rt_io rt n) p"
  from assms(1-6,8) obtain r' where r': "memory_inv r'"
    "memory_db r' = insert_job ?job (memory_db r)"
    "SubmitReplay sha e rt p (r, n) c = (Inr (?job, Some info), (r', Suc n), c1)"
    using memory.submit_new [of e rt r n p sha c] assms(9,10)
    by (auto simp: EnqueueReplayJob_task)
  have "\<exists>j. same_job j ?job \<and> SubmitReplay sha e rt' p' (r'', n') c' = (Inr (j, None), (r'', Suc (Suc n')), c')"
    if "memory_step\<^sup>*\<^sup>* r' r''" "quiet rt'" "cj_IdempotencyKey p' = cj_IdempotencyKey p"
      "cj_DatasetID p' \<in> dom (map_of (mr_datasets r))" "cj_EventFileID p' \<in> dom (map_of (mr_eventFiles r))"
    for r'' rt' n' p' and c'
  proof -
    have "map_of (mr_datasets r') = map_of (mr_datasets r)" "map_of (mr_eventFiles r') = map_of (mr_eventFiles r)"
      using arg_cong [OF r'(2), of db_datasets] arg_cong [OF r'(2), of db_files] by (simp_all add: insert_job_def)
    then have "cj_DatasetID p' \<in> dom (map_of (mr_datasets r''))" "cj_EventFileID p' \<in> dom (map_of (mr_eventFiles r''))"
      using memory_steps_good [OF that(1) r'(1)] that(4,5) by (auto simp: good_step_def continues_def)
    then show ?thesis
      using submit_repeated [OF r'(1) insert_job_stored [OF r'(2)] _ that(1,2) assms(1), of p' sha n' c']
        that(3) assms(7) by simp
  qed
  moreover have "map_of (mr_jobs r') (rj_ID ?job) = Some ?job"
    using insert_job_stored [OF r'(2)] by simp
  moreover have "DecodeReplayPayload (tk_Payload (replay_task ?job)) = Inr \<lparr>pa_JobID = rj_ID ?job\<rparr>"
    using assms(9) by (simp add: replay_task_def DecodeReplayPayload_Marshal)
  ultimately show ?thesis
    using r'(3) unfolding Let_def by (intro exI [of _ r']) simp
qed

text \<open>
  C18: a submission whose enqueue fails leaves its job behind. The caller sees the error, the job stays in the
  store as queued, and repeating the request with the same key reports success without ever
  calling the queue: no task for the job is enqueued.
\<close>

theorem submit_failed_enqueue:
  assumes "en_repo e = memory_repository" "quiet rt" "memory_inv r" "fresh_io (rt_io rt n) (memory_db r)"
    "cj_DatasetID p \<in> dom (map_of (mr_datasets r))" "cj_EventFileID p \<in> dom (map_of (mr_eventFiles r))"
    "cj_IdempotencyKey p \<noteq> ''''" "mr_idempotencyMap r (cj_IdempotencyKey p) = None"
    "TrimSpace (io_uuid (rt_io rt n) 0) \<noteq> ''''"
    and "en_client e (replay_task (new_job (rt_io rt n) p))
      (OptionsForJob sha (en_cfg e) (new_job (rt_io rt n) p)) c = (Inl (EnqueueFailed msg), c1)"
  shows "\<exists>r'. let job = new_job (rt_io rt n) p in
    SubmitReplay sha e rt p (r, n) c = (Inl (EnqueueFailed msg), (r', Suc n), c1) \<and>
    map_of (mr_jobs r') (rj_ID job) = Some job \<and> rj_Status job = JobStatusQueued \<and>
    (\<forall>rt' n' c'. quiet rt' \<longrightarrow>
      SubmitReplay sha e rt' p (r', n') c' = (Inr (job, None), (r', Suc (Suc n')), c'))"
proof -
  let ?job = "new_job (rt_io rt n) p"
  from assms(1-6,8) obtain r' where r': "memory_inv r'"
    "memory_db r' = insert_job ?job (memory_db r)"
    "SubmitReplay sha e rt p (r, n) c = (Inl (EnqueueFailed msg), (r', Suc n), c1)"
    using memory.submit_new [of e rt r n p sha c] assms(9,10)
    by (auto simp: EnqueueReplayJob_task)
  have st: "map_of (mr_jobs r') (io_uuid (rt_io rt n) 0) = Some ?job"
    by (rule insert_job_stored [OF r'(2)])
  have "SubmitReplay sha e rt' p (r', n') c' = (Inr (?job, None), (r', Suc (Suc n')), c')" if "quiet rt'" for rt' n' c'
    using memory.submit_existing [OF assms(1) that r'(1), of p "io_uuid (rt_io rt n) 0" ?job sha n' c'] r'(2) st assms(5-7)
    by (simp add: insert_job_def)
  then show ?thesis
    using r'(3) st unfolding Let_def by (intro exI [of _ r']) simp
qed


subsection \<open>The theorems at work\<close>

text \<open>A queue that accepts every task and logs it, one that is down, and a quiet runtime.\<close>

definition logging_client :: "(Task list, nat) Client" where
  "logging_client t opts c = (Inr (length c), c @ [t])"

definition failing_client :: "(Task list, nat) Client" where
  "failing_client t opts c = (Inl (EnqueueFailed ''redis is down''), c)"

definition quiet_runtime :: "char \<Rightarrow> 'r Runtime" where
  "quiet_runtime a = \<lparr>rt_io = (\<lambda>n. sample_io a (int n)), rt_env = (\<lambda>_ r. r)\<rparr>"

lemma quiet_runtime_quiet [simp]: "quiet (quiet_runtime a)"
  by (simp add: quiet_def quiet_runtime_def)

abbreviation "sample_cfg \<equiv> withDefaults \<lparr>qc_Queue = '''', qc_MaxRetry = 0, qc_Timeout = 0, qc_UniqueTTL = 0,
  qc_TaskIDPrefix = '''', qc_RetryBackoff = 0, qc_DeadLetterName = ''''\<rparr>"

abbreviation "sample_enqueuer client \<equiv>
  \<lparr>en_repo = memory_repository, en_client = client, en_cfg = sample_cfg\<rparr>"

definition zeros64 :: "bytes \<Rightarrow> string" where
  "zeros64 b = replicate 64 (CHR ''0'')"

theorem task_options_witness:
  "length (taskID zeros64 sample_cfg (zero_ReplayJob\<lparr>rj_IdempotencyKey := replicate 200 (CHR ''a'')\<rparr>)) \<le>
     length (qc_TaskIDPrefix sample_cfg) + 96"
  using task_options [of zeros64 "zero_ReplayJob\<lparr>rj_IdempotencyKey := replicate 200 (CHR ''a'')\<rparr>" sample_cfg]
  by (simp add: zeros64_def)

lemma sample_store2_ready:
  "memory_inv sample_store2" "fresh_io (rt_io (quiet_runtime (CHR ''j'')) 0) (memory_db sample_store2)"
  "''d'' \<in> dom (map_of (mr_datasets sample_store2))" "''f'' \<in> dom (map_of (mr_eventFiles sample_store2))"
  "mr_idempotencyMap sample_store2 ''key'' = None"
  "TrimSpace (io_uuid (rt_io (quiet_runtime (CHR ''j'')) 0) 0) \<noteq> ''''"
proof -
  have dom: "dom (map_of (mr_datasets sample_store2)) = {''d''}" "dom (map_of (mr_eventFiles sample_store2)) = {''f''}"
    by (simp_all only: dom_map_of_conv_image_fst list.set_map [symmetric] sample_store_values) simp_all
  show "memory_inv sample_store2"
    using memory_steps_good [OF sample_store2_reachable memory_inv_new] by (simp add: good_step_def)
  show "fresh_io (rt_io (quiet_runtime (CHR ''j'')) 0) (memory_db sample_store2)"
    by (simp add: fresh_io_def sample_io_inj dom quiet_runtime_def) (simp add: sample_io_def sample_store_values)
  show "''d'' \<in> dom (map_of (mr_datasets sample_store2))" "''f'' \<in> dom (map_of (mr_eventFiles sample_store2))"
    by (simp_all add: dom)
  show "mr_idempotencyMap sample_store2 ''key'' = None"
    "TrimSpace (io_uuid (rt_io (quiet_runtime (CHR ''j'')) 0) 0) \<noteq> ''''"
    by code_simp+
qed

theorem submit_once_witness:
  "\<exists>r'. SubmitReplay zeros64 (sample_enqueuer logging_client) (quiet_runtime (CHR ''j'')) sample_job_params (sample_store2, 0) [] =
     (Inr (new_job (sample_io (CHR ''j'') 0) sample_job_params, Some 0), (r', 1),
      [replay_task (new_job (sample_io (CHR ''j'') 0) sample_job_params)]) \<and>
   (\<exists>j. rj_ID j = ''j'' \<and>
     SubmitReplay zeros64 (sample_enqueuer logging_client) (quiet_runtime (CHR ''q'')) sample_job_params (r', 0) [] =
       (Inr (j, None), (r', 2), []))"
proof -
  let ?e = "sample_enqueuer logging_client" and ?rt = "quiet_runtime (CHR ''j'') :: MemoryRepository Runtime"
  have io: "rt_io ?rt 0 = sample_io (CHR ''j'') 0" by (simp add: quiet_runtime_def)
  have cl: "en_client ?e (replay_task (new_job (rt_io ?rt 0) sample_job_params))
      (OptionsForJob zeros64 (en_cfg ?e) (new_job (rt_io ?rt 0) sample_job_params)) [] =
      (Inr 0, [replay_task (new_job (rt_io ?rt 0) sample_job_params)])"
    by (simp add: logging_client_def)
  obtain r' where r': "SubmitReplay zeros64 ?e ?rt sample_job_params (sample_store2, 0) [] =
      (Inr (new_job (rt_io ?rt 0) sample_job_params, Some 0), (r', Suc 0),
       [replay_task (new_job (rt_io ?rt 0) sample_job_params)])"
    and later: "\<forall>r'' rt' n' p' c'. memory_step\<^sup>*\<^sup>* r' r'' \<longrightarrow> quiet rt' \<longrightarrow>
      cj_IdempotencyKey p' = ''key'' \<longrightarrow> cj_DatasetID p' \<in> dom (map_of (mr_datasets sample_store2)) \<longrightarrow>
      cj_EventFileID p' \<in> dom (map_of (mr_eventFiles sample_store2)) \<longrightarrow>
      (\<exists>j. same_job j (new_job (rt_io ?rt 0) sample_job_params) \<and>
        SubmitReplay zeros64 ?e rt' p' (r'', n') c' = (Inr (j, None), (r'', Suc (Suc n')), c'))"
    using submit_once [OF _ _ sample_store2_ready(1,2) _ _ _ _ sample_store2_ready(6) cl] sample_store2_ready(3-5)
    by (auto simp: Let_def)
  have "rj_ID (new_job (rt_io ?rt 0) sample_job_params) = ''j''" by (simp add: io sample_io_def)
  then obtain j where "rj_ID j = ''j''" "SubmitReplay zeros64 ?e (quiet_runtime (CHR ''q'')) sample_job_params (r', 0) [] =
       (Inr (j, None), (r', Suc (Suc 0)), [])"
    using later [rule_format, of r' "quiet_runtime (CHR ''q'')" sample_job_params 0 "[]"] sample_store2_ready(3,4)
    by (auto simp: same_job_def)
  then show ?thesis using r' io by (auto simp: numeral_2_eq_2)
qed

theorem submit_failed_enqueue_witness:
  "\<exists>r' job. fst (SubmitReplay zeros64 (sample_enqueuer failing_client) (quiet_runtime (CHR ''j'')) sample_job_params (sample_store2, 0) [])
      = Inl (EnqueueFailed ''redis is down'') \<and> rj_Status job = JobStatusQueued \<and>
    SubmitReplay zeros64 (sample_enqueuer failing_client) (quiet_runtime (CHR ''q'')) sample_job_params (r', 0) [] =
      (Inr (job, None), (r', 2), [])"
proof -
  let ?e = "sample_enqueuer failing_client" and ?rt = "quiet_runtime (CHR ''j'') :: MemoryRepository Runtime"
  have cl: "en_client ?e (replay_task (new_job (rt_io ?rt 0) sample_job_params))
      (OptionsForJob zeros64 (en_cfg ?e) (new_job (rt_io ?rt 0) sample_job_params)) [] =
      (Inl (EnqueueFailed ''redis is down''), [])"
    by (simp add: failing_client_def)
  obtain r' where "SubmitReplay zeros64 ?e ?rt sample_job_params (sample_store2, 0) [] =
      (Inl (EnqueueFailed ''redis is down''), (r', Suc 0), [])"
    "\<forall>rt' n' c'. quiet rt' \<longrightarrow> SubmitReplay zeros64 ?e rt' sample_job_params (r', n') c' =
      (Inr (new_job (rt_io ?rt 0) sample_job_params, None), (r', Suc (Suc n')), c')"
    using submit_failed_enqueue [OF _ _ sample_store2_ready(1,2) _ _ _ _ sample_store2_ready(6) cl] sample_store2_ready(3-5)
    by (auto simp: Let_def)
  then show ?thesis
    by (intro exI [of _ r'] exI [of _ "new_job (rt_io ?rt 0) sample_job_params"]) (simp add: numeral_2_eq_2)
qed

end
