(* ===== verification/Observability.thy ===== *)
theory Observability
  imports Event_Types
begin

section \<open>internal/observability/metrics.go: what the services record\<close>

text \<open>
  The metric vectors, one per field of \<^verbatim>\<open>Metrics\<close>: a counter or a gauge has a value for each list of
  label values, a histogram the observations made. Prometheus panics when the number of label
  values is not that of the family or when a counter is given a negative amount, so the model
  returns an option and \<open>None\<close> is the panic.
\<close>

type_synonym labels = "string list"

record ReplayLabels =
  la_Dataset :: string
  la_Symbol :: string
  la_Status :: string

record Metrics =
  mt_replayEvents :: "labels \<Rightarrow> int"
  mt_replayEventsPerSecond :: "labels \<Rightarrow> float64"
  mt_validationFailures :: "labels \<Rightarrow> int"
  mt_sequenceGaps :: "labels \<Rightarrow> int"
  mt_jobDuration :: "labels \<Rightarrow> float64 list"
  mt_jobQueueLag :: "labels \<Rightarrow> float64 list"
  mt_workerActive :: "labels \<Rightarrow> float64"
  mt_workerRetry :: "labels \<Rightarrow> int"
  mt_workerDLQ :: "labels \<Rightarrow> int"
  mt_apiRequestDuration :: "labels \<Rightarrow> float64 list"

definition unknownLabel :: string where "unknownLabel = ''unknown''"

definition labelOrUnknown :: "string \<Rightarrow> string" where
  "labelOrUnknown value = (if value = '''' then unknownLabel else value)"

definition normalizeReplayLabels :: "ReplayLabels \<Rightarrow> ReplayLabels" where
  "normalizeReplayLabels l =
     \<lparr>la_Dataset = labelOrUnknown (la_Dataset l), la_Symbol = labelOrUnknown (la_Symbol l),
      la_Status = labelOrUnknown (la_Status l)\<rparr>"

text \<open>The label names each family is declared with.\<close>

definition replay_events_labels :: labels where "replay_events_labels = [''dataset'', ''symbol'', ''status'']"
definition per_symbol_labels :: labels where "per_symbol_labels = [''dataset'', ''symbol'']"
definition failure_labels :: labels where "failure_labels = [''dataset'', ''symbol'', ''type'']"
definition queue_lag_labels :: labels where "queue_lag_labels = [''queue'']"
definition active_labels :: labels where "active_labels = [''worker'']"
definition retry_labels :: labels where "retry_labels = [''queue'', ''worker'']"
definition dlq_labels :: labels where "dlq_labels = [''queue'', ''reason'']"
definition api_labels :: labels where "api_labels = [''method'', ''route'', ''status'']"

lemmas label_defs = replay_events_labels_def per_symbol_labels_def failure_labels_def queue_lag_labels_def
  active_labels_def retry_labels_def dlq_labels_def api_labels_def

text \<open>\<^verbatim>\<open>WithLabelValues(...)\<close> followed by \<^verbatim>\<open>Add\<close>, \<^verbatim>\<open>Set\<close> or \<^verbatim>\<open>Observe\<close>.\<close>

definition Add :: "labels \<Rightarrow> labels \<Rightarrow> int \<Rightarrow> (labels \<Rightarrow> int) \<Rightarrow> (labels \<Rightarrow> int) option" where
  "Add names ls x vec = (if length ls = length names \<and> 0 \<le> x then Some (vec(ls := vec ls + x)) else None)"

definition Set :: "labels \<Rightarrow> labels \<Rightarrow> float64 \<Rightarrow> (labels \<Rightarrow> float64) \<Rightarrow> (labels \<Rightarrow> float64) option" where
  "Set names ls x vec = (if length ls = length names then Some (vec(ls := x)) else None)"

definition Observe :: "labels \<Rightarrow> labels \<Rightarrow> float64 list \<Rightarrow> (labels \<Rightarrow> float64 list) \<Rightarrow> (labels \<Rightarrow> float64 list) option" where
  "Observe names ls xs vec = (if length ls = length names then Some (vec(ls := vec ls @ xs)) else None)"

definition add_replayEvents :: "labels \<Rightarrow> int \<Rightarrow> Metrics \<Rightarrow> Metrics option" where
  "add_replayEvents ls x m =
     map_option (\<lambda>v. m\<lparr>mt_replayEvents := v\<rparr>) (Add replay_events_labels ls x (mt_replayEvents m))"

definition set_eventsPerSecond :: "labels \<Rightarrow> float64 \<Rightarrow> Metrics \<Rightarrow> Metrics option" where
  "set_eventsPerSecond ls x m =
     map_option (\<lambda>v. m\<lparr>mt_replayEventsPerSecond := v\<rparr>) (Set per_symbol_labels ls x (mt_replayEventsPerSecond m))"

definition add_validationFailures :: "labels \<Rightarrow> int \<Rightarrow> Metrics \<Rightarrow> Metrics option" where
  "add_validationFailures ls x m =
     map_option (\<lambda>v. m\<lparr>mt_validationFailures := v\<rparr>) (Add failure_labels ls x (mt_validationFailures m))"

definition add_sequenceGaps :: "labels \<Rightarrow> int \<Rightarrow> Metrics \<Rightarrow> Metrics option" where
  "add_sequenceGaps ls x m =
     map_option (\<lambda>v. m\<lparr>mt_sequenceGaps := v\<rparr>) (Add per_symbol_labels ls x (mt_sequenceGaps m))"

definition observe_jobDuration :: "labels \<Rightarrow> float64 list \<Rightarrow> Metrics \<Rightarrow> Metrics option" where
  "observe_jobDuration ls xs m =
     map_option (\<lambda>v. m\<lparr>mt_jobDuration := v\<rparr>) (Observe replay_events_labels ls xs (mt_jobDuration m))"

definition then_do :: "('a \<Rightarrow> 'a option) \<Rightarrow> ('a \<Rightarrow> 'a option) \<Rightarrow> 'a \<Rightarrow> 'a option" where
  "then_do f g m = Option.bind (f m) g"

definition RecordReplayBenchmark :: "ReplayLabels \<Rightarrow> ReplayMetric \<Rightarrow> Metrics \<Rightarrow> Metrics option" where
  "RecordReplayBenchmark labels0 metric =
     (let l = normalizeReplayLabels labels0; d = la_Dataset l; s = la_Symbol l; st = la_Status l in
      then_do (add_replayEvents [d, s, st] (rm_Events metric))
      (then_do (set_eventsPerSecond [d, s] (rm_EventsPerSecond metric))
      (then_do (if rm_MalformedEvents metric > 0
                then add_validationFailures [d, s, ''malformed''] (rm_MalformedEvents metric) else Some)
      (then_do (if rm_SequenceGaps metric > 0
                then then_do (add_validationFailures [d, s, ''sequence_gap''] (rm_SequenceGaps metric))
                       (add_sequenceGaps [d, s] (rm_SequenceGaps metric)) else Some)
        (if rm_Duration metric > 0
         then observe_jobDuration [d, s, st] [FSeconds (rm_Duration metric)] else Some)))))"

definition RecordValidationFailure :: "string \<Rightarrow> string \<Rightarrow> string \<Rightarrow> int \<Rightarrow> Metrics \<Rightarrow> Metrics option" where
  "RecordValidationFailure dataset symb failureType cnt =
     (if cnt \<le> 0 then Some
      else add_validationFailures [labelOrUnknown dataset, labelOrUnknown symb, labelOrUnknown failureType] cnt)"

definition RecordSequenceGap :: "string \<Rightarrow> string \<Rightarrow> int \<Rightarrow> Metrics \<Rightarrow> Metrics option" where
  "RecordSequenceGap dataset symb cnt =
     (if cnt \<le> 0 then Some else add_sequenceGaps [labelOrUnknown dataset, labelOrUnknown symb] cnt)"

definition RecordJobQueueLag :: "string \<Rightarrow> duration \<Rightarrow> Metrics \<Rightarrow> Metrics option" where
  "RecordJobQueueLag queue lag m =
     (if lag < 0 then Some m
      else map_option (\<lambda>v. m\<lparr>mt_jobQueueLag := v\<rparr>)
        (Observe queue_lag_labels [labelOrUnknown queue] [FSeconds lag] (mt_jobQueueLag m)))"

definition SetActiveWorkers :: "string \<Rightarrow> float64 \<Rightarrow> Metrics \<Rightarrow> Metrics option" where
  "SetActiveWorkers worker cnt m =
     map_option (\<lambda>v. m\<lparr>mt_workerActive := v\<rparr>) (Set active_labels [labelOrUnknown worker] cnt (mt_workerActive m))"

definition RecordWorkerRetry :: "string \<Rightarrow> string \<Rightarrow> Metrics \<Rightarrow> Metrics option" where
  "RecordWorkerRetry queue worker m =
     map_option (\<lambda>v. m\<lparr>mt_workerRetry := v\<rparr>)
       (Add retry_labels [labelOrUnknown queue, labelOrUnknown worker] 1 (mt_workerRetry m))"

definition RecordWorkerDLQ :: "string \<Rightarrow> string \<Rightarrow> Metrics \<Rightarrow> Metrics option" where
  "RecordWorkerDLQ queue reason m =
     map_option (\<lambda>v. m\<lparr>mt_workerDLQ := v\<rparr>)
       (Add dlq_labels [labelOrUnknown queue, labelOrUnknown reason] 1 (mt_workerDLQ m))"

text \<open>A new value has no samples; the families are then initialised with unknown labels.\<close>

definition empty_Metrics :: Metrics where
  "empty_Metrics = \<lparr>mt_replayEvents = (\<lambda>_. 0), mt_replayEventsPerSecond = (\<lambda>_. FInt 0),
     mt_validationFailures = (\<lambda>_. 0), mt_sequenceGaps = (\<lambda>_. 0), mt_jobDuration = (\<lambda>_. []),
     mt_jobQueueLag = (\<lambda>_. []), mt_workerActive = (\<lambda>_. FInt 0), mt_workerRetry = (\<lambda>_. 0),
     mt_workerDLQ = (\<lambda>_. 0), mt_apiRequestDuration = (\<lambda>_. [])\<rparr>"

definition initMetricFamilies :: "Metrics \<Rightarrow> Metrics option" where
  "initMetricFamilies =
     (let u = unknownLabel in
      then_do (add_replayEvents [u, u, u] 0)
      (then_do (set_eventsPerSecond [u, u] (FInt 0))
      (then_do (add_validationFailures [u, u, u] 0)
      (then_do (add_sequenceGaps [u, u] 0)
      (then_do (observe_jobDuration [u, u, u] [])
      (then_do (\<lambda>m. map_option (\<lambda>v. m\<lparr>mt_jobQueueLag := v\<rparr>) (Observe queue_lag_labels [u] [] (mt_jobQueueLag m)))
      (then_do (\<lambda>m. map_option (\<lambda>v. m\<lparr>mt_workerActive := v\<rparr>) (Set active_labels [u] (FInt 0) (mt_workerActive m)))
      (then_do (\<lambda>m. map_option (\<lambda>v. m\<lparr>mt_workerRetry := v\<rparr>) (Add retry_labels [u, u] 0 (mt_workerRetry m)))
      (then_do (\<lambda>m. map_option (\<lambda>v. m\<lparr>mt_workerDLQ := v\<rparr>) (Add dlq_labels [u, u] 0 (mt_workerDLQ m)))
        (\<lambda>m. map_option (\<lambda>v. m\<lparr>mt_apiRequestDuration := v\<rparr>)
          (Observe api_labels [u, u, u] [] (mt_apiRequestDuration m))))))))))))"

definition NewMetrics :: "Metrics option" where
  "NewMetrics = initMetricFamilies empty_Metrics"

text \<open>\<^verbatim>\<open>gin.go\<close>: the observation after a request, under the route's pattern or, without one, the path of the URL.\<close>

definition GinLatencyMiddleware :: "string \<Rightarrow> string \<Rightarrow> string \<Rightarrow> int \<Rightarrow> duration \<Rightarrow> Metrics \<Rightarrow> Metrics option" where
  "GinLatencyMiddleware verb fullPath urlPath status since m =
     (let route = (if fullPath = '''' then urlPath else fullPath)
      in map_option (\<lambda>v. m\<lparr>mt_apiRequestDuration := v\<rparr>)
           (Observe api_labels [verb, route, FormatInt status] [FSeconds since] (mt_apiRequestDuration m)))"

subsection \<open>No panic, and counters that only grow\<close>

definition grows :: "Metrics \<Rightarrow> Metrics \<Rightarrow> bool" where
  "grows m m' \<longleftrightarrow> (\<forall>l. mt_replayEvents m l \<le> mt_replayEvents m' l \<and>
     mt_validationFailures m l \<le> mt_validationFailures m' l \<and> mt_sequenceGaps m l \<le> mt_sequenceGaps m' l \<and>
     mt_workerRetry m l \<le> mt_workerRetry m' l \<and> mt_workerDLQ m l \<le> mt_workerDLQ m' l)"

lemma NewMetrics_no_panic: "NewMetrics \<noteq> None"
  by (simp add: NewMetrics_def initMetricFamilies_def then_do_def add_replayEvents_def set_eventsPerSecond_def
      add_validationFailures_def add_sequenceGaps_def observe_jobDuration_def Add_def Set_def Observe_def
      label_defs Let_def)

lemma vector_ops:
  "0 \<le> x \<Longrightarrow> add_replayEvents [a, b, c] x m =
    Some (m\<lparr>mt_replayEvents := (mt_replayEvents m)([a, b, c] := mt_replayEvents m [a, b, c] + x)\<rparr>)"
  "set_eventsPerSecond [a, b] f m =
    Some (m\<lparr>mt_replayEventsPerSecond := (mt_replayEventsPerSecond m)([a, b] := f)\<rparr>)"
  "0 \<le> x \<Longrightarrow> add_validationFailures [a, b, c] x m =
    Some (m\<lparr>mt_validationFailures := (mt_validationFailures m)([a, b, c] := mt_validationFailures m [a, b, c] + x)\<rparr>)"
  "0 \<le> x \<Longrightarrow> add_sequenceGaps [a, b] x m =
    Some (m\<lparr>mt_sequenceGaps := (mt_sequenceGaps m)([a, b] := mt_sequenceGaps m [a, b] + x)\<rparr>)"
  "observe_jobDuration [a, b, c] fs m =
    Some (m\<lparr>mt_jobDuration := (mt_jobDuration m)([a, b, c] := mt_jobDuration m [a, b, c] @ fs)\<rparr>)"
  by (simp_all add: add_replayEvents_def set_eventsPerSecond_def add_validationFailures_def
      add_sequenceGaps_def observe_jobDuration_def Add_def Set_def Observe_def label_defs)

text \<open>
  Recording a replay never panics for a metric with a non-negative number of events. It
  adds the events to their counter and the malformed events and the gaps to theirs, under labels
  that are never empty, and no counter ever decreases.
\<close>

theorem record_benchmark:
  assumes "0 \<le> rm_Events metric"
  shows "\<exists>m'. RecordReplayBenchmark ls metric m = Some m' \<and> grows m m' \<and>
    (let l = normalizeReplayLabels ls; key = [la_Dataset l, la_Symbol l, la_Status l] in
      '''' \<notin> set key \<and> mt_replayEvents m' key = mt_replayEvents m key + rm_Events metric \<and>
      mt_sequenceGaps m' [la_Dataset l, la_Symbol l] =
        mt_sequenceGaps m [la_Dataset l, la_Symbol l] + max 0 (rm_SequenceGaps metric))"
  using assms
  by (simp add: RecordReplayBenchmark_def then_do_def vector_ops Let_def grows_def normalizeReplayLabels_def
      labelOrUnknown_def unknownLabel_def)


definition sample_replay_metric :: ReplayMetric where
  "sample_replay_metric = \<lparr>rm_Rows = 5, rm_Events = 4, rm_MalformedEvents = 1,
     rm_SequenceGaps = 2, rm_Duration = 7, rm_RowsPerSecond = FInt 0, rm_EventsPerSecond = FInt 0,
     rm_P95Latency = 0, rm_PeakAllocBytes = 0, rm_AllocsPerEvent = FInt 0,
     rm_ProcessedAt = 9, rm_WorkloadFilePath = ''''\<rparr>"

theorem record_benchmark_witness:
  "\<exists>m'. RecordReplayBenchmark \<lparr>la_Dataset = ''demo'', la_Symbol = '''', la_Status = ''completed''\<rparr> sample_replay_metric empty_Metrics
      = Some m' \<and> mt_sequenceGaps m' [''demo'', ''unknown''] = 2"
proof -
  let ?ls = "\<lparr>la_Dataset = ''demo'', la_Symbol = '''', la_Status = ''completed''\<rparr>"
  have "0 \<le> rm_Events sample_replay_metric" by (simp add: sample_replay_metric_def)
  then show ?thesis
    using record_benchmark [of sample_replay_metric ?ls empty_Metrics]
    by (auto simp: Let_def normalizeReplayLabels_def labelOrUnknown_def unknownLabel_def sample_replay_metric_def
        empty_Metrics_def)
qed

end
