(* ===== verification/Replay_Worker.thy ===== *)
theory Replay_Worker
  imports Job_Queue Observability Replay_Runner
begin

section \<open>internal/worker: the replay handler\<close>

text \<open>
  \<^verbatim>\<open>handler.go\<close> and the retry policy of \<^verbatim>\<open>server.go\<close>. The handler works on a repository that other
  goroutines use as well (\<open>Runtime\<close>), reads a file, validates it with a checkpoint every so many
  lines, and stores what it finds. The state of a task is the repository with the number of calls made, the
  counter of active workers and the metrics; log output has no model. What the handler reads from
  outside is in \<open>Context\<close>: the file system, the checks of the context's error, the retry counts of
  Asynq, the clock, the memory statistics, the digest, and how errors print.
\<close>

text \<open>The field \<^verbatim>\<open>Metrics\<close> of the configuration is \<open>ws_metrics\<close> of the state, \<open>None\<close> for nil.\<close>

record ReplayHandlerConfig =
  hc_DeadLetterName :: string
  hc_CheckpointEvery :: int
  hc_Queue :: string

record 'r ReplayHandler =
  rh_repo :: "'r Repository"
  rh_cfg :: ReplayHandlerConfig

record processedFileStats =
  pf_SHA256 :: string
  pf_Rows :: int
  pf_Bytes :: int

definition NewReplayHandler :: "'r Repository \<Rightarrow> ReplayHandlerConfig \<Rightarrow> 'r ReplayHandler" where
  "NewReplayHandler repo cfg0 =
     (let cfg1 = (if hc_DeadLetterName cfg0 = '''' then cfg0\<lparr>hc_DeadLetterName := ''asynq-archive''\<rparr> else cfg0);
          cfg2 = (if hc_CheckpointEvery cfg1 \<le> 0 then cfg1\<lparr>hc_CheckpointEvery := 256\<rparr> else cfg1);
          cfg3 = (if hc_Queue cfg2 = '''' then cfg2\<lparr>hc_Queue := DefaultQueue\<rparr> else cfg2)
      in \<lparr>rh_repo = repo, rh_cfg = cfg3\<rparr>)"

datatype ctx_error = Canceled | DeadlineExceeded

datatype worker_error =
    UnsupportedTask string
  | InvalidPayload queue_error
  | WorkerStore store_error
  | WorkerStream stream_error
  | FileOpen string
  | FileStat string
  | WorkerContext ctx_error
  | SkipRetry worker_error

record Context =
  cx_fs :: file_system
  cx_stat :: "string \<Rightarrow> int option"
  cx_err :: "nat \<Rightarrow> ctx_error option"
  cx_retried :: "int option"
  cx_maxRetry :: "int option"
  cx_started :: time
  cx_since :: duration
  cx_created :: time
  cx_lag :: duration
  cx_alloc :: "nat \<Rightarrow> int"
  cx_mallocs :: "nat \<Rightarrow> int"
  cx_sha256_hex :: "bytes \<Rightarrow> string"
  cx_Error :: "worker_error \<Rightarrow> string"
  cx_parse_Error :: "parse_error \<Rightarrow> string"
  cx_store_canceled :: "store_error \<Rightarrow> bool"

record 'r WorkerState =
  ws_repo :: 'r
  ws_calls :: nat
  ws_active :: int
  ws_metrics :: "Metrics option"
  ws_panic :: bool

definition store_call :: "'r Runtime \<Rightarrow> ('r, store_error + 'a) repo_method \<Rightarrow> 'r WorkerState \<Rightarrow> (worker_error + 'a) \<times> 'r WorkerState" where
  "store_call rt m ws =
     (case call rt m (ws_repo ws, ws_calls ws) of
        (res, (r, n)) \<Rightarrow>
          (case res of Inl e \<Rightarrow> Inl (WorkerStore e) | Inr a \<Rightarrow> Inr a, ws\<lparr>ws_repo := r, ws_calls := n\<rparr>))"

text \<open>A use of the metrics when they are configured.\<close>

definition record_metric :: "(Metrics \<Rightarrow> Metrics option) \<Rightarrow> 'r WorkerState \<Rightarrow> 'r WorkerState" where
  "record_metric f ws =
     (case ws_metrics ws of
        None \<Rightarrow> ws
      | Some m \<Rightarrow> (case f m of None \<Rightarrow> ws\<lparr>ws_panic := True\<rparr> | Some m' \<Rightarrow> ws\<lparr>ws_metrics := Some m'\<rparr>))"

definition addActiveWorker :: "int \<Rightarrow> 'r WorkerState \<Rightarrow> 'r WorkerState" where
  "addActiveWorker delta ws =
     (case ws_metrics ws of
        None \<Rightarrow> ws
      | Some _ \<Rightarrow>
          (let n = ws_active ws + delta
           in record_metric (SetActiveWorkers TypeReplayJob (FInt n)) (ws\<lparr>ws_active := n\<rparr>)))"

subsection \<open>processFile\<close>

definition zero_StoreMetric :: StoreMetric where
  "zero_StoreMetric = \<lparr>me_ID = '''', me_JobID = '''', me_Rows = 0, me_Events = 0, me_MalformedEvents = 0,
     me_SequenceGaps = 0, me_Duration = 0, me_RowsPerSecond = FInt 0, me_EventsPerSecond = FInt 0,
     me_P95Latency = 0, me_PeakAllocBytes = 0, me_AllocsPerEvent = FInt 0, me_CreatedAt = 0\<rparr>"

text \<open>The result at the end of the file; \<open>k\<close> counts the readings of the memory statistics.\<close>

definition finish_file ::
  "Context \<Rightarrow> bytes \<Rightarrow> int \<Rightarrow> Validator \<Rightarrow> int \<Rightarrow> int \<Rightarrow> nat \<Rightarrow> StoreMetric \<times> Failure list \<times> processedFileStats" where
  "finish_file cx contents sz v lastLine peak k =
     (let result = snd (Result_of 0 v);
          rows = (if lastLine > vr_Rows result then lastLine else vr_Rows result);
          duration = (if cx_since cx \<le> 0 then 1 else cx_since cx);
          peakAlloc = (if cx_alloc cx k > peak then cx_alloc cx k else peak);
          allocsPerEvent = (if vr_Events result > 0 \<and> cx_mallocs cx k \<ge> cx_mallocs cx 0
                            then FDiv (FInt (cx_mallocs cx k - cx_mallocs cx 0)) (FInt (vr_Events result))
                            else FInt 0)
      in (zero_StoreMetric\<lparr>me_Rows := rows, me_Events := vr_Events result,
            me_MalformedEvents := vr_MalformedEvents result, me_SequenceGaps := vr_SequenceGaps result,
            me_Duration := duration, me_RowsPerSecond := FDiv (FInt rows) (FSeconds duration),
            me_EventsPerSecond := FDiv (FInt (vr_Events result)) (FSeconds duration),
            me_PeakAllocBytes := peakAlloc, me_AllocsPerEvent := allocsPerEvent,
            me_CreatedAt := cx_created cx\<rparr>,
          vr_Failures result,
          \<lparr>pf_SHA256 = cx_sha256_hex cx contents, pf_Rows = rows, pf_Bytes = sz\<rparr>))"

text \<open>
  The loop over the records. \<open>i\<close> counts the checks of the context, \<open>k\<close> the readings of the memory
  statistics; \<open>contents\<close> and \<open>sz\<close> are of the open file.
\<close>

function process_loop ::
  "'r ReplayHandler \<Rightarrow> 'r Runtime \<Rightarrow> Context \<Rightarrow> ReplayJob \<Rightarrow> bytes \<Rightarrow> int \<Rightarrow> Stream \<Rightarrow> Validator \<Rightarrow> int \<Rightarrow> int \<Rightarrow> nat \<Rightarrow> nat \<Rightarrow>
    'r WorkerState \<Rightarrow> (worker_error + StoreMetric \<times> Failure list \<times> processedFileStats) \<times> 'r WorkerState" where
  "process_loop h rt cx job contents sz s v lastLine peak i k ws =
     (case cx_err cx i of
        Some e \<Rightarrow> (Inl (WorkerContext e), ws)
      | None \<Rightarrow>
     (case Next s of
        NextEOF \<Rightarrow> (Inr (finish_file cx contents sz v lastLine peak k), ws)
      | NextError e \<Rightarrow> (Inl (WorkerStream e), ws)
      | NextRecord rec s' \<Rightarrow>
          (if rec_Line rec \<le> rj_CheckpointLine job then
             process_loop h rt cx job contents sz s' (Prime v rec) (rec_Line rec) peak (Suc i) k ws
           else
             let v' = Process v rec in
             if rec_Line rec > rj_CheckpointLine job \<and> rec_Line rec mod hc_CheckpointEvery (rh_cfg h) = 0 then
               (case store_call rt (rp_UpdateReplayCheckpoint (rh_repo h) (rj_ID job) (rec_Line rec)) ws of
                  (Inl e, ws1) \<Rightarrow> (Inl e, ws1)
                | (Inr _, ws1) \<Rightarrow>
                    (case store_call rt (rp_GetReplayJob (rh_repo h) (rj_ID job)) ws1 of
                       (Inl e, ws2) \<Rightarrow> (Inl e, ws2)
                     | (Inr current, ws2) \<Rightarrow>
                         (if rj_Status current = JobStatusCanceled then (Inl (WorkerContext Canceled), ws2)
                          else process_loop h rt cx job contents sz s' v' (rec_Line rec)
                                 (if cx_alloc cx k > peak then cx_alloc cx k else peak) (Suc i) (Suc k) ws2)))
             else process_loop h rt cx job contents sz s' v' (rec_Line rec) peak (Suc i) k ws)))"
  by pat_completeness auto
termination
  by (relation "measure (\<lambda>(h, rt, cx, job, contents, sz, s, v, l, p, i, k, ws). unread s)")
    (auto dest: Next_shrinks)

declare process_loop.simps [simp del]

definition processFile ::
  "'r ReplayHandler \<Rightarrow> 'r Runtime \<Rightarrow> Context \<Rightarrow> ReplayJob \<Rightarrow> string \<Rightarrow> Format \<Rightarrow> string \<Rightarrow> 'r WorkerState \<Rightarrow>
    (worker_error + StoreMetric \<times> Failure list \<times> processedFileStats) \<times> 'r WorkerState" where
  "processFile h rt cx job path format symb ws =
     (case cx_fs cx path of
        None \<Rightarrow> (Inl (FileOpen path), ws)
      | Some contents \<Rightarrow>
          (case cx_stat cx path of
             None \<Rightarrow> (Inl (FileStat path), ws)
           | Some sz \<Rightarrow>
               (case NewStream contents format of
                  Inl e \<Rightarrow> (Inl (WorkerStream e), ws)
                | Inr s \<Rightarrow>
                    process_loop h rt cx job contents sz s
                      (NewValidator (cx_started cx) \<lparr>op_Symbol = symb\<rparr>) 0 (cx_alloc cx 0) 0 1 ws)))"

subsection \<open>The task\<close>

definition message_text :: "Context \<Rightarrow> parse_error message \<Rightarrow> string" where
  "message_text cx m = (case m of Text s \<Rightarrow> s | ErrorText e \<Rightarrow> cx_parse_Error cx e)"

definition validationErrors :: "Context \<Rightarrow> string \<Rightarrow> Failure list \<Rightarrow> ValidationError list" where
  "validationErrors cx jobID failures =
     map (\<lambda>f. \<lparr>ve_ID = '''', ve_JobID = jobID, ve_Line = vf_Line f, ve_Symbol = vf_Symbol f,
                ve_Type = vf_Type f, ve_Message = message_text cx (vf_Message f), ve_CreatedAt = 0\<rparr>) failures"

definition event_metric :: "StoreMetric \<Rightarrow> ReplayMetric" where
  "event_metric m = \<lparr>rm_Rows = me_Rows m, rm_Events = me_Events m, rm_MalformedEvents = me_MalformedEvents m,
     rm_SequenceGaps = me_SequenceGaps m, rm_Duration = me_Duration m, rm_RowsPerSecond = me_RowsPerSecond m,
     rm_EventsPerSecond = me_EventsPerSecond m, rm_P95Latency = me_P95Latency m,
     rm_PeakAllocBytes = me_PeakAllocBytes m, rm_AllocsPerEvent = me_AllocsPerEvent m,
     rm_ProcessedAt = me_CreatedAt m, rm_WorkloadFilePath = ''''\<rparr>"

definition recordReplayMetrics ::
  "'r ReplayHandler \<Rightarrow> 'r Runtime \<Rightarrow> ReplayJob \<Rightarrow> StoreMetric \<Rightarrow> string \<Rightarrow> JobStatus \<Rightarrow> 'r WorkerState \<Rightarrow> 'r WorkerState" where
  "recordReplayMetrics h rt job metric symb status ws =
     (if ws_metrics ws = None then ws
      else case store_call rt (rp_GetDataset (rh_repo h) (rj_DatasetID job)) ws of
        (res, ws1) \<Rightarrow>
          (let datasetLabel = (case res of
                 Inr dataset \<Rightarrow> (if ds_Name dataset \<noteq> '''' then ds_Name dataset else rj_DatasetID job)
               | Inl _ \<Rightarrow> rj_DatasetID job)
           in record_metric (RecordReplayBenchmark
                \<lparr>la_Dataset = datasetLabel, la_Symbol = symb, la_Status = status\<rparr> (event_metric metric)) ws1))"

definition replay_manifest ::
  "EventFile \<Rightarrow> Format \<Rightarrow> string \<Rightarrow> processedFileStats \<Rightarrow> StoreMetric \<Rightarrow> int \<Rightarrow> Failure list \<Rightarrow> ReplayManifest" where
  "replay_manifest file format symb stats metric resumeFromLine failures =
     \<lparr>mf_InputPath = ef_Path file, mf_InputFormat = format, mf_InputSymbol = symb,
      mf_InputFileSHA256 = pf_SHA256 stats, mf_InputBytes = pf_Bytes stats, mf_InputRows = pf_Rows stats,
      mf_AppVersion = ''dev'', mf_StartedAt = me_CreatedAt metric - me_Duration metric,
      mf_CompletedAt = me_CreatedAt metric, mf_Duration = me_Duration metric,
      mf_CheckpointLine = me_Rows metric, mf_ResumeFromLine = resumeFromLine,
      mf_ErrorCount = int (length failures), mf_MalformedEvents = me_MalformedEvents metric,
      mf_SequenceGaps = me_SequenceGaps metric\<rparr>"

definition run_job ::
  "'r ReplayHandler \<Rightarrow> 'r Runtime \<Rightarrow> Context \<Rightarrow> ReplayJob \<Rightarrow> 'r WorkerState \<Rightarrow> (worker_error + unit) \<times> 'r WorkerState" where
  "run_job h rt cx job =
     try_call (store_call rt (rp_GetReplayJob (rh_repo h) (rj_ID job))) (\<lambda>latest.
     if rj_Status latest = JobStatusCanceled then (\<lambda>ws. (Inr (), ws)) else
     try_call (store_call rt (rp_GetEventFile (rh_repo h) (rj_EventFileID job))) (\<lambda>file.
     case ResolveFormat (ef_Path file) (ef_Format file) of
       Inl e \<Rightarrow> (\<lambda>ws. (Inl (WorkerStream e), ws))
     | Inr format \<Rightarrow>
       (let symb = (if rj_Symbol job = '''' then ef_Symbol file else rj_Symbol job);
            resumeFromLine = rj_CheckpointLine latest in
        try_call (processFile h rt cx latest (ef_Path file) format symb) (\<lambda>(metric, failures, stats).
        try_call (store_call rt (rp_UpdateReplayCheckpoint (rh_repo h) (rj_ID job) (me_Rows metric))) (\<lambda>_.
        try_call (store_call rt (rp_UpdateEventFileStats (rh_repo h) (ef_ID file)
          \<lparr>us_SHA256 = pf_SHA256 stats, us_Rows = pf_Rows stats, us_Bytes = pf_Bytes stats\<rparr>)) (\<lambda>_.
        try_call (store_call rt (rp_UpdateReplayManifest (rh_repo h) (rj_ID job)
          (replay_manifest file format symb stats metric resumeFromLine failures))) (\<lambda>_.
        try_call (store_call rt (rp_CompleteReplayJob (rh_repo h) (rj_ID job)
          \<lparr>cp_Metric = metric, cp_Errors = validationErrors cx (rj_ID job) failures\<rparr>)) (\<lambda>_ ws.
        (Inr (), recordReplayMetrics h rt job metric symb JobStatusCompleted ws)))))))))"

text \<open>
  \<^verbatim>\<open>errors.Is(cause, context.Canceled)\<close>: the context's own error, or an error of the store that wraps it; which
  errors of a driver do is the parameter \<open>cx_store_canceled\<close>.
\<close>

definition is_canceled :: "Context \<Rightarrow> worker_error \<Rightarrow> bool" where
  "is_canceled cx cause =
     (case cause of WorkerContext e \<Rightarrow> e = Canceled | WorkerStore e \<Rightarrow> cx_store_canceled cx e | _ \<Rightarrow> False)"

definition failJob ::
  "'r ReplayHandler \<Rightarrow> 'r Runtime \<Rightarrow> Context \<Rightarrow> string \<Rightarrow> worker_error \<Rightarrow> 'r WorkerState \<Rightarrow> (worker_error + unit) \<times> 'r WorkerState" where
  "failJob h rt cx jobID cause ws =
     (let status = (case (cx_retried cx, cx_maxRetry cx) of
            (Some retried, Some maxRetry) \<Rightarrow> (if retried \<ge> maxRetry then JobStatusDLQ else JobStatusFailed)
          | _ \<Rightarrow> JobStatusFailed)
      in try_call (store_call rt (rp_UpdateReplayJobStatus (rh_repo h) jobID status (cx_Error cx cause))) (\<lambda>_ ws1.
           if status = JobStatusDLQ then
             (Inl (SkipRetry cause), record_metric (RecordWorkerDLQ (hc_Queue (rh_cfg h)) ''retry_exhausted'') ws1)
           else if is_canceled cx cause then (Inl (SkipRetry cause), ws1)
           else (Inl cause, ws1)) ws)"

definition ProcessTask ::
  "'r ReplayHandler \<Rightarrow> 'r Runtime \<Rightarrow> Context \<Rightarrow> Task \<Rightarrow> 'r WorkerState \<Rightarrow> (worker_error + unit) \<times> 'r WorkerState" where
  "ProcessTask h rt cx task ws =
     (if tk_Type task \<noteq> TypeReplayJob then (Inl (SkipRetry (UnsupportedTask (tk_Type task))), ws)
      else case DecodeReplayPayload (tk_Payload task) of
        Inl e \<Rightarrow> (Inl (SkipRetry (InvalidPayload e)), ws)
      | Inr payload \<Rightarrow>
          (case store_call rt (rp_GetReplayJob (rh_repo h) (pa_JobID payload)) ws of
             (Inl e, ws1) \<Rightarrow> (Inl (SkipRetry e), ws1)
           | (Inr job, ws1) \<Rightarrow>
               (if rj_Status job = JobStatusCanceled then (Inr (), ws1)
                else if rj_Status job = JobStatusCompleted \<or> rj_Status job = JobStatusDLQ then (Inr (), ws1)
                else
                  let ws2 = (if rj_CreatedAt job \<noteq> 0
                             then record_metric (RecordJobQueueLag (hc_Queue (rh_cfg h)) (cx_lag cx)) ws1 else ws1)
                  in try_call (store_call rt (rp_UpdateReplayJobStatus (rh_repo h) (rj_ID job) JobStatusRunning ''''))
                       (\<lambda>_ ws3.
                         (case run_job h rt cx job (addActiveWorker 1 ws3) of
                            (Inr _, ws4) \<Rightarrow> (Inr (), addActiveWorker (- 1) ws4)
                          | (Inl e, ws4) \<Rightarrow>
                              (case failJob h rt cx (rj_ID job) e ws4 of
                                 (res, ws5) \<Rightarrow> (res, addActiveWorker (- 1) ws5)))) ws2)))"


subsection \<open>Calls of the handler\<close>

text \<open>What a call to the store leaves alone.\<close>

definition same_rest :: "'r WorkerState \<Rightarrow> 'r WorkerState \<Rightarrow> bool" where
  "same_rest ws' ws \<longleftrightarrow> ws_active ws' = ws_active ws \<and> ws_metrics ws' = ws_metrics ws \<and> ws_panic ws' = ws_panic ws"

lemma same_rest_refl [simp]: "same_rest ws ws"
  by (simp add: same_rest_def)

lemma same_rest_trans: "same_rest a b \<Longrightarrow> same_rest b c \<Longrightarrow> same_rest a c"
  by (simp add: same_rest_def)

text \<open>No other client is at work before the \<open>n\<close>-th call.\<close>

definition calm :: "'r Runtime \<Rightarrow> nat \<Rightarrow> bool" where
  "calm rt n \<longleftrightarrow> (\<forall>r. rt_env rt n r = r)"

lemma quiet_calm: "quiet rt \<Longrightarrow> calm rt n"
  by (simp add: quiet_def calm_def)

lemma store_call_count: "store_call rt m ws = (res, ws') \<Longrightarrow> ws_calls ws' = Suc (ws_calls ws)"
  by (auto simp: store_call_def call_def split: prod.splits)

lemma store_call_calm:
  "calm rt (ws_calls ws) \<Longrightarrow> m (rt_io rt (ws_calls ws)) (ws_repo ws) = (Inr a, r') \<Longrightarrow>
    store_call rt m ws = (Inr a, ws\<lparr>ws_repo := r', ws_calls := Suc (ws_calls ws)\<rparr>)"
  by (simp add: store_call_def call_def calm_def)

lemma record_metric_repo [simp]:
  "ws_repo (record_metric f ws) = ws_repo ws" "ws_calls (record_metric f ws) = ws_calls ws"
  "ws_active (record_metric f ws) = ws_active ws" "(ws_metrics (record_metric f ws) = None) = (ws_metrics ws = None)"
  by (simp_all add: record_metric_def split: option.splits)

lemma addActiveWorker_repo [simp]:
  "ws_repo (addActiveWorker d ws) = ws_repo ws" "ws_calls (addActiveWorker d ws) = ws_calls ws"
  "(ws_metrics (addActiveWorker d ws) = None) = (ws_metrics ws = None)"
  by (simp_all add: addActiveWorker_def Let_def split: option.splits)

lemma addActiveWorker_active:
  "ws_active (addActiveWorker d ws) = (if ws_metrics ws = None then ws_active ws else ws_active ws + d)"
  by (simp add: addActiveWorker_def Let_def split: option.splits)

lemma put_job_same: "db_jobs d i = Some j \<Longrightarrow> put_job i j d = d"
  by (simp add: put_job_def fun_upd_idem)

text \<open>One row of the file: primed up to the checkpoint, processed after it.\<close>

definition loop_step :: "int \<Rightarrow> Validator \<Rightarrow> Record \<Rightarrow> Validator" where
  "loop_step cp v rec = (if rec_Line rec \<le> cp then Prime v rec else Process v rec)"

definition last_line :: "int \<Rightarrow> Record list \<Rightarrow> int" where
  "last_line l rs = (if rs = [] then l else rec_Line (last rs))"

lemma finish_file_stats:
  assumes "finish_file cx contents sz v l peak k = (metric, failures, stats)"
  shows "pf_SHA256 stats = cx_sha256_hex cx contents" "pf_Bytes stats = sz"
    "pf_Rows stats = max (vr_Rows (v_result v)) l" "me_Rows metric = max (vr_Rows (v_result v)) l"
    "me_Events metric = vr_Events (v_result v)" "me_MalformedEvents metric = vr_MalformedEvents (v_result v)"
    "me_SequenceGaps metric = vr_SequenceGaps (v_result v)" "failures = vr_Failures (v_result v)"
    "me_ID metric = ''''" "me_CreatedAt metric = cx_created cx"
  using assms by (auto simp: finish_file_def Let_def max_def zero_StoreMetric_def)

lemma loop_step_rows: "0 \<le> vr_Rows (v_result v) \<Longrightarrow> 0 \<le> vr_Rows (v_result (foldl (loop_step cp) v rs))"
  by (induction rs arbitrary: v) (simp_all add: loop_step_def Process_result(2))

lemma last_line_simps [simp]: "last_line l (r # rs) = last_line (rec_Line r) rs" "last_line l [] = l"
  by (simp_all add: last_line_def)

context repository
begin

lemma store_reads:
  assumes "calm rt (ws_calls ws)" "inv (ws_repo ws)"
  shows "db_jobs (db (ws_repo ws)) i = Some j \<Longrightarrow>
      store_call rt (rp_GetReplayJob repo i) ws = (Inr j, ws\<lparr>ws_calls := Suc (ws_calls ws)\<rparr>)"
    "db_files (db (ws_repo ws)) i = Some f \<Longrightarrow>
      store_call rt (rp_GetEventFile repo i) ws = (Inr f, ws\<lparr>ws_calls := Suc (ws_calls ws)\<rparr>)"
    "db_datasets (db (ws_repo ws)) i = Some d \<Longrightarrow>
      store_call rt (rp_GetDataset repo i) ws = (Inr d, ws\<lparr>ws_calls := Suc (ws_calls ws)\<rparr>)"
  using assms
  by (simp_all add: store_call_def call_def calm_def GetReplayJob GetEventFile GetDataset)

lemma store_writes:
  assumes "calm rt (ws_calls ws)" "inv (ws_repo ws)" "db_jobs (db (ws_repo ws)) i = Some j"
  shows "\<exists>ws'. store_call rt (rp_UpdateReplayCheckpoint repo i n) ws = (Inr (), ws') \<and> same_rest ws' ws \<and>
      inv (ws_repo ws') \<and>
      db (ws_repo ws') = put_job i (j\<lparr>rj_CheckpointLine := max (rj_CheckpointLine j) n\<rparr>) (db (ws_repo ws))"
    "\<exists>ws' t. store_call rt (rp_UpdateReplayJobStatus repo i st e) ws = (Inr (with_status t st e j), ws') \<and>
      same_rest ws' ws \<and> inv (ws_repo ws') \<and>
      db (ws_repo ws') = put_job i (with_status t st e j) (db (ws_repo ws))"
    "\<exists>ws'. store_call rt (rp_UpdateReplayManifest repo i m) ws = (Inr (j\<lparr>rj_Manifest := m\<rparr>), ws') \<and>
      same_rest ws' ws \<and> inv (ws_repo ws') \<and>
      db (ws_repo ws') = put_job i (j\<lparr>rj_Manifest := m\<rparr>) (db (ws_repo ws))"
    "\<exists>ws' io j'. j' = j\<lparr>rj_Status := JobStatusCompleted, rj_CompletedAt := Some (io_now io)\<rparr> \<and>
      store_call rt (rp_CompleteReplayJob repo i q) ws = (Inr j', ws') \<and> same_rest ws' ws \<and>
      inv (ws_repo ws') \<and> db (ws_repo ws') = complete_job io i q j' (db (ws_repo ws))"
proof -
  let ?io = "rt_io rt (ws_calls ws)"
  obtain r' where "rp_UpdateReplayCheckpoint repo i n ?io (ws_repo ws) = (Inr (), r')" "inv r'"
    "db r' = put_job i (j\<lparr>rj_CheckpointLine := max (rj_CheckpointLine j) n\<rparr>) (db (ws_repo ws))"
    using UpdateReplayCheckpoint [OF assms(2,3)] by blast
  then show "\<exists>ws'. store_call rt (rp_UpdateReplayCheckpoint repo i n) ws = (Inr (), ws') \<and> same_rest ws' ws \<and>
      inv (ws_repo ws') \<and>
      db (ws_repo ws') = put_job i (j\<lparr>rj_CheckpointLine := max (rj_CheckpointLine j) n\<rparr>) (db (ws_repo ws))"
    by (simp add: store_call_calm [OF assms(1)] same_rest_def)
  obtain r' where "rp_UpdateReplayJobStatus repo i st e ?io (ws_repo ws) = (Inr (with_status (io_now ?io) st e j), r')"
    "inv r'" "db r' = put_job i (with_status (io_now ?io) st e j) (db (ws_repo ws))"
    using UpdateReplayJobStatus [OF assms(2,3)] by blast
  then show "\<exists>ws' t. store_call rt (rp_UpdateReplayJobStatus repo i st e) ws = (Inr (with_status t st e j), ws') \<and>
      same_rest ws' ws \<and> inv (ws_repo ws') \<and>
      db (ws_repo ws') = put_job i (with_status t st e j) (db (ws_repo ws))"
    by (intro exI [of _ "ws\<lparr>ws_repo := r', ws_calls := Suc (ws_calls ws)\<rparr>"] exI [of _ "io_now ?io"])
      (simp add: store_call_calm [OF assms(1)] same_rest_def)
  obtain r' where "rp_UpdateReplayManifest repo i m ?io (ws_repo ws) = (Inr (j\<lparr>rj_Manifest := m\<rparr>), r')" "inv r'"
    "db r' = put_job i (j\<lparr>rj_Manifest := m\<rparr>) (db (ws_repo ws))"
    using UpdateReplayManifest [OF assms(2,3)] by blast
  then show "\<exists>ws'. store_call rt (rp_UpdateReplayManifest repo i m) ws = (Inr (j\<lparr>rj_Manifest := m\<rparr>), ws') \<and>
      same_rest ws' ws \<and> inv (ws_repo ws') \<and>
      db (ws_repo ws') = put_job i (j\<lparr>rj_Manifest := m\<rparr>) (db (ws_repo ws))"
    by (simp add: store_call_calm [OF assms(1)] same_rest_def)
  let ?j = "j\<lparr>rj_Status := JobStatusCompleted, rj_CompletedAt := Some (io_now ?io)\<rparr>"
  obtain r' where "rp_CompleteReplayJob repo i q ?io (ws_repo ws) = (Inr ?j, r')" "inv r'"
    "db r' = complete_job ?io i q ?j (db (ws_repo ws))"
    using CompleteReplayJob [OF assms(2,3)] by blast
  then show "\<exists>ws' io j'. j' = j\<lparr>rj_Status := JobStatusCompleted, rj_CompletedAt := Some (io_now io)\<rparr> \<and>
      store_call rt (rp_CompleteReplayJob repo i q) ws = (Inr j', ws') \<and> same_rest ws' ws \<and>
      inv (ws_repo ws') \<and> db (ws_repo ws') = complete_job io i q j' (db (ws_repo ws))"
    by (intro exI [of _ "ws\<lparr>ws_repo := r', ws_calls := Suc (ws_calls ws)\<rparr>"] exI [of _ ?io] exI [of _ ?j])
      (simp add: store_call_calm [OF assms(1)] same_rest_def)
qed

lemma store_stats:
  assumes "calm rt (ws_calls ws)" "inv (ws_repo ws)" "db_files (db (ws_repo ws)) i = Some f"
    "us_SHA256 u \<noteq> ''''" "0 \<le> us_Rows u" "0 \<le> us_Bytes u"
  shows "\<exists>ws'. store_call rt (rp_UpdateEventFileStats repo i u) ws = (Inr (with_stats u f), ws') \<and>
    same_rest ws' ws \<and> inv (ws_repo ws') \<and>
    db (ws_repo ws') = (db (ws_repo ws))\<lparr>db_files := (db_files (db (ws_repo ws)))(i \<mapsto> with_stats u f)\<rparr>"
proof -
  obtain r' where "rp_UpdateEventFileStats repo i u (rt_io rt (ws_calls ws)) (ws_repo ws) = (Inr (with_stats u f), r')"
    "inv r'" "db r' = (db (ws_repo ws))\<lparr>db_files := (db_files (db (ws_repo ws)))(i \<mapsto> with_stats u f)\<rparr>"
    using UpdateEventFileStats [OF assms(2,4-6,3)] by blast
  then show ?thesis
    by (simp add: store_call_calm [OF assms(1)] same_rest_def)
qed

lemma recordReplayMetrics_quiet:
  assumes "quiet rt" "rh_repo h = repo" "inv (ws_repo ws)"
  shows "ws_repo (recordReplayMetrics h rt job metric symb st ws) = ws_repo ws"
    "ws_active (recordReplayMetrics h rt job metric symb st ws) = ws_active ws"
    "ws_metrics (recordReplayMetrics h rt job metric symb st ws) = None \<longleftrightarrow> ws_metrics ws = None"
  using assms
  by (simp_all add: recordReplayMetrics_def store_call_def call_def quiet_def GetDataset Let_def)

text \<open>
  The loop, undisturbed: it validates every record, and its only effect on the store is to raise
  the job's checkpoint to the line of a record.
\<close>

lemma process_loop_quiet:
  assumes "quiet rt" "rh_repo h = repo" "\<And>i. cx_err cx i = None" "rj_ID job = jid"
  shows "inv (ws_repo ws) \<Longrightarrow> db_jobs (db (ws_repo ws)) jid = Some j \<Longrightarrow> rj_Status j \<noteq> JobStatusCanceled \<Longrightarrow>
    \<exists>peak' k' ws' c. process_loop h rt cx job contents sz s v l peak i k ws =
      (case snd (drain s) of
         None \<Rightarrow> Inr (finish_file cx contents sz (foldl (loop_step (rj_CheckpointLine job)) v (fst (drain s)))
           (last_line l (fst (drain s))) peak' k')
       | Some e \<Rightarrow> Inl (WorkerStream e), ws') \<and>
      same_rest ws' ws \<and> inv (ws_repo ws') \<and>
      db (ws_repo ws') = put_job jid (j\<lparr>rj_CheckpointLine := c\<rparr>) (db (ws_repo ws)) \<and>
      rj_CheckpointLine j \<le> c \<and> (c = rj_CheckpointLine j \<or> c \<in> rec_Line ` set (fst (drain s)))"
proof (induction s arbitrary: v l peak i k ws j rule: drain.induct)
  case (1 s)
  show ?case
  proof (cases s rule: drain_cases)
    case eof
    show ?thesis
      by (rule exI [of _ peak], rule exI [of _ k], rule exI [of _ ws], rule exI [of _ "rj_CheckpointLine j"])
        (simp add: process_loop.simps [of h rt cx job contents sz s] eof "1.prems" assms(3)
          put_job_same [OF "1.prems"(2)])
  next
    case (err e)
    show ?thesis
      by (rule exI [of _ peak], rule exI [of _ k], rule exI [of _ ws], rule exI [of _ "rj_CheckpointLine j"])
        (simp add: process_loop.simps [of h rt cx job contents sz s] err "1.prems" assms(3)
          put_job_same [OF "1.prems"(2)])
  next
    case (more r s')
    let ?v = "loop_step (rj_CheckpointLine job) v r"
    consider (quick) peak' k' where "process_loop h rt cx job contents sz s v l peak i k ws =
        process_loop h rt cx job contents sz s' ?v (rec_Line r) peak' (Suc i) k' ws"
      | (checkpoint) "rec_Line r > rj_CheckpointLine job" "rec_Line r mod hc_CheckpointEvery (rh_cfg h) = 0"
      using more(1) assms(3)
      by (cases "rec_Line r \<le> rj_CheckpointLine job"; cases "rec_Line r mod hc_CheckpointEvery (rh_cfg h) = 0")
        (auto simp: process_loop.simps [of h rt cx job contents sz s] loop_step_def Let_def)
    then show ?thesis
    proof cases
      case quick
      obtain peak'' k'' ws' c where ih: "process_loop h rt cx job contents sz s' ?v (rec_Line r) peak' (Suc i) k' ws =
          (case snd (drain s') of
             None \<Rightarrow> Inr (finish_file cx contents sz (foldl (loop_step (rj_CheckpointLine job)) ?v (fst (drain s')))
               (last_line (rec_Line r) (fst (drain s'))) peak'' k'')
           | Some e \<Rightarrow> Inl (WorkerStream e), ws')"
        "same_rest ws' ws" "inv (ws_repo ws')"
        "db (ws_repo ws') = put_job jid (j\<lparr>rj_CheckpointLine := c\<rparr>) (db (ws_repo ws))"
        "rj_CheckpointLine j \<le> c" "c = rj_CheckpointLine j \<or> c \<in> rec_Line ` set (fst (drain s'))"
        using "1.IH" [OF more(1) "1.prems", of ?v "rec_Line r" peak' "Suc i" k'] by blast
      show ?thesis
        by (rule exI [of _ peak''], rule exI [of _ k''], rule exI [of _ ws'], rule exI [of _ c])
          (use ih quick more(2) in \<open>auto cong: option.case_cong\<close>)
    next
      case checkpoint
      let ?j = "j\<lparr>rj_CheckpointLine := max (rj_CheckpointLine j) (rec_Line r)\<rparr>"
      obtain ws1 where ws1: "store_call rt (rp_UpdateReplayCheckpoint repo jid (rec_Line r)) ws = (Inr (), ws1)"
        "same_rest ws1 ws" "inv (ws_repo ws1)" "db (ws_repo ws1) = put_job jid ?j (db (ws_repo ws))"
        using store_writes(1) [OF quiet_calm [OF assms(1)] "1.prems"(1,2)] by blast
      let ?ws2 = "ws1\<lparr>ws_calls := Suc (ws_calls ws1)\<rparr>"
      have j1: "db_jobs (db (ws_repo ?ws2)) jid = Some ?j" by (simp add: ws1(4))
      have "store_call rt (rp_GetReplayJob repo jid) ws1 = (Inr ?j, ?ws2)"
        using store_reads(1) [OF quiet_calm [OF assms(1)] ws1(3)] j1 by simp
      then obtain peak' where eq: "process_loop h rt cx job contents sz s v l peak i k ws =
          process_loop h rt cx job contents sz s' ?v (rec_Line r) peak' (Suc i) (Suc k) ?ws2"
        using more(1) assms checkpoint ws1(1) "1.prems"(3)
        by (auto simp: process_loop.simps [of h rt cx job contents sz s] loop_step_def Let_def)
      have st: "inv (ws_repo ?ws2)" "rj_Status ?j \<noteq> JobStatusCanceled"
        using ws1(3) "1.prems"(3) by simp_all
      obtain peak'' k'' ws' c where ih: "process_loop h rt cx job contents sz s' ?v (rec_Line r) peak' (Suc i) (Suc k) ?ws2 =
          (case snd (drain s') of
             None \<Rightarrow> Inr (finish_file cx contents sz (foldl (loop_step (rj_CheckpointLine job)) ?v (fst (drain s')))
               (last_line (rec_Line r) (fst (drain s'))) peak'' k'')
           | Some e \<Rightarrow> Inl (WorkerStream e), ws')"
        "same_rest ws' ?ws2" "inv (ws_repo ws')"
        "db (ws_repo ws') = put_job jid (?j\<lparr>rj_CheckpointLine := c\<rparr>) (db (ws_repo ?ws2))"
        "rj_CheckpointLine ?j \<le> c" "c = rj_CheckpointLine ?j \<or> c \<in> rec_Line ` set (fst (drain s'))"
        using "1.IH" [OF more(1) st(1) j1 st(2), of ?v "rec_Line r" peak' "Suc i" "Suc k"] by blast
      have "same_rest ws' ws" using ih(2) ws1(2) by (simp add: same_rest_def)
      note 2 = this
      have 3: "db (ws_repo ws') = put_job jid (j\<lparr>rj_CheckpointLine := c\<rparr>) (db (ws_repo ws))"
        using ih(4) ws1(4) by simp
      have 4: "rj_CheckpointLine j \<le> c \<and> (c = rj_CheckpointLine j \<or> c \<in> rec_Line ` set (fst (drain s)))"
        using ih(5,6) more(2) by (auto simp: max_def split: if_splits)
      show ?thesis
        by (rule exI [of _ peak''], rule exI [of _ k''], rule exI [of _ ws'], rule exI [of _ c])
          (use 2 3 4 ih(1,3) eq more(2) in \<open>simp cong: option.case_cong\<close>)
    qed
  qed
qed

text \<open>A run over a readable file, undisturbed.\<close>

lemma run_job_success:
  assumes "quiet rt" "rh_repo h = repo" "\<And>i. cx_err cx i = None" "inv (ws_repo ws)"
    and "db_jobs (db (ws_repo ws)) i = Some j" "same_job j job" "rj_Status j \<noteq> JobStatusCanceled"
    and "db_files (db (ws_repo ws)) (rj_EventFileID job) = Some f"
    and "ResolveFormat (ef_Path f) (ef_Format f) = Inr fmt" "cx_fs cx (ef_Path f) = Some contents"
    "cx_stat cx (ef_Path f) = Some sz" "0 \<le> sz" "cx_sha256_hex cx contents \<noteq> ''''"
    and "NewStream contents fmt = Inr s" "drain s = (rs, None)"
    and "symb = (if rj_Symbol job = '''' then ef_Symbol f else rj_Symbol job)"
    and "v = foldl (loop_step (rj_CheckpointLine j)) (NewValidator (cx_started cx) \<lparr>op_Symbol = symb\<rparr>) rs"
  shows "\<exists>ws' peak k metric failures stats io c j'.
    run_job h rt cx job ws = (Inr (), ws') \<and> inv (ws_repo ws') \<and> ws_active ws' = ws_active ws \<and>
    (ws_metrics ws' = None \<longleftrightarrow> ws_metrics ws = None) \<and>
    finish_file cx contents sz v (last_line 0 rs) peak k = (metric, failures, stats) \<and>
    rj_CheckpointLine j \<le> c \<and> (c = rj_CheckpointLine j \<or> c \<in> rec_Line ` set rs) \<and>
    j' = j\<lparr>rj_CheckpointLine := max c (me_Rows metric),
      rj_Manifest := replay_manifest f fmt symb stats metric (rj_CheckpointLine j) failures,
      rj_Status := JobStatusCompleted, rj_CompletedAt := Some (io_now io)\<rparr> \<and>
    db (ws_repo ws') = complete_job io i \<lparr>cp_Metric = metric, cp_Errors = validationErrors cx i failures\<rparr> j'
      ((db (ws_repo ws))\<lparr>db_files := (db_files (db (ws_repo ws)))(rj_EventFileID job \<mapsto>
        with_stats \<lparr>us_SHA256 = pf_SHA256 stats, us_Rows = pf_Rows stats, us_Bytes = pf_Bytes stats\<rparr> f)\<rparr>)"
proof -
  let ?d = "db (ws_repo ws)"
  have jid: "rj_ID j = i" "rj_ID job = i"
    using wf_db_job(1) [OF wf [OF assms(4)] assms(5)] assms(6) by (simp_all add: same_job_def)
  have fid: "ef_ID f = rj_EventFileID job"
    using wf_db_file(1) [OF wf [OF assms(4)] assms(8)] .
  let ?ws2 = "ws\<lparr>ws_calls := Suc (Suc (ws_calls ws))\<rparr>"
  have st2: "inv (ws_repo ?ws2)" "db_jobs (db (ws_repo ?ws2)) i = Some j" using assms(4,5) by simp_all
  have reads: "store_call rt (rp_GetReplayJob repo i) ws = (Inr j, ws\<lparr>ws_calls := Suc (ws_calls ws)\<rparr>)"
    "store_call rt (rp_GetEventFile repo (rj_EventFileID job)) (ws\<lparr>ws_calls := Suc (ws_calls ws)\<rparr>) = (Inr f, ?ws2)"
    using store_reads(1) [OF quiet_calm [OF assms(1)] assms(4,5)] store_reads(2) [OF quiet_calm [OF assms(1)], of "ws\<lparr>ws_calls := Suc (ws_calls ws)\<rparr>"]
      assms(4,8) by simp_all
  obtain peak k ws3 c where loop: "process_loop h rt cx j contents sz s
      (NewValidator (cx_started cx) \<lparr>op_Symbol = symb\<rparr>) 0 (cx_alloc cx 0) 0 1 ?ws2 =
      (Inr (finish_file cx contents sz v (last_line 0 rs) peak k), ws3)"
    "same_rest ws3 ?ws2" "inv (ws_repo ws3)"
    "db (ws_repo ws3) = put_job i (j\<lparr>rj_CheckpointLine := c\<rparr>) ?d"
    "rj_CheckpointLine j \<le> c" "c = rj_CheckpointLine j \<or> c \<in> rec_Line ` set rs"
    using process_loop_quiet [OF assms(1-3) jid(1) st2 assms(7), of contents sz s
        "NewValidator (cx_started cx) \<lparr>op_Symbol = symb\<rparr>" 0 "cx_alloc cx 0" 0 1] assms(15,17) by auto
  obtain metric failures stats where fin: "finish_file cx contents sz v (last_line 0 rs) peak k = (metric, failures, stats)"
    by (cases "finish_file cx contents sz v (last_line 0 rs) peak k")
  have pf: "processFile h rt cx j (ef_Path f) fmt symb ?ws2 = (Inr (metric, failures, stats), ws3)"
    using assms(10,11,14) loop(1) fin by (simp add: processFile_def)
  let ?m = "replay_manifest f fmt symb stats metric (rj_CheckpointLine j) failures"
  let ?u = "\<lparr>us_SHA256 = pf_SHA256 stats, us_Rows = pf_Rows stats, us_Bytes = pf_Bytes stats\<rparr>"
  let ?q = "\<lparr>cp_Metric = metric, cp_Errors = validationErrors cx i failures\<rparr>"
  let ?j4 = "j\<lparr>rj_CheckpointLine := max c (me_Rows metric)\<rparr>"
  have j3: "db_jobs (db (ws_repo ws3)) i = Some (j\<lparr>rj_CheckpointLine := c\<rparr>)" by (simp add: loop(4))
  obtain ws4 where ws4: "store_call rt (rp_UpdateReplayCheckpoint repo i (me_Rows metric)) ws3 = (Inr (), ws4)"
    "same_rest ws4 ws3" "inv (ws_repo ws4)" "db (ws_repo ws4) = put_job i ?j4 ?d"
    using store_writes(1) [OF quiet_calm [OF assms(1)] loop(3) j3, of "me_Rows metric"] by (auto simp: loop(4))
  have u: "us_SHA256 ?u \<noteq> ''''" "0 \<le> us_Rows ?u" "0 \<le> us_Bytes ?u"
    using finish_file_stats(1-3) [OF fin] assms(12,13)
      loop_step_rows [of "NewValidator (cx_started cx) \<lparr>op_Symbol = symb\<rparr>" "rj_CheckpointLine j" rs]
    by (simp_all add: assms(17) le_max_iff_disj)
  obtain ws5 where ws5: "store_call rt (rp_UpdateEventFileStats repo (ef_ID f) ?u) ws4 = (Inr (with_stats ?u f), ws5)"
    "same_rest ws5 ws4" "inv (ws_repo ws5)"
    "db (ws_repo ws5) = (put_job i ?j4 ?d)\<lparr>db_files := (db_files ?d)(rj_EventFileID job \<mapsto> with_stats ?u f)\<rparr>"
    using store_stats [OF quiet_calm [OF assms(1)] ws4(3) _ u, of "ef_ID f" f] assms(8) fid by (auto simp: ws4(4))
  have j5: "db_jobs (db (ws_repo ws5)) i = Some ?j4" by (simp add: ws5(4))
  obtain ws6 where ws6: "store_call rt (rp_UpdateReplayManifest repo i ?m) ws5 = (Inr (?j4\<lparr>rj_Manifest := ?m\<rparr>), ws6)"
    "same_rest ws6 ws5" "inv (ws_repo ws6)" "db (ws_repo ws6) = put_job i (?j4\<lparr>rj_Manifest := ?m\<rparr>) (db (ws_repo ws5))"
    using store_writes(3) [OF quiet_calm [OF assms(1)] ws5(3) j5] by blast
  have j6: "db_jobs (db (ws_repo ws6)) i = Some (?j4\<lparr>rj_Manifest := ?m\<rparr>)" by (simp add: ws6(4))
  obtain ws7 io j' where ws7: "j' = ?j4\<lparr>rj_Manifest := ?m, rj_Status := JobStatusCompleted, rj_CompletedAt := Some (io_now io)\<rparr>"
    "store_call rt (rp_CompleteReplayJob repo i ?q) ws6 = (Inr j', ws7)" "same_rest ws7 ws6" "inv (ws_repo ws7)"
    "db (ws_repo ws7) = complete_job io i ?q j' (db (ws_repo ws6))"
    using store_writes(4) [OF quiet_calm [OF assms(1)] ws6(3) j6] by blast
  let ?ws' = "recordReplayMetrics h rt job metric symb JobStatusCompleted ws7"
  have run: "run_job h rt cx job ws = (Inr (), ?ws')"
    using reads pf ws4(1) ws5(1) ws6(1) ws7(2) assms(2,7,9) jid
    by (simp add: run_job_def Let_def assms(16) [symmetric])
  have met: "ws_repo ?ws' = ws_repo ws7" "ws_active ?ws' = ws_active ws7" "ws_metrics ?ws' = None \<longleftrightarrow> ws_metrics ws7 = None"
    using recordReplayMetrics_quiet [OF assms(1,2) ws7(4)] by simp_all
  have db6: "complete_job io i ?q j' (db (ws_repo ws6)) = complete_job io i ?q j'
      (?d\<lparr>db_files := (db_files ?d)(rj_EventFileID job \<mapsto> with_stats ?u f)\<rparr>)"
    unfolding ws6(4) ws5(4) by (simp add: complete_job_def put_job_def)
  have act: "ws_active ws7 = ws_active ws" "ws_metrics ws7 = ws_metrics ws"
    using loop(2) ws4(2) ws5(2) ws6(2) ws7(3) by (simp_all add: same_rest_def)
  show ?thesis
    by (rule exI [of _ ?ws'], rule exI [of _ peak], rule exI [of _ k], rule exI [of _ metric],
        rule exI [of _ failures], rule exI [of _ stats], rule exI [of _ io], rule exI [of _ c], rule exI [of _ j'])
      (use run met fin loop(5,6) ws7(1,4,5) db6 act in simp)
qed

text \<open>A task whose job runs: the job is marked as running, run, and the worker counted.\<close>

lemma ProcessTask_runs:
  assumes "calm rt (ws_calls ws)" "calm rt (Suc (ws_calls ws))" "rh_repo h = repo" "inv (ws_repo ws)"
    and "tk_Type task = TypeReplayJob" "DecodeReplayPayload (tk_Payload task) = Inr \<lparr>pa_JobID = i\<rparr>"
    and "db_jobs (db (ws_repo ws)) i = Some j"
    "rj_Status j \<notin> {JobStatusCanceled, JobStatusCompleted, JobStatusDLQ}"
  obtains ws1 t where "inv (ws_repo ws1)" "ws_calls ws1 = Suc (Suc (ws_calls ws))"
    "db (ws_repo ws1) = put_job i (with_status t JobStatusRunning '''' j) (db (ws_repo ws))"
    "ws_metrics ws = None \<longleftrightarrow> ws_metrics ws1 = None"
    "ws_active ws1 = (if ws_metrics ws = None then ws_active ws else ws_active ws + 1)"
    "ProcessTask h rt cx task ws =
      (case run_job h rt cx j ws1 of
         (Inr _, ws2) \<Rightarrow> (Inr (), addActiveWorker (- 1) ws2)
       | (Inl e, ws2) \<Rightarrow> (case failJob h rt cx i e ws2 of (res, ws3) \<Rightarrow> (res, addActiveWorker (- 1) ws3)))"
proof -
  have jid: "rj_ID j = i"
    using wf_db_job(1) [OF wf [OF assms(4)] assms(7)] .
  let ?ws0 = "ws\<lparr>ws_calls := Suc (ws_calls ws)\<rparr>"
  let ?wsa = "if rj_CreatedAt j \<noteq> 0 then record_metric (RecordJobQueueLag (hc_Queue (rh_cfg h)) (cx_lag cx)) ?ws0 else ?ws0"
  have calls: "ws_calls ?wsa = Suc (ws_calls ws)" "calm rt (ws_calls ?wsa)" using assms(2) by simp_all
  have wsa: "inv (ws_repo ?wsa)" "db_jobs (db (ws_repo ?wsa)) i = Some j"
    "db (ws_repo ?wsa) = db (ws_repo ws)" "ws_active ?wsa = ws_active ws" "ws_metrics ws = None \<longleftrightarrow> ws_metrics ?wsa = None"
    using assms(4,7) by simp_all
  obtain wsb t where wsb: "store_call rt (rp_UpdateReplayJobStatus repo i JobStatusRunning '''') ?wsa =
      (Inr (with_status t JobStatusRunning '''' j), wsb)" "same_rest wsb ?wsa" "inv (ws_repo wsb)"
    "db (ws_repo wsb) = put_job i (with_status t JobStatusRunning '''' j) (db (ws_repo ?wsa))"
    using store_writes(2) [OF calls(2) wsa(1,2)] by blast
  have rest: "ws_active wsb = ws_active ws" "ws_metrics wsb = None \<longleftrightarrow> ws_metrics ws = None"
    using wsb(2) wsa(4,5) unfolding same_rest_def by metis+
  have "ProcessTask h rt cx task ws =
      (case run_job h rt cx j (addActiveWorker 1 wsb) of
         (Inr _, ws2) \<Rightarrow> (Inr (), addActiveWorker (- 1) ws2)
       | (Inl e, ws2) \<Rightarrow> (case failJob h rt cx i e ws2 of (res, ws3) \<Rightarrow> (res, addActiveWorker (- 1) ws3)))"
    using assms(3,5,6,8) store_reads(1) [OF assms(1,4,7)] wsb(1) jid
    by (simp add: ProcessTask_def Let_def cong: prod.case_cong sum.case_cong)
  moreover have "ws_active (addActiveWorker 1 wsb) = (if ws_metrics ws = None then ws_active ws else ws_active ws + 1)"
    by (simp add: addActiveWorker_active rest)
  moreover have "ws_metrics ws = None \<longleftrightarrow> ws_metrics (addActiveWorker 1 wsb) = None"
    by (simp add: rest)
  moreover have "db (ws_repo (addActiveWorker 1 wsb)) = put_job i (with_status t JobStatusRunning '''' j) (db (ws_repo ws))"
    using wsb(4) wsa(3) by simp
  moreover have "inv (ws_repo (addActiveWorker 1 wsb))"
    using wsb(3) by simp
  moreover have "ws_calls (addActiveWorker 1 wsb) = Suc (Suc (ws_calls ws))"
    using store_call_count [OF wsb(1)] calls(1) by simp
  ultimately show ?thesis
    by (intro that [of "addActiveWorker 1 wsb" t]) assumption+
qed

text \<open>A task with a bad type or payload, for an unknown job, or for a job that has ended.\<close>

lemma ProcessTask_skips:
  assumes "quiet rt" "rh_repo h = repo" "inv (ws_repo ws)"
  shows "tk_Type task \<noteq> TypeReplayJob \<Longrightarrow>
      ProcessTask h rt cx task ws = (Inl (SkipRetry (UnsupportedTask (tk_Type task))), ws)"
    "tk_Type task = TypeReplayJob \<Longrightarrow> DecodeReplayPayload (tk_Payload task) = Inl e \<Longrightarrow>
      ProcessTask h rt cx task ws = (Inl (SkipRetry (InvalidPayload e)), ws)"
    "tk_Type task = TypeReplayJob \<Longrightarrow> DecodeReplayPayload (tk_Payload task) = Inr p \<Longrightarrow>
      db_jobs (db (ws_repo ws)) (pa_JobID p) = None \<Longrightarrow>
      ProcessTask h rt cx task ws = (Inl (SkipRetry (WorkerStore ErrNotFound)), ws\<lparr>ws_calls := Suc (ws_calls ws)\<rparr>)"
    "tk_Type task = TypeReplayJob \<Longrightarrow> DecodeReplayPayload (tk_Payload task) = Inr p \<Longrightarrow>
      db_jobs (db (ws_repo ws)) (pa_JobID p) = Some j \<Longrightarrow>
      rj_Status j \<in> {JobStatusCanceled, JobStatusCompleted, JobStatusDLQ} \<Longrightarrow>
      ProcessTask h rt cx task ws = (Inr (), ws\<lparr>ws_calls := Suc (ws_calls ws)\<rparr>)"
  using assms
  by (auto simp: ProcessTask_def store_call_def call_def quiet_def GetReplayJob)

text \<open>Recording a failure.\<close>

lemma failJob_calm:
  assumes "calm rt (ws_calls ws)" "rh_repo h = repo" "inv (ws_repo ws)" "db_jobs (db (ws_repo ws)) i = Some j"
    and "exhausted = (\<exists>a b. cx_retried cx = Some a \<and> cx_maxRetry cx = Some b \<and> b \<le> a)"
  obtains ws' t where "failJob h rt cx i cause ws =
      (Inl (if exhausted \<or> is_canceled cx cause then SkipRetry cause else cause), ws')"
    "inv (ws_repo ws')" "ws_active ws' = ws_active ws" "ws_metrics ws' = None \<longleftrightarrow> ws_metrics ws = None"
    "db (ws_repo ws') = put_job i (with_status t (if exhausted then JobStatusDLQ else JobStatusFailed)
      (cx_Error cx cause) j) (db (ws_repo ws))"
proof -
  let ?st = "if exhausted then JobStatusDLQ else JobStatusFailed"
  have st: "(case (cx_retried cx, cx_maxRetry cx) of
      (Some retried, Some maxRetry) \<Rightarrow> if retried \<ge> maxRetry then JobStatusDLQ else JobStatusFailed
    | _ \<Rightarrow> JobStatusFailed) = ?st"
    using assms(5) by (auto split: option.splits)
  obtain ws1 t where ws1: "store_call rt (rp_UpdateReplayJobStatus repo i ?st (cx_Error cx cause)) ws =
      (Inr (with_status t ?st (cx_Error cx cause) j), ws1)" "same_rest ws1 ws" "inv (ws_repo ws1)"
    "db (ws_repo ws1) = put_job i (with_status t ?st (cx_Error cx cause) j) (db (ws_repo ws))"
    using store_writes(2) [OF assms(1,3,4)] by blast
  let ?ws' = "if exhausted then record_metric (RecordWorkerDLQ (hc_Queue (rh_cfg h)) ''retry_exhausted'') ws1 else ws1"
  have "failJob h rt cx i cause ws =
      (Inl (if exhausted \<or> is_canceled cx cause then SkipRetry cause else cause), ?ws')"
    using ws1(1) assms(2) unfolding failJob_def st by (cases exhausted) (simp_all add: Let_def)
  moreover have "inv (ws_repo ?ws')" "ws_active ?ws' = ws_active ws" "ws_metrics ?ws' = None \<longleftrightarrow> ws_metrics ws = None"
    "db (ws_repo ?ws') = put_job i (with_status t ?st (cx_Error cx cause) j) (db (ws_repo ws))"
    using ws1(2-4) by (simp_all add: same_rest_def)
  ultimately show ?thesis by (rule that)
qed

end

text \<open>Rows up to the checkpoint come first.\<close>

lemma loop_step_split:
  assumes "sorted (map rec_Line rs)"
  shows "foldl (loop_step cp) v rs =
    foldl Process (foldl Prime v (filter (\<lambda>x. rec_Line x \<le> cp) rs)) (filter (\<lambda>x. cp < rec_Line x) rs)"
  using assms
proof (induction rs arbitrary: v)
  case (Cons r rs)
  show ?case
  proof (cases "rec_Line r \<le> cp")
    case False
    then have "filter (\<lambda>x. rec_Line x \<le> cp) rs = []" "filter (\<lambda>x. cp < rec_Line x) rs = rs"
      using Cons.prems by (fastforce simp: filter_empty_conv filter_id_conv)+
    moreover from this have "foldl (loop_step cp) (Process v r) rs = foldl Process (Process v r) rs"
      using Cons by simp
    moreover have "loop_step cp v r = Process v r" using False by (simp add: loop_step_def)
    ultimately show ?thesis
      using False by simp
  qed (use Cons in \<open>simp add: loop_step_def\<close>)
qed simp

subsection \<open>What a task does\<close>

text \<open>
  The input of a job, as the handler reads it: the error that ends the reading, if any, and the rows.
  The result of a run that starts behind a checkpoint is that of validating the rows behind it after
  priming the others.
\<close>

definition input_error :: "Context \<Rightarrow> EventFile \<Rightarrow> worker_error option" where
  "input_error cx f =
     (case ResolveFormat (ef_Path f) (ef_Format f) of
        Inl e \<Rightarrow> Some (WorkerStream e)
      | Inr fmt \<Rightarrow>
          (case (cx_fs cx (ef_Path f), cx_stat cx (ef_Path f)) of
             (None, _) \<Rightarrow> Some (FileOpen (ef_Path f))
           | (Some _, None) \<Rightarrow> Some (FileStat (ef_Path f))
           | (Some contents, Some sz) \<Rightarrow>
               (case NewStream contents fmt of
                  Inl e \<Rightarrow> Some (WorkerStream e)
                | Inr s \<Rightarrow> map_option WorkerStream (snd (drain s)))))"

definition input_rows :: "Context \<Rightarrow> EventFile \<Rightarrow> Record list" where
  "input_rows cx f =
     (case (ResolveFormat (ef_Path f) (ef_Format f), cx_fs cx (ef_Path f)) of
        (Inr fmt, Some contents) \<Rightarrow>
          (case NewStream contents fmt of Inl _ \<Rightarrow> [] | Inr s \<Rightarrow> fst (drain s))
      | _ \<Rightarrow> [])"

text \<open>
  \<open>input_error\<close>, \<open>input_rows\<close> and \<open>replay_result\<close> are words of the specification, for what \<open>process_loop\<close> computes; that it
  does is part of what is proved of \<open>ProcessTask\<close> below.
\<close>

definition replay_result :: "time \<Rightarrow> string \<Rightarrow> int \<Rightarrow> Record list \<Rightarrow> Result" where
  "replay_result started symb cp rs =
     v_result (foldl Process
       (foldl Prime (NewValidator started \<lparr>op_Symbol = symb\<rparr>) (filter (\<lambda>x. rec_Line x \<le> cp) rs))
       (filter (\<lambda>x. cp < rec_Line x) rs))"

lemma input_ok:
  assumes "input_error cx f = None"
  obtains fmt contents sz s where "ResolveFormat (ef_Path f) (ef_Format f) = Inr fmt"
    "cx_fs cx (ef_Path f) = Some contents" "cx_stat cx (ef_Path f) = Some sz"
    "NewStream contents fmt = Inr s" "drain s = (input_rows cx f, None)"
  using assms
  by (auto simp: input_error_def input_rows_def split: sum.splits option.splits) (metis prod.collapse)

lemma drain_sorted:
  assumes "drain s = (rs, e)"
  shows "sorted (map rec_Line rs)" "\<forall>x \<in> set rs. rec_Line x \<le> last_line l rs" "list_all record_ok rs"
proof -
  have l: "map rec_Line rs = [st_line s + 1..st_line s + int (length rs)]" and ok: "list_all record_ok rs"
    using drain_lines [of s] assms by simp_all
  show "sorted (map rec_Line rs)" "list_all record_ok rs" using l ok by simp_all
  show "\<forall>x \<in> set rs. rec_Line x \<le> last_line l rs"
  proof
    fix x assume x: "x \<in> set rs"
    then have "rec_Line x \<in> set (map rec_Line rs)" by simp
    then have "rec_Line x \<le> st_line s + int (length rs)" unfolding l by simp
    moreover have ne: "rs \<noteq> []" using x by auto
    then have n: "st_line s + 1 \<le> st_line s + int (length rs)" by (cases rs) simp_all
    have "rec_Line (last rs) = last (map rec_Line rs)" using ne by (simp add: last_map)
    then have "rec_Line (last rs) = st_line s + int (length rs)"
      unfolding l upto_rec2 [OF n] by simp
    ultimately show "rec_Line x \<le> last_line l rs" using x by (auto simp: last_line_def)
  qed
qed

lemma input_rows_sorted:
  "sorted (map rec_Line (input_rows cx f))" "x \<in> set (input_rows cx f) \<Longrightarrow> rec_Line x \<le> last_line l (input_rows cx f)"
  "list_all record_ok (input_rows cx f)"
  using drain_sorted(1,3) [OF surjective_pairing] drain_sorted(2) [OF surjective_pairing, where l = l]
  by (auto simp: input_rows_def split: sum.splits option.splits)

context repository
begin

text \<open>A task for a job that has not ended, on a readable file and undisturbed.\<close>

lemma ProcessTask_success:
  assumes "quiet rt" "rh_repo h = repo" "\<And>k. cx_err cx k = None" "inv (ws_repo ws)"
    and "tk_Type task = TypeReplayJob" "DecodeReplayPayload (tk_Payload task) = Inr \<lparr>pa_JobID = i\<rparr>"
    and "db_jobs (db (ws_repo ws)) i = Some j" "rj_Status j \<notin> {JobStatusCanceled, JobStatusCompleted, JobStatusDLQ}"
    and "db_files (db (ws_repo ws)) (rj_EventFileID j) = Some f" "input_error cx f = None"
    and "\<And>b. cx_sha256_hex cx b \<noteq> ''''" "\<forall>p n. cx_stat cx p = Some n \<longrightarrow> 0 \<le> n"
    and "symb = (if rj_Symbol j = '''' then ef_Symbol f else rj_Symbol j)" "rs = input_rows cx f"
  obtains ws' t v contents sz peak k metric failures stats fmt io j' where
    "cx_fs cx (ef_Path f) = Some contents" "cx_stat cx (ef_Path f) = Some sz"
    "ProcessTask h rt cx task ws = (Inr (), ws')" "inv (ws_repo ws')" "ws_active ws' = ws_active ws"
    "v_result v = replay_result (cx_started cx) symb (rj_CheckpointLine j) rs"
    "finish_file cx contents sz v (last_line 0 rs) peak k = (metric, failures, stats)"
    "j' = (with_status t JobStatusRunning '''' j)\<lparr>rj_CheckpointLine := max (rj_CheckpointLine j) (me_Rows metric),
      rj_Manifest := replay_manifest f fmt symb stats metric (rj_CheckpointLine j) failures,
      rj_Status := JobStatusCompleted, rj_CompletedAt := Some (io_now io)\<rparr>"
    "db (ws_repo ws') = complete_job io i \<lparr>cp_Metric = metric, cp_Errors = validationErrors cx i failures\<rparr> j'
      ((db (ws_repo ws))\<lparr>db_files := (db_files (db (ws_repo ws)))(rj_EventFileID j \<mapsto>
        with_stats \<lparr>us_SHA256 = pf_SHA256 stats, us_Rows = pf_Rows stats, us_Bytes = pf_Bytes stats\<rparr> f)\<rparr>)"
proof -
  let ?cp = "rj_CheckpointLine j"
  let ?v = "foldl (loop_step ?cp) (NewValidator (cx_started cx) \<lparr>op_Symbol = symb\<rparr>) rs"
  obtain fmt contents sz s where inp: "ResolveFormat (ef_Path f) (ef_Format f) = Inr fmt"
    "cx_fs cx (ef_Path f) = Some contents" "cx_stat cx (ef_Path f) = Some sz"
    "NewStream contents fmt = Inr s" "drain s = (rs, None)"
    using assms(10) unfolding assms(14) by (rule input_ok)
  obtain ws1 t where ws1: "inv (ws_repo ws1)" "ws_calls ws1 = Suc (Suc (ws_calls ws))"
    "db (ws_repo ws1) = put_job i (with_status t JobStatusRunning '''' j) (db (ws_repo ws))"
    "ws_metrics ws = None \<longleftrightarrow> ws_metrics ws1 = None"
    "ws_active ws1 = (if ws_metrics ws = None then ws_active ws else ws_active ws + 1)"
    "ProcessTask h rt cx task ws =
      (case run_job h rt cx j ws1 of
         (Inr _, ws2) \<Rightarrow> (Inr (), addActiveWorker (- 1) ws2)
       | (Inl e, ws2) \<Rightarrow> (case failJob h rt cx i e ws2 of (res, ws3) \<Rightarrow> (res, addActiveWorker (- 1) ws3)))"
    by (rule ProcessTask_runs [OF quiet_calm [OF assms(1)] quiet_calm [OF assms(1)] assms(2,4-8)])
  let ?j1 = "with_status t JobStatusRunning '''' j"
  have d1: "db_jobs (db (ws_repo ws1)) i = Some ?j1" "db_files (db (ws_repo ws1)) (rj_EventFileID j) = Some f"
    unfolding ws1(3) using assms(9) by simp_all
  have j1: "same_job ?j1 j" "rj_Status ?j1 \<noteq> JobStatusCanceled" by (simp_all add: same_job_def)
  have cp: "rj_CheckpointLine ?j1 = ?cp" by simp
  obtain ws2 peak k metric failures stats io c j' where run: "run_job h rt cx j ws1 = (Inr (), ws2)"
    "inv (ws_repo ws2)" "ws_active ws2 = ws_active ws1" "ws_metrics ws2 = None \<longleftrightarrow> ws_metrics ws1 = None"
    "finish_file cx contents sz ?v (last_line 0 rs) peak k = (metric, failures, stats)"
    "?cp \<le> c" "c = ?cp \<or> c \<in> rec_Line ` set rs"
    "j' = ?j1\<lparr>rj_CheckpointLine := max c (me_Rows metric),
      rj_Manifest := replay_manifest f fmt symb stats metric ?cp failures,
      rj_Status := JobStatusCompleted, rj_CompletedAt := Some (io_now io)\<rparr>"
    "db (ws_repo ws2) = complete_job io i \<lparr>cp_Metric = metric, cp_Errors = validationErrors cx i failures\<rparr> j'
      ((db (ws_repo ws1))\<lparr>db_files := (db_files (db (ws_repo ws1)))(rj_EventFileID j \<mapsto>
        with_stats \<lparr>us_SHA256 = pf_SHA256 stats, us_Rows = pf_Rows stats, us_Bytes = pf_Bytes stats\<rparr> f)\<rparr>)"
    using run_job_success [OF assms(1-3) ws1(1) d1(1) j1 d1(2) inp(1-3) assms(12) [rule_format, OF inp(3)] assms(11)
        inp(4,5) assms(13) refl, unfolded cp] by (elim exE conjE) (rule that; assumption)
  have "max c (me_Rows metric) = max ?cp (me_Rows metric)"
    using run(6,7) input_rows_sorted(2) [of _ cx f 0] finish_file_stats(4) [OF run(5)] assms(14) by fastforce
  note j' = run(8) [unfolded this]
  have vr: "v_result ?v = replay_result (cx_started cx) symb ?cp rs"
    unfolding assms(14) by (simp add: replay_result_def loop_step_split [OF input_rows_sorted(1)])
  have act: "ws_active (addActiveWorker (- 1) ws2) = ws_active ws"
    using run(3,4) ws1(4,5) by (simp add: addActiveWorker_active)
  have db2: "db (ws_repo ws2) = complete_job io i \<lparr>cp_Metric = metric, cp_Errors = validationErrors cx i failures\<rparr> j'
      ((db (ws_repo ws))\<lparr>db_files := (db_files (db (ws_repo ws)))(rj_EventFileID j \<mapsto>
        with_stats \<lparr>us_SHA256 = pf_SHA256 stats, us_Rows = pf_Rows stats, us_Bytes = pf_Bytes stats\<rparr> f)\<rparr>)"
    unfolding run(9) ws1(3) by (simp add: complete_job_def put_job_def)
  have pt: "ProcessTask h rt cx task ws = (Inr (), addActiveWorker (- 1) ws2)"
    using ws1(6) run(1) by simp
  show ?thesis
    by (rule that [OF inp(2,3) pt _ act vr run(5) j']) (simp_all add: run(2) db2)
qed

text \<open>A run whose input cannot be read to its end: nothing but the checkpoint may have moved.\<close>

lemma run_job_failure:
  assumes "quiet rt" "rh_repo h = repo" "\<And>i. cx_err cx i = None" "inv (ws_repo ws)"
    and "db_jobs (db (ws_repo ws)) i = Some j" "same_job j job" "rj_Status j \<noteq> JobStatusCanceled"
    and "db_files (db (ws_repo ws)) (rj_EventFileID job) = Some f" "input_error cx f = Some cause"
  shows "\<exists>ws' c. run_job h rt cx job ws = (Inl cause, ws') \<and> same_rest ws' ws \<and> inv (ws_repo ws') \<and>
    db (ws_repo ws') = put_job i (j\<lparr>rj_CheckpointLine := c\<rparr>) (db (ws_repo ws)) \<and>
    rj_CheckpointLine j \<le> c \<and> (c = rj_CheckpointLine j \<or> c \<in> rec_Line ` set (input_rows cx f))"
proof -
  have jid: "rj_ID j = i" "rj_ID job = i"
    using wf_db_job(1) [OF wf [OF assms(4)] assms(5)] assms(6) by (simp_all add: same_job_def)
  let ?ws2 = "ws\<lparr>ws_calls := Suc (Suc (ws_calls ws))\<rparr>"
  have st2: "inv (ws_repo ?ws2)" "db_jobs (db (ws_repo ?ws2)) i = Some j" using assms(4,5) by simp_all
  have reads: "store_call rt (rp_GetReplayJob repo i) ws = (Inr j, ws\<lparr>ws_calls := Suc (ws_calls ws)\<rparr>)"
    "store_call rt (rp_GetEventFile repo (rj_EventFileID job)) (ws\<lparr>ws_calls := Suc (ws_calls ws)\<rparr>) = (Inr f, ?ws2)"
    using store_reads(1) [OF quiet_calm [OF assms(1)] assms(4,5)] store_reads(2) [OF quiet_calm [OF assms(1)], of "ws\<lparr>ws_calls := Suc (ws_calls ws)\<rparr>"]
      assms(4,8) by simp_all
  show ?thesis
  proof (cases "\<exists>fmt contents sz s. ResolveFormat (ef_Path f) (ef_Format f) = Inr fmt \<and>
      cx_fs cx (ef_Path f) = Some contents \<and> cx_stat cx (ef_Path f) = Some sz \<and> NewStream contents fmt = Inr s")
    case False
    then have "run_job h rt cx job ws = (Inl cause, ?ws2)"
      using assms(2,7,9) reads jid
      by (auto simp: run_job_def processFile_def input_error_def Let_def split: sum.splits option.splits)
    then show ?thesis
      by (intro exI [of _ ?ws2] exI [of _ "rj_CheckpointLine j"])
        (use assms(4) in \<open>simp add: same_rest_def put_job_same [OF assms(5)]\<close>)
  next
    case True
    then obtain fmt contents sz s where inp: "ResolveFormat (ef_Path f) (ef_Format f) = Inr fmt"
      "cx_fs cx (ef_Path f) = Some contents" "cx_stat cx (ef_Path f) = Some sz" "NewStream contents fmt = Inr s"
      by blast
    obtain e where e: "snd (drain s) = Some e" "cause = WorkerStream e" and rows: "fst (drain s) = input_rows cx f"
      using assms(9) inp by (auto simp: input_error_def input_rows_def)
    let ?v = "NewValidator (cx_started cx) \<lparr>op_Symbol = if rj_Symbol job = '''' then ef_Symbol f else rj_Symbol job\<rparr>"
    obtain ws' c where loop: "process_loop h rt cx j contents sz s ?v 0 (cx_alloc cx 0) 0 1 ?ws2 = (Inl cause, ws')"
      "same_rest ws' ?ws2" "inv (ws_repo ws')" "db (ws_repo ws') = put_job i (j\<lparr>rj_CheckpointLine := c\<rparr>) (db (ws_repo ?ws2))"
      "rj_CheckpointLine j \<le> c" "c = rj_CheckpointLine j \<or> c \<in> rec_Line ` set (input_rows cx f)"
      using process_loop_quiet [OF assms(1-3) jid(1) st2 assms(7), of contents sz s ?v 0 "cx_alloc cx 0" 0 1]
      unfolding e rows by auto
    have "run_job h rt cx job ws = (Inl cause, ws')"
      using assms(2,7) reads jid inp loop(1) by (simp add: run_job_def processFile_def Let_def)
    then show ?thesis
      using loop by (intro exI [of _ ws'] exI [of _ c]) (simp add: same_rest_def)
  qed
qed

end

lemma worker_completes:
  assumes "rh_repo h = memory_repository" "quiet rt" "\<And>k. cx_err cx k = None" "memory_inv (ws_repo ws)"
    and "tk_Type task = TypeReplayJob" "DecodeReplayPayload (tk_Payload task) = Inr \<lparr>pa_JobID = i\<rparr>"
    and "map_of (mr_jobs (ws_repo ws)) i = Some j"
    "rj_Status j \<notin> {JobStatusCanceled, JobStatusCompleted, JobStatusDLQ}"
    and "map_of (mr_eventFiles (ws_repo ws)) (rj_EventFileID j) = Some f" "input_error cx f = None"
    and "\<And>b. cx_sha256_hex cx b \<noteq> ''''" "\<forall>p n. cx_stat cx p = Some n \<longrightarrow> 0 \<le> n"
  shows "let rs = input_rows cx f; symb = (if rj_Symbol j = '''' then ef_Symbol f else rj_Symbol j);
      v = replay_result (cx_started cx) symb (rj_CheckpointLine j) rs; rows = max (vr_Rows v) (last_line 0 rs) in
    \<exists>ws' j' f' m es. ProcessTask h rt cx task ws = (Inr (), ws') \<and> ws_active ws' = ws_active ws \<and>
      map_of (mr_jobs (ws_repo ws')) i = Some j' \<and> same_job j' j \<and> rj_Status j' = JobStatusCompleted \<and>
      rj_CheckpointLine j' = max (rj_CheckpointLine j) rows \<and>
      mf_InputRows (rj_Manifest j') = rows \<and> mf_ResumeFromLine (rj_Manifest j') = rj_CheckpointLine j \<and>
      mf_ErrorCount (rj_Manifest j') = int (length (vr_Failures v)) \<and>
      mr_metrics (ws_repo ws') i = mr_metrics (ws_repo ws) i @ [m] \<and> me_Rows m = rows \<and>
      me_Events m = vr_Events v \<and> me_MalformedEvents m = vr_MalformedEvents v \<and> me_SequenceGaps m = vr_SequenceGaps v \<and>
      mr_errors (ws_repo ws') i = mr_errors (ws_repo ws) i @ es \<and>
      map (\<lambda>e. (ve_Line e, ve_Symbol e, ve_Type e, ve_Message e)) es =
        map (\<lambda>x. (vf_Line x, vf_Symbol x, vf_Type x, message_text cx (vf_Message x))) (vr_Failures v) \<and>
      map_of (mr_eventFiles (ws_repo ws')) (rj_EventFileID j) = Some f' \<and>
      f' = f\<lparr>ef_SHA256 := cx_sha256_hex cx (the (cx_fs cx (ef_Path f))), ef_Rows := rows,
        ef_Bytes := the (cx_stat cx (ef_Path f))\<rparr> \<and> ef_SHA256 f' = mf_InputFileSHA256 (rj_Manifest j') \<and>
      map_of (mr_datasets (ws_repo ws')) = map_of (mr_datasets (ws_repo ws)) \<and>
      mr_idempotencyMap (ws_repo ws') = mr_idempotencyMap (ws_repo ws) \<and>
      (\<forall>k. k \<noteq> rj_EventFileID j \<longrightarrow> map_of (mr_eventFiles (ws_repo ws')) k = map_of (mr_eventFiles (ws_repo ws)) k) \<and>
      (\<forall>i'. i' \<noteq> i \<longrightarrow> map_of (mr_jobs (ws_repo ws')) i' = map_of (mr_jobs (ws_repo ws)) i' \<and>
        mr_metrics (ws_repo ws') i' = mr_metrics (ws_repo ws) i' \<and>
        mr_errors (ws_repo ws') i' = mr_errors (ws_repo ws) i')"
proof -
  let ?rs = "input_rows cx f" and ?symb = "if rj_Symbol j = '''' then ef_Symbol f else rj_Symbol j"
  let ?cp = "rj_CheckpointLine j"
  have d: "db_jobs (memory_db (ws_repo ws)) i = Some j" "db_files (memory_db (ws_repo ws)) (rj_EventFileID j) = Some f"
    using assms(7,9) by simp_all
  obtain ws2 t v contents sz peak k metric failures stats fmt io j' where
    inp: "cx_fs cx (ef_Path f) = Some contents" "cx_stat cx (ef_Path f) = Some sz" and run:
    "ProcessTask h rt cx task ws = (Inr (), ws2)" "memory_inv (ws_repo ws2)" "ws_active ws2 = ws_active ws"
    "v_result v = replay_result (cx_started cx) ?symb ?cp ?rs"
    "finish_file cx contents sz v (last_line 0 ?rs) peak k = (metric, failures, stats)"
    "j' = (with_status t JobStatusRunning '''' j)\<lparr>rj_CheckpointLine := max ?cp (me_Rows metric),
      rj_Manifest := replay_manifest f fmt ?symb stats metric ?cp failures,
      rj_Status := JobStatusCompleted, rj_CompletedAt := Some (io_now io)\<rparr>"
    "memory_db (ws_repo ws2) = complete_job io i \<lparr>cp_Metric = metric, cp_Errors = validationErrors cx i failures\<rparr> j'
      ((memory_db (ws_repo ws))\<lparr>db_files := (db_files (memory_db (ws_repo ws)))(rj_EventFileID j \<mapsto>
        with_stats \<lparr>us_SHA256 = pf_SHA256 stats, us_Rows = pf_Rows stats, us_Bytes = pf_Bytes stats\<rparr> f)\<rparr>)"
    by (rule memory.ProcessTask_success [OF assms(2,1,3-6) d(1) assms(8) d(2) assms(10-12) refl refl])
  note st = finish_file_stats [OF run(5), unfolded run(4)]
  let ?f' = "with_stats \<lparr>us_SHA256 = pf_SHA256 stats, us_Rows = pf_Rows stats, us_Bytes = pf_Bytes stats\<rparr> f"
  have db2: "map_of (mr_jobs (ws_repo ws2)) i' = (if i' = i then Some j' else map_of (mr_jobs (ws_repo ws)) i')"
    "mr_metrics (ws_repo ws2) i' = mr_metrics (ws_repo ws) i' @ (if i' = i then [stamp_metric io i metric] else [])"
    "mr_errors (ws_repo ws2) i' = mr_errors (ws_repo ws) i' @
      (if i' = i then stamp_errors io 1 i (validationErrors cx i failures) else [])"
    "map_of (mr_eventFiles (ws_repo ws2)) k =
      (if k = rj_EventFileID j then Some ?f' else map_of (mr_eventFiles (ws_repo ws)) k)"
    "map_of (mr_datasets (ws_repo ws2)) = map_of (mr_datasets (ws_repo ws))"
    "mr_idempotencyMap (ws_repo ws2) = mr_idempotencyMap (ws_repo ws)" for i' k
    using run(7) st(9) by (simp_all add: memory_db_def complete_job_def put_job_def first_error_uuid_def)
  have es: "map (\<lambda>e. (ve_Line e, ve_Symbol e, ve_Type e, ve_Message e)) (stamp_errors io 1 i (validationErrors cx i failures)) =
      map (\<lambda>x. (vf_Line x, vf_Symbol x, vf_Type x, message_text cx (vf_Message x))) failures"
    by (simp add: stamp_errors_columns validationErrors_def)
  show ?thesis
    unfolding Let_def
    by (rule exI [of _ ws2], rule exI [of _ j'], rule exI [of _ ?f'], rule exI [of _ "stamp_metric io i metric"],
        rule exI [of _ "stamp_errors io 1 i (validationErrors cx i failures)"])
      (use run(1,3) db2 es st inp in \<open>simp add: run(6) same_job_def replay_manifest_def with_stats_def stamp_metric_def\<close>)
qed

text \<open>
  C19: a task for a job that has not ended, on a readable file and with no other client of the memory store
  at work, completes the job.
  The rows behind the job's checkpoint are validated after priming the others; the job ends
  completed with its checkpoint raised to the last line, a manifest of the input and of the
  counts, one metric more, and one stored error for each failure, in order; the file gets its digest, rows
  and size and keeps the rest; the other jobs with their metrics and errors, the other files, the datasets and
  the idempotency keys are untouched, and the worker count is restored.
\<close>

theorem worker_completes_job:
  assumes "rh_repo h = memory_repository" "quiet rt" "\<And>k. cx_err cx k = None" "memory_inv (ws_repo ws)"
    and "tk_Type task = TypeReplayJob" "DecodeReplayPayload (tk_Payload task) = Inr \<lparr>pa_JobID = i\<rparr>"
    and "map_of (mr_jobs (ws_repo ws)) i = Some j"
    "rj_Status j \<notin> {JobStatusCanceled, JobStatusCompleted, JobStatusDLQ}"
    and "map_of (mr_eventFiles (ws_repo ws)) (rj_EventFileID j) = Some f" "input_error cx f = None"
    and "\<And>b. cx_sha256_hex cx b \<noteq> ''''" "\<forall>p n. cx_stat cx p = Some n \<longrightarrow> 0 \<le> n"
  shows "let rs = input_rows cx f; symb = (if rj_Symbol j = '''' then ef_Symbol f else rj_Symbol j);
      v = replay_result (cx_started cx) symb (rj_CheckpointLine j) rs; rows = max (vr_Rows v) (last_line 0 rs) in
    \<exists>ws' j' f' m es. ProcessTask h rt cx task ws = (Inr (), ws') \<and> ws_active ws' = ws_active ws \<and>
      map_of (mr_jobs (ws_repo ws')) i = Some j' \<and> same_job j' j \<and> rj_Status j' = JobStatusCompleted \<and>
      rj_CheckpointLine j' = max (rj_CheckpointLine j) rows \<and>
      mf_InputRows (rj_Manifest j') = rows \<and> mf_ResumeFromLine (rj_Manifest j') = rj_CheckpointLine j \<and>
      mf_ErrorCount (rj_Manifest j') = int (length (vr_Failures v)) \<and>
      mr_metrics (ws_repo ws') i = mr_metrics (ws_repo ws) i @ [m] \<and> me_Rows m = rows \<and>
      me_Events m = vr_Events v \<and> me_MalformedEvents m = vr_MalformedEvents v \<and> me_SequenceGaps m = vr_SequenceGaps v \<and>
      mr_errors (ws_repo ws') i = mr_errors (ws_repo ws) i @ es \<and>
      map (\<lambda>e. (ve_Line e, ve_Symbol e, ve_Type e, ve_Message e)) es =
        map (\<lambda>x. (vf_Line x, vf_Symbol x, vf_Type x, message_text cx (vf_Message x))) (vr_Failures v) \<and>
      map_of (mr_eventFiles (ws_repo ws')) (rj_EventFileID j) = Some f' \<and>
      f' = f\<lparr>ef_SHA256 := cx_sha256_hex cx (the (cx_fs cx (ef_Path f))), ef_Rows := rows,
        ef_Bytes := the (cx_stat cx (ef_Path f))\<rparr> \<and> ef_SHA256 f' = mf_InputFileSHA256 (rj_Manifest j') \<and>
      map_of (mr_datasets (ws_repo ws')) = map_of (mr_datasets (ws_repo ws)) \<and>
      mr_idempotencyMap (ws_repo ws') = mr_idempotencyMap (ws_repo ws) \<and>
      (\<forall>k. k \<noteq> rj_EventFileID j \<longrightarrow> map_of (mr_eventFiles (ws_repo ws')) k = map_of (mr_eventFiles (ws_repo ws)) k) \<and>
      (\<forall>i'. i' \<noteq> i \<longrightarrow> map_of (mr_jobs (ws_repo ws')) i' = map_of (mr_jobs (ws_repo ws)) i' \<and>
        mr_metrics (ws_repo ws') i' = mr_metrics (ws_repo ws) i' \<and>
        mr_errors (ws_repo ws') i' = mr_errors (ws_repo ws) i')"
  by (rule worker_completes [OF assms])

text \<open>
  C20: a task whose input cannot be read to its end (unknown format, missing file, a CSV file without a
  readable header, a line over the scanner's limit) fails its job. The job keeps its identity and its
  checkpoint does not fall; it is put in the dead-letter state exactly when the retries are
  used up and is failed otherwise, with the printed cause; the task is retried unless they are used up. No
  metric and no validation error is stored, and the other jobs and the files are untouched.
\<close>

theorem worker_fails_job:
  assumes "rh_repo h = memory_repository" "quiet rt" "\<And>k. cx_err cx k = None" "memory_inv (ws_repo ws)"
    and "tk_Type task = TypeReplayJob" "DecodeReplayPayload (tk_Payload task) = Inr \<lparr>pa_JobID = i\<rparr>"
    and "map_of (mr_jobs (ws_repo ws)) i = Some j"
    "rj_Status j \<notin> {JobStatusCanceled, JobStatusCompleted, JobStatusDLQ}"
    and "map_of (mr_eventFiles (ws_repo ws)) (rj_EventFileID j) = Some f" "input_error cx f = Some cause"
    and "exhausted = (\<exists>a b. cx_retried cx = Some a \<and> cx_maxRetry cx = Some b \<and> b \<le> a)"
  shows "\<exists>ws' j'. ProcessTask h rt cx task ws = (Inl (if exhausted then SkipRetry cause else cause), ws') \<and>
      ws_active ws' = ws_active ws \<and>
      map_of (mr_jobs (ws_repo ws')) i = Some j' \<and> same_job j' j \<and>
      rj_Status j' = (if exhausted then JobStatusDLQ else JobStatusFailed) \<and> rj_LastError j' = cx_Error cx cause \<and>
      rj_Attempts j' = rj_Attempts j + 2 \<and> rj_CheckpointLine j \<le> rj_CheckpointLine j' \<and>
      mr_metrics (ws_repo ws') = mr_metrics (ws_repo ws) \<and> mr_errors (ws_repo ws') = mr_errors (ws_repo ws) \<and>
      map_of (mr_eventFiles (ws_repo ws')) = map_of (mr_eventFiles (ws_repo ws)) \<and>
      (\<forall>i'. i' \<noteq> i \<longrightarrow> map_of (mr_jobs (ws_repo ws')) i' = map_of (mr_jobs (ws_repo ws)) i')"
proof -
  have dj: "db_jobs (memory_db (ws_repo ws)) i = Some j" using assms(7) by simp
  obtain ws1 t where ws1: "memory_inv (ws_repo ws1)" "ws_calls ws1 = Suc (Suc (ws_calls ws))"
    "memory_db (ws_repo ws1) = put_job i (with_status t JobStatusRunning '''' j) (memory_db (ws_repo ws))"
    "ws_metrics ws = None \<longleftrightarrow> ws_metrics ws1 = None"
    "ws_active ws1 = (if ws_metrics ws = None then ws_active ws else ws_active ws + 1)"
    "ProcessTask h rt cx task ws =
      (case run_job h rt cx j ws1 of
         (Inr _, ws2) \<Rightarrow> (Inr (), addActiveWorker (- 1) ws2)
       | (Inl e, ws2) \<Rightarrow> (case failJob h rt cx i e ws2 of (res, ws3) \<Rightarrow> (res, addActiveWorker (- 1) ws3)))"
    by (rule memory.ProcessTask_runs [OF quiet_calm [OF assms(2)] quiet_calm [OF assms(2)] assms(1,4,5,6) dj assms(8)])
  let ?j1 = "with_status t JobStatusRunning '''' j"
  have d1: "db_jobs (memory_db (ws_repo ws1)) i = Some ?j1"
    "db_files (memory_db (ws_repo ws1)) (rj_EventFileID j) = Some f"
    unfolding ws1(3) using assms(9) by simp_all
  have j1: "same_job ?j1 j" "rj_Status ?j1 \<noteq> JobStatusCanceled" by (simp_all add: same_job_def)
  obtain ws2 c where run: "run_job h rt cx j ws1 = (Inl cause, ws2)" "same_rest ws2 ws1" "memory_inv (ws_repo ws2)"
    "memory_db (ws_repo ws2) = put_job i (?j1\<lparr>rj_CheckpointLine := c\<rparr>) (memory_db (ws_repo ws1))"
    "rj_CheckpointLine j \<le> c"
    using memory.run_job_failure [OF assms(2,1,3) ws1(1) d1(1) j1 d1(2) assms(10)] by auto
  have d2: "db_jobs (memory_db (ws_repo ws2)) i = Some (?j1\<lparr>rj_CheckpointLine := c\<rparr>)" unfolding run(4) by simp
  have nc: "\<not> is_canceled cx cause"
    using assms(10) by (auto simp: is_canceled_def input_error_def split: sum.splits option.splits)
  obtain ws3 t' where fl: "failJob h rt cx i cause ws2 = (Inl (if exhausted then SkipRetry cause else cause), ws3)"
    "memory_inv (ws_repo ws3)" "ws_active ws3 = ws_active ws2" "ws_metrics ws3 = None \<longleftrightarrow> ws_metrics ws2 = None"
    "memory_db (ws_repo ws3) = put_job i (with_status t' (if exhausted then JobStatusDLQ else JobStatusFailed)
      (cx_Error cx cause) (?j1\<lparr>rj_CheckpointLine := c\<rparr>)) (memory_db (ws_repo ws2))"
    using memory.failJob_calm [OF quiet_calm [OF assms(2)] assms(1) run(3) d2 assms(11), of cause thesis] nc by simp
  let ?j' = "with_status t' (if exhausted then JobStatusDLQ else JobStatusFailed) (cx_Error cx cause) (?j1\<lparr>rj_CheckpointLine := c\<rparr>)"
  have db3: "memory_db (ws_repo ws3) = put_job i ?j' (memory_db (ws_repo ws))"
    unfolding fl(5) run(4) ws1(3) by simp
  have parts: "map_of (mr_jobs (ws_repo ws3)) = (map_of (mr_jobs (ws_repo ws)))(i \<mapsto> ?j')"
    "mr_metrics (ws_repo ws3) = mr_metrics (ws_repo ws)" "mr_errors (ws_repo ws3) = mr_errors (ws_repo ws)"
    "map_of (mr_eventFiles (ws_repo ws3)) = map_of (mr_eventFiles (ws_repo ws))"
    using arg_cong [OF db3, of db_jobs] arg_cong [OF db3, of db_metrics] arg_cong [OF db3, of db_errors]
      arg_cong [OF db3, of db_files] by (simp_all add: memory_db_def put_job_def)
  have act: "ws_active (addActiveWorker (- 1) ws3) = ws_active ws"
    using fl(3,4) run(2) ws1(4,5) by (simp add: addActiveWorker_active same_rest_def)
  show ?thesis
    by (rule exI [of _ "addActiveWorker (- 1) ws3"], rule exI [of _ ?j'])
      (use ws1(6) run(1,5) fl(1) act parts in \<open>simp add: same_job_def\<close>)
qed


text \<open>A failure carries the line of a row.\<close>

lemma step_failures_line:
  assumes "record_ok r" "x \<in> set (step_failures opts tr r)"
  shows "vf_Line x = rec_Line r"
  using assms
  by (auto simp: step_failures_def failures_defs record_ok_def Let_def split: option.splits if_splits)

lemma run_failures_lines:
  "list_all record_ok rs \<Longrightarrow> x \<in> set (run_failures opts tr rs) \<Longrightarrow> vf_Line x \<in> rec_Line ` set rs"
  by (induction rs arbitrary: tr) (auto dest: step_failures_line)

lemma sorted_split:
  fixes c :: int
  shows "sorted (map f rs) \<Longrightarrow> filter (\<lambda>x. f x \<le> c) rs @ filter (\<lambda>x. c < f x) rs = rs"
proof (induction rs)
  case (Cons r rs)
  show ?case
  proof (cases "f r \<le> c")
    case False
    then have "filter (\<lambda>x. f x \<le> c) rs = []" "filter (\<lambda>x. c < f x) rs = rs"
      using Cons.prems by (fastforce simp: filter_empty_conv filter_id_conv)+
    then show ?thesis using False by simp
  qed (use Cons in simp)
qed simp

text \<open>The result of a run behind a checkpoint, against that of the full run over the same rows.\<close>

lemma replay_tail:
  assumes "\<forall>r \<in> set (input_rows cx f). rec_Err r = None \<longrightarrow> ev_Type (rec_Event r) = EventTypeDepth \<longrightarrow>
    0 < ev_FinalUpdateID (rec_Event r)"
  shows "let rs = input_rows cx f; full = v_result (foldl Process (NewValidator t \<lparr>op_Symbol = symb\<rparr>) rs);
      part = replay_result t symb cp rs in
    vr_Failures part = filter (\<lambda>x. cp < vf_Line x) (vr_Failures full) \<and>
    vr_Rows part = int (length (filter (\<lambda>r. cp < rec_Line r) rs)) \<and>
    vr_MalformedEvents part = int (length (filter (\<lambda>r. cp < rec_Line r \<and> rec_Err r \<noteq> None) rs))"
proof -
  let ?rs = "input_rows cx f" and ?o = "\<lparr>op_Symbol = symb\<rparr>"
  let ?pre = "filter (\<lambda>x. rec_Line x \<le> cp) ?rs" and ?post = "filter (\<lambda>x. cp < rec_Line x) ?rs"
  let ?v = "NewValidator t ?o"
  have ok: "list_all record_ok ?pre" "list_all record_ok ?post"
    using input_rows_sorted(3) [of cx f] by (auto simp: list_all_iff)
  have split: "?pre @ ?post = ?rs" by (rule sorted_split [OF input_rows_sorted(1)])
  have "list_all positive_record ?pre"
    using assms ok by (auto simp: list_all_iff intro!: parsed_positive)
  then have tr: "track_of (foldl Prime ?v ?pre) = foldl (track_step ?o) empty_track ?pre"
    by (simp add: foldl_Prime)
  let ?tail = "run_failures ?o (foldl (track_step ?o) empty_track ?pre) ?post"
  have full: "vr_Failures (v_result (foldl Process ?v ?rs)) = run_failures ?o empty_track ?pre @ ?tail"
    by (subst split [symmetric]) (simp add: foldl_Process_result run_failures_append del: foldl_append)
  have "filter (\<lambda>x. cp < vf_Line x) (run_failures ?o empty_track ?pre) = []"
    using run_failures_lines [OF ok(1)] by (fastforce simp: filter_empty_conv)
  moreover have "filter (\<lambda>x. cp < vf_Line x) ?tail = ?tail"
    using run_failures_lines [OF ok(2)] by (fastforce simp: filter_id_conv)
  moreover have "filter (\<lambda>r. rec_Err r \<noteq> None) ?post = filter (\<lambda>r. cp < rec_Line r \<and> rec_Err r \<noteq> None) ?rs"
    by (simp add: conj_commute)
  ultimately show ?thesis
    unfolding Let_def full replay_result_def
    by (simp add: foldl_Process_result foldl_Prime(1,2) tr of_type_malformed conj_commute)
qed

text \<open>
  C21: what a resumed run stores. Take a task for a job with a checkpoint, on a readable file whose depth
  rows have positive final update ids, with no other client at work. The task ends without an error; the
  validation errors it adds to the job are, in order, exactly those that a full validation of the file reports for
  rows behind the checkpoint, and its metric counts the malformed rows behind it: nothing from
  before the checkpoint is reported again, and nothing behind it is reported otherwise for not having been run
  from the start.
\<close>

theorem resumed_run_reports_tail:
  assumes "rh_repo h = memory_repository" "quiet rt" "\<And>k. cx_err cx k = None" "memory_inv (ws_repo ws)"
    and "tk_Type task = TypeReplayJob" "DecodeReplayPayload (tk_Payload task) = Inr \<lparr>pa_JobID = i\<rparr>"
    and "map_of (mr_jobs (ws_repo ws)) i = Some j"
    "rj_Status j \<notin> {JobStatusCanceled, JobStatusCompleted, JobStatusDLQ}"
    and "map_of (mr_eventFiles (ws_repo ws)) (rj_EventFileID j) = Some f" "input_error cx f = None"
    and "\<And>b. cx_sha256_hex cx b \<noteq> ''''" "\<forall>p n. cx_stat cx p = Some n \<longrightarrow> 0 \<le> n"
    and "\<forall>r \<in> set (input_rows cx f). rec_Err r = None \<longrightarrow> ev_Type (rec_Event r) = EventTypeDepth \<longrightarrow>
      0 < ev_FinalUpdateID (rec_Event r)"
  shows "let rs = input_rows cx f; symb = (if rj_Symbol j = '''' then ef_Symbol f else rj_Symbol j);
      full = v_result (foldl Process (NewValidator (cx_started cx) \<lparr>op_Symbol = symb\<rparr>) rs) in
    \<exists>ws' m es. ProcessTask h rt cx task ws = (Inr (), ws') \<and>
      mr_errors (ws_repo ws') i = mr_errors (ws_repo ws) i @ es \<and>
      map (\<lambda>e. (ve_Line e, ve_Symbol e, ve_Type e, ve_Message e)) es =
        map (\<lambda>x. (vf_Line x, vf_Symbol x, vf_Type x, message_text cx (vf_Message x)))
          (filter (\<lambda>x. rj_CheckpointLine j < vf_Line x) (vr_Failures full)) \<and>
      mr_metrics (ws_repo ws') i = mr_metrics (ws_repo ws) i @ [m] \<and>
      me_MalformedEvents m = int (length (filter (\<lambda>r. rj_CheckpointLine j < rec_Line r \<and> rec_Err r \<noteq> None) rs))"
proof -
  let ?symb = "if rj_Symbol j = '''' then ef_Symbol f else rj_Symbol j"
  note tail = replay_tail [OF assms(13), of "cx_started cx" ?symb "rj_CheckpointLine j", unfolded Let_def]
  show ?thesis
    using worker_completes [OF assms(1-12)] unfolding Let_def tail [THEN conjunct1] tail [THEN conjunct2, THEN conjunct2]
    by blast
qed

text \<open>
  Tasks that change nothing. A task of another type, one whose payload does not decode and one for
  an unknown job are given up for good; a task for a job that is canceled, completed or dead is
  acknowledged. None of them changes the store.
\<close>

theorem worker_skips_task:
  assumes "rh_repo h = memory_repository" "quiet rt" "memory_inv (ws_repo ws)"
    and "tk_Type task \<noteq> TypeReplayJob \<or> (\<exists>e. DecodeReplayPayload (tk_Payload task) = Inl e) \<or>
      (\<exists>p. DecodeReplayPayload (tk_Payload task) = Inr p \<and>
        (map_of (mr_jobs (ws_repo ws)) (pa_JobID p) = None \<or>
         (\<exists>j. map_of (mr_jobs (ws_repo ws)) (pa_JobID p) = Some j \<and>
           rj_Status j \<in> {JobStatusCanceled, JobStatusCompleted, JobStatusDLQ})))"
  shows "\<exists>res ws'. ProcessTask h rt cx task ws = (res, ws') \<and> ws_repo ws' = ws_repo ws \<and>
    ws_metrics ws' = ws_metrics ws \<and> (res = Inr () \<or> (\<exists>e. res = Inl (SkipRetry e)))"
proof (cases "tk_Type task = TypeReplayJob")
  case True
  note sk = memory.ProcessTask_skips [OF assms(2,1,3)]
  consider e where "DecodeReplayPayload (tk_Payload task) = Inl e"
    | p where "DecodeReplayPayload (tk_Payload task) = Inr p" "db_jobs (memory_db (ws_repo ws)) (pa_JobID p) = None"
    | p j where "DecodeReplayPayload (tk_Payload task) = Inr p" "db_jobs (memory_db (ws_repo ws)) (pa_JobID p) = Some j"
      "rj_Status j \<in> {JobStatusCanceled, JobStatusCompleted, JobStatusDLQ}"
    using assms(4) True by fastforce
  then show ?thesis
    by cases (simp_all add: sk(2) [OF True] sk(3) [OF True] sk(4) [OF True])
qed (simp add: memory.ProcessTask_skips(1) [OF assms(2,1,3)])


subsection \<open>server.go: retries\<close>

record ServerConfig =
  sc_Queue :: string
  sc_Concurrency :: int
  sc_MaxRetry :: int
  sc_Timeout :: duration
  sc_RetryBackoff :: duration
  sc_DeadLetterName :: string

definition server_queueName :: "ServerConfig \<Rightarrow> string" where
  "server_queueName cfg = (if sc_Queue cfg = '''' then DefaultQueue else sc_Queue cfg)"

definition server_backoff :: "ServerConfig \<Rightarrow> duration" where
  "server_backoff cfg = (if sc_RetryBackoff cfg = 0 then 15 * 1000000000 else sc_RetryBackoff cfg)"

text \<open>\<^verbatim>\<open>1 << k\<close> is computed at the type of the product, a 64-bit signed integer.\<close>

definition RetryDelayFunc :: "ServerConfig \<Rightarrow> int \<Rightarrow> duration" where
  "RetryDelayFunc cfg n =
     (let delay = wrap64 (server_backoff cfg * wrap64 (2 ^ nat (max 0 (n - 1))))
      in if delay > 5 * 60 * 1000000000 then 5 * 60 * 1000000000 else delay)"

definition is_SkipRetry :: "worker_error \<Rightarrow> bool" where
  "is_SkipRetry e = (case e of SkipRetry _ \<Rightarrow> True | _ \<Rightarrow> False)"

definition ErrorHandler :: "ServerConfig \<Rightarrow> Context \<Rightarrow> Task \<Rightarrow> worker_error \<Rightarrow> 'r WorkerState \<Rightarrow> 'r WorkerState" where
  "ErrorHandler cfg cx task err ws =
     (let retried = (case cx_retried cx of None \<Rightarrow> 0 | Some n \<Rightarrow> n);
          maxRetry = (case cx_maxRetry cx of None \<Rightarrow> 0 | Some n \<Rightarrow> n)
      in if retried < maxRetry \<and> \<not> is_SkipRetry err
         then record_metric (RecordWorkerRetry (server_queueName cfg) (tk_Type task)) ws else ws)"

text \<open>
  C22: the delay before the n-th retry. As long as the doubled back-off fits 64 bits, it is the
  back-off doubled for each earlier retry and cut off at five minutes, at least the back-off (or the
  cut-off) and never falling. It is at most five minutes for every n; but the product wraps
  around: with the default back-off the delay before retry 31 is negative.
\<close>

theorem retry_delay:
  assumes "0 < server_backoff cfg" "1 \<le> n" "server_backoff cfg * 2 ^ nat (n - 1) < 2 ^ 63" "1 \<le> m" "m \<le> n"
  shows "RetryDelayFunc cfg n = min (server_backoff cfg * 2 ^ nat (n - 1)) (5 * 60 * 1000000000) \<and>
    min (server_backoff cfg) (5 * 60 * 1000000000) \<le> RetryDelayFunc cfg m \<and>
    RetryDelayFunc cfg m \<le> RetryDelayFunc cfg n \<and>
    (\<forall>n'. RetryDelayFunc cfg n' \<le> 5 * 60 * 1000000000) \<and>
    (sc_RetryBackoff cfg = 0 \<longrightarrow> RetryDelayFunc cfg 31 < 0)"
proof -
  let ?b = "server_backoff cfg"
  have mono: "(2::int) ^ nat (k - 1) \<le> 2 ^ nat (n - 1)" if "k \<le> n" for k
    using that by (intro power_increasing) simp_all
  have fits: "?b * 2 ^ nat (k - 1) < 2 ^ 63" if "k \<le> n" for k
    using mult_left_mono [OF mono [OF that], of ?b] assms(1,3) by linarith
  have one: "(1::int) \<le> 2 ^ nat (k - 1)" for k by simp
  have below: "?b \<le> ?b * 2 ^ nat (k - 1)" and pow: "2 ^ nat (k - 1) \<le> ?b * 2 ^ nat (k - 1)" for k
    using mult_left_mono [OF one [of k], of ?b] mult_right_mono [of 1 ?b "2 ^ nat (k - 1)"] assms(1) by simp_all
  have delay: "RetryDelayFunc cfg k = min (?b * 2 ^ nat (k - 1)) (5 * 60 * 1000000000)" if "1 \<le> k" "k \<le> n" for k
  proof -
    have lt: "?b * 2 ^ nat (k - 1) < 2 ^ 63" by (rule fits [OF that(2)])
    have "(2::int) ^ nat (k - 1) < 2 ^ 63" using pow [of k] lt by linarith
    then have "int64 (2 ^ nat (k - 1))" "int64 (?b * 2 ^ nat (k - 1))"
      using one [of k] below [of k] lt assms(1) unfolding int64_def by linarith+
    moreover have "max 0 (k - 1) = k - 1" using that(1) by simp
    ultimately show ?thesis by (simp add: RetryDelayFunc_def Let_def min_def)
  qed
  have "?b * 2 ^ nat (m - 1) \<le> ?b * 2 ^ nat (n - 1)"
    using mono [OF assms(5)] assms(1) by simp
  moreover have "sc_RetryBackoff cfg = 0 \<longrightarrow> RetryDelayFunc cfg 31 < 0"
    by (simp add: RetryDelayFunc_def server_backoff_def wrap64_def Let_def)
  moreover have "RetryDelayFunc cfg n' \<le> 5 * 60 * 1000000000" for n'
    by (simp add: RetryDelayFunc_def Let_def)
  ultimately show ?thesis
    using delay [OF assms(2) order_refl] delay [OF assms(4,5)] below [of m]
    by (simp add: min.coboundedI1)
qed


subsection \<open>A job that is canceled while it runs\<close>

text \<open>
  The only other client cancels the job \<open>i\<close> before the \<open>n\<close>-th call of the handler. The rows at which the handler
  stores a checkpoint and looks for a cancellation:
\<close>

definition cancels :: "nat \<Rightarrow> string \<Rightarrow> Io \<Rightarrow> MemoryRepository Runtime \<Rightarrow> bool" where
  "cancels n i io rt \<longleftrightarrow> (\<forall>k r. rt_env rt k r = (if k = n then snd (CancelReplayJob i io r) else r))"

definition checkpoint_rows :: "'r ReplayHandler \<Rightarrow> int \<Rightarrow> Record list \<Rightarrow> Record list" where
  "checkpoint_rows h cp rs = filter (\<lambda>r. cp < rec_Line r \<and> rec_Line r mod hc_CheckpointEvery (rh_cfg h) = 0) rs"

lemma cancels_calm: "cancels n i io rt \<Longrightarrow> k \<noteq> n \<Longrightarrow> calm rt k"
  by (simp add: cancels_def calm_def)

text \<open>A call of the handler, with what the other client did before it made visible.\<close>

lemma store_call_env:
  "store_call rt m ws = store_call (rt\<lparr>rt_env := \<lambda>_ r. r\<rparr>) m (ws\<lparr>ws_repo := rt_env rt (ws_calls ws) (ws_repo ws)\<rparr>)"
  by (simp add: store_call_def call_def)

lemma calm_no_env [simp]: "calm (rt\<lparr>rt_env := \<lambda>_ r. r\<rparr>) n"
  by (simp add: calm_def)

lemma cancel_db:
  assumes "memory_inv r" "db_jobs (memory_db r) i = Some j"
  shows "memory_inv (snd (CancelReplayJob i io r))"
    "memory_db (snd (CancelReplayJob i io r)) = put_job i (with_status (io_now io) JobStatusCanceled '''' j) (memory_db r)"
  using memory.UpdateReplayJobStatus [OF assms, of JobStatusCanceled "''''" io]
  by (auto simp: CancelReplayJob_def memory_repository_def)

lemma with_status_checkpoint:
  "with_status t st e (j\<lparr>rj_CheckpointLine := c\<rparr>) = (with_status t st e j)\<lparr>rj_CheckpointLine := c\<rparr>"
  by (simp add: with_status_def Let_def)

text \<open>
  What the other client did before a call is either nothing or, before the call numbered \<open>n\<close>, the
  cancellation.
\<close>

abbreviation "canceled_at io \<equiv> with_status (io_now io) JobStatusCanceled ''''"

lemma cancels_env:
  assumes "cancels n i io rt" "memory_inv r" "db_jobs (memory_db r) i = Some j"
  shows "memory_inv (rt_env rt k r)"
    "memory_db (rt_env rt k r) = put_job i (if k = n then canceled_at io j else j) (memory_db r)"
  using assms(2) cancel_db [OF assms(2,3), of io] put_job_same [OF assms(3)] assms(1)
  by (simp_all add: cancels_def)

text \<open>A checkpoint: the two calls, and what the second one sees.\<close>

lemma checkpoint_calls:
  assumes "cancels n i io rt" "memory_inv (ws_repo ws)" "db_jobs (memory_db (ws_repo ws)) i = Some j" "ws_calls ws \<le> n"
  obtains ws2 j2 where
    "try_call (store_call rt (rp_UpdateReplayCheckpoint memory_repository i line))
       (\<lambda>_. store_call rt (rp_GetReplayJob memory_repository i)) ws = (Inr j2, ws2)"
    "same_rest ws2 ws" "ws_calls ws2 = Suc (Suc (ws_calls ws))" "memory_inv (ws_repo ws2)"
    "j2 = (if n \<le> Suc (ws_calls ws) then canceled_at io j else j)\<lparr>rj_CheckpointLine := max (rj_CheckpointLine j) line\<rparr>"
    "memory_db (ws_repo ws2) = put_job i j2 (memory_db (ws_repo ws))"
proof -
  let ?q = "rt\<lparr>rt_env := \<lambda>_ r. r\<rparr>" and ?c = "ws_calls ws"
  let ?j1 = "(if ?c = n then canceled_at io j else j)\<lparr>rj_CheckpointLine := max (rj_CheckpointLine j) line\<rparr>"
  let ?wa = "ws\<lparr>ws_repo := rt_env rt ?c (ws_repo ws)\<rparr>"
  note env = cancels_env [OF assms(1-3), of ?c]
  have ja: "db_jobs (memory_db (ws_repo ?wa)) i = Some (if ?c = n then canceled_at io j else j)"
    using env(2) by simp
  obtain ws1 where ws1: "store_call rt (rp_UpdateReplayCheckpoint memory_repository i line) ws = (Inr (), ws1)"
    "same_rest ws1 ?wa" "memory_inv (ws_repo ws1)" "memory_db (ws_repo ws1) = put_job i ?j1 (memory_db (ws_repo ?wa))"
    using memory.store_writes(1) [OF calm_no_env _ ja, of rt line] env(1)
    unfolding store_call_env [of rt _ ws, symmetric] by (auto split: if_splits)
  have c1: "ws_calls ws1 = Suc ?c" by (rule store_call_count [OF ws1(1)])
  have j1: "db_jobs (memory_db (ws_repo ws1)) i = Some ?j1" using ws1(4) by simp
  let ?j2 = "if Suc ?c = n then canceled_at io ?j1 else ?j1"
  let ?wb = "ws1\<lparr>ws_repo := rt_env rt (Suc ?c) (ws_repo ws1)\<rparr>"
  note env1 = cancels_env [OF assms(1) ws1(3) j1, of "Suc ?c"]
  have jb: "db_jobs (memory_db (ws_repo ?wb)) i = Some ?j2" using env1(2) by simp
  have ws2: "store_call rt (rp_GetReplayJob memory_repository i) ws1 = (Inr ?j2, ?wb\<lparr>ws_calls := Suc (Suc ?c)\<rparr>)"
    using memory.store_reads(1) [OF calm_no_env _ jb, of rt] env1(1) c1
    by (simp add: store_call_env [of rt _ ws1])
  have j2: "?j2 = (if n \<le> Suc ?c then canceled_at io j else j)\<lparr>rj_CheckpointLine := max (rj_CheckpointLine j) line\<rparr>"
    using assms(4) by (auto simp: with_status_checkpoint)
  show ?thesis
  proof (rule that)
    show "try_call (store_call rt (rp_UpdateReplayCheckpoint memory_repository i line))
       (\<lambda>_. store_call rt (rp_GetReplayJob memory_repository i)) ws = (Inr ?j2, ?wb\<lparr>ws_calls := Suc (Suc ?c)\<rparr>)"
      using ws1(1) ws2 by simp
    show "memory_db (ws_repo (?wb\<lparr>ws_calls := Suc (Suc ?c)\<rparr>)) = put_job i ?j2 (memory_db (ws_repo ws))"
      using env1(2) ws1(4) env(2) by simp
  qed (use ws1(2) env1(1) j2 in \<open>simp_all add: same_rest_def\<close>)
qed

text \<open>The loop meets the cancellation at the first checkpoint behind it.\<close>

lemma process_loop_canceled:
  assumes "cancels n jid io rt" "rh_repo h = memory_repository" "\<And>i. cx_err cx i = None" "rj_ID job = jid"
  shows "memory_inv (ws_repo ws) \<Longrightarrow> db_jobs (memory_db (ws_repo ws)) jid = Some j \<Longrightarrow> rj_Status j \<noteq> JobStatusCanceled \<Longrightarrow>
    ws_calls ws \<le> n \<Longrightarrow> n < ws_calls ws + 2 * length (checkpoint_rows h (rj_CheckpointLine job) (fst (drain s))) \<Longrightarrow>
    \<exists>ws' c. process_loop h rt cx job contents sz s v l peak i k ws = (Inl (WorkerContext Canceled), ws') \<and>
      same_rest ws' ws \<and> n < ws_calls ws' \<and> memory_inv (ws_repo ws') \<and>
      memory_db (ws_repo ws') = put_job jid ((canceled_at io j)\<lparr>rj_CheckpointLine := c\<rparr>) (memory_db (ws_repo ws)) \<and>
      rj_CheckpointLine j \<le> c"
proof (induction s arbitrary: v l peak i k ws j rule: drain.induct)
  case (1 s)
  let ?cp = "rj_CheckpointLine job"
  show ?case
  proof (cases s rule: drain_cases)
    case (more r s')
    show ?thesis
    proof (cases "?cp < rec_Line r \<and> rec_Line r mod hc_CheckpointEvery (rh_cfg h) = 0")
      case False
      then have "checkpoint_rows h ?cp (fst (drain s)) = checkpoint_rows h ?cp (fst (drain s'))"
        using more(2) by (auto simp: checkpoint_rows_def)
      moreover have "\<exists>v'. process_loop h rt cx job contents sz s v l peak i k ws =
          process_loop h rt cx job contents sz s' v' (rec_Line r) peak (Suc i) k ws"
        using False more(1) assms(3) by (auto simp: process_loop.simps [of h rt cx job contents sz s] Let_def)
      ultimately show ?thesis using "1.IH" [OF more(1)] "1.prems" by metis
    next
      case True
      obtain ws2 j2 where ck: "try_call (store_call rt (rp_UpdateReplayCheckpoint memory_repository jid (rec_Line r)))
          (\<lambda>_. store_call rt (rp_GetReplayJob memory_repository jid)) ws = (Inr j2, ws2)"
        "same_rest ws2 ws" "ws_calls ws2 = Suc (Suc (ws_calls ws))" "memory_inv (ws_repo ws2)"
        "j2 = (if n \<le> Suc (ws_calls ws) then canceled_at io j else j)\<lparr>rj_CheckpointLine := max (rj_CheckpointLine j) (rec_Line r)\<rparr>"
        "memory_db (ws_repo ws2) = put_job jid j2 (memory_db (ws_repo ws))"
        by (rule checkpoint_calls [OF assms(1) "1.prems"(1,2,4)])
      have loop: "\<exists>v' peak'. process_loop h rt cx job contents sz s v l peak i k ws =
          (if rj_Status j2 = JobStatusCanceled then (Inl (WorkerContext Canceled), ws2)
           else process_loop h rt cx job contents sz s' v' (rec_Line r) peak' (Suc i) (Suc k) ws2)"
        using True more(1) assms(2-4) ck(1)
        by (auto simp: process_loop.simps [of h rt cx job contents sz s] try_call_def Let_def split: prod.splits sum.splits)
      show ?thesis
      proof (cases "n \<le> Suc (ws_calls ws)")
        case True
        then have "process_loop h rt cx job contents sz s v l peak i k ws = (Inl (WorkerContext Canceled), ws2)"
          using loop ck(5) by auto
        then show ?thesis
          using True ck by (intro exI [of _ ws2] exI [of _ "max (rj_CheckpointLine j) (rec_Line r)"]) simp
      next
        case later: False
        have "checkpoint_rows h ?cp (fst (drain s)) = r # checkpoint_rows h ?cp (fst (drain s'))"
          using more(2) True by (simp add: checkpoint_rows_def)
        then have pre: "ws_calls ws2 \<le> n" "n < ws_calls ws2 + 2 * length (checkpoint_rows h ?cp (fst (drain s')))"
          using later "1.prems"(5) ck(3) by simp_all
        have j2: "j2 = j\<lparr>rj_CheckpointLine := max (rj_CheckpointLine j) (rec_Line r)\<rparr>" using later ck(5) by simp
        obtain v' peak' where eq: "process_loop h rt cx job contents sz s v l peak i k ws =
            process_loop h rt cx job contents sz s' v' (rec_Line r) peak' (Suc i) (Suc k) ws2"
          using loop j2 "1.prems"(3) by auto
        have d2: "db_jobs (memory_db (ws_repo ws2)) jid = Some j2" "rj_Status j2 \<noteq> JobStatusCanceled"
          using ck(6) j2 "1.prems"(3) by simp_all
        obtain ws' c where "process_loop h rt cx job contents sz s' v' (rec_Line r) peak' (Suc i) (Suc k) ws2 =
            (Inl (WorkerContext Canceled), ws')" "same_rest ws' ws2" "n < ws_calls ws'" "memory_inv (ws_repo ws')"
          "memory_db (ws_repo ws') = put_job jid ((canceled_at io j2)\<lparr>rj_CheckpointLine := c\<rparr>) (memory_db (ws_repo ws2))"
          "rj_CheckpointLine j2 \<le> c"
          using "1.IH" [OF more(1) ck(4) d2 pre, of v' "rec_Line r" peak' "Suc i" "Suc k"] by blast
        then show ?thesis
          using eq ck(2,6) same_rest_trans by (intro exI [of _ ws'] exI [of _ c]) (auto simp: j2 with_status_checkpoint)
      qed
    qed
  qed (use "1.prems" in \<open>simp_all add: checkpoint_rows_def\<close>)
qed

lemma run_job_canceled:
  assumes "cancels n i io rt" "rh_repo h = memory_repository" "\<And>k. cx_err cx k = None" "memory_inv (ws_repo ws)"
    and "db_jobs (memory_db (ws_repo ws)) i = Some j" "same_job j job" "rj_Status j \<noteq> JobStatusCanceled"
    and "db_files (memory_db (ws_repo ws)) (rj_EventFileID job) = Some f" "cx_stat cx (ef_Path f) \<noteq> None"
    and "ws_calls ws + 2 \<le> n" "n < ws_calls ws + 2 + 2 * length (checkpoint_rows h (rj_CheckpointLine j) (input_rows cx f))"
  shows "\<exists>ws' c. run_job h rt cx job ws = (Inl (WorkerContext Canceled), ws') \<and>
      same_rest ws' ws \<and> n < ws_calls ws' \<and> memory_inv (ws_repo ws') \<and>
      memory_db (ws_repo ws') = put_job i ((canceled_at io j)\<lparr>rj_CheckpointLine := c\<rparr>) (memory_db (ws_repo ws)) \<and>
      rj_CheckpointLine j \<le> c"
proof -
  have jid: "rj_ID j = i" "rj_ID job = i"
    using wf_db_job(1) [OF memory.wf [OF assms(4)] assms(5)] assms(6) by (simp_all add: same_job_def)
  let ?ws1 = "ws\<lparr>ws_calls := Suc (ws_calls ws)\<rparr>" and ?ws2 = "ws\<lparr>ws_calls := Suc (Suc (ws_calls ws))\<rparr>"
  have calm: "calm rt (ws_calls ws)" "calm rt (ws_calls ?ws1)"
    using assms(10) cancels_calm [OF assms(1)] by simp_all
  have reads: "store_call rt (rp_GetReplayJob memory_repository i) ws = (Inr j, ?ws1)"
    "store_call rt (rp_GetEventFile memory_repository (rj_EventFileID job)) ?ws1 = (Inr f, ?ws2)"
    using memory.store_reads(1) [OF calm(1) assms(4,5)] memory.store_reads(2) [OF calm(2)] assms(4,8) by simp_all
  have "input_rows cx f \<noteq> []" using assms(10,11) by (auto simp: checkpoint_rows_def)
  then obtain fmt contents s where inp: "ResolveFormat (ef_Path f) (ef_Format f) = Inr fmt"
    "cx_fs cx (ef_Path f) = Some contents" "NewStream contents fmt = Inr s" "input_rows cx f = fst (drain s)"
    by (auto simp: input_rows_def split: sum.splits option.splits)
  obtain sz where sz: "cx_stat cx (ef_Path f) = Some sz" using assms(9) by blast
  let ?v = "NewValidator (cx_started cx) \<lparr>op_Symbol = if rj_Symbol job = '''' then ef_Symbol f else rj_Symbol job\<rparr>"
  obtain ws' c where loop: "process_loop h rt cx j contents sz s ?v 0 (cx_alloc cx 0) 0 1 ?ws2 = (Inl (WorkerContext Canceled), ws')"
    "same_rest ws' ?ws2" "n < ws_calls ws'" "memory_inv (ws_repo ws')"
    "memory_db (ws_repo ws') = put_job i ((canceled_at io j)\<lparr>rj_CheckpointLine := c\<rparr>) (memory_db (ws_repo ?ws2))"
    "rj_CheckpointLine j \<le> c"
    using process_loop_canceled [OF assms(1-3) jid(1), of ?ws2 j s contents sz ?v 0 "cx_alloc cx 0" 0 1]
      assms(4,5,7,10,11) inp(4) by auto
  have "run_job h rt cx job ws = (Inl (WorkerContext Canceled), ws')"
    using assms(2,7) reads jid inp(1-3) sz loop(1) by (simp add: run_job_def processFile_def Let_def)
  then show ?thesis using loop by (intro exI [of _ ws'] exI [of _ c]) (simp add: same_rest_def)
qed

text \<open>
  C23: a job that another client cancels while it runs does not end canceled. Take a task on the memory store, and
  one cancellation of its job after the handler has read the job and the file and before its calls at the last
  checkpoint row. The handler meets it at the next checkpoint and gives the task up for good, but records the
  job as failed, or as dead-lettered when its retries are used up, with the text of the context's error:
  the state \<^verbatim>\<open>canceled\<close> is overwritten and only the time of the cancellation remains. No metric and no
  validation error is stored, and files and other jobs are untouched.
\<close>

theorem canceled_job_ends_failed:
  assumes "rh_repo h = memory_repository" "cancels n i io rt" "\<And>k. cx_err cx k = None" "memory_inv (ws_repo ws)"
    and "tk_Type task = TypeReplayJob" "DecodeReplayPayload (tk_Payload task) = Inr \<lparr>pa_JobID = i\<rparr>"
    and "map_of (mr_jobs (ws_repo ws)) i = Some j"
    "rj_Status j \<notin> {JobStatusCanceled, JobStatusCompleted, JobStatusDLQ}"
    and "map_of (mr_eventFiles (ws_repo ws)) (rj_EventFileID j) = Some f" "cx_stat cx (ef_Path f) \<noteq> None"
    and "ws_calls ws + 4 \<le> n" "n < ws_calls ws + 4 + 2 * length (checkpoint_rows h (rj_CheckpointLine j) (input_rows cx f))"
    and "exhausted = (\<exists>a b. cx_retried cx = Some a \<and> cx_maxRetry cx = Some b \<and> b \<le> a)"
  shows "\<exists>ws' j'. ProcessTask h rt cx task ws = (Inl (SkipRetry (WorkerContext Canceled)), ws') \<and>
      ws_active ws' = ws_active ws \<and> map_of (mr_jobs (ws_repo ws')) i = Some j' \<and> same_job j' j \<and>
      rj_Status j' = (if exhausted then JobStatusDLQ else JobStatusFailed) \<and>
      rj_LastError j' = cx_Error cx (WorkerContext Canceled) \<and> rj_CanceledAt j' = Some (io_now io) \<and>
      rj_CheckpointLine j \<le> rj_CheckpointLine j' \<and>
      mr_metrics (ws_repo ws') = mr_metrics (ws_repo ws) \<and> mr_errors (ws_repo ws') = mr_errors (ws_repo ws) \<and>
      map_of (mr_eventFiles (ws_repo ws')) = map_of (mr_eventFiles (ws_repo ws)) \<and>
      (\<forall>i'. i' \<noteq> i \<longrightarrow> map_of (mr_jobs (ws_repo ws')) i' = map_of (mr_jobs (ws_repo ws)) i')"
proof -
  have dj: "db_jobs (memory_db (ws_repo ws)) i = Some j" using assms(7) by simp
  have calm: "calm rt (ws_calls ws)" "calm rt (Suc (ws_calls ws))"
    using assms(11) cancels_calm [OF assms(2)] by simp_all
  obtain ws1 t where ws1: "memory_inv (ws_repo ws1)" "ws_calls ws1 = Suc (Suc (ws_calls ws))"
    "memory_db (ws_repo ws1) = put_job i (with_status t JobStatusRunning '''' j) (memory_db (ws_repo ws))"
    "ws_metrics ws = None \<longleftrightarrow> ws_metrics ws1 = None"
    "ws_active ws1 = (if ws_metrics ws = None then ws_active ws else ws_active ws + 1)"
    "ProcessTask h rt cx task ws =
      (case run_job h rt cx j ws1 of
         (Inr _, ws2) \<Rightarrow> (Inr (), addActiveWorker (- 1) ws2)
       | (Inl e, ws2) \<Rightarrow> (case failJob h rt cx i e ws2 of (res, ws3) \<Rightarrow> (res, addActiveWorker (- 1) ws3)))"
    by (rule memory.ProcessTask_runs [OF calm assms(1,4,5,6) dj assms(8)])
  let ?j1 = "with_status t JobStatusRunning '''' j" and ?e = "WorkerContext Canceled"
  have d1: "db_jobs (memory_db (ws_repo ws1)) i = Some ?j1"
    "db_files (memory_db (ws_repo ws1)) (rj_EventFileID j) = Some f"
    unfolding ws1(3) using assms(9) by simp_all
  have j1: "same_job ?j1 j" "rj_Status ?j1 \<noteq> JobStatusCanceled" by (simp_all add: same_job_def)
  obtain ws2 c where run: "run_job h rt cx j ws1 = (Inl ?e, ws2)" "same_rest ws2 ws1" "n < ws_calls ws2" "memory_inv (ws_repo ws2)"
    "memory_db (ws_repo ws2) = put_job i ((canceled_at io ?j1)\<lparr>rj_CheckpointLine := c\<rparr>) (memory_db (ws_repo ws1))"
    "rj_CheckpointLine j \<le> c"
    using run_job_canceled [OF assms(2,1,3) ws1(1) d1(1) j1 d1(2) assms(10)] assms(11,12) ws1(2) by auto
  let ?j2 = "(canceled_at io ?j1)\<lparr>rj_CheckpointLine := c\<rparr>" and ?st = "if exhausted then JobStatusDLQ else JobStatusFailed"
  have d2: "db_jobs (memory_db (ws_repo ws2)) i = Some ?j2" unfolding run(5) by simp
  have c2: "calm rt (ws_calls ws2)" using run(3) cancels_calm [OF assms(2)] by simp
  obtain ws3 t' where fl: "failJob h rt cx i ?e ws2 = (Inl (SkipRetry ?e), ws3)"
    "memory_inv (ws_repo ws3)" "ws_active ws3 = ws_active ws2" "ws_metrics ws3 = None \<longleftrightarrow> ws_metrics ws2 = None"
    "memory_db (ws_repo ws3) = put_job i (with_status t' ?st (cx_Error cx ?e) ?j2) (memory_db (ws_repo ws2))"
    using memory.failJob_calm [OF c2 assms(1) run(4) d2 assms(13), of ?e thesis] by (simp add: is_canceled_def)
  let ?j' = "with_status t' ?st (cx_Error cx ?e) ?j2"
  have db3: "memory_db (ws_repo ws3) = put_job i ?j' (memory_db (ws_repo ws))"
    unfolding fl(5) run(5) ws1(3) by simp
  have parts: "map_of (mr_jobs (ws_repo ws3)) = (map_of (mr_jobs (ws_repo ws)))(i \<mapsto> ?j')"
    "mr_metrics (ws_repo ws3) = mr_metrics (ws_repo ws)" "mr_errors (ws_repo ws3) = mr_errors (ws_repo ws)"
    "map_of (mr_eventFiles (ws_repo ws3)) = map_of (mr_eventFiles (ws_repo ws))"
    using arg_cong [OF db3, of db_jobs] arg_cong [OF db3, of db_metrics] arg_cong [OF db3, of db_errors]
      arg_cong [OF db3, of db_files] by (simp_all add: memory_db_def put_job_def)
  have at: "rj_CanceledAt ?j' = Some (io_now io)" by (simp add: with_status_def Let_def)
  have act: "ws_active (addActiveWorker (- 1) ws3) = ws_active ws"
    using fl(3,4) run(2) ws1(4,5) by (simp add: addActiveWorker_active same_rest_def)
  show ?thesis
    by (rule exI [of _ "addActiveWorker (- 1) ws3"], rule exI [of _ ?j'])
      (use ws1(6) run(1,6) fl(1) act parts at in \<open>simp add: same_job_def\<close>)
qed

subsection \<open>Sample runs\<close>

abbreviation "newline \<equiv> [CHR 0x0A]"

definition sample_csv :: bytes where
  "sample_csv = ''event_type,symbol,trade_id,price,quantity,event_time,is_buyer_maker'' @ newline @
     ''aggTrade,SOLUSDT,1,10,1,100,true'' @ newline @ ''aggTrade,SOLUSDT,2,10,1,101,true'' @ newline @
     ''aggTrade,SOLUSDT,4,10,1,102,true'' @ newline"

definition sample_context :: Context where
  "sample_context = \<lparr>cx_fs = (\<lambda>p. if p = ''a.csv'' then Some sample_csv else None),
     cx_stat = (\<lambda>p. if p = ''a.csv'' then Some (int (length sample_csv)) else None),
     cx_err = (\<lambda>_. None), cx_retried = Some 0, cx_maxRetry = Some 3, cx_started = 10, cx_since = 5, cx_created = 15,
     cx_lag = 1, cx_alloc = (\<lambda>_. 0), cx_mallocs = (\<lambda>_. 0), cx_sha256_hex = zeros64,
     cx_Error = (\<lambda>e. if e = WorkerContext Canceled then ''context canceled'' else ''error''),
     cx_parse_Error = (\<lambda>_. ''parse error''), cx_store_canceled = (\<lambda>_. False)\<rparr>"

definition sample_handler :: "MemoryRepository ReplayHandler" where
  "sample_handler = NewReplayHandler memory_repository \<lparr>hc_DeadLetterName = '''', hc_CheckpointEvery = 2, hc_Queue = ''''\<rparr>"

definition sample_ws :: "MemoryRepository WorkerState" where
  "sample_ws = \<lparr>ws_repo = sample_store, ws_calls = 0, ws_active = 0, ws_metrics = None, ws_panic = False\<rparr>"

definition sample_task :: Task where
  "sample_task = \<lparr>tk_Type = TypeReplayJob, tk_Payload = ''{\"job_id\":\"j\"}''\<rparr>"

text \<open>The runtime in which another request cancels the job before the fifth call of the handler.\<close>

definition canceling_runtime :: "MemoryRepository Runtime" where
  "canceling_runtime = \<lparr>rt_io = (\<lambda>n. sample_io (CHR ''w'') (int n)),
     rt_env = (\<lambda>n r. if n = 4 then snd (CancelReplayJob ''j'' (sample_io (CHR ''c'') 50) r) else r)\<rparr>"

abbreviation "sample_event_file \<equiv> the (map_of (mr_eventFiles sample_store) ''f'')"

lemma sample_worker_facts:
  "rh_repo sample_handler = memory_repository" "quiet (quiet_runtime a)" "memory_inv (ws_repo sample_ws)"
  "tk_Type sample_task = TypeReplayJob" "DecodeReplayPayload (tk_Payload sample_task) = Inr \<lparr>pa_JobID = ''j''\<rparr>"
  "map_of (mr_jobs (ws_repo sample_ws)) ''j'' = Some (new_job (sample_io (CHR ''j'') 3) sample_job_params)"
  "rj_EventFileID (new_job (sample_io (CHR ''j'') 3) sample_job_params) = ''f''"
  "rj_Status (new_job (sample_io (CHR ''j'') 3) sample_job_params) \<notin> {JobStatusCanceled, JobStatusCompleted, JobStatusDLQ}"
  "map_of (mr_eventFiles (ws_repo sample_ws)) ''f'' = Some sample_event_file"
  "cx_err sample_context k = None" "cx_sha256_hex sample_context b \<noteq> ''''"
  "\<forall>p n. cx_stat sample_context p = Some n \<longrightarrow> 0 \<le> n"
proof -
  show "memory_inv (ws_repo sample_ws)"
    using memory_steps_good [OF sample_store_reachable memory_inv_new] by (simp add: good_step_def sample_ws_def)
  show "DecodeReplayPayload (tk_Payload sample_task) = Inr \<lparr>pa_JobID = ''j''\<rparr>"
    "map_of (mr_eventFiles (ws_repo sample_ws)) ''f'' = Some sample_event_file"
    by code_simp+
qed (auto simp: sample_handler_def NewReplayHandler_def Let_def sample_task_def sample_ws_def sample_store_values
    new_job_def sample_context_def zeros64_def split: if_splits)

lemma sample_input: "input_error sample_context sample_event_file = None"
  "map (\<lambda>r. (rec_Line r, rec_Err r)) (input_rows sample_context sample_event_file) = [(2, None), (3, None), (4, None)]"
  "map vf_Line (vr_Failures (replay_result 10 '''' 0 (input_rows sample_context sample_event_file))) = [4]"
  by code_simp+

theorem worker_completes_job_witness:
  "\<exists>ws' j'. ProcessTask sample_handler (quiet_runtime (CHR ''w'')) sample_context sample_task sample_ws = (Inr (), ws') \<and>
     map_of (mr_jobs (ws_repo ws')) ''j'' = Some j' \<and> rj_Status j' = JobStatusCompleted \<and> mf_ErrorCount (rj_Manifest j') = 1"
proof -
  note f = sample_worker_facts
  have len: "int (length (vr_Failures (replay_result 10 '''' 0 (input_rows sample_context sample_event_file)))) = 1"
    using arg_cong [OF sample_input(3), of length] by simp
  have j: "rj_CheckpointLine (new_job (sample_io (CHR ''j'') 3) sample_job_params) = 0"
    "(if rj_Symbol (new_job (sample_io (CHR ''j'') 3) sample_job_params) = '''' then ef_Symbol sample_event_file
      else rj_Symbol (new_job (sample_io (CHR ''j'') 3) sample_job_params)) = ''''" "cx_started sample_context = 10"
    by code_simp+
  show ?thesis
    using worker_completes_job [OF f(1) f(2) [of "CHR ''w''"] f(10,3-6,8) _ sample_input(1) f(11,12), unfolded f(7), OF f(9)]
    unfolding Let_def j len by blast
qed

theorem worker_fails_job_witness:
  "\<exists>ws' j'. ProcessTask sample_handler (quiet_runtime (CHR ''w'')) (sample_context\<lparr>cx_fs := Map.empty\<rparr>) sample_task sample_ws =
       (Inl (FileOpen ''a.csv''), ws') \<and>
     map_of (mr_jobs (ws_repo ws')) ''j'' = Some j' \<and> rj_Status j' = JobStatusFailed \<and> rj_LastError j' = ''error''"
proof -
  note f = sample_worker_facts
  let ?cx = "sample_context\<lparr>cx_fs := Map.empty\<rparr>"
  have e: "input_error ?cx sample_event_file = Some (FileOpen ''a.csv'')" by code_simp
  have err: "cx_err ?cx k = None" for k by (simp add: sample_context_def)
  have ex: "False = (\<exists>a b. cx_retried ?cx = Some a \<and> cx_maxRetry ?cx = Some b \<and> b \<le> a)"
    by (simp add: sample_context_def)
  show ?thesis
    using worker_fails_job [OF f(1) f(2) [of "CHR ''w''"] err f(3-6,8) _ e ex, unfolded f(7), OF f(9)]
    by (auto simp: sample_context_def)
qed

text \<open>The sample job with its checkpoint at the third line.\<close>

definition resumed_ws :: "MemoryRepository WorkerState" where
  "resumed_ws = sample_ws\<lparr>ws_repo := snd (UpdateReplayCheckpoint ''j'' 3 (sample_io (CHR ''k'') 9) (ws_repo sample_ws))\<rparr>"

lemma resumed_ws_facts:
  "memory_inv (ws_repo resumed_ws)"
  "map_of (mr_jobs (ws_repo resumed_ws)) ''j'' =
    Some ((new_job (sample_io (CHR ''j'') 3) sample_job_params)\<lparr>rj_CheckpointLine := 3\<rparr>)"
  "map_of (mr_eventFiles (ws_repo resumed_ws)) ''f'' = Some sample_event_file"
  "mr_errors (ws_repo resumed_ws) ''j'' = []"
proof -
  let ?j = "new_job (sample_io (CHR ''j'') 3) sample_job_params"
  obtain r' where r': "rp_UpdateReplayCheckpoint memory_repository ''j'' 3 (sample_io (CHR ''k'') 9) (ws_repo sample_ws) = (Inr (), r')"
    "memory_inv r'" "memory_db r' = put_job ''j'' (?j\<lparr>rj_CheckpointLine := max (rj_CheckpointLine ?j) 3\<rparr>) (memory_db (ws_repo sample_ws))"
    using memory.UpdateReplayCheckpoint [OF sample_worker_facts(3), of "''j''" ?j 3 "sample_io (CHR ''k'') 9"] sample_worker_facts(6) by auto
  then have r: "ws_repo resumed_ws = r'" by (simp add: resumed_ws_def memory_repository_def)
  show "memory_inv (ws_repo resumed_ws)" by (simp add: r r'(2))
  show "map_of (mr_jobs (ws_repo resumed_ws)) ''j'' = Some (?j\<lparr>rj_CheckpointLine := 3\<rparr>)"
    using arg_cong [OF r'(3), of "\<lambda>d. db_jobs d ''j''"] by (simp add: r)
  show "map_of (mr_eventFiles (ws_repo resumed_ws)) ''f'' = Some sample_event_file"
    using arg_cong [OF r'(3), of "\<lambda>d. db_files d ''f''"] sample_worker_facts(9) by (simp add: r)
  show "mr_errors (ws_repo resumed_ws) ''j'' = []" by code_simp
qed

theorem canceled_job_ends_failed_witness:
  "\<exists>ws' j'. ProcessTask sample_handler canceling_runtime sample_context sample_task sample_ws =
       (Inl (SkipRetry (WorkerContext Canceled)), ws') \<and>
     map_of (mr_jobs (ws_repo ws')) ''j'' = Some j' \<and> rj_Status j' = JobStatusFailed \<and>
     rj_LastError j' = ''context canceled'' \<and> rj_CanceledAt j' = Some 50"
proof -
  note f = sample_worker_facts
  let ?j = "new_job (sample_io (CHR ''j'') 3) sample_job_params" and ?io = "sample_io (CHR ''c'') 50"
  have c: "cancels 4 ''j'' ?io canceling_runtime" by (simp add: cancels_def canceling_runtime_def)
  have n: "length (checkpoint_rows sample_handler (rj_CheckpointLine ?j) (input_rows sample_context sample_event_file)) = 2"
    by code_simp
  have st: "cx_stat sample_context (ef_Path sample_event_file) \<noteq> None" by code_simp
  have ex: "False = (\<exists>a b. cx_retried sample_context = Some a \<and> cx_maxRetry sample_context = Some b \<and> b \<le> a)"
    by (simp add: sample_context_def)
  have k: "ws_calls sample_ws = 0" "io_now ?io = 50" "cx_Error sample_context (WorkerContext Canceled) = ''context canceled''"
    by (simp_all add: sample_ws_def sample_io_def sample_context_def)
  show ?thesis
    using canceled_job_ends_failed [OF f(1) c f(10,3-6,8) _ st _ _ ex, unfolded f(7), OF f(9)] unfolding n k by auto
qed

theorem resumed_run_reports_tail_witness:
  "\<exists>ws'. ProcessTask sample_handler (quiet_runtime (CHR ''w'')) sample_context sample_task resumed_ws = (Inr (), ws') \<and>
     map ve_Line (mr_errors (ws_repo ws') ''j'') = [4]"
proof -
  note f = sample_worker_facts and g = resumed_ws_facts
  let ?rs = "input_rows sample_context sample_event_file"
  let ?j = "(new_job (sample_io (CHR ''j'') 3) sample_job_params)\<lparr>rj_CheckpointLine := 3\<rparr>"
  have h: "\<forall>r \<in> set ?rs. rec_Err r = None \<longrightarrow> ev_Type (rec_Event r) = EventTypeDepth \<longrightarrow> 0 < ev_FinalUpdateID (rec_Event r)"
    by code_simp
  have tl: "map vf_Line (filter (\<lambda>x. 3 < vf_Line x) (vr_Failures (v_result (foldl Process (NewValidator 10 \<lparr>op_Symbol = ''''\<rparr>) ?rs)))) = [4]"
    by code_simp
  have st: "rj_Status ?j \<notin> {JobStatusCanceled, JobStatusCompleted, JobStatusDLQ}" using f(8) by simp
  have ef: "map_of (mr_eventFiles (ws_repo resumed_ws)) (rj_EventFileID ?j) = Some sample_event_file" using g(3) f(7) by simp
  have j: "rj_CheckpointLine ?j = 3"
    "(if rj_Symbol ?j = '''' then ef_Symbol sample_event_file else rj_Symbol ?j) = ''''" "cx_started sample_context = 10"
    by (simp, code_simp, code_simp)
  obtain ws' es where r: "ProcessTask sample_handler (quiet_runtime (CHR ''w'')) sample_context sample_task resumed_ws = (Inr (), ws')"
    "mr_errors (ws_repo ws') ''j'' = mr_errors (ws_repo resumed_ws) ''j'' @ es"
    "map (\<lambda>e. (ve_Line e, ve_Symbol e, ve_Type e, ve_Message e)) es =
      map (\<lambda>x. (vf_Line x, vf_Symbol x, vf_Type x, message_text sample_context (vf_Message x)))
        (filter (\<lambda>x. 3 < vf_Line x) (vr_Failures (v_result (foldl Process (NewValidator 10 \<lparr>op_Symbol = ''''\<rparr>) ?rs))))"
    using resumed_run_reports_tail [OF f(1) f(2) [of "CHR ''w''"] f(10) g(1) f(4,5) g(2) st ef sample_input(1) f(11,12) h]
    unfolding Let_def j by blast
  have "map ve_Line es = [4]" using arg_cong [OF r(3), of "map fst"] tl by (simp add: comp_def)
  then show ?thesis using r(1,2) g(4) by auto
qed

theorem worker_skips_task_witness:
  "\<exists>res ws'. ProcessTask sample_handler (quiet_runtime (CHR ''w'')) sample_context \<lparr>tk_Type = ''other'', tk_Payload = ''''\<rparr> sample_ws =
     (res, ws') \<and> ws_repo ws' = sample_store"
proof -
  have "tk_Type \<lparr>tk_Type = ''other'', tk_Payload = ''''\<rparr> \<noteq> TypeReplayJob" by (simp add: TypeReplayJob_def)
  then show ?thesis
    using worker_skips_task [OF sample_worker_facts(1,2,3), of "\<lparr>tk_Type = ''other'', tk_Payload = ''''\<rparr>" "CHR ''w''" sample_context]
    by (auto simp: sample_ws_def)
qed

theorem retry_delay_witness:
  "RetryDelayFunc \<lparr>sc_Queue = '''', sc_Concurrency = 4, sc_MaxRetry = 3, sc_Timeout = 0, sc_RetryBackoff = 0, sc_DeadLetterName = ''''\<rparr> 3
    = 60 * 1000000000"
proof -
  let ?c = "\<lparr>sc_Queue = '''', sc_Concurrency = 4, sc_MaxRetry = 3, sc_Timeout = 0, sc_RetryBackoff = 0, sc_DeadLetterName = ''''\<rparr>"
  show ?thesis using retry_delay [of ?c 3 1] by (simp add: server_backoff_def)
qed

end
