(* ===== verification/Go_Time.thy ===== *)
theory Go_Time
  imports Go_Lib
begin

section \<open>time.Time.Format\<close>

text \<open>
  A time is the number of nanoseconds since the zero time of Go, 1 January of year 1 in UTC. This theory holds
  the layouts of it that the code formats times with, and the reading of RFC 3339 texts with its round trip.
\<close>


text \<open>
  \<^verbatim>\<open>t.UTC().Format("2006-01-02")\<close>: the day of the proleptic Gregorian calendar, from the number of
  days since 1 January of year 1, by cycles of 400, 100, 4 and 1 years.
\<close>

definition leap :: "int \<Rightarrow> bool" where
  "leap y \<longleftrightarrow> y mod 4 = 0 \<and> (y mod 100 \<noteq> 0 \<or> y mod 400 = 0)"

definition month_lengths :: "int \<Rightarrow> int list" where
  "month_lengths y = [31, if leap y then 29 else 28, 31, 30, 31, 30, 31, 31, 30, 31, 30, 31]"

fun month_day :: "int list \<Rightarrow> int \<Rightarrow> int \<Rightarrow> int \<times> int" where
  "month_day [] m d = (m, d + 1)"
| "month_day (l # ls) m d = (if d < l \<or> ls = [] then (m, d + 1) else month_day ls (m + 1) (d - l))"

definition civil_day :: "int \<Rightarrow> int \<times> int \<times> int" where
  "civil_day n =
     (let c400 = n div 146097; n1 = n mod 146097;
          c100 = min 3 (n1 div 36524); n2 = n1 - c100 * 36524;
          c4 = n2 div 1461; n3 = n2 mod 1461;
          c1 = min 3 (n3 div 365); n4 = n3 - c1 * 365;
          y = 400 * c400 + 100 * c100 + 4 * c4 + c1 + 1
      in (y, month_day (month_lengths y) 1 n4))"

definition pad :: "nat \<Rightarrow> int \<Rightarrow> string" where
  "pad w x = (let s = FormatInt x in replicate (w - length s) (CHR ''0'') @ s)"

definition day_of :: "time \<Rightarrow> string" where
  "day_of t =
     (case civil_day (t div 86400000000000) of (y, m, d) \<Rightarrow> pad 4 y @ ''-'' @ pad 2 m @ ''-'' @ pad 2 d)"

text \<open>\<^verbatim>\<open>Format("2006-01-02T15:04:05Z07:00")\<close> of a time in UTC.\<close>

definition rfc3339 :: "time \<Rightarrow> string" where
  "rfc3339 t =
     (let s = (t mod 86400000000000) div 1000000000
      in day_of t @ ''T'' @ pad 2 (s div 3600) @ '':'' @ pad 2 (s mod 3600 div 60) @ '':'' @ pad 2 (s mod 60) @ ''Z'')"

text \<open>\<^verbatim>\<open>Format(time.RFC3339Nano)\<close>: the fraction of the second without its trailing zeros, or nothing.\<close>

definition fraction :: "int \<Rightarrow> string" where
  "fraction ns = (if ns = 0 then '''' else ''.'' @ rev (dropWhile (\<lambda>c. c = CHR ''0'') (rev (pad 9 ns))))"

definition rfc3339_nano :: "time \<Rightarrow> string" where
  "rfc3339_nano t = butlast (rfc3339 t) @ fraction (t mod 1000000000) @ ''Z''"

lemma day_of_examples:
  "day_of 0 = ''0001-01-01''" "day_of (730178 * 86400000000000 + 5) = ''2000-02-29''"
  by code_simp+

lemma rfc3339_nano_examples:
  "rfc3339_nano (730178 * 86400000000000 + 3723000000000) = ''2000-02-29T01:02:03Z''"
  "rfc3339_nano (730178 * 86400000000000 + 3723000000050) = ''2000-02-29T01:02:03.00000005Z''"
  by code_simp+

subsection \<open>Time.UnmarshalJSON\<close>

text \<open>The day number of a date, and the strict reading of RFC 3339 that \<^verbatim>\<open>time.Time.UnmarshalJSON\<close> does.\<close>

definition days_before_year :: "int \<Rightarrow> int" where
  "days_before_year y = 365 * (y - 1) + (y - 1) div 4 - (y - 1) div 100 + (y - 1) div 400"

definition day_number :: "int \<Rightarrow> int \<Rightarrow> int \<Rightarrow> int" where
  "day_number y m d = days_before_year y + sum_list (take (nat (m - 1)) (month_lengths y)) + (d - 1)"

definition digits_val :: "string \<Rightarrow> int" where
  "digits_val s = foldl (\<lambda>x c. x * 10 + digit_val c) 0 s"

definition num_in :: "int \<Rightarrow> int \<Rightarrow> string \<Rightarrow> int option" where
  "num_in lo hi s =
     (if list_all is_digit s \<and> lo \<le> digits_val s \<and> digits_val s \<le> hi then Some (digits_val s) else None)"

definition nanoseconds :: "string \<Rightarrow> int" where
  "nanoseconds ds = (let u = take 9 ds in digits_val u * 10 ^ (9 - length u))"

definition zone_offset :: "string \<Rightarrow> int option" where
  "zone_offset s =
     (if s = ''Z'' then Some 0
      else if length s \<noteq> 6 \<or> (s ! 0 \<noteq> CHR ''-'' \<and> s ! 0 \<noteq> CHR ''+'') \<or> s ! 3 \<noteq> CHR '':'' then None
      else case (num_in 0 23 (take 2 (drop 1 s)), num_in 0 59 (drop 4 s)) of
             (Some h, Some m) \<Rightarrow> Some ((if s ! 0 = CHR ''-'' then - 1 else 1) * (h * 60 + m) * 60)
           | _ \<Rightarrow> None)"

definition parse_rfc3339 :: "string \<Rightarrow> time option" where
  "parse_rfc3339 s =
     (if length s < 19 \<or> s ! 4 \<noteq> CHR ''-'' \<or> s ! 7 \<noteq> CHR ''-'' \<or> s ! 10 \<noteq> CHR ''T'' \<or>
         s ! 13 \<noteq> CHR '':'' \<or> s ! 16 \<noteq> CHR '':'' then None
      else case (num_in 0 9999 (take 4 s), num_in 1 12 (take 2 (drop 5 s)), num_in 0 23 (take 2 (drop 11 s)),
                 num_in 0 59 (take 2 (drop 14 s)), num_in 0 59 (take 2 (drop 17 s))) of
             (Some y, Some m, Some h, Some mi, Some sec) \<Rightarrow>
               (case num_in 1 (month_lengths y ! nat (m - 1)) (take 2 (drop 8 s)) of
                  None \<Rightarrow> None
                | Some d \<Rightarrow>
                    (let rest = drop 19 s;
                         frac = (if rest \<noteq> [] \<and> hd rest = CHR ''.'' then takeWhile is_digit (tl rest) else []);
                         zone = (if frac = [] then rest else drop (1 + length frac) rest)
                     in map_option (\<lambda>off. (day_number y m d * 86400 + h * 3600 + mi * 60 + sec - off) * 1000000000 +
                          nanoseconds frac) (zone_offset zone)))
           | _ \<Rightarrow> None)"

lemma length_month_lengths [simp]: "length (month_lengths y) = 12"
  by (simp add: month_lengths_def)

lemma month_lengths_le:
  assumes "1 \<le> m" "m \<le> 12"
  shows "month_lengths y ! nat (m - 1) \<le> 31"
proof -
  have "\<forall>l\<in>set (month_lengths y). l \<le> 31" by (auto simp: month_lengths_def)
  moreover have "nat (m - 1) < length (month_lengths y)" using assms by simp
  ultimately show ?thesis by (metis nth_mem)
qed

lemma quotient_eq: "0 \<le> r \<Longrightarrow> r < k \<Longrightarrow> (k * q + r) div k = (q :: int)"
  by simp

lemma days_before_year_cycle:
  assumes "0 \<le> c100" "c100 \<le> 3" "0 \<le> c4" "c4 \<le> 24" "0 \<le> c1" "c1 \<le> 3"
  shows "days_before_year (400 * c400 + 100 * c100 + 4 * c4 + c1 + 1) =
    146097 * c400 + 36524 * c100 + 1461 * c4 + 365 * c1"
proof -
  let ?x = "400 * c400 + 100 * c100 + 4 * c4 + c1"
  have "?x div 4 = 100 * c400 + 25 * c100 + c4"
    using quotient_eq [of c1 4 "100 * c400 + 25 * c100 + c4"] assms by simp
  moreover have "?x div 100 = 4 * c400 + c100"
    using quotient_eq [of "4 * c4 + c1" 100 "4 * c400 + c100"] assms by (simp add: add.assoc)
  moreover have "?x div 400 = c400"
    using quotient_eq [of "100 * c100 + 4 * c4 + c1" 400 c400] assms by (simp add: add.assoc)
  ultimately show ?thesis by (simp add: days_before_year_def)
qed

lemma month_day_sum:
  assumes "0 \<le> n" "n < sum_list ls" "ls \<noteq> []" "month_day ls m n = (m', d)" "\<forall>l\<in>set ls. 0 < l"
  shows "m \<le> m'" "m' < m + int (length ls)" "1 \<le> d" "d \<le> ls ! nat (m' - m)"
    "sum_list (take (nat (m' - m)) ls) + (d - 1) = n"
proof -
  have "m \<le> m' \<and> m' < m + int (length ls) \<and> 1 \<le> d \<and> d \<le> ls ! nat (m' - m) \<and>
      sum_list (take (nat (m' - m)) ls) + (d - 1) = n"
    using assms
  proof (induction ls m n rule: month_day.induct)
    case (2 l ls m n)
    show ?case
    proof (cases "n < l \<or> ls = []")
      case True
      then show ?thesis using 2(2-) by auto
    next
      case False
      then have IH: "m + 1 \<le> m'" "m' < m + 1 + int (length ls)" "1 \<le> d" "d \<le> ls ! nat (m' - (m + 1))"
        "sum_list (take (nat (m' - (m + 1))) ls) + (d - 1) = n - l"
        using 2(1)[OF False] 2(2-) by auto
      have "nat (m' - m) = Suc (nat (m' - (m + 1)))" using IH(1) by simp
      then show ?thesis using IH by simp
    qed
  qed simp
  then show "m \<le> m'" "m' < m + int (length ls)" "1 \<le> d" "d \<le> ls ! nat (m' - m)"
    "sum_list (take (nat (m' - m)) ls) + (d - 1) = n" by auto
qed

lemma min_quotient:
  fixes x k c r :: int
  assumes "c = min 3 (x div k)" "r = x - c * k" "0 < k" "0 \<le> x" "x \<le> 4 * k"
  shows "x = k * c + r" "0 \<le> r" "0 \<le> c" "c \<le> 3" "c < 3 \<longrightarrow> r < k" "r \<le> k"
proof -
  define q m where "q = x div k" and "m = x mod k"
  have x: "x = q * k + m" "0 \<le> m" "m < k" "0 \<le> q" using assms by (simp_all add: q_def m_def pos_imp_zdiv_nonneg_iff)
  have "x = k * c + r \<and> 0 \<le> r \<and> 0 \<le> c \<and> c \<le> 3 \<and> (c < 3 \<longrightarrow> r < k) \<and> r \<le> k"
  proof (cases "q \<le> 3")
    case True
    then have "c = q" using assms(1) by (simp add: q_def)
    then show ?thesis using x assms(2) True by simp
  next
    case False
    then have c: "c = 3" using assms(1) by (simp add: q_def)
    have "4 * k \<le> q * k" using False assms(3) by (intro mult_right_mono) simp_all
    moreover have "r = x - 3 * k" using assms(2) c by simp
    ultimately have "0 \<le> r" "r \<le> k" using x(1,2) assms(3,5) by linarith+
    then show ?thesis using assms(2) c by simp
  qed
  then show "x = k * c + r" "0 \<le> r" "0 \<le> c" "c \<le> 3" "c < 3 \<longrightarrow> r < k" "r \<le> k" by auto
qed

lemma civil_day_number:
  assumes "civil_day n = (y, m, d)"
  shows "1 \<le> m" "m \<le> 12" "1 \<le> d" "d \<le> month_lengths y ! nat (m - 1)" "day_number y m d = n"
    "0 \<le> n \<Longrightarrow> 1 \<le> y" "n < 3652059 \<Longrightarrow> y \<le> 9999"
proof -
  define c400 n1 where "c400 = n div 146097" and "n1 = n mod 146097"
  define c100 where "c100 = min 3 (n1 div 36524)"
  define n2 where "n2 = n1 - c100 * 36524"
  define c4 n3 where "c4 = n2 div 1461" and "n3 = n2 mod 1461"
  define c1 where "c1 = min 3 (n3 div 365)"
  define n4 where "n4 = n3 - c1 * 365"
  have y: "y = 400 * c400 + 100 * c100 + 4 * c4 + c1 + 1" and md: "month_day (month_lengths y) 1 n4 = (m, d)"
    using assms [unfolded civil_day_def Let_def, folded c400_def n1_def, folded c100_def, folded n2_def,
      folded c4_def n3_def, folded c1_def, folded n4_def] by auto
  have n: "n = 146097 * c400 + n1" "0 \<le> n1" "n1 < 146097" by (simp_all add: c400_def n1_def)
  have n1: "n1 = 36524 * c100 + n2" "0 \<le> n2" "0 \<le> c100" "c100 \<le> 3" "c100 < 3 \<longrightarrow> n2 < 36524" "n2 \<le> 36524"
    using min_quotient [OF c100_def n2_def _ n(2)] n(3) by simp_all
  have n2: "n2 = 1461 * c4 + n3" "0 \<le> n3" "n3 < 1461" by (simp_all add: c4_def n3_def)
  have c4: "0 \<le> c4" "c4 \<le> 24" using n1 n2 by linarith+
  have n3: "n3 = 365 * c1 + n4" "0 \<le> n4" "0 \<le> c1" "c1 \<le> 3" "c1 < 3 \<longrightarrow> n4 < 365" "n4 \<le> 365"
    using min_quotient [OF c1_def n4_def _ n2(2)] n2(3) by simp_all
  have before: "days_before_year y = 146097 * c400 + 36524 * c100 + 1461 * c4 + 365 * c1"
    unfolding y using n1 c4 n3 by (intro days_before_year_cycle)
  have ends: "n4 = 365 \<Longrightarrow> leap y"
  proof -
    assume "n4 = 365"
    then have c1: "c1 = 3" using n3 by linarith
    have "c4 = 24 \<Longrightarrow> c100 = 3" using n1 n2 n3 c1 \<open>n4 = 365\<close> by linarith
    then have "c4 < 24 \<or> c100 = 3" using c4 by linarith
    moreover have "y = 4 * (100 * c400 + 25 * c100 + c4 + 1)" using y c1 by simp
    moreover have "y = (4 * c4 + 4) + 100 * (4 * c400 + c100)" using y c1 by simp
    then have "c4 < 24 \<Longrightarrow> y mod 100 = 4 * c4 + 4" using c4 by (simp only: mod_mult_self2) simp
    moreover have "y mod 400 = 0" if "c100 = 3" "c4 = 24"
    proof -
      have "y = 400 * (c400 + 1)" using y c1 that by simp
      then show ?thesis by (simp only: mod_mult_self1_is_0)
    qed
    ultimately show "leap y" using c4 unfolding leap_def by fastforce
  qed
  have "n4 < 365 \<or> n4 = 365" using n3 by linarith
  then have "n4 < sum_list (month_lengths y)" using ends by (auto simp: month_lengths_def)
  moreover have "month_lengths y \<noteq> []" "\<forall>l\<in>set (month_lengths y). 0 < l" by (auto simp: month_lengths_def)
  ultimately have r: "1 \<le> m" "m < 1 + 12" "1 \<le> d" "d \<le> month_lengths y ! nat (m - 1)"
    "sum_list (take (nat (m - 1)) (month_lengths y)) + (d - 1) = n4"
    using month_day_sum [OF n3(2) _ _ md] by simp_all
  show "1 \<le> m" "m \<le> 12" "1 \<le> d" "d \<le> month_lengths y ! nat (m - 1)" using r by simp_all
  show "day_number y m d = n" using before r(5) n n1 n2 n3 by (simp add: day_number_def)
  have "0 \<le> n \<Longrightarrow> 0 \<le> c400" by (simp add: c400_def pos_imp_zdiv_nonneg_iff)
  then show "0 \<le> n \<Longrightarrow> 1 \<le> y" using y n1 c4 n3 by simp
  assume bound: "n < 3652059"
  then have "c400 \<le> 24" using n by simp
  moreover have "100 * c100 + 4 * c4 + c1 \<le> 398" if "c400 = 24"
  proof -
    have "365 * (100 * c100 + 4 * c4 + c1) + 24 * c100 + c4 + n4 < 145731" using that bound n n1 n2 n3 by simp
    moreover have "c100 = 3 \<Longrightarrow> c4 = 24 \<Longrightarrow> c1 < 3" using calculation n3(2) by simp
    ultimately show ?thesis using n1(3,4) c4 n3(2-4) by linarith
  qed
  moreover have "100 * c100 + 4 * c4 + c1 \<le> 399" using n1(4) c4 n3(4) by simp
  ultimately show "y \<le> 9999" using y by (cases "c400 = 24") simp_all
qed

lemma digits_val_append: "digits_val (xs @ [c]) = digits_val xs * 10 + digit_val c"
  by (simp add: digits_val_def)

lemma digits_val_zeros: "digits_val (replicate k (CHR ''0'') @ s) = digits_val s"
  by (induction k) (simp_all add: digits_val_def digit_val_def)

lemma digits_val_trailing: "digits_val (s @ replicate k (CHR ''0'')) = digits_val s * 10 ^ k"
proof (induction k)
  case (Suc k)
  have "digits_val (s @ replicate (Suc k) (CHR ''0'')) = digits_val (s @ replicate k (CHR ''0'')) * 10"
    using digits_val_append [of "s @ replicate k (CHR ''0'')" "CHR ''0''"]
    by (simp add: replicate_append_same [symmetric] digit_val_def)
  then show ?case using Suc by simp
qed simp

lemma format_nat_val: "digits_val (format_nat n) = int n \<and> list_all is_digit (format_nat n)"
proof (induction n rule: format_nat.induct)
  case (1 n)
  show ?case
  proof (cases "n < 10")
    case True
    then show ?thesis by (simp add: format_nat.simps [of n] digits_val_def digit_val_char_of is_digit_char_of)
  next
    case False
    moreover have "int (n div 10) * 10 + int (n mod 10) = int n" by presburger
    ultimately show ?thesis
      using 1 by (simp add: format_nat.simps [of n] digits_val_append digit_val_char_of is_digit_char_of)
  qed
qed

lemma format_nat_length: "n < 10 ^ Suc w \<Longrightarrow> length (format_nat n) \<le> Suc w"
proof (induction w arbitrary: n)
  case 0
  then show ?case by (simp add: format_nat.simps [of n])
next
  case (Suc w)
  have "n div 10 < 10 ^ Suc w" using Suc.prems by (simp add: less_mult_imp_div_less)
  then show ?case using Suc.IH [of "n div 10"] by (simp add: format_nat.simps [of n])
qed

lemma pad_ok:
  assumes "0 \<le> x" "x < 10 ^ w" "0 < w"
  shows "length (pad w x) = w" "list_all is_digit (pad w x)" "digits_val (pad w x) = x"
proof -
  obtain v where w: "w = Suc v" using assms(3) by (cases w) auto
  have "nat x < 10 ^ Suc v" using assms w by (simp add: nat_less_iff)
  then have "length (format_nat (nat x)) \<le> w" using format_nat_length w by simp
  then show "length (pad w x) = w" using assms by (simp add: pad_def FormatInt_def Let_def)
  show "list_all is_digit (pad w x)"
    using assms format_nat_val by (auto simp: pad_def FormatInt_def Let_def list_all_iff is_digit_def)
  show "digits_val (pad w x) = x"
    using assms format_nat_val by (simp add: pad_def FormatInt_def Let_def digits_val_zeros)
qed

lemma num_in_pad:
  "0 \<le> x \<Longrightarrow> x < 10 ^ w \<Longrightarrow> 0 < w \<Longrightarrow> lo \<le> x \<Longrightarrow> x \<le> hi \<Longrightarrow> num_in lo hi (pad w x) = Some x"
  by (simp add: num_in_def pad_ok)

lemma strip_zeros:
  "rev (dropWhile (\<lambda>c. c = x) (rev p)) @ replicate (length p - length (dropWhile (\<lambda>c. c = x) (rev p))) x = p"
proof -
  have "takeWhile (\<lambda>c. c = x) (rev p) = replicate (length p - length (dropWhile (\<lambda>c. c = x) (rev p))) x"
    by (rule replicate_eqI) (metis add_diff_cancel_right' length_append length_rev takeWhile_dropWhile_id,
        use set_takeWhileD in fastforce)
  then have "rev p = replicate (length p - length (dropWhile (\<lambda>c. c = x) (rev p))) x @ dropWhile (\<lambda>c. c = x) (rev p)"
    using takeWhile_dropWhile_id [of "\<lambda>c. c = x" "rev p"] by simp
  then have "rev (rev p) = rev (dropWhile (\<lambda>c. c = x) (rev p)) @
      rev (replicate (length p - length (dropWhile (\<lambda>c. c = x) (rev p))) x)"
    by (metis rev_append)
  then show ?thesis by simp
qed

lemma fraction_ok:
  assumes "0 < ns" "ns < 1000000000"
  obtains ds where "fraction ns = CHR ''.'' # ds" "ds \<noteq> []" "list_all is_digit ds" "nanoseconds ds = ns"
proof
  let ?z = "\<lambda>c. c = CHR ''0''"
  let ?p = "pad 9 ns"
  let ?d = "rev (dropWhile ?z (rev ?p))"
  have p: "length ?p = 9" "list_all is_digit ?p" "digits_val ?p = ns" using assms by (simp_all add: pad_ok)
  have split: "?d @ replicate (9 - length ?d) (CHR ''0'') = ?p" using strip_zeros [of "CHR ''0''" ?p] p(1) by simp
  show "fraction ns = CHR ''.'' # ?d" using assms by (simp add: fraction_def)
  show "list_all is_digit ?d" using p(2) by (auto simp: list_all_iff dest: set_dropWhileD)
  have len: "length ?d \<le> 9" using p(1) length_dropWhile_le [of ?z "rev ?p"] by simp
  have "digits_val ?d * 10 ^ (9 - length ?d) = ns"
    using digits_val_trailing [of ?d "9 - length ?d"] split p(3) by simp
  then show "nanoseconds ?d = ns" using len by (simp add: nanoseconds_def Let_def)
  show "?d \<noteq> []"
  proof
    assume "?d = []"
    from split [unfolded this] have "?p = replicate 9 (CHR ''0'')" by (simp only: append_Nil list.size diff_zero)
    then have "digits_val ?p = 0" using digits_val_trailing [of "[]" 9] by (simp add: digits_val_def)
    then show False using p(3) assms by simp
  qed
qed

lemma parse_zone:
  assumes "0 \<le> ns" "ns < 1000000000" "rest = fraction ns @ ''Z''"
    "frac = (if rest \<noteq> [] \<and> hd rest = CHR ''.'' then takeWhile is_digit (tl rest) else [])"
  shows "nanoseconds frac = ns" "zone_offset (if frac = [] then rest else drop (1 + length frac) rest) = Some 0"
proof -
  have "nanoseconds frac = ns \<and> zone_offset (if frac = [] then rest else drop (1 + length frac) rest) = Some 0"
  proof (cases "ns = 0")
    case True
    then show ?thesis using assms by (simp add: fraction_def nanoseconds_def digits_val_def zone_offset_def)
  next
    case False
    then obtain ds where ds: "fraction ns = CHR ''.'' # ds" "ds \<noteq> []" "list_all is_digit ds" "nanoseconds ds = ns"
      using fraction_ok [of ns] assms(1,2) by auto
    have "takeWhile is_digit (ds @ ''Z'') = ds" using ds(3) by (simp add: list_all_iff is_digit_def)
    then have "frac = ds" using assms ds(1) by simp
    then show ?thesis using assms ds by (simp add: zone_offset_def)
  qed
  then show "nanoseconds frac = ns" "zone_offset (if frac = [] then rest else drop (1 + length frac) rest) = Some 0"
    by auto
qed

lemma int_div_below: "r < a * k \<Longrightarrow> 0 < k \<Longrightarrow> r div k < (a :: int)"
proof (rule ccontr)
  assume "r < a * k" "0 < k" "\<not> r div k < a"
  then have "a * k \<le> r div k * k" by (intro mult_right_mono) simp_all
  then show False using \<open>r < a * k\<close> \<open>0 < k\<close> div_mult_mod_eq [of r k] pos_mod_sign [of k r] by linarith
qed

lemma clock_sum:
  "a + b + c = s \<Longrightarrow> s * k + x = r \<Longrightarrow> q * (86400 * k) + r = t \<Longrightarrow> (q * 86400 + a + b + c) * k + x = (t :: int)"
  by (auto simp: algebra_simps)

lemma clock_split:
  fixes t s :: int
  assumes "s = (t mod 86400000000000) div 1000000000"
  shows "(t div 86400000000000 * 86400 + s div 3600 * 3600 + s mod 3600 div 60 * 60 + s mod 60) * 1000000000 +
    t mod 1000000000 = t"
proof -
  have "s mod 3600 mod 60 = s mod 60" by (rule mod_mod_cancel) simp
  then have hms: "s div 3600 * 3600 + s mod 3600 div 60 * 60 + s mod 60 = s"
    using div_mult_mod_eq [of s 3600] div_mult_mod_eq [of "s mod 3600" 60] by linarith
  have "t mod 86400000000000 mod 1000000000 = t mod 1000000000" by (rule mod_mod_cancel) simp
  then have "s * 1000000000 + t mod 1000000000 = t mod 86400000000000"
    using div_mult_mod_eq [of "t mod 86400000000000" 1000000000] assms by simp
  then show ?thesis
    by (rule clock_sum [OF hms]) (use div_mult_mod_eq [of t 86400000000000] in simp)
qed

lemma butlast_rfc3339:
  assumes "civil_day (t div 86400000000000) = (y, m, d)" "s = (t mod 86400000000000) div 1000000000"
  shows "rfc3339_nano t = pad 4 y @ ''-'' @ pad 2 m @ ''-'' @ pad 2 d @ ''T'' @ pad 2 (s div 3600) @ '':'' @
    pad 2 (s mod 3600 div 60) @ '':'' @ pad 2 (s mod 60) @ fraction (t mod 1000000000) @ ''Z''"
  using assms by (simp add: rfc3339_nano_def rfc3339_def day_of_def Let_def butlast_append)

lemma parse_layout:
  assumes "1 \<le> y" "y \<le> 9999" "1 \<le> m" "m \<le> 12" "1 \<le> d" "d \<le> month_lengths y ! nat (m - 1)"
    "0 \<le> h" "h \<le> 23" "0 \<le> mi" "mi \<le> 59" "0 \<le> sec" "sec \<le> 59" "0 \<le> ns" "ns < 1000000000"
  shows "parse_rfc3339 (pad 4 y @ ''-'' @ pad 2 m @ ''-'' @ pad 2 d @ ''T'' @ pad 2 h @ '':'' @ pad 2 mi @ '':'' @ pad 2 sec @
      fraction ns @ ''Z'') = Some ((day_number y m d * 86400 + h * 3600 + mi * 60 + sec) * 1000000000 + ns)"
proof -
  have d31: "d \<le> 31" using month_lengths_le [OF assms(3,4), of y] assms(6) by simp
  have len: "length (pad 4 y) = 4" "length (pad 2 m) = 2" "length (pad 2 d) = 2" "length (pad 2 h) = 2"
    "length (pad 2 mi) = 2" "length (pad 2 sec) = 2"
    using assms(1-5,7-12) d31 by (simp_all add: pad_ok)
  have nums: "num_in 0 9999 (pad 4 y) = Some y" "num_in 1 12 (pad 2 m) = Some m"
    "num_in 1 (month_lengths y ! nat (m - 1)) (pad 2 d) = Some d" "num_in 0 23 (pad 2 h) = Some h"
    "num_in 0 59 (pad 2 mi) = Some mi" "num_in 0 59 (pad 2 sec) = Some sec"
    using assms(1-12) d31 by (simp_all add: num_in_pad)
  define rest where "rest = fraction ns @ ''Z''"
  define frac where "frac = (if rest \<noteq> [] \<and> hd rest = CHR ''.'' then takeWhile is_digit (tl rest) else [])"
  note zone = parse_zone [OF assms(13,14) rest_def frac_def]
  have "parse_rfc3339 (pad 4 y @ ''-'' @ pad 2 m @ ''-'' @ pad 2 d @ ''T'' @ pad 2 h @ '':'' @ pad 2 mi @ '':'' @ pad 2 sec @ rest) =
      map_option (\<lambda>off. (day_number y m d * 86400 + h * 3600 + mi * 60 + sec - off) * 1000000000 + nanoseconds frac)
        (zone_offset (if frac = [] then rest else drop (1 + length frac) rest))"
    unfolding parse_rfc3339_def frac_def Let_def by (simp add: len nums nth_append)
  also have "\<dots> = Some ((day_number y m d * 86400 + h * 3600 + mi * 60 + sec) * 1000000000 + ns)"
    unfolding zone by simp
  finally show ?thesis unfolding rest_def .
qed

text \<open>A time up to the year 9999 is read back from its RFC 3339 text.\<close>

lemma parse_rfc3339_nano:
  assumes "0 \<le> t" "t < 3652059 * 86400000000000"
  shows "parse_rfc3339 (rfc3339_nano t) = Some t"
proof -
  define n r s where "n = t div 86400000000000" and "r = t mod 86400000000000" and "s = r div 1000000000"
  have sd: "s = (t mod 86400000000000) div 1000000000" by (simp add: r_def s_def)
  obtain y m d where ymd: "civil_day n = (y, m, d)" by (metis prod_cases3)
  have "0 \<le> n" using assms(1) by (simp add: n_def pos_imp_zdiv_nonneg_iff)
  moreover have "n < 3652059" unfolding n_def by (rule int_div_below [OF assms(2)]) simp
  ultimately have day: "1 \<le> y" "y \<le> 9999" "1 \<le> m" "m \<le> 12" "1 \<le> d" "d \<le> month_lengths y ! nat (m - 1)"
    "day_number y m d = n"
    using civil_day_number [OF ymd] by simp_all
  have "r < 86400 * 1000000000" "0 \<le> r"
    using pos_mod_bound [of 86400000000000 t] pos_mod_sign [of 86400000000000 t] by (simp_all add: r_def)
  then have "s < 86400" "0 \<le> s"
    unfolding s_def by (simp add: int_div_below, simp add: pos_imp_zdiv_nonneg_iff)
  then have hms: "0 \<le> s div 3600" "s div 3600 \<le> 23" "0 \<le> s mod 3600 div 60" "s mod 3600 div 60 \<le> 59" "0 \<le> s mod 60" "s mod 60 \<le> 59"
    by simp_all
  have ns: "0 \<le> t mod 1000000000" "t mod 1000000000 < 1000000000" by simp_all
  show ?thesis
    unfolding butlast_rfc3339 [OF ymd [unfolded n_def] sd] parse_layout [OF day(1-6) hms ns] day(7)
    using clock_split [OF sd] by (simp only: n_def)
qed

end
