(* ===== verification/Store_Reports.thy ===== *)
theory Store_Reports
  imports Memory_Store Go_Json Go_Time "HOL-Library.Product_Lexorder"
begin

section \<open>internal/store/reports.go: lineage, quality reports, error summaries\<close>

text \<open>
  The read-only reports over a repository. They work on any value of the \<^verbatim>\<open>Repository\<close> interface
  and make one call after the other. A map the code ranges over is an association list, visited in
  the order coded by \<open>io_order\<close>; \<^verbatim>\<open>sort.Slice\<close> with a lexicographic comparison is a sort by a tuple.
\<close>

record ReplayJobLineage =
  jl_Job :: ReplayJob
  jl_MetricCount :: nat
  jl_ErrorCount :: nat
  jl_ErrorTypes :: "string list"

record EventFileLineage =
  fl_EventFile :: EventFile
  fl_Jobs :: "ReplayJobLineage list"

record DatasetLineage =
  dl_Dataset :: Dataset
  dl_EventFiles :: "EventFileLineage list"
  dl_GeneratedAt :: time

record ValidationErrorSummary =
  su_Type :: string
  su_Symbol :: string
  su_DatasetID :: string
  su_DatasetName :: string
  su_EventFileID :: string
  su_FilePath :: string
  su_Day :: string
  su_Count :: int
  su_FirstLine :: int
  su_LastLine :: int
  su_FirstSeenAt :: time
  su_LastSeenAt :: time

record ReplayQualityReport =
  qr_Dataset :: Dataset
  qr_EventFile :: EventFile
  qr_Job :: ReplayJob
  qr_Metrics :: "StoreMetric list"
  qr_Errors :: "ValidationError list"
  qr_ErrorSummary :: "ValidationErrorSummary list"
  qr_GeneratedAt :: time

subsection \<open>Summaries of validation errors\<close>

definition error_day :: "ValidationError \<Rightarrow> string" where
  "error_day e = (if ve_CreatedAt e \<noteq> 0 then day_of (ve_CreatedAt e) else '''')"

definition error_key :: "ValidationError \<Rightarrow> string" where
  "error_key e = ve_Type e @ [CHR 0x00] @ ve_Symbol e @ [CHR 0x00] @ error_day e"

text \<open>The summary of a key before its first error, and the update of a summary with one error.\<close>

definition new_summary :: "Dataset \<Rightarrow> EventFile \<Rightarrow> ValidationError \<Rightarrow> ValidationErrorSummary" where
  "new_summary dataset file e =
     \<lparr>su_Type = ve_Type e, su_Symbol = ve_Symbol e, su_DatasetID = ds_ID dataset,
      su_DatasetName = ds_Name dataset, su_EventFileID = ef_ID file, su_FilePath = ef_Path file,
      su_Day = error_day e, su_Count = 0, su_FirstLine = ve_Line e, su_LastLine = ve_Line e,
      su_FirstSeenAt = ve_CreatedAt e, su_LastSeenAt = ve_CreatedAt e\<rparr>"

definition add_error :: "ValidationErrorSummary \<Rightarrow> ValidationError \<Rightarrow> ValidationErrorSummary" where
  "add_error s0 e =
     (let s1 = s0\<lparr>su_Count := su_Count s0 + 1\<rparr>;
          s2 = (if ve_Line e < su_FirstLine s1 \<or> su_FirstLine s1 = 0 then s1\<lparr>su_FirstLine := ve_Line e\<rparr> else s1);
          s3 = (if ve_Line e > su_LastLine s2 then s2\<lparr>su_LastLine := ve_Line e\<rparr> else s2);
          s4 = (if su_FirstSeenAt s3 = 0 \<or> ve_CreatedAt e < su_FirstSeenAt s3
                then s3\<lparr>su_FirstSeenAt := ve_CreatedAt e\<rparr> else s3)
      in if ve_CreatedAt e > su_LastSeenAt s4 then s4\<lparr>su_LastSeenAt := ve_CreatedAt e\<rparr> else s4)"

type_synonym summaries = "(string \<times> ValidationErrorSummary) list"

text \<open>\<^verbatim>\<open>summaries[key]\<close> of a missing key has count zero.\<close>

definition summarize_error :: "Dataset \<Rightarrow> EventFile \<Rightarrow> summaries \<Rightarrow> ValidationError \<Rightarrow> summaries" where
  "summarize_error dataset file m e =
     (let summary = (case map_of m (error_key e) of
                       Some s \<Rightarrow> (if su_Count s = 0 then new_summary dataset file e else s)
                     | None \<Rightarrow> new_summary dataset file e)
      in AList.update (error_key e) (add_error summary e) m)"

definition summarizeValidationErrors ::
  "nat list \<Rightarrow> Dataset \<Rightarrow> EventFile \<Rightarrow> ValidationError list \<Rightarrow> ValidationErrorSummary list" where
  "summarizeValidationErrors order dataset file errs =
     sort_key (\<lambda>s. (- su_Count s, su_Type s, su_Symbol s))
       (rearrange order (map snd (foldl (summarize_error dataset file) [] errs)))"

definition item_key :: "ValidationErrorSummary \<Rightarrow> string" where
  "item_key item = su_Type item @ [CHR 0x00] @ su_Symbol item @ [CHR 0x00] @ su_EventFileID item @ [CHR 0x00] @ su_Day item"

definition merge_summary :: "ValidationErrorSummary \<Rightarrow> ValidationErrorSummary \<Rightarrow> ValidationErrorSummary" where
  "merge_summary s0 item =
     (let s1 = s0\<lparr>su_Count := su_Count s0 + su_Count item\<rparr>;
          s2 = (if su_FirstLine item < su_FirstLine s1 \<or> su_FirstLine s1 = 0
                then s1\<lparr>su_FirstLine := su_FirstLine item\<rparr> else s1);
          s3 = (if su_LastLine item > su_LastLine s2 then s2\<lparr>su_LastLine := su_LastLine item\<rparr> else s2);
          s4 = (if su_FirstSeenAt s3 = 0 \<or> su_FirstSeenAt item < su_FirstSeenAt s3
                then s3\<lparr>su_FirstSeenAt := su_FirstSeenAt item\<rparr> else s3)
      in if su_LastSeenAt item > su_LastSeenAt s4 then s4\<lparr>su_LastSeenAt := su_LastSeenAt item\<rparr> else s4)"

definition merge_item :: "summaries \<Rightarrow> ValidationErrorSummary \<Rightarrow> summaries" where
  "merge_item m item =
     (case map_of m (item_key item) of
        Some existing \<Rightarrow>
          (if su_Count existing = 0 then AList.update (item_key item) item m
           else AList.update (item_key item) (merge_summary existing item) m)
      | None \<Rightarrow> AList.update (item_key item) item m)"

text \<open>The loop over the jobs; the order in which the summaries of a job are visited is read from the runtime.\<close>

fun summarize_jobs ::
  "'r Repository \<Rightarrow> 'r Runtime \<Rightarrow> ReplayJob list \<Rightarrow> summaries \<Rightarrow> 'r calls \<Rightarrow> (store_error + summaries) \<times> 'r calls" where
  "summarize_jobs repo rt [] m s = (Inr m, s)"
| "summarize_jobs repo rt (job # jobs) m s =
     try_call (call rt (rp_GetDataset repo (rj_DatasetID job))) (\<lambda>dataset.
     try_call (call rt (rp_GetEventFile repo (rj_EventFileID job))) (\<lambda>file.
     try_call (call rt (rp_ListValidationErrors repo (rj_ID job))) (\<lambda>errs (r, n).
       summarize_jobs repo rt jobs
         (foldl merge_item m (summarizeValidationErrors (io_order (rt_io rt n)) dataset file errs)) (r, n)))) s"

definition BuildValidationErrorSummary ::
  "'r Repository \<Rightarrow> 'r Runtime \<Rightarrow> 'r calls \<Rightarrow> (store_error + ValidationErrorSummary list) \<times> 'r calls" where
  "BuildValidationErrorSummary repo rt s =
     try_call (call rt (rp_ListReplayJobs repo)) (\<lambda>jobs.
     try_call (summarize_jobs repo rt jobs []) (\<lambda>m (r, n).
       (Inr (sort_key (\<lambda>s. (- su_Count s, su_Type s, su_FilePath s, su_Symbol s))
          (rearrange (io_order (rt_io rt n)) (map snd m))), (r, n)))) s"

definition BuildReplayQualityReport ::
  "'r Repository \<Rightarrow> 'r Runtime \<Rightarrow> string \<Rightarrow> 'r calls \<Rightarrow> (store_error + ReplayQualityReport) \<times> 'r calls" where
  "BuildReplayQualityReport repo rt jobID s =
     try_call (call rt (rp_GetReplayJob repo jobID)) (\<lambda>job.
     try_call (call rt (rp_GetDataset repo (rj_DatasetID job))) (\<lambda>dataset.
     try_call (call rt (rp_GetEventFile repo (rj_EventFileID job))) (\<lambda>file.
     try_call (call rt (rp_ListReplayMetrics repo (rj_ID job))) (\<lambda>metrics.
     try_call (call rt (rp_ListValidationErrors repo (rj_ID job))) (\<lambda>errs (r, n).
       (Inr \<lparr>qr_Dataset = dataset, qr_EventFile = file, qr_Job = job, qr_Metrics = metrics,
          qr_Errors = errs,
          qr_ErrorSummary = summarizeValidationErrors (io_order (rt_io rt n)) dataset file errs,
          qr_GeneratedAt = io_now (rt_io rt n)\<rparr>, (r, n))))))) s"

subsection \<open>Lineage\<close>

definition validationErrorTypes :: "ValidationError list \<Rightarrow> string list" where
  "validationErrorTypes errs =
     sort (foldl (\<lambda>types e. if ve_Type e = '''' \<or> ve_Type e \<in> set types then types else types @ [ve_Type e]) [] errs)"

fun lineage_jobs ::
  "'r Repository \<Rightarrow> 'r Runtime \<Rightarrow> ReplayJob list \<Rightarrow> 'r calls \<Rightarrow> (store_error + ReplayJobLineage list) \<times> 'r calls" where
  "lineage_jobs repo rt [] s = (Inr [], s)"
| "lineage_jobs repo rt (job # jobs) s =
     try_call (call rt (rp_ListReplayMetrics repo (rj_ID job))) (\<lambda>metrics.
     try_call (call rt (rp_ListValidationErrors repo (rj_ID job))) (\<lambda>errs.
     try_call (lineage_jobs repo rt jobs) (\<lambda>rows s.
       (Inr (\<lparr>jl_Job = job, jl_MetricCount = length metrics, jl_ErrorCount = length errs,
          jl_ErrorTypes = validationErrorTypes errs\<rparr> # rows), s)))) s"

fun lineage_files ::
  "'r Repository \<Rightarrow> 'r Runtime \<Rightarrow> (string \<Rightarrow> ReplayJob list) \<Rightarrow> EventFile list \<Rightarrow> 'r calls \<Rightarrow>
    (store_error + EventFileLineage list) \<times> 'r calls" where
  "lineage_files repo rt byFile [] s = (Inr [], s)"
| "lineage_files repo rt byFile (file # files) s =
     try_call (lineage_jobs repo rt (byFile (ef_ID file))) (\<lambda>rows (r, n).
     try_call (lineage_files repo rt byFile files) (\<lambda>fs s.
       (Inr (\<lparr>fl_EventFile = file,
          fl_Jobs = sort_key (rj_CreatedAt \<circ> jl_Job) (rearrange (io_order (rt_io rt n)) rows)\<rparr> # fs), s)) (r, n)) s"

definition jobs_by_file :: "string \<Rightarrow> ReplayJob list \<Rightarrow> string \<Rightarrow> ReplayJob list" where
  "jobs_by_file datasetID jobs =
     foldl (\<lambda>byFile job. if rj_DatasetID job = datasetID
              then byFile(rj_EventFileID job := byFile (rj_EventFileID job) @ [job]) else byFile) (\<lambda>_. []) jobs"

definition BuildDatasetLineage ::
  "'r Repository \<Rightarrow> 'r Runtime \<Rightarrow> string \<Rightarrow> 'r calls \<Rightarrow> (store_error + DatasetLineage) \<times> 'r calls" where
  "BuildDatasetLineage repo rt datasetID s =
     try_call (call rt (rp_GetDataset repo datasetID)) (\<lambda>dataset.
     try_call (call rt (rp_ListEventFiles repo datasetID)) (\<lambda>files.
     try_call (call rt (rp_ListReplayJobs repo)) (\<lambda>jobs (r, n).
     try_call (lineage_files repo rt (jobs_by_file datasetID jobs) files) (\<lambda>rows (r', n').
       (Inr \<lparr>dl_Dataset = dataset,
          dl_EventFiles = sort_key (ef_CreatedAt \<circ> fl_EventFile) (rearrange (io_order (rt_io rt n')) rows),
          dl_GeneratedAt = io_now (rt_io rt n)\<rparr>, (r', n'))) (r, n)))) s"

subsection \<open>Groups of errors\<close>

definition group_summary :: "Dataset \<Rightarrow> EventFile \<Rightarrow> ValidationError list \<Rightarrow> ValidationErrorSummary" where
  "group_summary ds f g = foldl add_error (new_summary ds f (hd g)) g"

lemma add_error_fields [simp]:
  "su_Type (add_error s e) = su_Type s" "su_Symbol (add_error s e) = su_Symbol s"
  "su_Day (add_error s e) = su_Day s" "su_EventFileID (add_error s e) = su_EventFileID s"
  "su_DatasetID (add_error s e) = su_DatasetID s" "su_FilePath (add_error s e) = su_FilePath s"
  "su_Count (add_error s e) = su_Count s + 1"
  "su_FirstLine (add_error s e) =
    (if ve_Line e < su_FirstLine s \<or> su_FirstLine s = 0 then ve_Line e else su_FirstLine s)"
  "su_LastLine (add_error s e) = max (su_LastLine s) (ve_Line e)"
  by (simp_all add: add_error_def Let_def)

lemma foldl_add_error:
  "su_Type (foldl add_error s g) = su_Type s" "su_Symbol (foldl add_error s g) = su_Symbol s"
  "su_Day (foldl add_error s g) = su_Day s" "su_EventFileID (foldl add_error s g) = su_EventFileID s"
  "su_Count (foldl add_error s g) = su_Count s + int (length g)"
  by (induction g arbitrary: s) simp_all

lemma foldl_add_error_lines:
  assumes "\<forall>e \<in> set g. 0 < ve_Line e" "0 < su_FirstLine s"
  shows "su_FirstLine (foldl add_error s g) = Min (insert (su_FirstLine s) (ve_Line ` set g))"
    "su_LastLine (foldl add_error s g) = Max (insert (su_LastLine s) (ve_Line ` set g))"
  using assms
proof (induction g arbitrary: s)
  case (Cons e g)
  { case 1
    then have "su_FirstLine (foldl add_error (add_error s e) g) =
        Min (insert (min (ve_Line e) (su_FirstLine s)) (ve_Line ` set g))"
      using Cons.IH(1) [of "add_error s e"] by (auto simp: min_def not_less_iff_gr_or_eq)
    also have "\<dots> = Min (insert (su_FirstLine s) (insert (ve_Line e) (ve_Line ` set g)))"
      by (cases "g = []") (simp_all add: min.left_commute min.commute)
    finally show ?case by simp
  next
    case 2
    then have "su_LastLine (foldl add_error (add_error s e) g) =
        Max (insert (max (su_LastLine s) (ve_Line e)) (ve_Line ` set g))"
      using Cons.IH(2) [of "add_error s e"] by auto
    also have "\<dots> = Max (insert (su_LastLine s) (insert (ve_Line e) (ve_Line ` set g)))"
      by (cases "g = []") (simp_all add: max.left_commute max.commute)
    finally show ?case by simp
  }
qed simp_all

lemma group_summary_fields:
  assumes "g \<noteq> []"
  shows "su_Type (group_summary ds f g) = ve_Type (hd g)" "su_Symbol (group_summary ds f g) = ve_Symbol (hd g)"
    "su_Day (group_summary ds f g) = error_day (hd g)" "su_Count (group_summary ds f g) = int (length g)"
    "su_EventFileID (group_summary ds f g) = ef_ID f"
    "\<forall>e \<in> set g. 0 < ve_Line e \<Longrightarrow> su_FirstLine (group_summary ds f g) = Min (ve_Line ` set g)"
    "\<forall>e \<in> set g. 0 < ve_Line e \<Longrightarrow> su_LastLine (group_summary ds f g) = Max (ve_Line ` set g)"
proof -
  have "insert (ve_Line (hd g)) (ve_Line ` set g) = ve_Line ` set g"
    using assms by auto
  then show "\<forall>e \<in> set g. 0 < ve_Line e \<Longrightarrow> su_FirstLine (group_summary ds f g) = Min (ve_Line ` set g)"
    "\<forall>e \<in> set g. 0 < ve_Line e \<Longrightarrow> su_LastLine (group_summary ds f g) = Max (ve_Line ` set g)"
    using assms foldl_add_error_lines [of g "new_summary ds f (hd g)"]
    by (simp_all add: group_summary_def new_summary_def)
qed (simp_all add: group_summary_def foldl_add_error new_summary_def)

lemma group_summary_snoc:
  "group_summary ds f (g @ [e]) =
    add_error (if g = [] then new_summary ds f e else group_summary ds f g) e"
  by (cases g) (simp_all add: group_summary_def)

abbreviation "with_key k errs \<equiv> filter (\<lambda>e. error_key e = k) errs"

lemma summarize_map:
  "map_of (foldl (summarize_error ds f) [] errs) k =
    (if with_key k errs = [] then None else Some (group_summary ds f (with_key k errs)))"
proof (induction errs rule: rev_induct)
  case (snoc e errs)
  show ?case
  proof (cases "error_key e = k")
    case True
    have "with_key k errs \<noteq> [] \<Longrightarrow> su_Count (group_summary ds f (with_key k errs)) \<noteq> 0"
      by (simp add: group_summary_fields(4))
    then show ?thesis
      using True snoc by (auto simp: summarize_error_def map_of_AList_update_apply group_summary_snoc)
  next
    case False
    then show ?thesis
      using snoc by (simp add: summarize_error_def map_of_AList_update_apply)
  qed
qed simp

lemma summarize_distinct: "distinct (map fst (foldl (summarize_error ds f) [] errs))"
  by (induction errs rule: rev_induct) (simp_all add: summarize_error_def)

lemma summarize_set:
  "set (summarizeValidationErrors order ds f errs) =
    {group_summary ds f (with_key (error_key e) errs) | e. e \<in> set errs}"
proof -
  let ?m = "foldl (summarize_error ds f) [] errs"
  have "set (summarizeValidationErrors order ds f errs) = ran (map_of ?m)"
    using ran_distinct [OF summarize_distinct [of ds f errs]]
    by (simp add: summarizeValidationErrors_def flip: set_mset_mset)
  also have "\<dots> = {group_summary ds f (with_key k errs) | k. with_key k errs \<noteq> []}"
    by (auto simp: ran_def summarize_map split: if_splits)
  also have "\<dots> = {group_summary ds f (with_key (error_key e) errs) | e. e \<in> set errs}"
    by (auto simp: filter_empty_conv)
  finally show ?thesis .
qed

text \<open>The key of a group, from its summary, and when two keys are equal.\<close>

definition group_key :: "string \<times> string \<times> string \<Rightarrow> string" where
  "group_key = (\<lambda>(t, s, d). t @ [CHR 0x00] @ s @ [CHR 0x00] @ d)"

definition error_class :: "ValidationError \<Rightarrow> string \<times> string \<times> string" where
  "error_class e = (ve_Type e, ve_Symbol e, error_day e)"

definition summary_class :: "ValidationErrorSummary \<Rightarrow> string \<times> string \<times> string" where
  "summary_class s = (su_Type s, su_Symbol s, su_Day s)"

lemma error_key_class: "error_key e = group_key (error_class e)"
  by (simp add: error_key_def group_key_def error_class_def)

lemma group_summary_class:
  "g \<noteq> [] \<Longrightarrow> summary_class (group_summary ds f g) = error_class (hd g)"
  by (simp add: summary_class_def error_class_def group_summary_fields)

lemma append_unique_sep:
  "a @ x # b = c @ x # d \<Longrightarrow> x \<notin> set a \<Longrightarrow> x \<notin> set c \<Longrightarrow> a = c \<and> b = d"
proof (induction a arbitrary: c)
  case Nil
  then show ?case by (cases c) auto
next
  case (Cons y a)
  then show ?case by (cases c) auto
qed

lemma append_unique_last_sep:
  assumes "a @ x # b = c @ x # d" "x \<notin> set b" "x \<notin> set d"
  shows "a = c \<and> b = d"
proof -
  have "rev b @ x # rev a = rev d @ x # rev c"
    using arg_cong [OF assms(1), of rev] by simp
  then show ?thesis
    using append_unique_sep [of "rev b" x "rev a" "rev d" "rev c"] assms by simp
qed

lemma FormatInt_no_NUL: "CHR 0x00 \<notin> set (FormatInt x)"
proof -
  have "\<not> is_digit (CHR 0x00)" by (simp add: is_digit_def)
  then have "CHR 0x00 \<notin> set (format_nat n)" for n
    using format_nat_digits [of n] by (auto simp: list_all_iff)
  then show ?thesis by (simp add: FormatInt_def)
qed

lemma error_day_no_NUL: "CHR 0x00 \<notin> set (error_day e)"
  using FormatInt_no_NUL
  by (auto simp: error_day_def day_of_def pad_def Let_def split: prod.splits)

lemma error_key_eq_iff:
  assumes "CHR 0x00 \<notin> set (ve_Type e)" "CHR 0x00 \<notin> set (ve_Type e')"
  shows "error_key e = error_key e' \<longleftrightarrow> error_class e = error_class e'"
proof
  assume "error_key e = error_key e'"
  then have eq: "ve_Type e @ CHR 0x00 # (ve_Symbol e @ CHR 0x00 # error_day e) =
      ve_Type e' @ CHR 0x00 # (ve_Symbol e' @ CHR 0x00 # error_day e')"
    by (simp add: error_key_def)
  have "ve_Type e = ve_Type e'" "ve_Symbol e @ CHR 0x00 # error_day e = ve_Symbol e' @ CHR 0x00 # error_day e'"
    using append_unique_sep [OF eq assms] by auto
  moreover from this(2) have "ve_Symbol e = ve_Symbol e' \<and> error_day e = error_day e'"
    by (rule append_unique_last_sep) (rule error_day_no_NUL)+
  ultimately show "error_class e = error_class e'"
    by (simp add: error_class_def)
qed (simp add: error_key_class)

lemma summarize_class_distinct:
  "distinct (map summary_class (summarizeValidationErrors order ds f errs))"
proof -
  let ?m = "foldl (summarize_error ds f) [] errs"
  have "group_key (summary_class s) = k" if "(k, s) \<in> set ?m" for k s
  proof -
    have "map_of ?m k = Some s"
      using that summarize_distinct by (simp add: map_of_eq_Some_iff)
    then have ne: "with_key k errs \<noteq> []" and s: "s = group_summary ds f (with_key k errs)"
      by (auto simp: summarize_map split: if_splits)
    then have "error_key (hd (with_key k errs)) = k"
      using hd_in_set [OF ne] by simp
    then show ?thesis
      using ne by (simp add: s group_summary_class error_key_class)
  qed
  then have "map (group_key \<circ> summary_class) (map snd ?m) = map fst ?m"
    by (auto simp: comp_def)
  then have "distinct (map group_key (map summary_class (map snd ?m)))"
    using summarize_distinct [of ds f errs] by (metis map_map)
  then have "distinct (map summary_class (map snd ?m))"
    by (rule distinct_map [THEN iffD1, THEN conjunct1])
  moreover have "mset (map summary_class (summarizeValidationErrors order ds f errs)) =
      mset (map summary_class (map snd ?m))"
    by (simp add: summarizeValidationErrors_def multiset.map_comp)
  ultimately show ?thesis
    by (metis mset_eq_imp_distinct_iff)
qed

text \<open>Updating one entry of an association list changes a sum over its values by the difference.\<close>

lemma sum_update_value:
  fixes g :: "'v \<Rightarrow> int"
  assumes "distinct (map fst m)"
  shows "sum_list (map (g \<circ> snd) (AList.update k v m)) =
    sum_list (map (g \<circ> snd) m) + g v - (case map_of m k of None \<Rightarrow> 0 | Some w \<Rightarrow> g w)"
  using assms
proof (induction m)
  case (Cons p m)
  obtain k' w where [simp]: "p = (k', w)" by (cases p)
  show ?case
  proof (cases "k' = k")
    case True
    then have "map_of m k = None"
      using Cons.prems by (auto simp: map_of_eq_None_iff)
    then show ?thesis using True by simp
  qed (use Cons in auto)
qed simp

lemma sum_values: "sum_list (map f (sort_key h (rearrange order (map snd m)))) = sum_list (map (f \<circ> snd) m)"
  for f :: "'v \<Rightarrow> int"
proof -
  have "mset (map f (sort_key h (rearrange order (map snd m)))) = mset (map (f \<circ> snd) m)"
    by (simp add: multiset.map_comp)
  then show ?thesis by (metis sum_mset_sum_list)
qed

lemma sorted_map_fst: "sorted ps \<Longrightarrow> sorted (map fst ps)"
  for ps :: "('a::linorder \<times> 'b::linorder) list"
  by (induction ps) (auto simp: less_eq_prod_def less_imp_le)

lemma summarize_error_sum:
  assumes "distinct (map fst m)" "\<And>s. map_of m (error_key e) = Some s \<Longrightarrow> su_Count s \<noteq> 0"
  shows "sum_list (map (su_Count \<circ> snd) (summarize_error ds f m e)) = sum_list (map (su_Count \<circ> snd) m) + 1"
  using assms(2) sum_update_value [OF assms(1), where g = su_Count and k = "error_key e"]
  by (cases "map_of m (error_key e)") (simp_all add: summarize_error_def new_summary_def)

lemma summarize_count_sum:
  "sum_list (map su_Count (summarizeValidationErrors order ds f errs)) = int (length errs)"
proof -
  have "sum_list (map (su_Count \<circ> snd) (foldl (summarize_error ds f) [] errs)) = int (length errs)"
  proof (induction errs rule: rev_induct)
    case (snoc e errs)
    let ?m = "foldl (summarize_error ds f) [] errs"
    have "sum_list (map (su_Count \<circ> snd) (summarize_error ds f ?m e)) = sum_list (map (su_Count \<circ> snd) ?m) + 1"
      by (rule summarize_error_sum [OF summarize_distinct])
        (auto simp: summarize_map group_summary_fields(4) split: if_splits)
    with snoc show ?case by (simp add: comp_def)
  qed simp
  then show ?thesis
    by (simp add: summarizeValidationErrors_def sum_values)
qed

text \<open>
  The summary of a job's errors groups them by type, symbol and day. No group appears twice,
  every error is in a group, the count of a group is the number of its errors, its first and last lines
  are the least and the greatest of their lines, the counts add up to the number of errors, and
  the groups come in the order of decreasing counts, in whatever order the map is visited.
\<close>

theorem summarize_groups:
  assumes "\<forall>e \<in> set errs. CHR 0x00 \<notin> set (ve_Type e) \<and> 0 < ve_Line e"
  shows "let rows = summarizeValidationErrors order ds f errs in
    distinct (map summary_class rows) \<and>
    (\<forall>e \<in> set errs. error_class e \<in> set (map summary_class rows)) \<and>
    (\<forall>s \<in> set rows. let g = filter (\<lambda>e. error_class e = summary_class s) errs in
      g \<noteq> [] \<and> su_Count s = int (length g) \<and> su_FirstLine s = Min (ve_Line ` set g) \<and>
      su_LastLine s = Max (ve_Line ` set g)) \<and>
    sum_list (map su_Count rows) = int (length errs) \<and> sorted (map (\<lambda>s. - su_Count s) rows)"
proof -
  let ?rows = "summarizeValidationErrors order ds f errs"
  have key: "with_key (error_key e) errs = filter (\<lambda>e'. error_class e' = error_class e) errs"
    if "e \<in> set errs" for e
    using that assms by (auto intro!: filter_cong simp: error_key_eq_iff)
  have cls: "summary_class (group_summary ds f (with_key (error_key e) errs)) = error_class e" if "e \<in> set errs" for e
  proof -
    have ne: "with_key (error_key e) errs \<noteq> []" using that by (auto simp: filter_empty_conv)
    have "hd (with_key (error_key e) errs) \<in> set (with_key (error_key e) errs)" using ne by (rule hd_in_set)
    then have "error_class (hd (with_key (error_key e) errs)) = error_class e"
      unfolding key [OF that] by simp
    then show ?thesis using ne by (simp add: group_summary_class)
  qed
  have groups: "let g = filter (\<lambda>e. error_class e = summary_class s) errs in
      g \<noteq> [] \<and> su_Count s = int (length g) \<and> su_FirstLine s = Min (ve_Line ` set g) \<and>
      su_LastLine s = Max (ve_Line ` set g)" if mem: "s \<in> set ?rows" for s
  proof -
    obtain e where e: "e \<in> set errs" and s: "s = group_summary ds f (with_key (error_key e) errs)"
      using mem unfolding summarize_set by blast
    have g: "filter (\<lambda>e. error_class e = summary_class s) errs = with_key (error_key e) errs"
      using cls [OF e] key [OF e] by (simp add: s)
    have "with_key (error_key e) errs \<noteq> []" using e by (auto simp: filter_empty_conv)
    moreover have "\<forall>e' \<in> set (with_key (error_key e) errs). 0 < ve_Line e'" using assms by simp
    ultimately show ?thesis
      unfolding Let_def g by (simp add: s group_summary_fields)
  qed
  have "sorted (map (\<lambda>s. (- su_Count s, su_Type s, su_Symbol s)) ?rows)"
    by (simp add: summarizeValidationErrors_def)
  then have "sorted (map fst (map (\<lambda>s. (- su_Count s, su_Type s, su_Symbol s)) ?rows))"
    by (rule sorted_map_fst)
  then have "sorted (map (\<lambda>s. - su_Count s) ?rows)" by (simp add: comp_def)
  moreover have "error_class e \<in> set (map summary_class ?rows)" if "e \<in> set errs" for e
    using cls [OF that] that by (force simp: summarize_set)
  ultimately show ?thesis
    using summarize_class_distinct groups summarize_count_sum unfolding Let_def by blast
qed


subsection \<open>The summary over all jobs\<close>

definition counted :: "summaries \<Rightarrow> bool" where
  "counted m \<longleftrightarrow> distinct (map fst m) \<and> (\<forall>s \<in> snd ` set m. 0 < su_Count s)"

definition total :: "summaries \<Rightarrow> int" where
  "total m = sum_list (map (su_Count \<circ> snd) m)"

lemma merge_summary_count [simp]: "su_Count (merge_summary s item) = su_Count s + su_Count item"
  by (simp add: merge_summary_def Let_def)

lemma AList_update_values: "snd ` set (AList.update k v m) \<subseteq> insert v (snd ` set m)"
  by (induction m) auto

lemma merge_item_counted:
  assumes "counted m" "0 < su_Count item"
  shows "counted (merge_item m item)" "total (merge_item m item) = total m + su_Count item"
proof -
  have pos: "0 < su_Count s" if "map_of m (item_key item) = Some s" for s
    using that assms(1) by (force simp: counted_def dest: map_of_SomeD)
  obtain v where v: "merge_item m item = AList.update (item_key item) v m" "0 < su_Count v"
    "su_Count v = su_Count item + (case map_of m (item_key item) of None \<Rightarrow> 0 | Some s \<Rightarrow> su_Count s)"
    using pos assms(2) by (cases "map_of m (item_key item)") (force simp: merge_item_def)+
  show "counted (merge_item m item)"
    using assms(1) v(1,2) AList_update_values [of "item_key item" v m]
    unfolding counted_def v(1) by (metis (no_types, lifting) distinct_AList_update insertE subsetD)
  show "total (merge_item m item) = total m + su_Count item"
    using assms(1) sum_update_value [of m su_Count "item_key item" v] v
    by (simp add: total_def counted_def split: option.splits)
qed

lemma merge_items_counted:
  assumes "counted m" "\<forall>s \<in> set items. 0 < su_Count s"
  shows "counted (foldl merge_item m items) \<and> total (foldl merge_item m items) = total m + sum_list (map su_Count items)"
  using assms by (induction items arbitrary: m) (simp_all add: merge_item_counted)

lemma summarize_positive: "s \<in> set (summarizeValidationErrors order ds f errs) \<Longrightarrow> 0 < su_Count s"
proof -
  assume "s \<in> set (summarizeValidationErrors order ds f errs)"
  then obtain e where e: "e \<in> set errs" "s = group_summary ds f (with_key (error_key e) errs)"
    unfolding summarize_set by blast
  then have "with_key (error_key e) errs \<noteq> []" by (auto simp: filter_empty_conv)
  then show ?thesis by (simp add: e(2) group_summary_fields(4))
qed

context repository
begin

lemma summarize_jobs_total:
  assumes "quiet rt" "inv r"
    and "\<forall>j \<in> set jobs. rj_DatasetID j \<in> dom (db_datasets (db r)) \<and> rj_EventFileID j \<in> dom (db_files (db r))"
    and "counted m"
  shows "\<exists>m' n'. summarize_jobs repo rt jobs m (r, n) = (Inr m', (r, n')) \<and> counted m' \<and>
    total m' = total m + (\<Sum>j \<leftarrow> jobs. int (length (db_errors (db r) (rj_ID j))))"
  using assms(3,4)
proof (induction jobs arbitrary: m n)
  case (Cons j jobs)
  obtain ds f where ds: "db_datasets (db r) (rj_DatasetID j) = Some ds" "db_files (db r) (rj_EventFileID j) = Some f"
    using Cons.prems by auto
  obtain es where es: "call rt (rp_ListValidationErrors repo (rj_ID j)) (r, Suc (Suc n)) = (Inr es, (r, Suc (Suc (Suc n))))"
    "mset es = mset (db_errors (db r) (rj_ID j))"
    using call_reads(5) [OF assms(1,2)] by blast
  let ?items = "summarizeValidationErrors (io_order (rt_io rt (Suc (Suc (Suc n))))) ds f es"
  have "counted (foldl merge_item m ?items)"
    "total (foldl merge_item m ?items) = total m + int (length (db_errors (db r) (rj_ID j)))"
    using merge_items_counted [OF Cons.prems(2), of ?items] summarize_positive
      mset_eq_length [OF es(2)] by (auto simp: summarize_count_sum)
  then obtain m' n' where "summarize_jobs repo rt jobs (foldl merge_item m ?items) (r, Suc (Suc (Suc n))) = (Inr m', (r, n'))"
    "counted m'" "total m' = total m + int (length (db_errors (db r) (rj_ID j))) +
      (\<Sum>j \<leftarrow> jobs. int (length (db_errors (db r) (rj_ID j))))"
    using Cons.IH [of "foldl merge_item m ?items" "Suc (Suc (Suc n))"] Cons.prems by auto
  then show ?case
    using ds es(1) call_reads [OF assms(1,2)] by (simp add: add.assoc)
qed simp

lemma error_summary:
  assumes "quiet rt" "inv r"
  obtains js rows n' where "set js = ran (db_jobs (db r))" "distinct (map rj_ID js)"
    "BuildValidationErrorSummary repo rt (r, n) = (Inr rows, (r, n'))"
    "sum_list (map su_Count rows) = (\<Sum>j \<leftarrow> js. int (length (db_errors (db r) (rj_ID j))))"
    "\<forall>s \<in> set rows. 0 < su_Count s" "sorted (map (\<lambda>s. - su_Count s) rows)"
proof -
  obtain js where js: "call rt (rp_ListReplayJobs repo) (r, n) = (Inr js, (r, Suc n))"
    "distinct (map rj_ID js)" "set js = ran (db_jobs (db r))"
    using call_reads(6) [OF assms] by blast
  have "\<forall>j \<in> set js. rj_DatasetID j \<in> dom (db_datasets (db r)) \<and> rj_EventFileID j \<in> dom (db_files (db r))"
    unfolding js(3) ran_def using wf_db_job(3,4) [OF wf [OF assms(2)]] by blast
  then obtain m n' where m: "summarize_jobs repo rt js [] (r, Suc n) = (Inr m, (r, n'))" "counted m"
    "total m = (\<Sum>j \<leftarrow> js. int (length (db_errors (db r) (rj_ID j))))"
    using summarize_jobs_total [OF assms, of js "[]" "Suc n"] by (auto simp: counted_def total_def)
  let ?rows = "sort_key (\<lambda>s. (- su_Count s, su_Type s, su_FilePath s, su_Symbol s))
     (rearrange (io_order (rt_io rt n')) (map snd m))"
  have "BuildValidationErrorSummary repo rt (r, n) = (Inr ?rows, (r, n'))"
    using js(1) m(1) by (simp add: BuildValidationErrorSummary_def)
  moreover have "sum_list (map su_Count ?rows) = (\<Sum>j \<leftarrow> js. int (length (db_errors (db r) (rj_ID j))))"
    using m(3) by (simp add: sum_values total_def)
  moreover have "\<forall>s \<in> set ?rows. 0 < su_Count s"
    using m(2) by (simp add: counted_def flip: set_mset_mset)
  moreover have "sorted (map (\<lambda>s. - su_Count s) ?rows)"
  proof -
    have "sorted (map (\<lambda>s. (- su_Count s, su_Type s, su_FilePath s, su_Symbol s)) ?rows)" by simp
    from sorted_map_fst [OF this] show ?thesis by (simp add: comp_def)
  qed
  ultimately show ?thesis using that js(2,3) by blast
qed

end

text \<open>
  No stored error is lost from the summary over all jobs, and none is counted twice: the counts of the
  groups, which are positive and in decreasing order, add up to the number of validation errors
  stored for all jobs.
\<close>

theorem error_summary_total:
  assumes "memory_step\<^sup>*\<^sup>* NewMemoryRepository r" "quiet rt"
  shows "\<exists>rows n'. BuildValidationErrorSummary memory_repository rt (r, n) = (Inr rows, (r, n')) \<and>
    sum_list (map su_Count rows) = (\<Sum>i \<in> dom (map_of (mr_jobs r)). int (length (mr_errors r i))) \<and>
    (\<forall>s \<in> set rows. 0 < su_Count s) \<and> sorted (map (\<lambda>s. - su_Count s) rows)"
proof -
  have inv: "memory_inv r"
    using memory_steps_good [OF assms(1) memory_inv_new] by (simp add: good_step_def)
  show ?thesis
  proof (rule memory.error_summary [OF assms(2) inv, of n])
    fix js rows n'
    assume *: "set js = ran (db_jobs (memory_db r))" "distinct (map rj_ID js)"
      "BuildValidationErrorSummary memory_repository rt (r, n) = (Inr rows, (r, n'))"
      "sum_list (map su_Count rows) = (\<Sum>j \<leftarrow> js. int (length (db_errors (memory_db r) (rj_ID j))))"
      "\<forall>s \<in> set rows. 0 < su_Count s" "sorted (map (\<lambda>s. - su_Count s) rows)"
    have ids: "rj_ID ` set js = dom (map_of (mr_jobs r))"
      using *(1) memory_inv_job(1) [OF inv] by (force simp: ran_def dom_def image_iff)
    have "(\<Sum>j \<leftarrow> js. int (length (mr_errors r (rj_ID j)))) =
        sum_list (map (\<lambda>i. int (length (mr_errors r i))) (map rj_ID js))"
      by (simp add: comp_def)
    also have "\<dots> = (\<Sum>i \<in> set (map rj_ID js). int (length (mr_errors r i)))"
      using *(2) by (rule sum_list_distinct_conv_sum_set)
    finally show ?thesis
      using * ids by auto
  qed
qed


subsection \<open>Quality report and lineage\<close>

lemma validationErrorTypes_spec:
  "sorted (validationErrorTypes errs)" "distinct (validationErrorTypes errs)"
  "set (validationErrorTypes errs) = ve_Type ` set errs - {''''}"
proof -
  let ?f = "\<lambda>types e. if ve_Type e = '''' \<or> ve_Type e \<in> set types then types else types @ [ve_Type e]"
  have "distinct (foldl ?f [] errs) \<and> set (foldl ?f [] errs) = ve_Type ` set errs - {''''}"
    by (induction errs rule: rev_induct) auto
  then show "sorted (validationErrorTypes errs)" "distinct (validationErrorTypes errs)"
    "set (validationErrorTypes errs) = ve_Type ` set errs - {''''}"
    by (simp_all add: validationErrorTypes_def)
qed

lemma jobs_by_file_filter:
  "jobs_by_file i jobs k = filter (\<lambda>j. rj_DatasetID j = i \<and> rj_EventFileID j = k) jobs"
  unfolding jobs_by_file_def by (induction jobs rule: rev_induct) auto

definition lineage_row :: "Db \<Rightarrow> ReplayJobLineage \<Rightarrow> bool" where
  "lineage_row d row \<longleftrightarrow> jl_MetricCount row = length (db_metrics d (rj_ID (jl_Job row))) \<and>
     jl_ErrorCount row = length (db_errors d (rj_ID (jl_Job row))) \<and>
     sorted (jl_ErrorTypes row) \<and> distinct (jl_ErrorTypes row) \<and>
     set (jl_ErrorTypes row) = ve_Type ` set (db_errors d (rj_ID (jl_Job row))) - {''''}"

text \<open>The row of a file: its jobs of the data set, each once, oldest first, with their counts.\<close>

definition lineage_file :: "Db \<Rightarrow> string \<Rightarrow> EventFileLineage \<Rightarrow> bool" where
  "lineage_file d i fl \<longleftrightarrow>
     set (map jl_Job (fl_Jobs fl)) =
       {j \<in> ran (db_jobs d). rj_DatasetID j = i \<and> rj_EventFileID j = ef_ID (fl_EventFile fl)} \<and>
     distinct (map (rj_ID \<circ> jl_Job) (fl_Jobs fl)) \<and> sorted (map (rj_CreatedAt \<circ> jl_Job) (fl_Jobs fl)) \<and>
     list_all (lineage_row d) (fl_Jobs fl)"

lemma set_rearrange [simp]: "set (rearrange ks xs) = set xs"
  by (metis mset_rearrange set_mset_mset)

lemma distinct_rearrange_map: "distinct (map f (rearrange ks xs)) = distinct (map f xs)"
  by (metis mset_eq_imp_distinct_iff mset_map mset_rearrange)

context repository
begin

lemma lineage_jobs_rows:
  assumes "quiet rt" "inv r"
  shows "\<exists>rows n'. lineage_jobs repo rt jobs (r, n) = (Inr rows, (r, n')) \<and> map jl_Job rows = jobs \<and>
    list_all (lineage_row (db r)) rows"
proof (induction jobs arbitrary: n)
  case (Cons j jobs)
  obtain es where es: "call rt (rp_ListValidationErrors repo (rj_ID j)) (r, Suc n) = (Inr es, (r, Suc (Suc n)))"
    "mset es = mset (db_errors (db r) (rj_ID j))"
    using call_reads(5) [OF assms] by blast
  obtain rows n' where "lineage_jobs repo rt jobs (r, Suc (Suc n)) = (Inr rows, (r, n'))" "map jl_Job rows = jobs"
    "list_all (lineage_row (db r)) rows"
    using Cons.IH by blast
  moreover have "lineage_row (db r) \<lparr>jl_Job = j, jl_MetricCount = length (db_metrics (db r) (rj_ID j)),
      jl_ErrorCount = length es, jl_ErrorTypes = validationErrorTypes es\<rparr>"
    using mset_eq_length [OF es(2)] mset_eq_setD [OF es(2)]
    by (simp add: lineage_row_def validationErrorTypes_spec)
  ultimately show ?case
    using es(1) call_reads(4) [OF assms] by simp
qed simp

lemma lineage_files_rows:
  assumes "quiet rt" "inv r" "set js = ran (db_jobs (db r))" "distinct (map rj_ID js)"
  shows "\<exists>rows n'. lineage_files repo rt (jobs_by_file i js) fs (r, n) = (Inr rows, (r, n')) \<and>
    map fl_EventFile rows = fs \<and> list_all (lineage_file (db r) i) rows"
proof (induction fs arbitrary: n)
  case (Cons f fs)
  let ?jobs = "jobs_by_file i js (ef_ID f)"
  obtain jr n' where jr: "lineage_jobs repo rt ?jobs (r, n) = (Inr jr, (r, n'))" "map jl_Job jr = ?jobs"
    "list_all (lineage_row (db r)) jr"
    using lineage_jobs_rows [OF assms(1,2)] by blast
  obtain rows n'' where rows: "lineage_files repo rt (jobs_by_file i js) fs (r, n') = (Inr rows, (r, n''))"
    "map fl_EventFile rows = fs" "list_all (lineage_file (db r) i) rows"
    using Cons.IH by blast
  let ?row = "\<lparr>fl_EventFile = f,
    fl_Jobs = sort_key (rj_CreatedAt \<circ> jl_Job) (rearrange (io_order (rt_io rt n')) jr)\<rparr>"
  have "jl_Job ` set jr = {j \<in> ran (db_jobs (db r)). rj_DatasetID j = i \<and> rj_EventFileID j = ef_ID f}"
    using arg_cong [OF jr(2), of set] assms(3) by (auto simp: jobs_by_file_filter)
  moreover have "distinct (map (rj_ID \<circ> jl_Job) jr)"
    using assms(4) arg_cong [OF jr(2), of "map rj_ID"] distinct_map_filter [of rj_ID js]
    by (simp add: jobs_by_file_filter)
  ultimately have "lineage_file (db r) i ?row"
    using jr(3) sorted_sort_key [of "rj_CreatedAt \<circ> jl_Job"]
    by (simp add: lineage_file_def distinct_sort_key distinct_rearrange_map list_all_iff)
  then show ?case
    using jr(1) rows by simp
qed simp

lemma dataset_lineage:
  assumes "quiet rt" "inv r" "db_datasets (db r) i = Some ds"
  shows "\<exists>l n'. BuildDatasetLineage repo rt i (r, n) = (Inr l, (r, n')) \<and> dl_Dataset l = ds \<and>
    set (map fl_EventFile (dl_EventFiles l)) = {f \<in> ran (db_files (db r)). ef_DatasetID f = i} \<and>
    distinct (map (ef_ID \<circ> fl_EventFile) (dl_EventFiles l)) \<and>
    sorted (map (ef_CreatedAt \<circ> fl_EventFile) (dl_EventFiles l)) \<and>
    list_all (lineage_file (db r) i) (dl_EventFiles l)"
proof -
  obtain fs where fs: "call rt (rp_ListEventFiles repo i) (r, Suc n) = (Inr fs, (r, Suc (Suc n)))"
    "distinct (map ef_ID fs)" "set fs = {f \<in> ran (db_files (db r)). ef_DatasetID f = i}"
    using call_reads(7) [OF assms(1,2), of i "Suc n"] assms(3) by blast
  obtain js where js: "call rt (rp_ListReplayJobs repo) (r, Suc (Suc n)) = (Inr js, (r, Suc (Suc (Suc n))))"
    "distinct (map rj_ID js)" "set js = ran (db_jobs (db r))"
    using call_reads(6) [OF assms(1,2)] by blast
  obtain rows n' where rows: "lineage_files repo rt (jobs_by_file i js) fs (r, Suc (Suc (Suc n))) = (Inr rows, (r, n'))"
    "map fl_EventFile rows = fs" "list_all (lineage_file (db r) i) rows"
    using lineage_files_rows [OF assms(1,2) js(3,2)] by blast
  let ?rows = "sort_key (ef_CreatedAt \<circ> fl_EventFile) (rearrange (io_order (rt_io rt n')) rows)"
  have "BuildDatasetLineage repo rt i (r, n) =
      (Inr \<lparr>dl_Dataset = ds, dl_EventFiles = ?rows, dl_GeneratedAt = io_now (rt_io rt (Suc (Suc (Suc n))))\<rparr>, (r, n'))"
    using call_reads(1) [OF assms(1,2)] assms(3) fs(1) js(1) rows(1) by (simp add: BuildDatasetLineage_def)
  moreover have "fl_EventFile ` set rows = {f \<in> ran (db_files (db r)). ef_DatasetID f = i}"
    using arg_cong [OF rows(2), of set] fs(3) by simp
  moreover have "distinct (map (ef_ID \<circ> fl_EventFile) rows)"
    using arg_cong [OF rows(2), of "map ef_ID"] fs(2) by simp
  ultimately show ?thesis
    using rows(3) by (simp add: distinct_sort_key distinct_rearrange_map list_all_iff)
qed

lemma quality_report:
  assumes "quiet rt" "inv r" "db_jobs (db r) i = Some j"
  shows "\<exists>q ds f n'. BuildReplayQualityReport repo rt i (r, n) = (Inr q, (r, n')) \<and>
    qr_Job q = j \<and> qr_Dataset q = ds \<and> db_datasets (db r) (rj_DatasetID j) = Some ds \<and>
    qr_EventFile q = f \<and> db_files (db r) (rj_EventFileID j) = Some f \<and>
    qr_Metrics q = db_metrics (db r) i \<and> mset (qr_Errors q) = mset (db_errors (db r) i) \<and>
    sum_list (map su_Count (qr_ErrorSummary q)) = int (length (db_errors (db r) i))"
proof -
  have wfj: "rj_ID j = i" "rj_DatasetID j \<in> dom (db_datasets (db r))" "rj_EventFileID j \<in> dom (db_files (db r))"
    using wf_db_job [OF wf [OF assms(2)] assms(3)] by auto
  then obtain ds f where ds: "db_datasets (db r) (rj_DatasetID j) = Some ds" "db_files (db r) (rj_EventFileID j) = Some f"
    by blast
  obtain es where es: "call rt (rp_ListValidationErrors repo i) (r, Suc (Suc (Suc (Suc n)))) =
      (Inr es, (r, Suc (Suc (Suc (Suc (Suc n))))))" "mset es = mset (db_errors (db r) i)"
    using call_reads(5) [OF assms(1,2)] by blast
  show ?thesis
    using es ds wfj(1) assms(3) call_reads [OF assms(1,2)] mset_eq_length [OF es(2)]
    by (simp add: BuildReplayQualityReport_def summarize_count_sum)
qed

end

text \<open>
  The lineage of a data set is complete. It lists every event file of the data set once, oldest
  first, and under each file exactly the jobs of the data set on that file, oldest first, with the
  number of their metrics and errors and the sorted list of their error types. A data set that
  does not exist is reported as not found.
\<close>

theorem dataset_lineage_complete:
  assumes "memory_step\<^sup>*\<^sup>* NewMemoryRepository r" "quiet rt"
  shows "(case map_of (mr_datasets r) i of
      None \<Rightarrow> BuildDatasetLineage memory_repository rt i (r, n) = (Inl ErrNotFound, (r, Suc n))
    | Some ds \<Rightarrow> \<exists>l n'. BuildDatasetLineage memory_repository rt i (r, n) = (Inr l, (r, n')) \<and> dl_Dataset l = ds \<and>
        set (map fl_EventFile (dl_EventFiles l)) = {f \<in> ran (map_of (mr_eventFiles r)). ef_DatasetID f = i} \<and>
        distinct (map (ef_ID \<circ> fl_EventFile) (dl_EventFiles l)) \<and>
        sorted (map (ef_CreatedAt \<circ> fl_EventFile) (dl_EventFiles l)) \<and>
        list_all (lineage_file (memory_db r) i) (dl_EventFiles l))"
proof -
  have inv: "memory_inv r"
    using memory_steps_good [OF assms(1) memory_inv_new] by (simp add: good_step_def)
  show ?thesis
  proof (cases "map_of (mr_datasets r) i")
    case None
    then have "call rt (rp_GetDataset memory_repository i) (r, n) = (Inl ErrNotFound, (r, Suc n))"
      using memory.call_reads(1) [OF assms(2) inv, of i n] by (simp add: lookup_def)
    then show ?thesis using None by (simp add: BuildDatasetLineage_def)
  next
    case (Some ds)
    then show ?thesis using memory.dataset_lineage [OF assms(2) inv, of i ds n] by simp
  qed
qed

text \<open>
  A quality report is about one job: the job itself, its data set and file, its metrics, its
  errors as stored, and a summary whose counts add up to the number of these errors; an unknown job is
  reported as not found.
\<close>

theorem quality_report_faithful:
  assumes "memory_step\<^sup>*\<^sup>* NewMemoryRepository r" "quiet rt"
  shows "(case map_of (mr_jobs r) i of
      None \<Rightarrow> BuildReplayQualityReport memory_repository rt i (r, n) = (Inl ErrNotFound, (r, Suc n))
    | Some j \<Rightarrow> \<exists>q n'. BuildReplayQualityReport memory_repository rt i (r, n) = (Inr q, (r, n')) \<and>
        qr_Job q = j \<and> map_of (mr_datasets r) (rj_DatasetID j) = Some (qr_Dataset q) \<and>
        map_of (mr_eventFiles r) (rj_EventFileID j) = Some (qr_EventFile q) \<and>
        qr_Metrics q = mr_metrics r i \<and> mset (qr_Errors q) = mset (mr_errors r i) \<and>
        sum_list (map su_Count (qr_ErrorSummary q)) = int (length (mr_errors r i)))"
proof -
  have inv: "memory_inv r"
    using memory_steps_good [OF assms(1) memory_inv_new] by (simp add: good_step_def)
  show ?thesis
  proof (cases "map_of (mr_jobs r) i")
    case None
    then have "call rt (rp_GetReplayJob memory_repository i) (r, n) = (Inl ErrNotFound, (r, Suc n))"
      using memory.call_reads(3) [OF assms(2) inv, of i n] by (simp add: lookup_def)
    then show ?thesis using None by (simp add: BuildReplayQualityReport_def)
  next
    case (Some j)
    then show ?thesis using memory.quality_report [OF assms(2) inv, of i j n] by auto
  qed
qed

subsection \<open>The theorems at work\<close>

definition sample_errors :: "ValidationError list" where
  "sample_errors = [sample_error\<lparr>ve_Line := 5\<rparr>, sample_error\<lparr>ve_Type := ''ordering''\<rparr>, sample_error\<lparr>ve_Line := 3\<rparr>]"

abbreviation "sample_dataset \<equiv> \<lparr>ds_ID = ''d'', ds_Name = ''demo'', ds_Description = '''', ds_CreatedAt = 1\<rparr>"
abbreviation "sample_file \<equiv> \<lparr>ef_ID = ''f'', ef_DatasetID = ''d'', ef_Path = ''a.csv'', ef_Format = ''auto'',
  ef_Symbol = '''', ef_Bytes = 0, ef_SHA256 = '''', ef_Rows = 0, ef_CreatedAt = 2\<rparr>"

theorem summarize_groups_witness:
  "distinct (map summary_class (summarizeValidationErrors [1] sample_dataset sample_file sample_errors)) \<and>
   sum_list (map su_Count (summarizeValidationErrors [1] sample_dataset sample_file sample_errors)) = 3"
proof -
  have "\<forall>e \<in> set sample_errors. CHR 0x00 \<notin> set (ve_Type e) \<and> 0 < ve_Line e"
    by (simp add: sample_errors_def sample_error_def)
  from summarize_groups [OF this, of "[1]" sample_dataset sample_file] show ?thesis
    by (simp add: Let_def sample_errors_def)
qed

definition sample_runtime :: "'r Runtime" where
  "sample_runtime = \<lparr>rt_io = (\<lambda>n. sample_io (CHR ''q'') (int n)), rt_env = (\<lambda>_ r. r)\<rparr>"

lemma sample_runtime_quiet [simp]: "quiet sample_runtime"
  by (simp add: quiet_def sample_runtime_def)

theorem error_summary_total_witness:
  "\<exists>rows n'. BuildValidationErrorSummary memory_repository sample_runtime (sample_store, 0) = (Inr rows, (sample_store, n')) \<and>
     sum_list (map su_Count rows) = (\<Sum>i \<in> dom (map_of (mr_jobs sample_store)). int (length (mr_errors sample_store i)))"
  using error_summary_total [OF sample_store_reachable sample_runtime_quiet, of 0] by blast

theorem dataset_lineage_complete_witness:
  "\<exists>l n'. BuildDatasetLineage memory_repository sample_runtime ''d'' (sample_store, 0) = (Inr l, (sample_store, n')) \<and>
     dl_Dataset l = sample_dataset \<and> list_all (lineage_file (memory_db sample_store) ''d'') (dl_EventFiles l)"
proof -
  have "map_of (mr_datasets sample_store) ''d'' = Some sample_dataset" by code_simp
  then show ?thesis
    using dataset_lineage_complete [OF sample_store_reachable sample_runtime_quiet, of "''d''" 0] by auto
qed

theorem quality_report_faithful_witness:
  "\<exists>q n'. BuildReplayQualityReport memory_repository sample_runtime ''j'' (sample_store, 0) = (Inr q, (sample_store, n')) \<and>
     rj_ID (qr_Job q) = io_uuid (sample_io (CHR ''j'') 3) 0"
  using quality_report_faithful [OF sample_store_reachable sample_runtime_quiet, of "''j''" 0]
  by (auto simp: sample_store_values)

end
