(* ===== verification/Http_Api.thy ===== *)
theory Http_Api
  imports Store_Reports Job_Queue Observability Go_Csv
begin

section \<open>internal/api: the HTTP server\<close>

text \<open>
  \<^verbatim>\<open>server.go\<close>: the routes and one handler per route. A handler gets the parameter \<^verbatim>\<open>:id\<close> of the path
  and the body of the request, makes its calls on the repository and answers with a status and a
  body. Bodies are kept as the values that are serialised; the CSV report is the bytes written.
  Gin's router and its decoding of a JSON body are not code of this repository: the decoding is a parameter
  (\<open>Binding\<close>), and a request comes with the endpoint its path leads to. The
  optional function \<^verbatim>\<open>SubmitReplayJob\<close> works on a state of its own, the queue.
\<close>

record errorResponse =
  er_Error :: string
  er_Message :: string

datatype body =
    BodyStatus string
  | BodyDataset Dataset
  | BodyDatasets "Dataset list"
  | BodyEventFile EventFile
  | BodyJob ReplayJob
  | BodyLineage DatasetLineage
  | BodyReport ReplayQualityReport
  | BodyCSV bytes
  | BodyMetrics "StoreMetric list"
  | BodyErrors "ValidationError list"
  | BodySummary "ValidationErrorSummary list"
  | BodyError errorResponse

record Response =
  rs_Status :: int
  rs_Header :: "(string \<times> string) list"
  rs_Body :: body

record Request =
  rq_Param :: string
  rq_Body :: bytes

record Binding =
  bi_Dataset :: "bytes \<Rightarrow> CreateDatasetParams option"
  bi_EventFile :: "bytes \<Rightarrow> CreateEventFileParams option"
  bi_ReplayJob :: "bytes \<Rightarrow> CreateReplayJobParams option"

datatype api_error = ApiStore store_error | ApiQueue queue_error

type_synonym ('r, 'c) api_state = "'r calls \<times> 'c"

type_synonym ('r, 'c) submit =
  "'r Runtime \<Rightarrow> CreateReplayJobParams \<Rightarrow> ('r, 'c) api_state \<Rightarrow> (ReplayJob \<times> api_error option) \<times> ('r, 'c) api_state"

record ('r, 'c) Server =
  sv_repo :: "'r Repository"
  sv_submitReplay :: "('r, 'c) submit option"

type_synonym ('r, 'c) handler = "'r Runtime \<Rightarrow> Request \<Rightarrow> ('r, 'c) api_state \<Rightarrow> Response \<times> ('r, 'c) api_state"

subsection \<open>Answers\<close>

definition JSON :: "int \<Rightarrow> body \<Rightarrow> Response" where
  "JSON status b = \<lparr>rs_Status = status, rs_Header = [], rs_Body = b\<rparr>"

definition writeError :: "int \<Rightarrow> string \<Rightarrow> string \<Rightarrow> Response" where
  "writeError status code message = JSON status (BodyError \<lparr>er_Error = code, er_Message = message\<rparr>)"

definition writeStoreError :: "api_error \<Rightarrow> Response" where
  "writeStoreError err =
     (case err of
        ApiStore ErrNotFound \<Rightarrow> writeError 404 ''not_found'' ''requested resource was not found''
      | ApiStore ErrAlreadyExists \<Rightarrow> writeError 409 ''already_exists'' ''resource already exists''
      | _ \<Rightarrow> writeError 500 ''internal_error'' ''internal server error'')"

definition invalid_request :: "string \<Rightarrow> Response" where
  "invalid_request message = writeError 400 ''invalid_request'' message"

definition bindJSON :: "(bytes \<Rightarrow> 'a option) \<Rightarrow> bytes \<Rightarrow> Response + 'a" where
  "bindJSON bind body =
     (case bind body of
        None \<Rightarrow> Inl (writeError 400 ''invalid_json'' ''request body must be valid JSON'')
      | Some req \<Rightarrow> Inr req)"

text \<open>A sequence of calls on the repository that ends in an answer, or in the answer to its error.\<close>

definition respond ::
  "('r calls \<Rightarrow> (store_error + 'a) \<times> 'r calls) \<Rightarrow> ('a \<Rightarrow> Response) \<Rightarrow> ('r, 'c) api_state \<Rightarrow> Response \<times> ('r, 'c) api_state" where
  "respond m k = (\<lambda>(s, c).
     case m s of (Inl e, s') \<Rightarrow> (writeStoreError (ApiStore e), (s', c)) | (Inr a, s') \<Rightarrow> (k a, (s', c)))"

subsection \<open>Handlers\<close>

definition healthz :: "('r, 'c) handler" where
  "healthz rt rq st = (JSON 200 (BodyStatus ''ok''), st)"

definition createDataset :: "('r, 'c) Server \<Rightarrow> Binding \<Rightarrow> ('r, 'c) handler" where
  "createDataset sv bi rt rq st =
     (case bindJSON (bi_Dataset bi) (rq_Body rq) of
        Inl resp \<Rightarrow> (resp, st)
      | Inr req0 \<Rightarrow>
          (let req = req0\<lparr>cd_Name := TrimSpace (cd_Name req0), cd_Description := TrimSpace (cd_Description req0)\<rparr>
           in if cd_Name req = '''' then (invalid_request ''name is required'', st)
              else respond (call rt (rp_CreateDataset (sv_repo sv) req)) (\<lambda>d. JSON 201 (BodyDataset d)) st))"

definition listDatasets :: "('r, 'c) Server \<Rightarrow> ('r, 'c) handler" where
  "listDatasets sv rt rq = respond (call rt (rp_ListDatasets (sv_repo sv))) (\<lambda>ds. JSON 200 (BodyDatasets ds))"

definition createEventFile :: "('r, 'c) Server \<Rightarrow> Binding \<Rightarrow> ('r, 'c) handler" where
  "createEventFile sv bi rt rq st =
     (case bindJSON (bi_EventFile bi) (rq_Body rq) of
        Inl resp \<Rightarrow> (resp, st)
      | Inr req0 \<Rightarrow>
          (let req = req0\<lparr>ce_DatasetID := TrimSpace (ce_DatasetID req0), ce_Path := TrimSpace (ce_Path req0),
                          ce_Format := TrimSpace (ce_Format req0), ce_Symbol := TrimSpace (ce_Symbol req0)\<rparr>
           in if ce_DatasetID req = '''' then (invalid_request ''dataset_id is required'', st)
              else if ce_Path req = '''' then (invalid_request ''path is required'', st)
              else if ce_Format req = '''' then (invalid_request ''format is required'', st)
              else if ce_Bytes req < 0 then (invalid_request ''bytes must be greater than or equal to zero'', st)
              else let req1 = req\<lparr>ce_SHA256 := TrimSpace (ce_SHA256 req)\<rparr>
                   in if ce_Rows req1 < 0 then (invalid_request ''rows must be greater than or equal to zero'', st)
                      else respond (call rt (rp_CreateEventFile (sv_repo sv) req1)) (\<lambda>f. JSON 201 (BodyEventFile f)) st))"

definition trim_job :: "CreateReplayJobParams \<Rightarrow> CreateReplayJobParams" where
  "trim_job req = req\<lparr>cj_DatasetID := TrimSpace (cj_DatasetID req), cj_EventFileID := TrimSpace (cj_EventFileID req),
     cj_IdempotencyKey := TrimSpace (cj_IdempotencyKey req), cj_Symbol := TrimSpace (cj_Symbol req),
     cj_Speed := TrimSpace (cj_Speed req)\<rparr>"

definition repo_submit :: "'r Repository \<Rightarrow> ('r, 'c) submit" where
  "repo_submit repo rt p = (\<lambda>(s, c).
     case call rt (rp_CreateReplayJob repo p) s of ((job, err), s') \<Rightarrow> ((job, map_option ApiStore err), (s', c)))"

definition createReplayJob :: "('r, 'c) Server \<Rightarrow> Binding \<Rightarrow> ('r, 'c) handler" where
  "createReplayJob sv bi rt rq st =
     (case bindJSON (bi_ReplayJob bi) (rq_Body rq) of
        Inl resp \<Rightarrow> (resp, st)
      | Inr req0 \<Rightarrow>
          (let req = trim_job req0
           in if cj_DatasetID req = '''' then (invalid_request ''dataset_id is required'', st)
              else if cj_EventFileID req = '''' then (invalid_request ''event_file_id is required'', st)
              else if cj_Speed req = '''' then (invalid_request ''speed is required'', st)
              else let submit = (case sv_submitReplay sv of None \<Rightarrow> repo_submit (sv_repo sv) | Some f \<Rightarrow> f)
                   in case submit rt req st of
                        ((job, Some err), st') \<Rightarrow>
                          (if err = ApiStore ErrAlreadyExists then (JSON 200 (BodyJob job), st')
                           else (writeStoreError err, st'))
                      | ((job, None), st') \<Rightarrow> (JSON 201 (BodyJob job), st')))"

definition getReplayJob :: "('r, 'c) Server \<Rightarrow> ('r, 'c) handler" where
  "getReplayJob sv rt rq = respond (call rt (rp_GetReplayJob (sv_repo sv) (rq_Param rq))) (\<lambda>j. JSON 200 (BodyJob j))"

definition getDatasetLineage :: "('r, 'c) Server \<Rightarrow> ('r, 'c) handler" where
  "getDatasetLineage sv rt rq =
     respond (BuildDatasetLineage (sv_repo sv) rt (rq_Param rq)) (\<lambda>l. JSON 200 (BodyLineage l))"

definition getReplayQualityReport :: "('r, 'c) Server \<Rightarrow> ('r, 'c) handler" where
  "getReplayQualityReport sv rt rq =
     respond (BuildReplayQualityReport (sv_repo sv) rt (rq_Param rq)) (\<lambda>q. JSON 200 (BodyReport q))"

definition csv_header_row :: "string list" where
  "csv_header_row = [''job_id'', ''line'', ''symbol'', ''type'', ''message'', ''created_at'']"

definition csv_error_row :: "ValidationError \<Rightarrow> string list" where
  "csv_error_row e =
     [ve_JobID e, FormatInt (ve_Line e), ve_Symbol e, ve_Type e, ve_Message e, rfc3339 (ve_CreatedAt e)]"

text \<open>The writes go to the response, which takes them all.\<close>

definition getReplayQualityReportCSV :: "('r, 'c) Server \<Rightarrow> ('r, 'c) handler" where
  "getReplayQualityReportCSV sv rt rq =
     respond (BuildReplayQualityReport (sv_repo sv) rt (rq_Param rq)) (\<lambda>report.
       \<lparr>rs_Status = 200,
        rs_Header = [(''Content-Type'', ''text/csv; charset=utf-8''),
          (''Content-Disposition'', ''attachment; filename='' @ [CHR 0x22] @ rj_ID (qr_Job report) @ ''-quality-report.csv'' @ [CHR 0x22])],
        rs_Body = BodyCSV (csv_write csv_header_row @ concat (map (csv_write \<circ> csv_error_row) (qr_Errors report)))\<rparr>)"

definition ensureJobExists :: "('r, 'c) Server \<Rightarrow> 'r Runtime \<Rightarrow> Request \<Rightarrow> 'r calls \<Rightarrow> (store_error + ReplayJob) \<times> 'r calls" where
  "ensureJobExists sv rt rq = call rt (rp_GetReplayJob (sv_repo sv) (rq_Param rq))"

definition listReplayMetrics :: "('r, 'c) Server \<Rightarrow> ('r, 'c) handler" where
  "listReplayMetrics sv rt rq =
     respond (try_call (ensureJobExists sv rt rq) (\<lambda>_. call rt (rp_ListReplayMetrics (sv_repo sv) (rq_Param rq))))
       (\<lambda>ms. JSON 200 (BodyMetrics ms))"

definition listValidationErrors :: "('r, 'c) Server \<Rightarrow> ('r, 'c) handler" where
  "listValidationErrors sv rt rq =
     respond (try_call (ensureJobExists sv rt rq) (\<lambda>_. call rt (rp_ListValidationErrors (sv_repo sv) (rq_Param rq))))
       (\<lambda>es. JSON 200 (BodyErrors es))"

definition listValidationErrorSummary :: "('r, 'c) Server \<Rightarrow> ('r, 'c) handler" where
  "listValidationErrorSummary sv rt rq =
     respond (BuildValidationErrorSummary (sv_repo sv) rt) (\<lambda>ss. JSON 200 (BodySummary ss))"

definition cancelReplayJob :: "('r, 'c) Server \<Rightarrow> ('r, 'c) handler" where
  "cancelReplayJob sv rt rq = respond (call rt (rp_CancelReplayJob (sv_repo sv) (rq_Param rq))) (\<lambda>j. JSON 200 (BodyJob j))"

subsection \<open>Routes\<close>

datatype endpoint = EHealthz | ECreateDataset | EListDatasets | EDatasetLineage | ECreateEventFile | ECreateReplayJob
  | EReport | EReportCSV | EGetReplayJob | EListMetrics | EListErrors | ECancel | ESummary

definition routes :: "(string \<times> string \<times> endpoint) list" where
  "routes =
     [(''GET'', ''/healthz'', EHealthz),
      (''POST'', ''/datasets'', ECreateDataset),
      (''GET'', ''/datasets'', EListDatasets),
      (''GET'', ''/datasets/:id/lineage'', EDatasetLineage),
      (''POST'', ''/event-files'', ECreateEventFile),
      (''POST'', ''/replay-jobs'', ECreateReplayJob),
      (''GET'', ''/replay-jobs/:id/report'', EReport),
      (''GET'', ''/replay-jobs/:id/report.csv'', EReportCSV),
      (''GET'', ''/replay-jobs/:id'', EGetReplayJob),
      (''GET'', ''/replay-jobs/:id/metrics'', EListMetrics),
      (''GET'', ''/replay-jobs/:id/errors'', EListErrors),
      (''POST'', ''/replay-jobs/:id/cancel'', ECancel),
      (''GET'', ''/validation-errors/summary'', ESummary)]"

fun serve :: "('r, 'c) Server \<Rightarrow> Binding \<Rightarrow> endpoint \<Rightarrow> ('r, 'c) handler" where
  "serve sv bi EHealthz = healthz"
| "serve sv bi ECreateDataset = createDataset sv bi"
| "serve sv bi EListDatasets = listDatasets sv"
| "serve sv bi EDatasetLineage = getDatasetLineage sv"
| "serve sv bi ECreateEventFile = createEventFile sv bi"
| "serve sv bi ECreateReplayJob = createReplayJob sv bi"
| "serve sv bi EReport = getReplayQualityReport sv"
| "serve sv bi EReportCSV = getReplayQualityReportCSV sv"
| "serve sv bi EGetReplayJob = getReplayJob sv"
| "serve sv bi EListMetrics = listReplayMetrics sv"
| "serve sv bi EListErrors = listValidationErrors sv"
| "serve sv bi ECancel = cancelReplayJob sv"
| "serve sv bi ESummary = listValidationErrorSummary sv"

text \<open>
  \<^verbatim>\<open>cmd/server/main.go\<close> with a queue configured: the function submits through the enqueuer and drops the
  information on the task.
\<close>

definition SubmitReplayJob ::
  "(bytes \<Rightarrow> string) \<Rightarrow> ('r, 'c, 'i) ReplayEnqueuer \<Rightarrow> ('r, 'c) submit" where
  "SubmitReplayJob sha256_hex enqueuer rt p = (\<lambda>(s, c).
     case SubmitReplay sha256_hex enqueuer rt p s c of
       (Inl (QueueStore e), s', c') \<Rightarrow> ((zero_ReplayJob, Some (ApiStore e)), (s', c'))
     | (Inl e, s', c') \<Rightarrow> ((zero_ReplayJob, Some (ApiQueue e)), (s', c'))
     | (Inr (job, _), s', c') \<Rightarrow> ((job, None), (s', c')))"


subsection \<open>Reading requests\<close>

text \<open>Calls on the memory store that change nothing and fail, if at all, because something is missing.\<close>

definition harmless :: "(MemoryRepository calls \<Rightarrow> (store_error + 'a) \<times> MemoryRepository calls) \<Rightarrow> bool" where
  "harmless m \<longleftrightarrow> (\<forall>s. fst (snd (m s)) = fst s \<and> (\<forall>e. fst (m s) = Inl e \<longrightarrow> e = ErrNotFound))"

lemma harmless_try: 
  assumes "harmless m" "\<And>a. harmless (k a)"
  shows "harmless (try_call m k)"
proof -
  have "fst (snd (try_call m k s)) = fst s \<and> (\<forall>e. fst (try_call m k s) = Inl e \<longrightarrow> e = ErrNotFound)" for s
  proof -
    obtain res s' where m: "m s = (res, s')" by (cases "m s")
    have s': "fst s' = fst s" "\<forall>e. res = Inl e \<longrightarrow> e = ErrNotFound"
      using assms(1) m unfolding harmless_def by (metis fst_conv snd_conv)+
    show ?thesis
      using s' assms(2) [unfolded harmless_def, rule_format] m
      by (cases res) (simp_all add: try_call_def)
  qed
  then show ?thesis by (simp add: harmless_def)
qed

lemma harmless_split: "(\<And>r n. harmless (g r n)) \<Longrightarrow> harmless (\<lambda>(r, n). g r n (r, n))"
  by (auto simp: harmless_def)

lemma harmless_calls:
  assumes "quiet rt"
  shows "harmless (call rt (rp_GetDataset memory_repository i))" "harmless (call rt (rp_GetEventFile memory_repository i))"
    "harmless (call rt (rp_GetReplayJob memory_repository i))" "harmless (call rt (rp_ListDatasets memory_repository))"
    "harmless (call rt (rp_ListEventFiles memory_repository i))" "harmless (call rt (rp_ListReplayJobs memory_repository))"
    "harmless (call rt (rp_ListReplayMetrics memory_repository i))"
    "harmless (call rt (rp_ListValidationErrors memory_repository i))"
  using assms
  by (auto simp: harmless_def call_def quiet_def memory_repository_def GetDataset_def GetEventFile_def GetReplayJob_def
      ListDatasets_def ListEventFiles_def ListReplayJobs_def ListReplayMetrics_def ListValidationErrors_def
      split: option.splits)

lemma harmless_return: "harmless (\<lambda>s. (Inr (f s), s))" "harmless (\<lambda>(r, n). (Inr (g r n), (r, n)))"
  by (auto simp: harmless_def)

lemma harmless_loops:
  assumes "quiet rt"
  shows "harmless (lineage_jobs memory_repository rt jobs)"
    "harmless (lineage_files memory_repository rt byFile files)"
    "harmless (summarize_jobs memory_repository rt jobs m)"
proof -
  show jobs: "harmless (lineage_jobs memory_repository rt jobs)" for jobs
  proof (induction jobs)
    case (Cons j jobs)
    show ?case
      unfolding ext [OF lineage_jobs.simps(2)]
      by (intro harmless_try harmless_calls harmless_return Cons.IH assms)
  qed (simp add: harmless_def)
  show "harmless (lineage_files memory_repository rt byFile files)"
  proof (induction files)
    case (Cons f files)
    show ?case
      unfolding ext [OF lineage_files.simps(2)]
      by (intro harmless_try harmless_split jobs harmless_return Cons.IH)
  qed (simp add: harmless_def)
  show "harmless (summarize_jobs memory_repository rt jobs m)"
  proof (induction jobs arbitrary: m)
    case (Cons j jobs)
    show ?case
      unfolding ext [OF summarize_jobs.simps(2)]
      by (intro harmless_try harmless_calls harmless_split Cons.IH assms)
  qed (simp add: harmless_def)
qed

lemma harmless_reports:
  assumes "quiet rt"
  shows "harmless (BuildDatasetLineage memory_repository rt i)" "harmless (BuildReplayQualityReport memory_repository rt i)"
    "harmless (BuildValidationErrorSummary memory_repository rt)"
  unfolding ext [OF BuildDatasetLineage_def] ext [OF BuildReplayQualityReport_def] ext [OF BuildValidationErrorSummary_def]
  by (intro harmless_try harmless_calls harmless_split harmless_loops harmless_return assms)+

lemma respond_harmless:
  assumes "harmless m"
  shows "\<exists>n'. respond m k ((r, n), c) =
    (case fst (m (r, n)) of Inl e \<Rightarrow> writeStoreError (ApiStore ErrNotFound) | Inr a \<Rightarrow> k a, ((r, n'), c))"
proof -
  obtain res r' n' where m: "m (r, n) = (res, (r', n'))" by (metis prod_cases3)
  have "r' = r" "\<forall>e. res = Inl e \<longrightarrow> e = ErrNotFound"
    using assms m unfolding harmless_def by (metis fst_conv snd_conv)+
  then show ?thesis using m by (cases res) (auto simp: respond_def)
qed


subsection \<open>What a request does\<close>

lemma JSON_eq [simp]: "JSON st b = JSON st' b' \<longleftrightarrow> st = st' \<and> b = b'"
  by (simp add: JSON_def)

lemma statuses [simp]:
  "rs_Status (JSON st b) = st" "rs_Status (writeError st code m) = st" "rs_Status (invalid_request m) = 400"
  "rs_Status (writeStoreError (ApiStore ErrNotFound)) = 404"
  by (simp_all add: JSON_def writeError_def invalid_request_def writeStoreError_def)

definition answers :: "Response \<times> (MemoryRepository, 'c) api_state \<Rightarrow> MemoryRepository \<Rightarrow> 'c \<Rightarrow> int set \<Rightarrow> bool" where
  "answers out r c codes \<longleftrightarrow> (\<exists>resp n. out = (resp, ((r, n), c)) \<and> rs_Status resp \<in> codes)"

lemma answers_mono: "answers out r c codes \<Longrightarrow> codes \<subseteq> codes' \<Longrightarrow> answers out r c codes'"
  by (auto simp: answers_def)

lemma respond_read:
  "harmless m \<Longrightarrow> (\<And>a. rs_Status (k a) = 200) \<Longrightarrow> answers (respond m k ((r, n), c)) r c {200, 404}"
  using respond_harmless [of m k r n c] by (auto simp: answers_def split: sum.splits)

lemma serve_reads:
  assumes "sv_repo sv = memory_repository" "quiet rt" "ep \<notin> {ECreateDataset, ECreateEventFile, ECreateReplayJob, ECancel}"
  shows "answers (serve sv bi ep rt rq ((r, n), c)) r c {200, 404}"
proof -
  note h = harmless_calls [OF assms(2)] harmless_reports [OF assms(2)]
  have "harmless (ensureJobExists sv rt rq)" by (simp add: ensureJobExists_def assms(1) h)
  note h = h harmless_try [OF this]
  have "answers (healthz rt rq ((r, n), c)) r c {200, 404}"
    by (simp add: healthz_def answers_def)
  then show ?thesis
    using assms(3)
    by (cases ep) (simp_all add: listDatasets_def getDatasetLineage_def getReplayQualityReport_def
        getReplayQualityReportCSV_def getReplayJob_def listReplayMetrics_def listValidationErrors_def
        listValidationErrorSummary_def assms(1) h respond_read)
qed

text \<open>
  What a request that is answered with success has done to the store. A creation adds exactly one row, with a
  new identifier and the trimmed fields of the request, and answers with that row; a
  cancellation replaces the job of the path by the canceled one and answers with it.
\<close>

definition carried_out ::
  "Binding \<Rightarrow> endpoint \<Rightarrow> Request \<Rightarrow> Io \<Rightarrow> Response \<Rightarrow> MemoryRepository \<Rightarrow> MemoryRepository \<Rightarrow> bool" where
  "carried_out bi ep rq io resp r r' \<longleftrightarrow> (let d = memory_db r in
     (\<exists>req x. ep = ECreateDataset \<and> bi_Dataset bi (rq_Body rq) = Some req \<and> resp = JSON 201 (BodyDataset x) \<and>
        ds_ID x \<notin> dom (db_datasets d) \<and> ds_Name x = TrimSpace (cd_Name req) \<and> ds_Name x \<noteq> '''' \<and>
        memory_db r' = d\<lparr>db_datasets := (db_datasets d)(ds_ID x \<mapsto> x)\<rparr>) \<or>
     (\<exists>req x. ep = ECreateEventFile \<and> bi_EventFile bi (rq_Body rq) = Some req \<and> resp = JSON 201 (BodyEventFile x) \<and>
        ef_ID x \<notin> dom (db_files d) \<and> ef_Path x = TrimSpace (ce_Path req) \<and>
        ef_DatasetID x = TrimSpace (ce_DatasetID req) \<and> ef_DatasetID x \<in> dom (db_datasets d) \<and>
        memory_db r' = d\<lparr>db_files := (db_files d)(ef_ID x \<mapsto> x)\<rparr>) \<or>
     (\<exists>req. ep = ECreateReplayJob \<and> bi_ReplayJob bi (rq_Body rq) = Some req \<and>
        resp = JSON 201 (BodyJob (new_job io (trim_job req))) \<and> io_uuid io 0 \<notin> dom (db_jobs d) \<and>
        memory_db r' = insert_job (new_job io (trim_job req)) d) \<or>
     (\<exists>j j'. ep = ECancel \<and> db_jobs d (rq_Param rq) = Some j \<and> j' = with_status (io_now io) JobStatusCanceled '''' j \<and>
        resp = JSON 200 (BodyJob j') \<and> memory_db r' = put_job (rq_Param rq) j' d))"

text \<open>A request is carried out, as one step of the store, or leaves the store as it was.\<close>

definition outcome ::
  "Binding \<Rightarrow> endpoint \<Rightarrow> Request \<Rightarrow> Io \<Rightarrow> MemoryRepository \<Rightarrow> 'c \<Rightarrow> Response \<times> (MemoryRepository, 'c) api_state \<Rightarrow> bool" where
  "outcome bi ep rq io r c out \<longleftrightarrow> (\<exists>resp r' n'. out = (resp, ((r', n'), c)) \<and>
     (carried_out bi ep rq io resp r r' \<and> (\<exists>op. r' = exec_op op io r) \<or>
      r' = r \<and> (rs_Status resp \<in> {400, 404} \<or> rs_Status resp = 200 \<and> ep \<notin> {ECreateDataset, ECreateEventFile, ECancel})))"

lemma outcome_refused [simp]:
  "outcome bi ep rq io r c (invalid_request m, ((r, n), c))" "outcome bi ep rq io r c (writeError 400 code m, ((r, n), c))"
  "outcome bi ep rq io r c (writeStoreError (ApiStore ErrNotFound), ((r, n), c))"
  by (simp_all add: outcome_def)

lemma outcome_carried_out:
  "carried_out bi ep rq io resp r (exec_op op io r) \<Longrightarrow> outcome bi ep rq io r c (resp, ((exec_op op io r, n'), c))"
  unfolding outcome_def by blast

lemma fresh_io_uuid:
  "fresh_io io (memory_db r) \<Longrightarrow> io_uuid io n \<notin> dom (map_of (mr_datasets r)) \<and> io_uuid io n \<notin> dom (map_of (mr_eventFiles r)) \<and>
    io_uuid io n \<notin> dom (map_of (mr_jobs r))"
  by (simp add: fresh_io_def)

lemma outcome_createDataset:
  assumes "sv_repo sv = memory_repository" "quiet rt" "fresh_io (rt_io rt n) (memory_db r)"
  shows "outcome bi ECreateDataset rq (rt_io rt n) r c (createDataset sv bi rt rq ((r, n), c))"
proof -
  let ?io = "rt_io rt n"
  have "outcome bi ECreateDataset rq ?io r c (respond (call rt (rp_CreateDataset memory_repository p)) (\<lambda>d. JSON 201 (BodyDataset d)) ((r, n), c))"
    if "bi_Dataset bi (rq_Body rq) = Some req" "cd_Name p = TrimSpace (cd_Name req)" "cd_Name p \<noteq> ''''" for p req
    using that assms(2) fresh_io_uuid [OF assms(3), of 0]
      outcome_carried_out [of bi ECreateDataset rq ?io "JSON 201 (BodyDataset (sum.projr (fst (CreateDataset p ?io r))))" r "OpCreateDataset p" c "Suc n"]
    by (simp add: respond_def call_def quiet_def memory_repository_def CreateDataset_def Let_def carried_out_def memory_db_new_row)
  then show ?thesis
    by (simp add: createDataset_def bindJSON_def assms(1) Let_def split: option.split)
qed

lemma outcome_createEventFile:
  assumes "sv_repo sv = memory_repository" "quiet rt" "fresh_io (rt_io rt n) (memory_db r)"
  shows "outcome bi ECreateEventFile rq (rt_io rt n) r c (createEventFile sv bi rt rq ((r, n), c))"
proof -
  let ?io = "rt_io rt n"
  have "outcome bi ECreateEventFile rq ?io r c (respond (call rt (rp_CreateEventFile memory_repository p)) (\<lambda>f. JSON 201 (BodyEventFile f)) ((r, n), c))"
    if "bi_EventFile bi (rq_Body rq) = Some req" "ce_Path p = TrimSpace (ce_Path req)" "ce_DatasetID p = TrimSpace (ce_DatasetID req)" for p req
  proof (cases "map_of (mr_datasets r) (ce_DatasetID p)")
    case None
    then show ?thesis
      using assms(2) by (simp add: respond_def call_def quiet_def memory_repository_def CreateEventFile_def)
  next
    case (Some d)
    then show ?thesis
      using that assms(2) fresh_io_uuid [OF assms(3), of 0]
        outcome_carried_out [of bi ECreateEventFile rq ?io "JSON 201 (BodyEventFile (sum.projr (fst (CreateEventFile p ?io r))))" r "OpCreateEventFile p" c "Suc n"]
      by (simp add: respond_def call_def quiet_def memory_repository_def CreateEventFile_def Let_def carried_out_def memory_db_new_row domIff)
  qed
  then show ?thesis
    by (simp add: createEventFile_def bindJSON_def assms(1) Let_def split: option.split)
qed

lemma outcome_cancelReplayJob:
  assumes "sv_repo sv = memory_repository" "quiet rt" "memory_inv r"
  shows "outcome bi ECancel rq (rt_io rt n) r c (cancelReplayJob sv rt rq ((r, n), c))"
proof (cases "map_of (mr_jobs r) (rq_Param rq)")
  case None
  then show ?thesis
    using assms(2) by (simp add: cancelReplayJob_def respond_def call_def quiet_def assms(1) memory_repository_def
        CancelReplayJob_def UpdateReplayJobStatus_def)
next
  case (Some j)
  let ?io = "rt_io rt n"
  let ?j' = "with_status (io_now ?io) JobStatusCanceled '''' j"
  obtain r' where r': "CancelReplayJob (rq_Param rq) ?io r = (Inr ?j', r')" "memory_db r' = put_job (rq_Param rq) ?j' (memory_db r)"
    using memory.UpdateReplayJobStatus [OF assms(3), of "rq_Param rq" j JobStatusCanceled "''''" ?io] Some
    by (auto simp: memory_repository_def CancelReplayJob_def)
  have "carried_out bi ECancel rq ?io (JSON 200 (BodyJob ?j')) r (exec_op (OpCancelReplayJob (rq_Param rq)) ?io r)"
    using Some r' by (simp add: carried_out_def)
  from outcome_carried_out [OF this, of c "Suc n"] show ?thesis
    using assms(2) r'(1) by (simp add: cancelReplayJob_def respond_def call_def quiet_def assms(1) memory_repository_def)
qed

lemma outcome_createReplayJob:
  assumes "sv_repo sv = memory_repository" "sv_submitReplay sv = None" "quiet rt" "memory_inv r"
    "fresh_io (rt_io rt n) (memory_db r)"
  shows "outcome bi ECreateReplayJob rq (rt_io rt n) r c (createReplayJob sv bi rt rq ((r, n), c))"
proof (cases "bi_ReplayJob bi (rq_Body rq)")
  case None
  then show ?thesis by (simp add: createReplayJob_def bindJSON_def)
next
  case (Some req)
  let ?io = "rt_io rt n" and ?p = "trim_job req"
  let ?create = "rp_CreateReplayJob memory_repository ?p ?io r"
  have key: "db_keys (memory_db r) '''' = None"
    using wf_db_key [OF memory.wf [OF assms(4)], of "''''"] by (cases "db_keys (memory_db r) ''''") auto
  consider (new) r' where "?create = ((new_job ?io ?p, None), r')" "memory_db r' = insert_job (new_job ?io ?p) (memory_db r)"
    | (same) j e where "?create = ((j, Some e), r)" "e \<in> {ErrNotFound, ErrAlreadyExists}"
  proof (cases "fst ?create")
    case (Pair j err)
    show thesis
    proof (cases err)
      case None
      then have dom: "cj_DatasetID ?p \<in> dom (db_datasets (memory_db r))" "cj_EventFileID ?p \<in> dom (db_files (memory_db r))"
        "db_keys (memory_db r) (cj_IdempotencyKey ?p) = None"
        using Pair key by (auto simp: memory_repository_def CreateReplayJob_def domIff split: if_splits option.splits)
      show thesis using memory.CreateReplayJob_new [OF assms(4,5) dom] new by blast
    next
      case (Some e)
      then have "snd ?create = r" "e \<in> {ErrNotFound, ErrAlreadyExists}"
        using Pair by (auto simp: memory_repository_def CreateReplayJob_def insert_new_job_def Let_def split: if_splits option.splits)
      then show thesis using same [of j e] Pair Some by (metis prod.collapse)
    qed
  qed
  then have "outcome bi ECreateReplayJob rq ?io r c (case repo_submit memory_repository rt ?p ((r, n), c) of
      ((job, Some err), st') \<Rightarrow>
        (if err = ApiStore ErrAlreadyExists then (JSON 200 (BodyJob job), st') else (writeStoreError err, st'))
    | ((job, None), st') \<Rightarrow> (JSON 201 (BodyJob job), st'))"
  proof cases
    case new
    have "carried_out bi ECreateReplayJob rq ?io (JSON 201 (BodyJob (new_job ?io ?p))) r (exec_op (OpCreateReplayJob ?p) ?io r)"
      using Some new fresh_io_uuid [OF assms(5), of 0] by (simp add: carried_out_def memory_repository_def)
    from outcome_carried_out [OF this, of c "Suc n"] show ?thesis
      using assms(3) new(1) by (simp add: repo_submit_def call_def quiet_def memory_repository_def)
  next
    case same
    then show ?thesis
      using assms(3) by (auto simp: repo_submit_def call_def quiet_def outcome_def)
  qed
  then show ?thesis
    using Some assms(1,2) by (simp add: createReplayJob_def bindJSON_def Let_def)
qed

text \<open>
  C24: the API answers every request. On the memory store, without a queue, with no other client at work and with
  identifiers that are new, whatever the route, the path and the body, the status is 200, 201, 400 or 404, never a
  conflict or an internal error, and a consistent store stays consistent. A creation or a cancellation that
  is carried out is one step of the store and changes exactly the row it answers with. Every other request
  leaves the store as it was: one that is refused (400, 404), one that reads, and the submission of a job
  that is already there (200).
\<close>

theorem api_answers:
  assumes "sv_repo sv = memory_repository" "sv_submitReplay sv = None" "quiet rt" "memory_inv r"
    "fresh_io (rt_io rt n) (memory_db r)"
  shows "\<exists>resp r' n'. serve sv bi ep rt rq ((r, n), c) = (resp, ((r', n'), c)) \<and>
    rs_Status resp \<in> {200, 201, 400, 404} \<and> memory_inv r' \<and>
    (carried_out bi ep rq (rt_io rt n) resp r r' \<and> memory_step r r' \<or>
     r' = r \<and> (rs_Status resp \<in> {400, 404} \<or> rs_Status resp = 200 \<and> ep \<notin> {ECreateDataset, ECreateEventFile, ECancel}))"
proof -
  let ?io = "rt_io rt n"
  have "outcome bi ep rq ?io r c (serve sv bi ep rt rq ((r, n), c))"
  proof (cases "ep \<in> {ECreateDataset, ECreateEventFile, ECreateReplayJob, ECancel}")
    case False
    then show ?thesis
      using serve_reads [OF assms(1,3) False, of bi rq r n c] by (auto simp: answers_def outcome_def)
  next
    case True
    then show ?thesis
      using outcome_createDataset [OF assms(1,3,5)] outcome_createEventFile [OF assms(1,3,5)]
        outcome_createReplayJob [OF assms] outcome_cancelReplayJob [OF assms(1,3,4)] by auto
  qed
  then obtain resp r' n' where out: "serve sv bi ep rt rq ((r, n), c) = (resp, ((r', n'), c))"
    "carried_out bi ep rq ?io resp r r' \<and> (\<exists>op. r' = exec_op op ?io r) \<or>
     r' = r \<and> (rs_Status resp \<in> {400, 404} \<or> rs_Status resp = 200 \<and> ep \<notin> {ECreateDataset, ECreateEventFile, ECancel})"
    unfolding outcome_def by blast
  have step: "memory_step r (exec_op op ?io r)" for op
    using assms(5) by (rule memory_step.step)
  have "memory_inv (exec_op op ?io r)" for op
    using memory_steps_good [OF r_into_rtranclp [of memory_step, OF step] assms(4)] by (simp add: good_step_def)
  moreover have "carried_out bi ep rq ?io resp r r' \<Longrightarrow> rs_Status resp \<in> {200, 201}"
    by (auto simp: carried_out_def Let_def)
  ultimately show ?thesis
    using out step assms(4) by blast
qed


text \<open>
  C25: a repeated submission over HTTP. When a job is stored under the idempotency key of a valid request, the
  request is answered with that job, and neither the store nor the queue changes. Without a queue the status
  is 200, as documented; with the queue of \<^verbatim>\<open>cmd/server\<close> the enqueuer reports no error for
  the existing job, and the status is 201 as for a new one.
\<close>

theorem duplicate_submission:
  assumes "sv_repo sv = memory_repository" "sv_submitReplay sv = None"
    "sv_repo sv' = memory_repository" "sv_submitReplay sv' = Some (SubmitReplayJob sha e)" "en_repo e = memory_repository"
    "quiet rt" "memory_inv r" "bi_ReplayJob bi (rq_Body rq) = Some req"
    "cj_DatasetID (trim_job req) \<in> dom (map_of (mr_datasets r)) - {''''}"
    "cj_EventFileID (trim_job req) \<in> dom (map_of (mr_eventFiles r)) - {''''}" "cj_Speed (trim_job req) \<noteq> ''''"
    "mr_idempotencyMap r (cj_IdempotencyKey (trim_job req)) = Some i" "map_of (mr_jobs r) i = Some j"
  shows "serve sv bi ECreateReplayJob rt rq ((r, n), c) = (JSON 200 (BodyJob j), ((r, n + 1), c)) \<and>
    serve sv' bi ECreateReplayJob rt rq ((r, n), c) = (JSON 201 (BodyJob j), ((r, n + 2), c))"
proof -
  let ?p = "trim_job req"
  have key: "cj_IdempotencyKey ?p \<noteq> ''''"
    using wf_db_key [OF memory.wf [OF assms(7)], of "cj_IdempotencyKey ?p" i] assms(12) by simp
  have "rp_CreateReplayJob memory_repository ?p (rt_io rt n) r = ((j, Some ErrAlreadyExists), r)"
    using assms by (intro memory.CreateReplayJob_existing [where i = i]) auto
  then have "call rt (rp_CreateReplayJob memory_repository ?p) (r, n) = ((j, Some ErrAlreadyExists), (r, Suc n))"
    by (rule call_quiet [OF assms(6)])
  moreover have "SubmitReplay sha e rt ?p (r, n) c = (Inr (j, None), (r, Suc (Suc n)), c)"
    using assms key by (intro memory.submit_existing [where i = i]) auto
  ultimately show ?thesis
    using assms by (simp add: createReplayJob_def bindJSON_def repo_submit_def SubmitReplayJob_def Let_def)
qed

text \<open>
  C26: what is created can be read. A valid request for a job whose dataset and file exist, under a new
  key or none, is answered with status 201 and a queued job of the trimmed fields; the request for the job's
  identifier is then answered with status 200 and that job, and its metrics and errors are those stored before
  under that identifier.
\<close>

theorem create_then_get:
  assumes "sv_repo sv = memory_repository" "sv_submitReplay sv = None" "quiet rt" "memory_inv r"
    "fresh_io (rt_io rt n) (memory_db r)" "bi_ReplayJob bi (rq_Body rq) = Some req"
    "cj_DatasetID (trim_job req) \<in> dom (map_of (mr_datasets r)) - {''''}"
    "cj_EventFileID (trim_job req) \<in> dom (map_of (mr_eventFiles r)) - {''''}" "cj_Speed (trim_job req) \<noteq> ''''"
    "mr_idempotencyMap r (cj_IdempotencyKey (trim_job req)) = None"
  shows "\<exists>r' job. serve sv bi ECreateReplayJob rt rq ((r, n), c) = (JSON 201 (BodyJob job), ((r', n + 1), c)) \<and>
    job = new_job (rt_io rt n) (trim_job req) \<and> rj_Status job = JobStatusQueued \<and> rj_Speed job = TrimSpace (cj_Speed req) \<and>
    serve sv bi EGetReplayJob rt \<lparr>rq_Param = rj_ID job, rq_Body = b\<rparr> ((r', n'), c) = (JSON 200 (BodyJob job), ((r', n' + 1), c)) \<and>
    serve sv bi EListMetrics rt \<lparr>rq_Param = rj_ID job, rq_Body = b\<rparr> ((r', n'), c) =
      (JSON 200 (BodyMetrics (mr_metrics r (rj_ID job))), ((r', n' + 2), c))"
proof -
  let ?p = "trim_job req" and ?job = "new_job (rt_io rt n) (trim_job req)"
  have fields: "rj_ID ?job = io_uuid (rt_io rt n) 0" "rj_Status ?job = JobStatusQueued" "rj_Speed ?job = TrimSpace (cj_Speed req)"
    by (simp_all add: new_job_def trim_job_def)
  have p: "cj_DatasetID ?p \<in> dom (db_datasets (memory_db r))" "cj_EventFileID ?p \<in> dom (db_files (memory_db r))"
    "db_keys (memory_db r) (cj_IdempotencyKey ?p) = None"
    using assms(7,8,10) by simp_all
  obtain r' where r': "rp_CreateReplayJob memory_repository ?p (rt_io rt n) r = ((?job, None), r')" "memory_inv r'"
    "memory_db r' = insert_job ?job (memory_db r)"
    using memory.CreateReplayJob_new [OF assms(4,5) p] by blast
  have call: "call rt (rp_CreateReplayJob memory_repository ?p) (r, n) = ((?job, None), (r', Suc n))"
    using r'(1) by (rule call_quiet [OF assms(3)])
  have stored: "map_of (mr_jobs r') (io_uuid (rt_io rt n) 0) = Some ?job" "mr_metrics r' = mr_metrics r"
    using arg_cong [OF r'(3), of db_jobs] arg_cong [OF r'(3), of db_metrics] fields(1)
    by (simp_all add: insert_job_def memory_db_def)
  then have get: "call rt (rp_GetReplayJob memory_repository (rj_ID ?job)) (r', m) = (Inr ?job, (r', Suc m))"
    "call rt (rp_ListReplayMetrics memory_repository (rj_ID ?job)) (r', m) = (Inr (mr_metrics r (rj_ID ?job)), (r', Suc m))" for m
    using memory.call_reads [OF assms(3) r'(2)] fields(1) by simp_all
  show ?thesis
    by (rule exI [of _ r'], rule exI [of _ ?job])
      (use assms(1,2,6-9) call get fields(2,3) in \<open>simp add: createReplayJob_def bindJSON_def repo_submit_def Let_def
        getReplayJob_def listReplayMetrics_def ensureJobExists_def respond_def\<close>)
qed

lemma FormatInt_no_CR: "CHR 0x0D \<notin> set (FormatInt x)"
proof -
  have "\<not> is_digit (CHR 0x0D)" by (simp add: is_digit_def)
  then have "CHR 0x0D \<notin> set (format_nat n)" for n
    using format_nat_digits [of n] by (auto simp: list_all_iff)
  then show ?thesis by (simp add: FormatInt_def)
qed

lemma rfc3339_no_CR: "CHR 0x0D \<notin> set (rfc3339 t)"
  using FormatInt_no_CR by (auto simp: rfc3339_def day_of_def pad_def Let_def split: prod.splits)

text \<open>
  C27: the CSV report can be read back. For a job whose JSON report is answered, the CSV report is answered too, with
  its media type and a file name from the job; read as CSV it is the header and one row for each error of the
  JSON report in the same order, provided that no field holds a carriage return.
\<close>

theorem csv_report_roundtrip:
  assumes "serve sv bi EReport rt rq st = (JSON 200 (BodyReport q), st')"
    "\<forall>e \<in> set (qr_Errors q). CHR 0x0D \<notin> set (ve_JobID e) \<union> set (ve_Symbol e) \<union> set (ve_Type e) \<union> set (ve_Message e)"
  shows "\<exists>resp csv. serve sv bi EReportCSV rt rq st = (resp, st') \<and> rs_Status resp = 200 \<and> rs_Body resp = BodyCSV csv \<and>
    (''Content-Type'', ''text/csv; charset=utf-8'') \<in> set (rs_Header resp) \<and>
    csv_read_all trim csv = Inr (csv_header_row # map csv_error_row (qr_Errors q))"
proof -
  obtain r n c where st: "st = ((r, n), c)" by (metis prod.collapse)
  have "\<forall>fs \<in> set (csv_header_row # map csv_error_row (qr_Errors q)).
      fs \<noteq> [] \<and> fs \<noteq> [[]] \<and> (\<forall>f \<in> set fs. CHR 0x0D \<notin> set f)"
    using assms(2) by (auto simp: csv_header_row_def csv_error_row_def FormatInt_no_CR rfc3339_no_CR)
  from csv_read_all_write [OF this]
  have rows: "csv_read_all trim (csv_write csv_header_row @ concat (map (csv_write \<circ> csv_error_row) (qr_Errors q))) =
      Inr (csv_header_row # map csv_error_row (qr_Errors q))" by simp
  obtain res s' where b: "BuildReplayQualityReport (sv_repo sv) rt (rq_Param rq) (r, n) = (res, s')"
    by (rule prod.exhaust)
  have "res = Inr q" "st' = (s', c)"
    using assms(1) b st
    by (auto simp: getReplayQualityReport_def respond_def JSON_def writeStoreError_def writeError_def
        split: sum.splits store_error.splits)
  then show ?thesis
    using b rows by (auto simp: getReplayQualityReportCSV_def respond_def st)
qed


subsection \<open>Sample requests\<close>

definition sample_binding :: Binding where
  "sample_binding = \<lparr>bi_Dataset = (\<lambda>_. None), bi_EventFile = (\<lambda>_. None),
     bi_ReplayJob = (\<lambda>b. if b = ''job'' then Some (sample_job_params\<lparr>cj_Speed := '' max ''\<rparr>) else None)\<rparr>"

abbreviation "sample_server \<equiv> \<lparr>sv_repo = memory_repository, sv_submitReplay = None\<rparr>"

abbreviation "sample_queue_server \<equiv>
  \<lparr>sv_repo = memory_repository, sv_submitReplay = Some (SubmitReplayJob zeros64 (sample_enqueuer logging_client))\<rparr>"

abbreviation "job_request \<equiv> \<lparr>rq_Param = '''', rq_Body = ''job''\<rparr>"

lemma sample_trimmed: "trim_job (sample_job_params\<lparr>cj_Speed := '' max ''\<rparr>) = sample_job_params\<lparr>cj_Speed := ''max''\<rparr>"
  by code_simp

theorem api_answers_witness:
  "\<exists>resp r' n'. serve sample_server sample_binding ECreateReplayJob (quiet_runtime (CHR ''j'')) job_request ((sample_store2, 0), ()) =
     (resp, ((r', n'), ())) \<and> rs_Status resp \<in> {200, 201, 400, 404} \<and> memory_inv r'"
  using api_answers [of sample_server "quiet_runtime (CHR ''j'')" sample_store2 0 sample_binding ECreateReplayJob job_request "()"]
    sample_store2_ready(1,2) by auto

theorem create_then_get_witness:
  "\<exists>r' job. serve sample_server sample_binding ECreateReplayJob (quiet_runtime (CHR ''j'')) job_request ((sample_store2, 0), ()) =
      (JSON 201 (BodyJob job), ((r', 1), ())) \<and> rj_Speed job = ''max'' \<and>
    serve sample_server sample_binding EGetReplayJob (quiet_runtime (CHR ''j'')) \<lparr>rq_Param = rj_ID job, rq_Body = ''''\<rparr> ((r', 1), ()) =
      (JSON 200 (BodyJob job), ((r', 2), ()))"
proof -
  let ?req = "sample_job_params\<lparr>cj_Speed := '' max ''\<rparr>"
  have bind: "bi_ReplayJob sample_binding (rq_Body job_request) = Some ?req" by (simp add: sample_binding_def)
  have "TrimSpace '' max '' = ''max''" by code_simp
  then show ?thesis
    using create_then_get [OF _ _ quiet_runtime_quiet sample_store2_ready(1,2) bind, of sample_server "()" "''''" 1]
      sample_store2_ready(3-5)
    unfolding sample_trimmed by (auto simp: numeral_2_eq_2)
qed

theorem duplicate_submission_witness:
  "rs_Status (fst (serve sample_server sample_binding ECreateReplayJob (quiet_runtime (CHR ''q'')) job_request ((sample_store, 0), [] :: Task list))) = 200 \<and>
   rs_Status (fst (serve sample_queue_server sample_binding ECreateReplayJob (quiet_runtime (CHR ''q'')) job_request ((sample_store, 0), [] :: Task list))) = 201"
proof -
  let ?req = "sample_job_params\<lparr>cj_Speed := '' max ''\<rparr>"
  have bind: "bi_ReplayJob sample_binding (rq_Body job_request) = Some ?req" by (simp add: sample_binding_def)
  have inv: "memory_inv sample_store"
    using memory_steps_good [OF sample_store_reachable memory_inv_new] by (simp add: good_step_def)
  have key: "mr_idempotencyMap sample_store ''key'' = Some ''j''" by code_simp
  have dom: "dom (map_of (mr_datasets sample_store)) = {''d''}" "dom (map_of (mr_eventFiles sample_store)) = {''f''}"
    by (simp_all only: dom_map_of_conv_image_fst list.set_map [symmetric] sample_store_values) simp_all
  show ?thesis
    using duplicate_submission [OF _ _ _ _ _ quiet_runtime_quiet [of "CHR ''q''"] inv bind, of sample_server sample_queue_server
        zeros64 "sample_enqueuer logging_client" "''j''" _ 0 "[]"] key
    unfolding sample_trimmed by (simp add: dom sample_store_values(7))
qed

definition sample_reported :: MemoryRepository where
  "sample_reported = exec_op (OpCompleteReplayJob ''j'' \<lparr>cp_Metric = sample_metric, cp_Errors = [sample_error]\<rparr>)
     (sample_io (CHR ''z'') 9) sample_store"

theorem csv_report_roundtrip_witness:
  "\<exists>resp csv st'. serve sample_server sample_binding EReportCSV (quiet_runtime (CHR ''q'')) \<lparr>rq_Param = ''j'', rq_Body = ''''\<rparr>
      ((sample_reported, 0), ()) = (resp, st') \<and> rs_Body resp = BodyCSV csv \<and>
    csv_read_all True csv = Inr [csv_header_row, [''j'', ''2'', '''', ''malformed'', ''missing symbol'', ''0001-01-01T00:00:00Z'']]"
proof -
  let ?rt = "quiet_runtime (CHR ''q'')" and ?rq = "\<lparr>rq_Param = ''j'', rq_Body = ''''\<rparr>"
  let ?out = "serve sample_server sample_binding EReport ?rt ?rq ((sample_reported, 0), ())"
  have "case ?out of (resp, st') \<Rightarrow> (case rs_Body resp of BodyReport q \<Rightarrow> resp = JSON 200 (BodyReport q) \<and>
      map csv_error_row (qr_Errors q) = [[''j'', ''2'', '''', ''malformed'', ''missing symbol'', ''0001-01-01T00:00:00Z'']] \<and>
      (\<forall>e \<in> set (qr_Errors q). CHR 0x0D \<notin> set (ve_JobID e) \<union> set (ve_Symbol e) \<union> set (ve_Type e) \<union> set (ve_Message e))
    | _ \<Rightarrow> False)"
    by code_simp
  then obtain q st' where q: "?out = (JSON 200 (BodyReport q), st')"
    "map csv_error_row (qr_Errors q) = [[''j'', ''2'', '''', ''malformed'', ''missing symbol'', ''0001-01-01T00:00:00Z'']]"
    "\<forall>e \<in> set (qr_Errors q). CHR 0x0D \<notin> set (ve_JobID e) \<union> set (ve_Symbol e) \<union> set (ve_Type e) \<union> set (ve_Message e)"
    by (auto split: prod.splits body.splits)
  show ?thesis
    using csv_report_roundtrip [OF q(1,3)] unfolding q(2) by blast
qed

end
