(* ===== verification/Kafka_Stream.thy ===== *)
theory Kafka_Stream
  imports Event_Validator Go_Time
begin

section \<open>internal/kafkastream: the data plane\<close>

text \<open>
  \<^verbatim>\<open>types.go\<close>, \<^verbatim>\<open>publish.go\<close> and \<^verbatim>\<open>validator.go\<close>: publishing a file to the raw topics and validating what is
  consumed from them. A broker is not code of this repository: producing, polling and observing the
  lag act on a world that is a type variable, and errors of the broker are texts. The consumer's loop may
  run forever, so it is a partial function, and that it returns is part of what is proved.
\<close>

definition TopicMarketDepthRaw :: string where "TopicMarketDepthRaw = ''market.depth.raw''"
definition TopicMarketTradeRaw :: string where "TopicMarketTradeRaw = ''market.trade.raw''"
definition TopicMarketReplayValidated :: string where "TopicMarketReplayValidated = ''market.replay.validated''"
definition TopicMarketReplayErrors :: string where "TopicMarketReplayErrors = ''market.replay.errors''"
definition GroupReplayValidator :: string where "GroupReplayValidator = ''replay-validator''"

lemmas topic_defs = TopicMarketDepthRaw_def TopicMarketTradeRaw_def TopicMarketReplayValidated_def
  TopicMarketReplayErrors_def

record Message =
  mg_Topic :: string
  mg_Key :: bytes
  mg_Value :: bytes
  mg_Partition :: int
  mg_Offset :: int
  mg_Lag :: int

type_synonym 'w Producer = "Message \<Rightarrow> 'w \<Rightarrow> string option \<times> 'w"

type_synonym 'w Consumer = "'w \<Rightarrow> (string + Message) \<times> 'w"

type_synonym 'w LagObserver = "string \<Rightarrow> string \<Rightarrow> int \<Rightarrow> int \<Rightarrow> 'w \<Rightarrow> 'w"

definition RawTopicForEventType :: "string \<Rightarrow> string option" where
  "RawTopicForEventType eventType =
     (if eventType = EventTypeDepth then Some TopicMarketDepthRaw
      else if eventType = EventTypeAggTrade then Some TopicMarketTradeRaw
      else None)"

subsection \<open>publish.go\<close>

datatype publish_error =
    PublishStreamError stream_error
  | PublishRecord int parse_error
  | PublishType int string
  | PublishProduce int string

definition rawTopicForEventType :: "string \<Rightarrow> string \<Rightarrow> string \<Rightarrow> string option" where
  "rawTopicForEventType eventType depthTopic tradeTopic =
     (case RawTopicForEventType eventType of
        None \<Rightarrow> None
      | Some topic \<Rightarrow>
          (if topic = TopicMarketDepthRaw then Some depthTopic
           else if topic = TopicMarketTradeRaw then Some tradeTopic
           else Some topic))"

definition new_message :: "string \<Rightarrow> bytes \<Rightarrow> bytes \<Rightarrow> Message" where
  "new_message topic key val =
     \<lparr>mg_Topic = topic, mg_Key = key, mg_Value = val, mg_Partition = 0, mg_Offset = 0, mg_Lag = 0\<rparr>"

text \<open>The loop returns the number of messages produced, the error if there is one, and the world.\<close>

function publish_loop ::
  "'w Producer \<Rightarrow> string \<Rightarrow> string \<Rightarrow> Stream \<Rightarrow> int \<Rightarrow> 'w \<Rightarrow> int \<times> publish_error option \<times> 'w" where
  "publish_loop produce depthTopic tradeTopic s produced w =
     (case Next s of
        NextEOF \<Rightarrow> (produced, None, w)
      | NextError e \<Rightarrow> (produced, Some (PublishStreamError e), w)
      | NextRecord rec s' \<Rightarrow>
          (case rec_Err rec of
             Some e \<Rightarrow> (produced, Some (PublishRecord (rec_Line rec) e), w)
           | None \<Rightarrow>
               (case rawTopicForEventType (ev_Type (rec_Event rec)) depthTopic tradeTopic of
                  None \<Rightarrow> (produced, Some (PublishType (rec_Line rec) (ev_Type (rec_Event rec))), w)
                | Some topic \<Rightarrow>
                    (case produce (new_message topic (ev_Symbol (rec_Event rec)) (MarketEvent_Marshal (rec_Event rec))) w of
                       (Some e, w') \<Rightarrow> (produced, Some (PublishProduce (rec_Line rec) e), w')
                     | (None, w') \<Rightarrow> publish_loop produce depthTopic tradeTopic s' (produced + 1) w'))))"
  by pat_completeness auto
termination
  by (relation "measure (\<lambda>(p, d, t, s, n, w). unread s)") (auto dest: Next_shrinks)

declare publish_loop.simps [simp del]

definition PublishStreamWithTopics ::
  "'w Producer \<Rightarrow> string \<Rightarrow> string \<Rightarrow> Stream \<Rightarrow> 'w \<Rightarrow> int \<times> publish_error option \<times> 'w" where
  "PublishStreamWithTopics produce depthTopic tradeTopic s w = publish_loop produce depthTopic tradeTopic s 0 w"

definition PublishStream :: "'w Producer \<Rightarrow> Stream \<Rightarrow> 'w \<Rightarrow> int \<times> publish_error option \<times> 'w" where
  "PublishStream produce = PublishStreamWithTopics produce TopicMarketDepthRaw TopicMarketTradeRaw"

definition Publish :: "'w Producer \<Rightarrow> bytes \<Rightarrow> Format \<Rightarrow> 'w \<Rightarrow> int \<times> publish_error option \<times> 'w" where
  "Publish produce r format w =
     (case NewStream r format of
        Inl e \<Rightarrow> (0, Some (PublishStreamError e), w)
      | Inr s \<Rightarrow> PublishStream produce s w)"

definition PublishFileWithTopics ::
  "'w Producer \<Rightarrow> file_system \<Rightarrow> string \<Rightarrow> Format \<Rightarrow> string \<Rightarrow> string \<Rightarrow> 'w \<Rightarrow> int \<times> publish_error option \<times> 'w" where
  "PublishFileWithTopics produce fs path format depthTopic tradeTopic w =
     (case Open fs path format of
        Inl e \<Rightarrow> (0, Some (PublishStreamError e), w)
      | Inr s \<Rightarrow> PublishStreamWithTopics produce depthTopic tradeTopic s w)"

definition PublishFile :: "'w Producer \<Rightarrow> file_system \<Rightarrow> string \<Rightarrow> Format \<Rightarrow> 'w \<Rightarrow> int \<times> publish_error option \<times> 'w" where
  "PublishFile produce fs path format =
     PublishFileWithTopics produce fs path format TopicMarketDepthRaw TopicMarketTradeRaw"

subsection \<open>validator.go\<close>

record ErrorEnvelope =
  ee_SourceTopic :: string
  ee_Symbol :: string
  ee_Partition :: int
  ee_Offset :: int
  ee_Error :: string
  ee_Payload :: bytes
  ee_ProducedAt :: string

text \<open>\<^verbatim>\<open>[]byte\<close> is encoded as a base64 string.\<close>

definition base64_char :: "nat \<Rightarrow> char" where
  "base64_char n = (''ABCDEFGHIJKLMNOPQRSTUVWXYZabcdefghijklmnopqrstuvwxyz0123456789+/'') ! n"

fun base64 :: "bytes \<Rightarrow> string" where
  "base64 [] = []"
| "base64 [a] = (let x = of_char a in
     [base64_char (x div 4), base64_char (x mod 4 * 16), CHR ''='', CHR ''=''])"
| "base64 [a, b] = (let x = of_char a; y = of_char b in
     [base64_char (x div 4), base64_char (x mod 4 * 16 + y div 16), base64_char (y mod 16 * 4), CHR ''=''])"
| "base64 (a # b # c # r) = (let x = of_char a; y = of_char b; z = of_char c in
     [base64_char (x div 4), base64_char (x mod 4 * 16 + y div 16), base64_char (y mod 16 * 4 + z div 64),
      base64_char (z mod 64)]) @ base64 r"

definition ErrorEnvelope_Marshal :: "ErrorEnvelope \<Rightarrow> bytes" where
  "ErrorEnvelope_Marshal e = json_print (JObj (
     [(''source_topic'', JStr (ee_SourceTopic e))] @ enc_str ''symbol'' (ee_Symbol e) @
     [(''partition'', JNum (FormatInt (ee_Partition e))), (''offset'', JNum (FormatInt (ee_Offset e))),
      (''error'', JStr (ee_Error e))] @ enc_str ''payload'' (base64 (ee_Payload e)) @
     [(''produced_at'', JStr (ee_ProducedAt e))]))"

datatype cause = CauseParse parse_error | CauseType string | CauseTopic string string string | CauseFailure "parse_error message"

record KafkaValidator =
  kv_state :: Validator
  kv_Group :: string

text \<open>What the validator works with: the broker, the clock and the texts of errors.\<close>

record 'w KafkaEnv =
  ke_Poll :: "'w Consumer"
  ke_Produce :: "'w Producer"
  ke_LagObserver :: "'w LagObserver option"
  ke_now :: "'w \<Rightarrow> time"
  ke_Error :: "cause \<Rightarrow> string"

definition NewValidatorWithOptions :: "time \<Rightarrow> string \<Rightarrow> KafkaValidator" where
  "NewValidatorWithOptions now grp =
     \<lparr>kv_state = NewValidator now \<lparr>op_Symbol = ''''\<rparr>, kv_Group = (if grp = '''' then GroupReplayValidator else grp)\<rparr>"

definition cause_text :: "'w KafkaEnv \<Rightarrow> cause \<Rightarrow> string" where
  "cause_text env c =
     (case c of
        CauseFailure (Text s) \<Rightarrow> s
      | CauseFailure (ErrorText e) \<Rightarrow> ke_Error env (CauseParse e)
      | _ \<Rightarrow> ke_Error env c)"

definition routeError :: "'w KafkaEnv \<Rightarrow> Message \<Rightarrow> string \<Rightarrow> cause \<Rightarrow> 'w \<Rightarrow> string option \<times> 'w" where
  "routeError env msg symb0 c w =
     (let symb = (if symb0 = '''' then mg_Key msg else symb0);
          envelope = \<lparr>ee_SourceTopic = mg_Topic msg, ee_Symbol = symb, ee_Partition = mg_Partition msg,
            ee_Offset = mg_Offset msg, ee_Error = cause_text env c, ee_Payload = mg_Value msg,
            ee_ProducedAt = rfc3339_nano (ke_now env w)\<rparr>
      in ke_Produce env (new_message TopicMarketReplayErrors symb (ErrorEnvelope_Marshal envelope)) w)"

definition kafka_Process ::
  "'w KafkaEnv \<Rightarrow> KafkaValidator \<Rightarrow> Message \<Rightarrow> 'w \<Rightarrow> string option \<times> KafkaValidator \<times> 'w" where
  "kafka_Process env v msg w =
     (let line = wrap64 (mg_Offset msg + 1) in
      case ParseJSONLine (mg_Value msg) line of
        Inl e \<Rightarrow> (case routeError env msg '''' (CauseParse e) w of (r, w') \<Rightarrow> (r, v, w'))
      | Inr ev \<Rightarrow>
          (case RawTopicForEventType (ev_Type ev) of
             None \<Rightarrow> (case routeError env msg (ev_Symbol ev) (CauseType (ev_Type ev)) w of (r, w') \<Rightarrow> (r, v, w'))
           | Some expectedTopic \<Rightarrow>
               (if mg_Topic msg \<noteq> '''' \<and> mg_Topic msg \<noteq> expectedTopic then
                  (case routeError env msg (ev_Symbol ev) (CauseTopic (ev_Type ev) (mg_Topic msg) expectedTopic) w of
                     (r, w') \<Rightarrow> (r, v, w'))
                else
                  let (s1, r1) = Result_of (ke_now env w) (kv_state v);
                      before = length (vr_Failures r1);
                      s2 = Process s1 \<lparr>rec_Line = line, rec_Event = ev, rec_Raw = mg_Value msg, rec_Err = None\<rparr>;
                      (s3, afterResult) = Result_of (ke_now env w) s2;
                      v' = v\<lparr>kv_state := s3\<rparr>
                  in if length (vr_Failures afterResult) > before then
                       (case routeError env msg (ev_Symbol ev) (CauseFailure (vf_Message (last (vr_Failures afterResult)))) w of
                          (r, w') \<Rightarrow> (r, v', w'))
                     else
                       (case ke_Produce env (new_message TopicMarketReplayValidated (ev_Symbol ev) (MarketEvent_Marshal ev)) w of
                          (r, w') \<Rightarrow> (r, v', w')))))"

partial_function (option) kafka_Run ::
  "'w KafkaEnv \<Rightarrow> KafkaValidator \<Rightarrow> 'w \<Rightarrow> (string \<times> KafkaValidator \<times> 'w) option" where
  "kafka_Run env v w =
     (case ke_Poll env w of
        (Inl e, w1) \<Rightarrow> Some (e, v, w1)
      | (Inr msg, w1) \<Rightarrow>
          (let w2 = (case ke_LagObserver env of
                 None \<Rightarrow> w1
               | Some observe \<Rightarrow>
                   (if mg_Lag msg \<ge> 0 then observe (kv_Group v) (mg_Topic msg) (mg_Partition msg) (mg_Lag msg) w1 else w1))
           in case kafka_Process env v msg w2 of
                (Some e, v', w3) \<Rightarrow> Some (e, v', w3)
              | (None, v', w3) \<Rightarrow> kafka_Run env v' w3))"

declare kafka_Run.simps [code]

subsection \<open>Publishing\<close>

definition raw_message :: "string \<Rightarrow> string \<Rightarrow> Record \<Rightarrow> Message" where
  "raw_message depthTopic tradeTopic r =
     new_message (if ev_Type (rec_Event r) = EventTypeDepth then depthTopic else tradeTopic)
       (ev_Symbol (rec_Event r)) (MarketEvent_Marshal (rec_Event r))"


lemma shape_topic:
  assumes "event_shape ev"
  shows "rawTopicForEventType (ev_Type ev) d t = Some (if ev_Type ev = EventTypeDepth then d else t)"
    "RawTopicForEventType (ev_Type ev) = Some (if ev_Type ev = EventTypeDepth then TopicMarketDepthRaw else TopicMarketTradeRaw)"
  using assms by (auto simp: event_shape_def rawTopicForEventType_def RawTopicForEventType_def topic_defs)

abbreviation "malformed r \<equiv> rec_Err r \<noteq> None"



text \<open>
  Publishing through any producer. The specification sends a list of messages one after the other up to the first that the
  producer refuses: the number accepted, the error if there is one, and the world.
\<close>

fun produce_all :: "'w Producer \<Rightarrow> Message list \<Rightarrow> 'w \<Rightarrow> nat \<times> string option \<times> 'w" where
  "produce_all produce [] w = (0, None, w)"
| "produce_all produce (m # ms) w =
     (case produce m w of
        (Some e, w') \<Rightarrow> (0, Some e, w')
      | (None, w') \<Rightarrow> (case produce_all produce ms w' of (k, err, w'') \<Rightarrow> (Suc k, err, w'')))"

lemma publish_loop_produces:
  "publish_loop produce d t s n w =
    (let rs = fst (drain s); good = takeWhile (\<lambda>r. \<not> malformed r) rs in
     case produce_all produce (map (raw_message d t) good) w of
       (k, Some e, w') \<Rightarrow> (n + int k, Some (PublishProduce (rec_Line (good ! k)) e), w')
     | (k, None, w') \<Rightarrow>
         (n + int k,
          (case find malformed rs of
             None \<Rightarrow> map_option PublishStreamError (snd (drain s))
           | Some r \<Rightarrow> map_option (PublishRecord (rec_Line r)) (rec_Err r)), w'))"
proof (induction s arbitrary: n w rule: drain.induct)
  case (1 s)
  show ?case
  proof (cases s rule: drain_cases)
    case (more r s')
    show ?thesis
    proof (cases "rec_Err r")
      case None
      then have shape: "event_shape (rec_Event r)"
        using Next_record(3) [OF more(1)] by (simp add: record_ok_def)
      obtain res w' where p: "produce (raw_message d t r) w = (res, w')" by (cases "produce (raw_message d t r) w")
      show ?thesis
      proof (cases res)
        case None': None
        then show ?thesis
          using None "1.IH" [OF more(1), of "n + 1" w'] more p shape
          by (auto simp: publish_loop.simps [of _ _ _ s] shape_topic raw_message_def Let_def
              split: prod.splits option.splits)
      next
        case (Some e)
        then show ?thesis
          using None more p shape by (simp add: publish_loop.simps [of _ _ _ s] shape_topic raw_message_def Let_def)
      qed
    next
      case (Some e)
      then show ?thesis using more by (simp add: publish_loop.simps [of _ _ _ s])
    qed
  qed (simp_all add: publish_loop.simps [of _ _ _ s])
qed

text \<open>
  C29: publishing through any producer, of whatever behaviour. The messages of the rows before the first malformed one are sent one
  after the other, in the order of the rows, until the producer refuses one: then nothing more is sent, the number returned is
  that of the accepted messages, and the error is the producer's with the line of the row it refused. When it refuses none, the
  error is that of the first malformed row, or else that of the stream.
\<close>

theorem publish_any_producer:
  "let rs = fst (drain s); good = takeWhile (\<lambda>r. \<not> malformed r) rs in
   PublishStreamWithTopics produce depthTopic tradeTopic s w =
     (case produce_all produce (map (raw_message depthTopic tradeTopic) good) w of
        (k, Some e, w') \<Rightarrow> (int k, Some (PublishProduce (rec_Line (good ! k)) e), w')
      | (k, None, w') \<Rightarrow>
          (int k,
           (case find malformed rs of
              None \<Rightarrow> map_option PublishStreamError (snd (drain s))
            | Some r \<Rightarrow> map_option (PublishRecord (rec_Line r)) (rec_Err r)), w'))"
  using publish_loop_produces [of produce depthTopic tradeTopic s 0 w]
  by (simp add: PublishStreamWithTopics_def Let_def cong: option.case_cong prod.case_cong)

subsection \<open>Consuming\<close>

text \<open>A broker that delivers the messages of a list and keeps what is produced.\<close>

definition mailbox :: "(cause \<Rightarrow> string) \<Rightarrow> (Message list \<times> Message list \<Rightarrow> time) \<Rightarrow> (Message list \<times> Message list) KafkaEnv" where
  "mailbox etext now =
     \<lparr>ke_Poll = (\<lambda>(inbox, out). case inbox of
        [] \<Rightarrow> (Inl ''no kafka message available'', ([], out)) | m # ms \<Rightarrow> (Inr m, (ms, out))),
      ke_Produce = (\<lambda>m (inbox, out). (None, (inbox, out @ [m]))), ke_LagObserver = None, ke_now = now, ke_Error = etext\<rparr>"

text \<open>A message that carries a published row, at any partition and offset.\<close>

definition carries :: "Message \<Rightarrow> Record \<Rightarrow> bool" where
  "carries m r \<longleftrightarrow> (\<exists>p off lag. m = (raw_message TopicMarketDepthRaw TopicMarketTradeRaw r)\<lparr>mg_Partition := p, mg_Offset := off, mg_Lag := lag\<rparr>)"

definition publishable :: "Record \<Rightarrow> bool" where
  "publishable r \<longleftrightarrow> rec_Err r = None \<and> event_shape (rec_Event r) \<and> levels_named (rec_Event r) \<and>
     (ev_Type (rec_Event r) = EventTypeDepth \<longrightarrow> ev_FirstUpdateID (rec_Event r) \<noteq> 0 \<and> ev_FinalUpdateID (rec_Event r) \<noteq> 0)"

text \<open>Which rows of a file add no failure to a validation.\<close>

fun verdicts :: "Validator \<Rightarrow> Record list \<Rightarrow> bool list" where
  "verdicts v [] = []"
| "verdicts v (r # rs) =
     (vr_Failures (v_result (Process v r)) = vr_Failures (v_result v)) # verdicts (Process v r) rs"

lemma line_irrelevant_failures:
  "time_failures l (ev\<lparr>ev_Line := n\<rparr>) = [] \<longleftrightarrow> time_failures l ev = []"
  "depth_failures l (ev\<lparr>ev_Line := n\<rparr>) = [] \<longleftrightarrow> depth_failures l ev = []"
  "trade_failures l (ev\<lparr>ev_Line := n\<rparr>) = [] \<longleftrightarrow> trade_failures l ev = []"
  by (simp_all add: failures_defs EventTimeMillis_def split: option.split)

lemma line_irrelevant:
  assumes "rec_Err r = None" "rec_Err r' = None" "rec_Event r' = (rec_Event r)\<lparr>ev_Line := n\<rparr>"
  shows "track_step opts tr r' = track_step opts tr r"
    "step_failures opts tr r' = [] \<longleftrightarrow> step_failures opts tr r = []"
  using assms
  by (simp_all add: track_step_def relevant_def filtered_out_def EventTimeMillis_def step_failures_def Let_def
      line_irrelevant_failures)

lemma mailbox_ops [simp]:
  "ke_Produce (mailbox etext now) m (inbox, out) = (None, (inbox, out @ [m]))" "ke_now (mailbox etext now) = now"
  by (simp_all add: mailbox_def)

lemma routeError_mailbox:
  "symb \<noteq> '''' \<Longrightarrow> \<exists>val. routeError (mailbox etext now) m symb c (inbox, out) =
     (None, (inbox, out @ [new_message TopicMarketReplayErrors symb val]))"
  by (auto simp: routeError_def mailbox_def Let_def)

lemma Result_of_keeps:
  obtains s where "Result_of t v = (s, v_result s)" "track_of s = track_of v" "v_opts s = v_opts v"
    "vr_Failures (v_result s) = vr_Failures (v_result v)"
  using that [of "fst (Result_of t v)"] by (simp add: Result_of_def Let_def track_of_def)

lemma kafka_Process_step:
  assumes "carries m r" "publishable r" "track_of (kv_state v) = track_of u" "v_opts (kv_state v) = v_opts u"
  obtains v' o1 where "kafka_Process (mailbox etext now) v m (inbox, out) = (None, v', (inbox, out @ [o1]))"
    "track_of (kv_state v') = track_of (Process u r)" "v_opts (kv_state v') = v_opts (Process u r)"
    "mg_Topic o1 = (if vr_Failures (v_result (Process u r)) = vr_Failures (v_result u)
      then TopicMarketReplayValidated else TopicMarketReplayErrors)" "mg_Key o1 = ev_Symbol (rec_Event r)"
proof -
  let ?ev = "(rec_Event r)\<lparr>ev_Line := wrap64 (mg_Offset m + 1)\<rparr>"
  let ?r' = "\<lparr>rec_Line = wrap64 (mg_Offset m + 1), rec_Event = ?ev, rec_Raw = mg_Value m, rec_Err = None\<rparr>"
  have ev: "ParseJSONLine (mg_Value m) (wrap64 (mg_Offset m + 1)) = Inr ?ev"
    and topic: "RawTopicForEventType (ev_Type ?ev) = Some (mg_Topic m)" and symb: "ev_Symbol (rec_Event r) \<noteq> ''''"
    using assms(1,2) Marshal_parses [of "rec_Event r"] shape_topic(2) [of "rec_Event r"]
    by (auto simp: carries_def publishable_def raw_message_def new_message_def event_shape_def)
  obtain s1 where s1: "Result_of (now (inbox, out)) (kv_state v) = (s1, v_result s1)" "track_of s1 = track_of u"
    "v_opts s1 = v_opts u" "vr_Failures (v_result s1) = vr_Failures (v_result (kv_state v))"
    using assms(3,4) by (metis Result_of_keeps)
  obtain s3 where s3: "Result_of (now (inbox, out)) (Process s1 ?r') = (s3, v_result s3)"
    "track_of s3 = track_of (Process s1 ?r')" "v_opts s3 = v_opts u"
    "vr_Failures (v_result s3) = vr_Failures (v_result s1) @ step_failures (v_opts u) (track_of u) ?r'"
    by (rule Result_of_keeps [of "now (inbox, out)" "Process s1 ?r'"]) (simp add: that Process_result(1) s1)
  have err: "rec_Err r = None" using assms(2) by (simp add: publishable_def)
  note line = line_irrelevant [OF err, of ?r', simplified]
  obtain val where val: "routeError (mailbox etext now) m (ev_Symbol (rec_Event r))
      (CauseFailure (vf_Message (last (vr_Failures (v_result s3))))) (inbox, out) =
      (None, (inbox, out @ [new_message TopicMarketReplayErrors (ev_Symbol (rec_Event r)) val]))"
    using routeError_mailbox [OF symb] by blast
  let ?o1 = "if step_failures (v_opts u) (track_of u) ?r' = []
    then new_message TopicMarketReplayValidated (ev_Symbol (rec_Event r)) (MarketEvent_Marshal ?ev)
    else new_message TopicMarketReplayErrors (ev_Symbol (rec_Event r)) val"
  have "kafka_Process (mailbox etext now) v m (inbox, out) = (None, v\<lparr>kv_state := s3\<rparr>, (inbox, out @ [?o1]))"
    using ev topic s1(1) s3(1,4) val
    by (cases "step_failures (v_opts u) (track_of u) ?r' = []") (simp_all add: kafka_Process_def Let_def)
  moreover have "track_of s3 = track_of (Process u r)"
    using s1 s3(2) line(1) by (simp add: Process_track)
  moreover have "mg_Topic ?o1 = (if vr_Failures (v_result (Process u r)) = vr_Failures (v_result u)
      then TopicMarketReplayValidated else TopicMarketReplayErrors)" "mg_Key ?o1 = ev_Symbol (rec_Event r)"
    using line(2) by (simp_all add: Process_result(1) new_message_def)
  ultimately show ?thesis
    using that [of "v\<lparr>kv_state := s3\<rparr>" ?o1] s3(3) by simp
qed

lemma kafka_Run_mailbox:
  assumes "list_all2 carries ms rs" "list_all publishable rs" "track_of (kv_state v) = track_of u" "v_opts (kv_state v) = v_opts u"
  shows "\<exists>v' outs. kafka_Run (mailbox etext now) v (ms, out) = Some (''no kafka message available'', v', ([], out @ outs)) \<and>
    map mg_Topic outs = map (\<lambda>ok. if ok then TopicMarketReplayValidated else TopicMarketReplayErrors) (verdicts u rs) \<and>
    map mg_Key outs = map (ev_Symbol \<circ> rec_Event) rs"
  using assms
proof (induction ms rs arbitrary: v u out rule: list_all2_induct)
  case Nil
  then show ?case by (simp add: kafka_Run.simps) (simp add: mailbox_def)
next
  case (Cons m ms r rs)
  obtain v1 o1 where p: "kafka_Process (mailbox etext now) v m (ms, out) = (None, v1, (ms, out @ [o1]))"
    "track_of (kv_state v1) = track_of (Process u r)" "v_opts (kv_state v1) = v_opts (Process u r)"
    "mg_Topic o1 = (if vr_Failures (v_result (Process u r)) = vr_Failures (v_result u)
      then TopicMarketReplayValidated else TopicMarketReplayErrors)" "mg_Key o1 = ev_Symbol (rec_Event r)"
    by (rule kafka_Process_step [OF Cons(1) _ Cons.prems(2,3)]) (use Cons.prems(1) in simp)
  have poll: "ke_Poll (mailbox etext now) (m # ms, out) = (Inr m, (ms, out))" "ke_LagObserver (mailbox etext now) = None"
    by (simp_all add: mailbox_def)
  obtain v' outs where "kafka_Run (mailbox etext now) v1 (ms, out @ [o1]) =
      Some (''no kafka message available'', v', ([], (out @ [o1]) @ outs))"
    "map mg_Topic outs = map (\<lambda>ok. if ok then TopicMarketReplayValidated else TopicMarketReplayErrors) (verdicts (Process u r) rs)"
    "map mg_Key outs = map (ev_Symbol \<circ> rec_Event) rs"
    using Cons.IH [of v1 "Process u r" "out @ [o1]"] p(2,3) Cons.prems(1) by auto
  then show ?case
    using p(1,4,5) poll
    by (intro exI [of _ v'] exI [of _ "o1 # outs"]) (simp add: kafka_Run.simps [of _ v])
qed

text \<open>
  The data plane validates as the file does. When the messages of publishable rows (parsed rows whose JSON can be read
  back) arrive in the order of the rows, at whatever partitions and offsets, the validator handles them all and
  returns when there is nothing left to poll. Each message leads to exactly one message out, with the row's
  symbol as its key: on the validated topic when validating the file reports no failure for the row, and on the
  error topic when it does.
\<close>

theorem stream_validates_like_file:
  assumes "list_all2 carries ms rs" "list_all publishable rs"
  shows "\<exists>v' outs. kafka_Run (mailbox etext now) (NewValidatorWithOptions t grp) (ms, []) =
      Some (''no kafka message available'', v', ([], outs)) \<and>
    map mg_Topic outs = map (\<lambda>ok. if ok then TopicMarketReplayValidated else TopicMarketReplayErrors)
      (verdicts (NewValidator t0 \<lparr>op_Symbol = ''''\<rparr>) rs) \<and>
    map mg_Key outs = map (ev_Symbol \<circ> rec_Event) rs"
  using kafka_Run_mailbox [OF assms, of "NewValidatorWithOptions t grp" "NewValidator t0 \<lparr>op_Symbol = ''''\<rparr>" etext now "[]"]
  by (simp add: NewValidatorWithOptions_def)

lemma verdicts_nth:
  "k < length rs \<Longrightarrow> verdicts v rs ! k \<longleftrightarrow> step_failures (v_opts v) (foldl (track_step (v_opts v)) (track_of v) (take k rs)) (rs ! k) = []"
proof (induction rs arbitrary: v k)
  case (Cons r rs)
  then show ?case by (cases k) (simp_all add: Process_result Process_track)
qed simp

lemma verdicts_length [simp]: "length (verdicts v rs) = length rs"
  by (induction rs arbitrary: v) simp_all

text \<open>The time kept for a symbol is at least that of every event of it seen so far.\<close>

lemma track_time_grows:
  assumes "tr_time tr s = Some t"
  shows "\<exists>t'. tr_time (foldl (track_step opts) tr rs) s = Some t' \<and> t \<le> t'"
  using assms
proof (induction rs arbitrary: tr t)
  case (Cons r rs)
  have "\<exists>t1. tr_time (track_step opts tr r) s = Some t1 \<and> t \<le> t1"
    using Cons.prems by (auto simp: track_step_def Let_def)
  then show ?case using Cons.IH by fastforce
qed simp

lemma track_time_seen:
  assumes "r \<in> set rs" "relevant opts r"
  shows "\<exists>t. tr_time (foldl (track_step opts) tr rs) (ev_Symbol (rec_Event r)) = Some t \<and> EventTimeMillis (rec_Event r) \<le> t"
proof -
  obtain a b where rs: "rs = a @ r # b" using assms(1) by (meson split_list)
  let ?tr = "foldl (track_step opts) tr a"
  have "\<exists>t. tr_time (track_step opts ?tr r) (ev_Symbol (rec_Event r)) = Some t \<and> EventTimeMillis (rec_Event r) \<le> t"
    using assms(2) by (simp add: track_step_def Let_def split: option.split)
  then show ?thesis using track_time_grows [of _ _ _ opts b] by (fastforce simp: rs)
qed

text \<open>
  C30: the order of arrival decides. Let messages of publishable rows arrive in any order, at whatever
  partitions and offsets. A row that arrives after a row of the same symbol with a strictly later time
  is routed to the error topic. Depth events and trades travel on two topics whose relative order a
  consumer is not promised, so this can happen to rows that the file has in order.
\<close>

theorem topics_out_of_order:
  assumes "list_all2 carries ms rs" "list_all publishable rs" "i < k" "k < length rs"
    "ev_Symbol (rec_Event (rs ! i)) = ev_Symbol (rec_Event (rs ! k))"
    "EventTimeMillis (rec_Event (rs ! k)) < EventTimeMillis (rec_Event (rs ! i))"
  shows "\<exists>v' outs. kafka_Run (mailbox etext now) (NewValidatorWithOptions t grp) (ms, []) =
      Some (''no kafka message available'', v', ([], outs)) \<and> length outs = length rs \<and>
    mg_Topic (outs ! k) = TopicMarketReplayErrors \<and> mg_Key (outs ! k) = ev_Symbol (rec_Event (rs ! k))"
proof -
  let ?o = "\<lparr>op_Symbol = ''''\<rparr>"
  let ?v = "NewValidator t ?o"
  obtain v' outs where run: "kafka_Run (mailbox etext now) (NewValidatorWithOptions t grp) (ms, []) =
      Some (''no kafka message available'', v', ([], outs))"
    "map mg_Topic outs = map (\<lambda>ok. if ok then TopicMarketReplayValidated else TopicMarketReplayErrors) (verdicts ?v rs)"
    "map mg_Key outs = map (ev_Symbol \<circ> rec_Event) rs"
    using kafka_Run_mailbox [OF assms(1,2), of "NewValidatorWithOptions t grp" ?v etext now "[]"]
    by (auto simp: NewValidatorWithOptions_def)
  have len: "length outs = length rs" using arg_cong [OF run(3), of length] by simp
  have ok: "relevant ?o (rs ! i)" "rec_Err (rs ! k) = None"
    using assms(2-4) by (simp_all add: list_all_length publishable_def relevant_def filtered_out_def)
  have "rs ! i \<in> set (take k rs)" using assms(3,4) by (auto simp: in_set_conv_nth intro!: exI [of _ i])
  from track_time_seen [OF this ok(1), of empty_track] obtain l where
    "tr_time (foldl (track_step ?o) empty_track (take k rs)) (ev_Symbol (rec_Event (rs ! k))) = Some l"
    "EventTimeMillis (rec_Event (rs ! k)) < l"
    using assms(5,6) by fastforce
  then have "step_failures ?o (foldl (track_step ?o) empty_track (take k rs)) (rs ! k) \<noteq> []"
    using ok(2) by (simp add: step_failures_def time_failures_def filtered_out_def Let_def)
  then have "\<not> verdicts ?v rs ! k" using verdicts_nth [OF assms(4), of ?v] by simp
  then have "mg_Topic (outs ! k) = TopicMarketReplayErrors" "mg_Key (outs ! k) = ev_Symbol (rec_Event (rs ! k))"
    using arg_cong [OF run(2), of "\<lambda>xs. xs ! k"] arg_cong [OF run(3), of "\<lambda>xs. xs ! k"] assms(4) len by simp_all
  then show ?thesis using run(1) len by blast
qed

subsection \<open>Sample messages\<close>

definition sample_trade_record :: Record where
  "sample_trade_record = \<lparr>rec_Line = 2, rec_Event = zero_MarketEvent\<lparr>ev_Type := ''aggTrade'', ev_Symbol := ''BTCUSDT'',
     ev_TradeTimeMS := 6, ev_TradeID := 1, ev_Price := ''1'', ev_Quantity := ''2'', ev_IsBuyerMaker := Some True, ev_Line := 2\<rparr>,
     rec_Raw = [], rec_Err = None\<rparr>"

abbreviation "sample_rows \<equiv> [sample_record 1 5 1 2, sample_trade_record]"

abbreviation "raw \<equiv> raw_message TopicMarketDepthRaw TopicMarketTradeRaw"

abbreviation "sample_broker \<equiv> mailbox (\<lambda>_. ''error'') (\<lambda>_. 0)"

lemma sample_rows_publishable: "list_all publishable sample_rows"
proof -
  have "publishable (sample_record 1 5 1 2)"
    using sample_record_ok [of 5 1 2 1]
    by (simp add: publishable_def record_ok_def sample_record_def int64_def levels_named_def sample_depth_def zero_MarketEvent_def)
  moreover have "publishable sample_trade_record"
  proof -
    have "ToUpper (TrimSpace ''BTCUSDT'') = ''BTCUSDT''" by code_simp
    then show ?thesis
      by (simp add: publishable_def sample_trade_record_def event_shape_def int64_event_def int64_def levels_named_def
          zero_MarketEvent_def EventTypeDepth_def EventTypeAggTrade_def)
  qed
  ultimately show ?thesis by simp
qed

theorem topics_out_of_order_witness:
  "verdicts (NewValidator 0 \<lparr>op_Symbol = ''''\<rparr>) sample_rows = [True, True] \<and>
   mg_Topic (raw (sample_rows ! 0)) \<noteq> mg_Topic (raw (sample_rows ! 1)) \<and>
   (\<exists>v' outs. kafka_Run sample_broker (NewValidatorWithOptions 0 '''') (rev (map raw sample_rows), []) =
      Some (''no kafka message available'', v', ([], outs)) \<and> mg_Topic (outs ! 1) = TopicMarketReplayErrors)"
proof -
  have file_ok: "verdicts (NewValidator 0 \<lparr>op_Symbol = ''''\<rparr>) sample_rows = [True, True] \<and>
    mg_Topic (raw (sample_rows ! 0)) \<noteq> mg_Topic (raw (sample_rows ! 1))" by code_simp
  have c: "list_all2 carries (rev (map raw sample_rows)) (rev sample_rows)"
    by (auto simp: carries_def raw_message_def new_message_def intro!: exI [of _ 0])
  have pub: "list_all publishable (rev sample_rows)" using sample_rows_publishable by simp
  have "ev_Symbol (rec_Event (rev sample_rows ! 0)) = ev_Symbol (rec_Event (rev sample_rows ! 1))"
    "EventTimeMillis (rec_Event (rev sample_rows ! 1)) < EventTimeMillis (rec_Event (rev sample_rows ! 0))" by code_simp+
  from topics_out_of_order [OF c pub _ _ this] file_ok show ?thesis by fastforce
qed


theorem stream_validates_like_file_witness:
  "\<exists>v' outs. kafka_Run sample_broker (NewValidatorWithOptions 0 '''') ([raw (sample_record 1 5 1 2)], []) =
      Some (''no kafka message available'', v', ([], outs)) \<and> map mg_Topic outs = [TopicMarketReplayValidated]"
proof -
  let ?r = "sample_record 1 5 1 2"
  have "list_all2 carries [raw ?r] [?r]"
    by (auto simp: carries_def raw_message_def new_message_def intro!: exI [of _ 0])
  moreover have "list_all publishable [?r]"
    using sample_record_ok [of 5 1 2 1]
    by (simp add: publishable_def record_ok_def sample_record_def int64_def levels_named_def sample_depth_def zero_MarketEvent_def)
  moreover have "verdicts (NewValidator 0 \<lparr>op_Symbol = ''''\<rparr>) [?r] = [True]" by code_simp
  ultimately show ?thesis
    using stream_validates_like_file [of "[raw ?r]" "[?r]" "\<lambda>_. ''error''" "\<lambda>_. 0" 0 "''''" 0] by auto
qed

end
