(* ===== verification/Store_Manifest.thy ===== *)
theory Store_Manifest
  imports Store_Types Event_Types Go_Time "HOL-Library.Product_Lexorder"
begin

section \<open>internal/store: a manifest in a JSONB column\<close>

text \<open>
  \<^verbatim>\<open>postgres.go\<close> stores a \<^verbatim>\<open>ReplayManifest\<close> as the JSON its struct tags give (\<^verbatim>\<open>store.go\<close>) and reads it back with
  \<^verbatim>\<open>replayManifestFromJSON\<close>. The column has type JSONB: Postgres keeps the value, with the members of an object sorted by the
  length of the key and then the key. Times are RFC 3339 strings. What is stored is read back.
\<close>

definition enc_time :: "time \<Rightarrow> jv option" where
  "enc_time t =
     (case civil_day (t div 86400000000000) of (y, _, _) \<Rightarrow>
        if 0 \<le> y \<and> y \<le> 9999 then Some (JStr (rfc3339_nano t)) else None)"

definition enc_num :: "string \<Rightarrow> int \<Rightarrow> (string \<times> jv) list" where
  "enc_num k x = [(k, JNum (FormatInt x))]"

text \<open>\<^verbatim>\<open>json.Marshal\<close> of a manifest; \<^verbatim>\<open>omitempty\<close> has no effect on a time, and a year out of range is an error.\<close>

definition ReplayManifest_json :: "ReplayManifest \<Rightarrow> jv option" where
  "ReplayManifest_json m =
     (case (enc_time (mf_StartedAt m), enc_time (mf_CompletedAt m)) of
        (Some started, Some completed) \<Rightarrow>
          Some (JObj (
            enc_str ''input_path'' (mf_InputPath m) @ enc_str ''input_format'' (mf_InputFormat m) @
            enc_str ''input_symbol'' (mf_InputSymbol m) @ enc_str ''input_file_sha256'' (mf_InputFileSHA256 m) @
            enc_num ''input_bytes'' (mf_InputBytes m) @ enc_num ''input_rows'' (mf_InputRows m) @
            enc_str ''app_version'' (mf_AppVersion m) @
            [(''started_at'', started), (''completed_at'', completed)] @
            enc_num ''duration_ns'' (mf_Duration m) @ enc_num ''checkpoint_line'' (mf_CheckpointLine m) @
            enc_num ''resume_from_line'' (mf_ResumeFromLine m) @ enc_num ''error_count'' (mf_ErrorCount m) @
            enc_num ''malformed_events'' (mf_MalformedEvents m) @ enc_num ''sequence_gaps'' (mf_SequenceGaps m)))
      | _ \<Rightarrow> None)"

fun dec_time :: "jv \<Rightarrow> json_error + time option" where
  "dec_time JNull = Inr None"
| "dec_time (JStr s) = (case parse_rfc3339 s of None \<Rightarrow> Inl (JsonUnmarshaler JsonType) | Some t \<Rightarrow> Inr (Some t))"
| "dec_time _ = Inl (JsonUnmarshaler JsonType)"

definition set_manifest_field :: "string \<Rightarrow> jv \<Rightarrow> ReplayManifest \<Rightarrow> json_error + ReplayManifest" where
  "set_manifest_field k v m =
     (if k = ''input_path'' then set_plain (\<lambda>x m. m\<lparr>mf_InputPath := x\<rparr>) (dec_string v) m
      else if k = ''input_format'' then set_plain (\<lambda>x m. m\<lparr>mf_InputFormat := x\<rparr>) (dec_string v) m
      else if k = ''input_symbol'' then set_plain (\<lambda>x m. m\<lparr>mf_InputSymbol := x\<rparr>) (dec_string v) m
      else if k = ''input_file_sha256'' then set_plain (\<lambda>x m. m\<lparr>mf_InputFileSHA256 := x\<rparr>) (dec_string v) m
      else if k = ''input_bytes'' then set_plain (\<lambda>x m. m\<lparr>mf_InputBytes := x\<rparr>) (dec_int64 v) m
      else if k = ''input_rows'' then set_plain (\<lambda>x m. m\<lparr>mf_InputRows := x\<rparr>) (dec_int64 v) m
      else if k = ''app_version'' then set_plain (\<lambda>x m. m\<lparr>mf_AppVersion := x\<rparr>) (dec_string v) m
      else if k = ''started_at'' then set_plain (\<lambda>x m. m\<lparr>mf_StartedAt := x\<rparr>) (dec_time v) m
      else if k = ''completed_at'' then set_plain (\<lambda>x m. m\<lparr>mf_CompletedAt := x\<rparr>) (dec_time v) m
      else if k = ''duration_ns'' then set_plain (\<lambda>x m. m\<lparr>mf_Duration := x\<rparr>) (dec_int64 v) m
      else if k = ''checkpoint_line'' then set_plain (\<lambda>x m. m\<lparr>mf_CheckpointLine := x\<rparr>) (dec_int64 v) m
      else if k = ''resume_from_line'' then set_plain (\<lambda>x m. m\<lparr>mf_ResumeFromLine := x\<rparr>) (dec_int64 v) m
      else if k = ''error_count'' then set_plain (\<lambda>x m. m\<lparr>mf_ErrorCount := x\<rparr>) (dec_int64 v) m
      else if k = ''malformed_events'' then set_plain (\<lambda>x m. m\<lparr>mf_MalformedEvents := x\<rparr>) (dec_int64 v) m
      else if k = ''sequence_gaps'' then set_plain (\<lambda>x m. m\<lparr>mf_SequenceGaps := x\<rparr>) (dec_int64 v) m
      else Inr m)"

text \<open>The column is never empty, and a value that does not fit gives the zero manifest.\<close>

definition replayManifestFromJSON :: "jv \<Rightarrow> ReplayManifest" where
  "replayManifestFromJSON data =
     (case dec_struct set_manifest_field zero_ReplayManifest data of
        Inl _ \<Rightarrow> zero_ReplayManifest
      | Inr manifest \<Rightarrow> manifest)"

definition jsonb_sort :: "jv \<Rightarrow> jv" where
  "jsonb_sort v = (case v of JObj ms \<Rightarrow> JObj (sort_key (\<lambda>(k, _). (length k, k)) ms) | _ \<Rightarrow> v)"

text \<open>A NUL character cannot be stored in a JSONB string.\<close>

definition jsonb_ok :: "jv \<Rightarrow> bool" where
  "jsonb_ok v = (case v of JObj ms \<Rightarrow> list_all (\<lambda>(_, x). case x of JStr s \<Rightarrow> CHR 0x00 \<notin> set s | _ \<Rightarrow> True) ms | _ \<Rightarrow> True)"

subsection \<open>Reading a manifest back\<close>

text \<open>Members that set different fields may come in any order.\<close>

definition plain_setter :: "(string \<Rightarrow> jv \<Rightarrow> 's \<Rightarrow> json_error + 's) \<Rightarrow> (string \<Rightarrow> jv \<Rightarrow> 's \<Rightarrow> 's) \<Rightarrow> string \<times> jv \<Rightarrow> bool" where
  "plain_setter set_field upd kv \<longleftrightarrow> (\<forall>s. set_field (ToLower (fst kv)) (snd kv) s = Inr (upd (fst kv) (snd kv) s))"

lemma dec_members_fold:
  "list_all (plain_setter set_field upd) ms \<Longrightarrow>
    dec_members set_field ms s None = Inr (fold (\<lambda>(k, v). upd k v) ms s)"
  by (induction ms arbitrary: s) (auto simp: plain_setter_def)

lemma dec_members_reorder:
  assumes "list_all (plain_setter set_field upd) ms" "mset ms' = mset ms" "distinct (map fst ms)"
    and "\<And>k v k' v' s. k \<noteq> k' \<Longrightarrow> upd k v (upd k' v' s) = upd k' v' (upd k v s)"
  shows "dec_members set_field ms' s None = dec_members set_field ms s None"
proof -
  have set: "set ms' = set ms" using assms(2) by (metis set_mset_mset)
  then have "list_all (plain_setter set_field upd) ms'" using assms(1) by (simp add: list_all_iff)
  moreover have "fold (\<lambda>(k, v). upd k v) ms' = fold (\<lambda>(k, v). upd k v) ms"
  proof (rule fold_multiset_equiv)
    fix x y assume "x \<in> set ms'" "y \<in> set ms'"
    then have "x = y \<or> fst x \<noteq> fst y"
      using set assms(3) by (metis eq_key_imp_eq_value prod.collapse)
    then show "(\<lambda>(k, v). upd k v) x \<circ> (\<lambda>(k, v). upd k v) y = (\<lambda>(k, v). upd k v) y \<circ> (\<lambda>(k, v). upd k v) x"
      using assms(4) by (cases x; cases y) (auto simp: fun_eq_iff)
  qed (use assms(2) in simp)
  ultimately show ?thesis using assms(1) by (simp add: dec_members_fold)
qed

definition upd_manifest :: "string \<Rightarrow> jv \<Rightarrow> ReplayManifest \<Rightarrow> ReplayManifest" where
  "upd_manifest k v m = (case set_manifest_field k v m of Inl _ \<Rightarrow> m | Inr m' \<Rightarrow> m')"

definition apply_dec :: "('a \<Rightarrow> 's \<Rightarrow> 's) \<Rightarrow> json_error + 'a option \<Rightarrow> 's \<Rightarrow> 's" where
  "apply_dec f r s = (case r of Inr (Some x) \<Rightarrow> f x s | _ \<Rightarrow> s)"

lemma apply_dec_commute:
  "(\<And>x y s. f x (g y s) = g y (f x s)) \<Longrightarrow> apply_dec f r (apply_dec g r' s) = apply_dec g r' (apply_dec f r s)"
  by (simp add: apply_dec_def split: sum.splits option.splits)

lemma set_plain_apply_dec: "(case set_plain f r s of Inl _ \<Rightarrow> s | Inr s' \<Rightarrow> s') = apply_dec f r s"
  by (simp add: set_plain_def apply_dec_def split: sum.splits option.splits)

lemma upd_manifest_simps [simp]:
  "upd_manifest ''input_path'' v m = apply_dec (\<lambda>x m. m\<lparr>mf_InputPath := x\<rparr>) (dec_string v) m"
  "upd_manifest ''input_format'' v m = apply_dec (\<lambda>x m. m\<lparr>mf_InputFormat := x\<rparr>) (dec_string v) m"
  "upd_manifest ''input_symbol'' v m = apply_dec (\<lambda>x m. m\<lparr>mf_InputSymbol := x\<rparr>) (dec_string v) m"
  "upd_manifest ''input_file_sha256'' v m = apply_dec (\<lambda>x m. m\<lparr>mf_InputFileSHA256 := x\<rparr>) (dec_string v) m"
  "upd_manifest ''input_bytes'' v m = apply_dec (\<lambda>x m. m\<lparr>mf_InputBytes := x\<rparr>) (dec_int64 v) m"
  "upd_manifest ''input_rows'' v m = apply_dec (\<lambda>x m. m\<lparr>mf_InputRows := x\<rparr>) (dec_int64 v) m"
  "upd_manifest ''app_version'' v m = apply_dec (\<lambda>x m. m\<lparr>mf_AppVersion := x\<rparr>) (dec_string v) m"
  "upd_manifest ''started_at'' v m = apply_dec (\<lambda>x m. m\<lparr>mf_StartedAt := x\<rparr>) (dec_time v) m"
  "upd_manifest ''completed_at'' v m = apply_dec (\<lambda>x m. m\<lparr>mf_CompletedAt := x\<rparr>) (dec_time v) m"
  "upd_manifest ''duration_ns'' v m = apply_dec (\<lambda>x m. m\<lparr>mf_Duration := x\<rparr>) (dec_int64 v) m"
  "upd_manifest ''checkpoint_line'' v m = apply_dec (\<lambda>x m. m\<lparr>mf_CheckpointLine := x\<rparr>) (dec_int64 v) m"
  "upd_manifest ''resume_from_line'' v m = apply_dec (\<lambda>x m. m\<lparr>mf_ResumeFromLine := x\<rparr>) (dec_int64 v) m"
  "upd_manifest ''error_count'' v m = apply_dec (\<lambda>x m. m\<lparr>mf_ErrorCount := x\<rparr>) (dec_int64 v) m"
  "upd_manifest ''malformed_events'' v m = apply_dec (\<lambda>x m. m\<lparr>mf_MalformedEvents := x\<rparr>) (dec_int64 v) m"
  "upd_manifest ''sequence_gaps'' v m = apply_dec (\<lambda>x m. m\<lparr>mf_SequenceGaps := x\<rparr>) (dec_int64 v) m"
  by (simp_all add: upd_manifest_def set_manifest_field_def set_plain_apply_dec)

definition manifest_keys :: "string list" where
  "manifest_keys = [''input_path'', ''input_format'', ''input_symbol'', ''input_file_sha256'', ''input_bytes'', ''input_rows'',
     ''app_version'', ''started_at'', ''completed_at'', ''duration_ns'', ''checkpoint_line'', ''resume_from_line'',
     ''error_count'', ''malformed_events'', ''sequence_gaps'']"

lemma upd_manifest_other: "k \<notin> set manifest_keys \<Longrightarrow> upd_manifest k v m = m"
  by (simp add: upd_manifest_def set_manifest_field_def manifest_keys_def)

lemma upd_manifest_commute_keys:
  "\<forall>k\<in>set manifest_keys. \<forall>k'\<in>set manifest_keys. k \<noteq> k' \<longrightarrow>
    upd_manifest k v (upd_manifest k' v' m) = upd_manifest k' v' (upd_manifest k v m)"
  unfolding manifest_keys_def list.set ball_simps
  by (intro conjI impI TrueI) (simp; rule apply_dec_commute; simp)+

lemma upd_manifest_commute:
  "k \<noteq> k' \<Longrightarrow> upd_manifest k v (upd_manifest k' v' m) = upd_manifest k' v' (upd_manifest k v m)"
  using upd_manifest_commute_keys upd_manifest_other
  by (cases "k \<in> set manifest_keys"; cases "k' \<in> set manifest_keys") simp_all

text \<open>A manifest whose fields fit their Go types and whose times lie in the years 1 to 9999.\<close>

definition last_time :: time where "last_time = 3652059 * 86400000000000"

definition manifest_ok :: "ReplayManifest \<Rightarrow> bool" where
  "manifest_ok m \<longleftrightarrow>
     list_all int64 [mf_InputBytes m, mf_InputRows m, mf_Duration m, mf_CheckpointLine m, mf_ResumeFromLine m,
       mf_ErrorCount m, mf_MalformedEvents m, mf_SequenceGaps m] \<and>
     list_all (\<lambda>t. 0 \<le> t \<and> t < last_time) [mf_StartedAt m, mf_CompletedAt m]"

lemma dec_enc_time:
  assumes "0 \<le> t" "t < last_time"
  shows "enc_time t = Some (JStr (rfc3339_nano t))" "dec_time (JStr (rfc3339_nano t)) = Inr (Some t)"
proof -
  obtain y m d where ymd: "civil_day (t div 86400000000000) = (y, m, d)" by (metis prod_cases3)
  have "0 \<le> t div 86400000000000" using assms(1) by (simp add: pos_imp_zdiv_nonneg_iff)
  moreover have "t div 86400000000000 < 3652059"
    by (rule int_div_below [OF assms(2) [unfolded last_time_def]]) simp
  ultimately have "1 \<le> y" "y \<le> 9999" using civil_day_number(6,7) [OF ymd] by blast+
  then show "enc_time t = Some (JStr (rfc3339_nano t))" using ymd by (simp add: enc_time_def)
  show "dec_time (JStr (rfc3339_nano t)) = Inr (Some t)"
    using parse_rfc3339_nano [OF assms(1) assms(2) [unfolded last_time_def]] by simp
qed

lemma manifest_keys_lower: "\<forall>k\<in>set manifest_keys. ToLower k = k"
  unfolding manifest_keys_def by code_simp

lemma plain_setter_manifest:
  assumes "k \<in> set manifest_keys" "\<And>s. \<exists>s'. set_manifest_field k v s = Inr s'"
  shows "plain_setter set_manifest_field upd_manifest (k, v)"
proof -
  have "ToLower k = k" using manifest_keys_lower assms(1) by blast
  then show ?thesis
    using assms(2) by (auto simp: plain_setter_def upd_manifest_def) (metis sum.case(2))
qed

lemma set_plain_total: "r = Inr (Some x) \<Longrightarrow> \<exists>s'. set_plain f r s = Inr s'"
  by (simp add: set_plain_def)

lemma upd_omitted:
  "mf_InputPath z = '''' \<Longrightarrow> fold (\<lambda>(k, v). upd_manifest k v) (enc_str ''input_path'' s) z = z\<lparr>mf_InputPath := s\<rparr>"
  "mf_InputFormat z = '''' \<Longrightarrow> fold (\<lambda>(k, v). upd_manifest k v) (enc_str ''input_format'' s) z = z\<lparr>mf_InputFormat := s\<rparr>"
  "mf_InputSymbol z = '''' \<Longrightarrow> fold (\<lambda>(k, v). upd_manifest k v) (enc_str ''input_symbol'' s) z = z\<lparr>mf_InputSymbol := s\<rparr>"
  "mf_InputFileSHA256 z = '''' \<Longrightarrow>
    fold (\<lambda>(k, v). upd_manifest k v) (enc_str ''input_file_sha256'' s) z = z\<lparr>mf_InputFileSHA256 := s\<rparr>"
  "mf_AppVersion z = '''' \<Longrightarrow> fold (\<lambda>(k, v). upd_manifest k v) (enc_str ''app_version'' s) z = z\<lparr>mf_AppVersion := s\<rparr>"
  by (simp_all add: enc_str_def apply_dec_def)

lemma manifest_members:
  assumes "manifest_ok m"
  defines "ms \<equiv> enc_str ''input_path'' (mf_InputPath m) @ enc_str ''input_format'' (mf_InputFormat m) @
      enc_str ''input_symbol'' (mf_InputSymbol m) @ enc_str ''input_file_sha256'' (mf_InputFileSHA256 m) @
      enc_num ''input_bytes'' (mf_InputBytes m) @ enc_num ''input_rows'' (mf_InputRows m) @
      enc_str ''app_version'' (mf_AppVersion m) @
      [(''started_at'', JStr (rfc3339_nano (mf_StartedAt m))), (''completed_at'', JStr (rfc3339_nano (mf_CompletedAt m)))] @
      enc_num ''duration_ns'' (mf_Duration m) @ enc_num ''checkpoint_line'' (mf_CheckpointLine m) @
      enc_num ''resume_from_line'' (mf_ResumeFromLine m) @ enc_num ''error_count'' (mf_ErrorCount m) @
      enc_num ''malformed_events'' (mf_MalformedEvents m) @ enc_num ''sequence_gaps'' (mf_SequenceGaps m)"
  shows "ReplayManifest_json m = Some (JObj ms)" "distinct (map fst ms)"
    "list_all (plain_setter set_manifest_field upd_manifest) ms"
    "fold (\<lambda>(k, v). upd_manifest k v) ms zero_ReplayManifest = m"
proof -
  have t: "0 \<le> mf_StartedAt m" "mf_StartedAt m < last_time" "0 \<le> mf_CompletedAt m" "mf_CompletedAt m < last_time"
    and n: "int64 (mf_InputBytes m)" "int64 (mf_InputRows m)" "int64 (mf_Duration m)" "int64 (mf_CheckpointLine m)"
      "int64 (mf_ResumeFromLine m)" "int64 (mf_ErrorCount m)" "int64 (mf_MalformedEvents m)" "int64 (mf_SequenceGaps m)"
    using assms(1) by (simp_all add: manifest_ok_def)
  note dec = dec_enc_time [OF t(1,2)] dec_enc_time [OF t(3,4)] n [THEN dec_int64_FormatInt]
  show "ReplayManifest_json m = Some (JObj ms)" unfolding ReplayManifest_json_def ms_def by (simp add: dec)
  show "fold (\<lambda>(k, v). upd_manifest k v) ms zero_ReplayManifest = m"
    unfolding ms_def
    by (simp add: enc_num_def dec apply_dec_def zero_ReplayManifest_def upd_omitted del: dec_int64.simps dec_time.simps)
  show "distinct (map fst ms)" unfolding ms_def enc_str_def enc_num_def by simp
  show "list_all (plain_setter set_manifest_field upd_manifest) ms"
    unfolding ms_def list_all_append enc_num_def enc_str_def
    by (simp add: plain_setter_manifest manifest_keys_def set_manifest_field_def set_plain_def dec
        del: dec_int64.simps dec_time.simps)
qed

text \<open>What is stored in the column is read back, although the members come in another order.\<close>

lemma manifest_roundtrip:
  assumes "manifest_ok m" "ReplayManifest_json m = Some v"
  shows "replayManifestFromJSON (jsonb_sort v) = m"
proof -
  note M = manifest_members [OF assms(1)]
  obtain ms where v: "v = JObj ms" and ms: "distinct (map fst ms)" "list_all (plain_setter set_manifest_field upd_manifest) ms"
    "fold (\<lambda>(k, v). upd_manifest k v) ms zero_ReplayManifest = m"
    using M assms(2) by simp
  let ?ms' = "sort_key (\<lambda>(k, _). (length k, k)) ms"
  have "dec_members set_manifest_field ?ms' zero_ReplayManifest None = Inr m"
    using dec_members_reorder [OF ms(2) mset_sort [of "\<lambda>(k, _). (length k, k)" ms] ms(1) upd_manifest_commute]
      dec_members_fold [OF ms(2)] ms(3) by simp
  then show ?thesis by (simp add: replayManifestFromJSON_def jsonb_sort_def v dec_struct_def)
qed

end
