(* ===== verification/Postgres_Queries.thy ===== *)
theory Postgres_Queries
  imports Store_Manifest
begin

section \<open>internal/store/db: the tables and the queries\<close>

text \<open>
  The SQL of the repository: the tables of \<^verbatim>\<open>postgres_schema.go\<close> with the rows of \<^verbatim>\<open>db/models.go\<close>, and the statements of
  \<^verbatim>\<open>db/metadata.sql.go\<close>, each as a function on the tables that returns its rows or an error. A statement that
  fails changes nothing. A table is the list of its rows. The order of the checks is Postgres's: the parameters
  (a text must be valid UTF-8 without NUL), \<^verbatim>\<open>CHECK\<close> constraints, unique indexes, foreign keys. A timestamp has
  microseconds. \<^verbatim>\<open>ORDER BY\<close> leaves the order of equal rows open: the rows found are rearranged by a code first.
\<close>

subsection \<open>Rows\<close>

type_synonym Timestamptz = "time option"

definition pg_time :: "time \<Rightarrow> time" where
  "pg_time t = t div 1000 * 1000"

record DatasetRow =
  dr_ID :: string
  dr_Name :: string
  dr_Description :: string
  dr_CreatedAt :: Timestamptz

record EventFileRow =
  fr_ID :: string
  fr_DatasetID :: string
  fr_Path :: string
  fr_Format :: string
  fr_Symbol :: string
  fr_Bytes :: int
  fr_CreatedAt :: Timestamptz
  fr_Sha256 :: string
  fr_Rows :: int

text \<open>The key is NULL or a text in the table, and a text in the rows of the queries, which \<^verbatim>\<open>COALESCE\<close> it.\<close>

record 'k JobRow =
  jr_ID :: string
  jr_DatasetID :: string
  jr_EventFileID :: string
  jr_IdempotencyKey :: 'k
  jr_Symbol :: string
  jr_Speed :: string
  jr_Status :: string
  jr_Attempts :: int
  jr_LastError :: string
  jr_CheckpointLine :: int
  jr_CreatedAt :: Timestamptz
  jr_StartedAt :: Timestamptz
  jr_CompletedAt :: Timestamptz
  jr_CanceledAt :: Timestamptz
  jr_Manifest :: jv

type_synonym ReplayJobRow = "string option JobRow"
type_synonym CancelReplayJobRow = "string JobRow"
type_synonym CreateReplayJobRow = "string JobRow"
type_synonym GetReplayJobRow = "string JobRow"
type_synonym GetReplayJobByIdempotencyKeyRow = "string JobRow"
type_synonym ListReplayJobsRow = "string JobRow"
type_synonym UpdateReplayJobStatusRow = "string JobRow"
type_synonym UpdateReplayManifestRow = "string JobRow"

record MetricRow =
  mt_ID :: string
  mt_JobID :: string
  mt_Rows :: int
  mt_Events :: int
  mt_MalformedEvents :: int
  mt_SequenceGaps :: int
  mt_DurationNs :: int
  mt_RowsPerSecond :: float64
  mt_EventsPerSecond :: float64
  mt_P95LatencyNs :: int
  mt_PeakAllocBytes :: int
  mt_AllocsPerEvent :: float64
  mt_CreatedAt :: Timestamptz

record ErrorRow =
  ew_ID :: string
  ew_JobID :: string
  ew_Line :: int
  ew_Symbol :: string
  ew_Type :: string
  ew_Message :: string
  ew_CreatedAt :: Timestamptz

record Tables =
  tb_datasets :: "DatasetRow list"
  tb_event_files :: "EventFileRow list"
  tb_replay_jobs :: "ReplayJobRow list"
  tb_replay_metrics :: "MetricRow list"
  tb_validation_errors :: "ErrorRow list"

text \<open>A database without rows.\<close>

definition fresh_tables :: Tables where
  "fresh_tables =
     \<lparr>tb_datasets = [], tb_event_files = [], tb_replay_jobs = [], tb_replay_metrics = [], tb_validation_errors = []\<rparr>"

text \<open>
  The constraints of the schema: primary keys, references, the unique key, the checks and \<^verbatim>\<open>NOT NULL\<close>. \<^verbatim>\<open>INTEGER\<close> and
  \<^verbatim>\<open>BIGINT\<close> have 32 and 64 bits.
\<close>

definition int32_max :: int where "int32_max = 2147483647"

definition schema_ok :: "Tables \<Rightarrow> bool" where
  "schema_ok t \<longleftrightarrow>
     distinct (map dr_ID (tb_datasets t)) \<and> distinct (map fr_ID (tb_event_files t)) \<and>
     distinct (map jr_ID (tb_replay_jobs t)) \<and> distinct (map mt_ID (tb_replay_metrics t)) \<and>
     distinct (map ew_ID (tb_validation_errors t)) \<and>
     distinct (filter (\<lambda>k. k \<noteq> None) (map jr_IdempotencyKey (tb_replay_jobs t))) \<and>
     list_all (\<lambda>f. fr_DatasetID f \<in> dr_ID ` set (tb_datasets t) \<and> 0 \<le> fr_Bytes f \<and> 0 \<le> fr_Rows f) (tb_event_files t) \<and>
     list_all (\<lambda>j. jr_DatasetID j \<in> dr_ID ` set (tb_datasets t) \<and> jr_EventFileID j \<in> fr_ID ` set (tb_event_files t) \<and>
        0 \<le> jr_Attempts j \<and> jr_Attempts j \<le> int32_max \<and> 0 \<le> jr_CheckpointLine j) (tb_replay_jobs t) \<and>
     list_all (\<lambda>m. mt_JobID m \<in> jr_ID ` set (tb_replay_jobs t)) (tb_replay_metrics t) \<and>
     list_all (\<lambda>e. ew_JobID e \<in> jr_ID ` set (tb_replay_jobs t)) (tb_validation_errors t) \<and>
     list_all (\<lambda>d. dr_CreatedAt d \<noteq> None) (tb_datasets t) \<and> list_all (\<lambda>f. fr_CreatedAt f \<noteq> None) (tb_event_files t) \<and>
     list_all (\<lambda>j. jr_CreatedAt j \<noteq> None) (tb_replay_jobs t) \<and> list_all (\<lambda>m. mt_CreatedAt m \<noteq> None) (tb_replay_metrics t) \<and>
     list_all (\<lambda>e. ew_CreatedAt e \<noteq> None) (tb_validation_errors t)"

subsection \<open>Statements\<close>

datatype pg_error = ErrNoRows | PgError string | ConnectionError string

type_synonym 'a statement = "Tables \<Rightarrow> (pg_error + 'a) \<times> Tables"

fun utf8_size :: "bytes \<Rightarrow> nat" where
  "utf8_size [] = 0"
| "utf8_size (c # cs) =
     (let b = (of_char c :: nat);
          byte = (\<lambda>i lo hi. i < length cs \<and> lo \<le> (of_char (cs ! i) :: nat) \<and> (of_char (cs ! i) :: nat) \<le> hi)
      in if b < 0x80 then 1
         else if 0xC2 \<le> b \<and> b \<le> 0xDF then (if byte 0 0x80 0xBF then 2 else 0)
         else if b = 0xE0 then (if byte 0 0xA0 0xBF \<and> byte 1 0x80 0xBF then 3 else 0)
         else if b = 0xED then (if byte 0 0x80 0x9F \<and> byte 1 0x80 0xBF then 3 else 0)
         else if 0xE1 \<le> b \<and> b \<le> 0xEF then (if byte 0 0x80 0xBF \<and> byte 1 0x80 0xBF then 3 else 0)
         else if b = 0xF0 then (if byte 0 0x90 0xBF \<and> byte 1 0x80 0xBF \<and> byte 2 0x80 0xBF then 4 else 0)
         else if b = 0xF4 then (if byte 0 0x80 0x8F \<and> byte 1 0x80 0xBF \<and> byte 2 0x80 0xBF then 4 else 0)
         else if 0xF1 \<le> b \<and> b \<le> 0xF3 then (if byte 0 0x80 0xBF \<and> byte 1 0x80 0xBF \<and> byte 2 0x80 0xBF then 4 else 0)
         else 0)"

function valid_utf8 :: "bytes \<Rightarrow> bool" where
  "valid_utf8 s =
     (if s = [] then True else let n = utf8_size s in if n = 0 then False else valid_utf8 (drop n s))"
  by pat_completeness auto
termination
  by (relation "measure length") auto

declare valid_utf8.simps [simp del]

definition pg_text :: "string \<Rightarrow> bool" where
  "pg_text s \<longleftrightarrow> valid_utf8 s \<and> CHR 0x00 \<notin> set s"

definition with_texts :: "string list \<Rightarrow> 'a statement \<Rightarrow> 'a statement" where
  "with_texts params q t = (if list_all pg_text params then q t else (Inl (PgError ''22021''), t))"

definition one_row :: "'a list \<Rightarrow> pg_error + 'a" where
  "one_row rows = (case rows of [] \<Rightarrow> Inl ErrNoRows | r # _ \<Rightarrow> Inr r)"

definition update_rows :: "('a \<Rightarrow> bool) \<Rightarrow> ('a \<Rightarrow> 'a) \<Rightarrow> 'a list \<Rightarrow> 'a list" where
  "update_rows P f rows = map (\<lambda>r. if P r then f r else r) rows"

text \<open>The columns that the queries on jobs select or return.\<close>

definition returning :: "ReplayJobRow \<Rightarrow> string JobRow" where
  "returning j = \<lparr>jr_ID = jr_ID j, jr_DatasetID = jr_DatasetID j, jr_EventFileID = jr_EventFileID j,
     jr_IdempotencyKey = (case jr_IdempotencyKey j of None \<Rightarrow> '''' | Some k \<Rightarrow> k), jr_Symbol = jr_Symbol j,
     jr_Speed = jr_Speed j, jr_Status = jr_Status j, jr_Attempts = jr_Attempts j, jr_LastError = jr_LastError j,
     jr_CheckpointLine = jr_CheckpointLine j, jr_CreatedAt = jr_CreatedAt j, jr_StartedAt = jr_StartedAt j,
     jr_CompletedAt = jr_CompletedAt j, jr_CanceledAt = jr_CanceledAt j, jr_Manifest = jr_Manifest j\<rparr>"

definition update_jobs :: "string \<Rightarrow> (ReplayJobRow \<Rightarrow> ReplayJobRow) \<Rightarrow> Tables \<Rightarrow> Tables" where
  "update_jobs i f t = t\<lparr>tb_replay_jobs := update_rows (\<lambda>j. jr_ID j = i) f (tb_replay_jobs t)\<rparr>"

definition job_row :: "string \<Rightarrow> Tables \<Rightarrow> pg_error + string JobRow" where
  "job_row i t = one_row (map returning (filter (\<lambda>j. jr_ID j = i) (tb_replay_jobs t)))"

definition affected_rows :: "string \<Rightarrow> Tables \<Rightarrow> int" where
  "affected_rows i t = int (length (filter (\<lambda>j. jr_ID j = i) (tb_replay_jobs t)))"

definition q_CancelReplayJob :: "string \<Rightarrow> Timestamptz \<Rightarrow> CancelReplayJobRow statement" where
  "q_CancelReplayJob i canceledAt = with_texts [i] (\<lambda>t.
     let t' = update_jobs i (\<lambda>j. j\<lparr>jr_Status := ''canceled'', jr_CanceledAt := canceledAt\<rparr>) t in (job_row i t', t'))"

definition q_CompleteReplayJobStatus :: "string \<Rightarrow> Timestamptz \<Rightarrow> int statement" where
  "q_CompleteReplayJobStatus i completedAt = with_texts [i] (\<lambda>t.
     (Inr (affected_rows i t),
      update_jobs i (\<lambda>j. j\<lparr>jr_Status := ''completed'', jr_CompletedAt := completedAt\<rparr>) t))"

definition q_CreateDataset :: "time \<Rightarrow> string \<Rightarrow> string \<Rightarrow> string \<Rightarrow> DatasetRow statement" where
  "q_CreateDataset now i name description = with_texts [i, name, description] (\<lambda>t.
     if i \<in> dr_ID ` set (tb_datasets t) then (Inl (PgError ''23505''), t)
     else let row = \<lparr>dr_ID = i, dr_Name = name, dr_Description = description, dr_CreatedAt = Some (pg_time now)\<rparr>
          in (Inr row, t\<lparr>tb_datasets := tb_datasets t @ [row]\<rparr>))"

definition q_CreateEventFile ::
  "time \<Rightarrow> string \<Rightarrow> string \<Rightarrow> string \<Rightarrow> string \<Rightarrow> string \<Rightarrow> int \<Rightarrow> string \<Rightarrow> int \<Rightarrow> EventFileRow statement" where
  "q_CreateEventFile now i datasetID path format symb nbytes sha256 rows =
     with_texts [i, datasetID, path, format, symb, sha256] (\<lambda>t.
       if nbytes < 0 \<or> rows < 0 then (Inl (PgError ''23514''), t)
       else if i \<in> fr_ID ` set (tb_event_files t) then (Inl (PgError ''23505''), t)
       else if datasetID \<notin> dr_ID ` set (tb_datasets t) then (Inl (PgError ''23503''), t)
       else let row = \<lparr>fr_ID = i, fr_DatasetID = datasetID, fr_Path = path, fr_Format = format, fr_Symbol = symb,
                  fr_Bytes = nbytes, fr_CreatedAt = Some (pg_time now), fr_Sha256 = sha256, fr_Rows = rows\<rparr>
            in (Inr row, t\<lparr>tb_event_files := tb_event_files t @ [row]\<rparr>))"

text \<open>The columns that the statement leaves out get their defaults.\<close>

definition q_CreateReplayJob ::
  "time \<Rightarrow> string \<Rightarrow> string \<Rightarrow> string \<Rightarrow> string option \<Rightarrow> string \<Rightarrow> string \<Rightarrow> string \<Rightarrow> CreateReplayJobRow statement" where
  "q_CreateReplayJob now i datasetID eventFileID key symb speed status =
     with_texts ([i, datasetID, eventFileID] @ (case key of None \<Rightarrow> [] | Some k \<Rightarrow> [k]) @ [symb, speed, status]) (\<lambda>t.
       if i \<in> jr_ID ` set (tb_replay_jobs t) \<or> (key \<noteq> None \<and> key \<in> jr_IdempotencyKey ` set (tb_replay_jobs t))
       then (Inl (PgError ''23505''), t)
       else if datasetID \<notin> dr_ID ` set (tb_datasets t) \<or> eventFileID \<notin> fr_ID ` set (tb_event_files t)
       then (Inl (PgError ''23503''), t)
       else let row = \<lparr>jr_ID = i, jr_DatasetID = datasetID, jr_EventFileID = eventFileID, jr_IdempotencyKey = key,
                  jr_Symbol = symb, jr_Speed = speed, jr_Status = status, jr_Attempts = 0, jr_LastError = '''',
                  jr_CheckpointLine = 0, jr_CreatedAt = Some (pg_time now), jr_StartedAt = None,
                  jr_CompletedAt = None, jr_CanceledAt = None, jr_Manifest = JObj []\<rparr>
            in (Inr (returning row), t\<lparr>tb_replay_jobs := tb_replay_jobs t @ [row]\<rparr>))"

definition q_CreateReplayMetric :: "MetricRow \<Rightarrow> MetricRow statement" where
  "q_CreateReplayMetric row = with_texts [mt_ID row, mt_JobID row] (\<lambda>t.
     if mt_ID row \<in> mt_ID ` set (tb_replay_metrics t) then (Inl (PgError ''23505''), t)
     else if mt_JobID row \<notin> jr_ID ` set (tb_replay_jobs t) then (Inl (PgError ''23503''), t)
     else (Inr row, t\<lparr>tb_replay_metrics := tb_replay_metrics t @ [row]\<rparr>))"

definition q_CreateValidationError :: "ErrorRow \<Rightarrow> ErrorRow statement" where
  "q_CreateValidationError row = with_texts [ew_ID row, ew_JobID row, ew_Symbol row, ew_Type row, ew_Message row] (\<lambda>t.
     if ew_ID row \<in> ew_ID ` set (tb_validation_errors t) then (Inl (PgError ''23505''), t)
     else if ew_JobID row \<notin> jr_ID ` set (tb_replay_jobs t) then (Inl (PgError ''23503''), t)
     else (Inr row, t\<lparr>tb_validation_errors := tb_validation_errors t @ [row]\<rparr>))"

definition q_GetDataset :: "string \<Rightarrow> DatasetRow statement" where
  "q_GetDataset i = with_texts [i] (\<lambda>t. (one_row (filter (\<lambda>d. dr_ID d = i) (tb_datasets t)), t))"

definition q_GetEventFile :: "string \<Rightarrow> EventFileRow statement" where
  "q_GetEventFile i = with_texts [i] (\<lambda>t. (one_row (filter (\<lambda>f. fr_ID f = i) (tb_event_files t)), t))"

definition q_GetReplayJob :: "string \<Rightarrow> GetReplayJobRow statement" where
  "q_GetReplayJob i = with_texts [i] (\<lambda>t. (job_row i t, t))"

text \<open>Nothing equals NULL.\<close>

definition q_GetReplayJobByIdempotencyKey :: "string option \<Rightarrow> GetReplayJobByIdempotencyKeyRow statement" where
  "q_GetReplayJobByIdempotencyKey key = with_texts (case key of None \<Rightarrow> [] | Some k \<Rightarrow> [k]) (\<lambda>t.
     (one_row (map returning (filter (\<lambda>j. key \<noteq> None \<and> jr_IdempotencyKey j = key) (tb_replay_jobs t))), t))"

definition q_ListDatasets :: "nat list \<Rightarrow> DatasetRow list statement" where
  "q_ListDatasets order t = (Inr (sort_key (the \<circ> dr_CreatedAt) (rearrange order (tb_datasets t))), t)"

definition q_ListEventFiles :: "nat list \<Rightarrow> string \<Rightarrow> EventFileRow list statement" where
  "q_ListEventFiles order i = with_texts [i] (\<lambda>t.
     (Inr (sort_key (the \<circ> fr_CreatedAt) (rearrange order (filter (\<lambda>f. fr_DatasetID f = i) (tb_event_files t)))), t))"

definition q_ListReplayJobs :: "nat list \<Rightarrow> ListReplayJobsRow list statement" where
  "q_ListReplayJobs order t =
     (Inr (map returning (sort_key (the \<circ> jr_CreatedAt) (rearrange order (tb_replay_jobs t)))), t)"

definition q_ListReplayMetrics :: "nat list \<Rightarrow> string \<Rightarrow> MetricRow list statement" where
  "q_ListReplayMetrics order i = with_texts [i] (\<lambda>t.
     (Inr (sort_key (the \<circ> mt_CreatedAt) (rearrange order (filter (\<lambda>m. mt_JobID m = i) (tb_replay_metrics t)))), t))"

definition q_ListValidationErrors :: "nat list \<Rightarrow> string \<Rightarrow> ErrorRow list statement" where
  "q_ListValidationErrors order i = with_texts [i] (\<lambda>t.
     (Inr (sort_key (\<lambda>e. (ew_Line e, the (ew_CreatedAt e)))
        (rearrange order (filter (\<lambda>e. ew_JobID e = i) (tb_validation_errors t)))), t))"

definition q_UpdateEventFileStats :: "string \<Rightarrow> string \<Rightarrow> int \<Rightarrow> int \<Rightarrow> EventFileRow statement" where
  "q_UpdateEventFileStats i sha256 rows nbytes = with_texts [i, sha256] (\<lambda>t.
     let fs = update_rows (\<lambda>f. fr_ID f = i) (\<lambda>f. f\<lparr>fr_Sha256 := sha256, fr_Rows := rows, fr_Bytes := nbytes\<rparr>) (tb_event_files t)
     in if i \<in> fr_ID ` set (tb_event_files t) \<and> (rows < 0 \<or> nbytes < 0) then (Inl (PgError ''23514''), t)
        else (one_row (filter (\<lambda>f. fr_ID f = i) fs), t\<lparr>tb_event_files := fs\<rparr>))"

definition q_UpdateReplayCheckpoint :: "string \<Rightarrow> int \<Rightarrow> int statement" where
  "q_UpdateReplayCheckpoint i checkpointLine = with_texts [i] (\<lambda>t.
     (Inr (affected_rows i t),
      update_jobs i (\<lambda>j. j\<lparr>jr_CheckpointLine := max (jr_CheckpointLine j) checkpointLine\<rparr>) t))"

definition q_UpdateReplayJobStatus :: "string \<Rightarrow> string \<Rightarrow> string \<Rightarrow> Timestamptz \<Rightarrow> UpdateReplayJobStatusRow statement" where
  "q_UpdateReplayJobStatus i status lastError at = with_texts [i, status, lastError] (\<lambda>t.
     if list_ex (\<lambda>j. jr_ID j = i \<and> jr_Attempts j \<ge> int32_max) (tb_replay_jobs t) then (Inl (PgError ''22003''), t)
     else let t' = update_jobs i (\<lambda>j. j\<lparr>jr_Status := status, jr_LastError := lastError, jr_Attempts := jr_Attempts j + 1,
            jr_StartedAt := (if status = ''running'' then at else jr_StartedAt j),
            jr_CompletedAt := (if status \<in> {''completed'', ''failed'', ''dlq''} then at else jr_CompletedAt j),
            jr_CanceledAt := (if status = ''canceled'' then at else jr_CanceledAt j)\<rparr>) t
          in (job_row i t', t'))"

definition q_UpdateReplayManifest :: "string \<Rightarrow> jv \<Rightarrow> UpdateReplayManifestRow statement" where
  "q_UpdateReplayManifest i manifest = with_texts [i] (\<lambda>t.
     if \<not> jsonb_ok manifest then (Inl (PgError ''22P05''), t)
     else let t' = update_jobs i (\<lambda>j. j\<lparr>jr_Manifest := jsonb_sort manifest\<rparr>) t in (job_row i t', t'))"

subsection \<open>The statements keep the constraints\<close>

definition keeps_schema :: "'a statement \<Rightarrow> bool" where
  "keeps_schema q \<longleftrightarrow> (\<forall>t. schema_ok t \<longrightarrow> schema_ok (snd (q t)))"

text \<open>A statement that fails has changed nothing.\<close>

definition clean_failure :: "'a statement \<Rightarrow> bool" where
  "clean_failure q \<longleftrightarrow> (\<forall>t e. fst (q t) = Inl e \<longrightarrow> snd (q t) = t)"

lemma keeps_with_texts: "keeps_schema q \<Longrightarrow> keeps_schema (with_texts params q)"
  by (simp add: keeps_schema_def with_texts_def)

lemma clean_with_texts: "clean_failure q \<Longrightarrow> clean_failure (with_texts params q)"
  by (simp add: clean_failure_def with_texts_def)

lemma update_rows_id: "(\<And>r. r \<in> set rows \<Longrightarrow> \<not> P r) \<Longrightarrow> update_rows P f rows = rows"
  by (simp add: update_rows_def map_idI)

lemma update_rows_map:
  "(\<And>r. P r \<Longrightarrow> g (f r) = g r) \<Longrightarrow> map g (update_rows P f rows) = map g rows"
  by (simp add: update_rows_def)

lemma update_rows_all:
  "list_all Q rows \<Longrightarrow> (\<And>r. P r \<Longrightarrow> Q r \<Longrightarrow> Q (f r)) \<Longrightarrow> list_all Q (update_rows P f rows)"
  by (auto simp: update_rows_def list_all_iff)

lemma update_rows_image:
  "(\<And>r. P r \<Longrightarrow> g (f r) = g r) \<Longrightarrow> g ` set (update_rows P f rows) = g ` set rows"
  by (metis set_map update_rows_map)

text \<open>An update of a job that keeps what the constraints are about.\<close>

definition harmless_update :: "(ReplayJobRow \<Rightarrow> ReplayJobRow) \<Rightarrow> ReplayJobRow \<Rightarrow> bool" where
  "harmless_update f j \<longleftrightarrow> jr_ID (f j) = jr_ID j \<and> jr_DatasetID (f j) = jr_DatasetID j \<and>
     jr_EventFileID (f j) = jr_EventFileID j \<and> jr_IdempotencyKey (f j) = jr_IdempotencyKey j \<and>
     jr_CreatedAt (f j) = jr_CreatedAt j \<and>
     (0 \<le> jr_Attempts j \<and> jr_Attempts j \<le> int32_max \<longrightarrow> 0 \<le> jr_Attempts (f j) \<and> jr_Attempts (f j) \<le> int32_max) \<and>
     (0 \<le> jr_CheckpointLine j \<longrightarrow> 0 \<le> jr_CheckpointLine (f j))"

lemma update_jobs_tables [simp]:
  "tb_datasets (update_jobs i f t) = tb_datasets t" "tb_event_files (update_jobs i f t) = tb_event_files t"
  "tb_replay_metrics (update_jobs i f t) = tb_replay_metrics t"
  "tb_validation_errors (update_jobs i f t) = tb_validation_errors t"
  "tb_replay_jobs (update_jobs i f t) = update_rows (\<lambda>j. jr_ID j = i) f (tb_replay_jobs t)"
  by (simp_all add: update_jobs_def)

lemma schema_update_jobs:
  assumes "schema_ok t" "\<And>j. j \<in> set (tb_replay_jobs t) \<Longrightarrow> jr_ID j = i \<Longrightarrow> harmless_update f j"
  shows "schema_ok (update_jobs i f t)"
proof -
  let ?g = "\<lambda>j. if j \<in> set (tb_replay_jobs t) then f j else j"
  have eq: "update_rows (\<lambda>j. jr_ID j = i) f (tb_replay_jobs t) = update_rows (\<lambda>j. jr_ID j = i) ?g (tb_replay_jobs t)"
    by (simp add: update_rows_def)
  have same: "harmless_update ?g j" if "jr_ID j = i" for j
    using assms(2) that by (auto simp: harmless_update_def)
  then have maps: "map jr_ID (update_rows (\<lambda>j. jr_ID j = i) ?g (tb_replay_jobs t)) = map jr_ID (tb_replay_jobs t)"
    "map jr_IdempotencyKey (update_rows (\<lambda>j. jr_ID j = i) ?g (tb_replay_jobs t)) = map jr_IdempotencyKey (tb_replay_jobs t)"
    by (intro update_rows_map; simp add: harmless_update_def)+
  have image: "jr_ID ` set (update_rows (\<lambda>j. jr_ID j = i) ?g (tb_replay_jobs t)) = jr_ID ` set (tb_replay_jobs t)"
    using maps(1) by (metis set_map)
  have "list_all (\<lambda>j. jr_DatasetID j \<in> dr_ID ` set (tb_datasets t) \<and> jr_EventFileID j \<in> fr_ID ` set (tb_event_files t) \<and>
        0 \<le> jr_Attempts j \<and> jr_Attempts j \<le> int32_max \<and> 0 \<le> jr_CheckpointLine j)
      (update_rows (\<lambda>j. jr_ID j = i) ?g (tb_replay_jobs t))"
    "list_all (\<lambda>j. jr_CreatedAt j \<noteq> None) (update_rows (\<lambda>j. jr_ID j = i) ?g (tb_replay_jobs t))"
    by (rule update_rows_all; use assms(1) same in \<open>simp add: schema_ok_def harmless_update_def\<close>)+
  then show ?thesis using assms(1) unfolding schema_ok_def update_jobs_tables eq maps image by simp
qed


lemma keeps_schemaI: "(\<And>t. schema_ok t \<Longrightarrow> schema_ok (snd (q t))) \<Longrightarrow> keeps_schema (with_texts params q)"
  by (simp add: keeps_schema_def with_texts_def)

lemma keeps_update_jobs:
  assumes "\<And>t j. schema_ok t \<Longrightarrow> \<not> bad t \<Longrightarrow> j \<in> set (tb_replay_jobs t) \<Longrightarrow> jr_ID j = i \<Longrightarrow> harmless_update f j"
  shows "keeps_schema (with_texts params (\<lambda>t. if bad t then (Inl e, t) else (r t, update_jobs i f t)))"
  by (rule keeps_schemaI) (use assms in \<open>auto intro: schema_update_jobs\<close>)

lemma keeps_updates:
  "keeps_schema (q_CancelReplayJob i at)" "keeps_schema (q_CompleteReplayJobStatus i at)"
  "keeps_schema (q_UpdateReplayCheckpoint i n)" "keeps_schema (q_UpdateReplayManifest i v)"
  unfolding q_CancelReplayJob_def q_CompleteReplayJobStatus_def q_UpdateReplayCheckpoint_def
    q_UpdateReplayManifest_def Let_def
  by (rule keeps_schemaI; simp; intro impI schema_update_jobs; simp add: harmless_update_def max_def)+

lemma keeps_UpdateReplayJobStatus: "keeps_schema (q_UpdateReplayJobStatus i st e at)"
  unfolding q_UpdateReplayJobStatus_def Let_def
  by (rule keeps_update_jobs) (auto simp: harmless_update_def list_ex_iff)

lemma schema_update_file:
  assumes "schema_ok t" "i \<in> fr_ID ` set (tb_event_files t) \<Longrightarrow> 0 \<le> rows \<and> 0 \<le> nbytes"
  shows "schema_ok (t\<lparr>tb_event_files := update_rows (\<lambda>f. fr_ID f = i)
      (\<lambda>f. f\<lparr>fr_Sha256 := sha, fr_Rows := rows, fr_Bytes := nbytes\<rparr>) (tb_event_files t)\<rparr>)"
proof (cases "i \<in> fr_ID ` set (tb_event_files t)")
  case False
  then have "update_rows (\<lambda>f. fr_ID f = i) g (tb_event_files t) = tb_event_files t" for g
    by (intro update_rows_id) auto
  then show ?thesis using assms(1) by simp
next
  case True
  let ?f = "\<lambda>f. f\<lparr>fr_Sha256 := sha, fr_Rows := rows, fr_Bytes := nbytes\<rparr>"
  let ?fs = "update_rows (\<lambda>f. fr_ID f = i) ?f (tb_event_files t)"
  have map: "map fr_ID ?fs = map fr_ID (tb_event_files t)" by (rule update_rows_map) simp
  have image: "fr_ID ` set ?fs = fr_ID ` set (tb_event_files t)" by (rule update_rows_image) simp
  have "list_all (\<lambda>f. fr_DatasetID f \<in> dr_ID ` set (tb_datasets t) \<and> 0 \<le> fr_Bytes f \<and> 0 \<le> fr_Rows f) ?fs"
    "list_all (\<lambda>f. fr_CreatedAt f \<noteq> None) ?fs"
    by (rule update_rows_all; use assms True in \<open>simp add: schema_ok_def\<close>)+
  then show ?thesis using assms(1) by (simp add: schema_ok_def map image)
qed

lemma schema_insert_dataset:
  assumes "schema_ok t" "dr_ID d \<notin> dr_ID ` set (tb_datasets t)" "dr_CreatedAt d \<noteq> None"
  shows "schema_ok (t\<lparr>tb_datasets := tb_datasets t @ [d]\<rparr>)"
  using assms unfolding schema_ok_def by (auto simp: list_all_iff)

lemma schema_insert_file:
  assumes "schema_ok t" "fr_ID f \<notin> fr_ID ` set (tb_event_files t)" "fr_CreatedAt f \<noteq> None"
    "fr_DatasetID f \<in> dr_ID ` set (tb_datasets t)" "0 \<le> fr_Bytes f" "0 \<le> fr_Rows f"
  shows "schema_ok (t\<lparr>tb_event_files := tb_event_files t @ [f]\<rparr>)"
  using assms unfolding schema_ok_def by (auto simp: list_all_iff)

lemma schema_insert_job:
  assumes "schema_ok t" "jr_ID j \<notin> jr_ID ` set (tb_replay_jobs t)" "jr_CreatedAt j \<noteq> None"
    "jr_IdempotencyKey j \<noteq> None \<Longrightarrow> jr_IdempotencyKey j \<notin> jr_IdempotencyKey ` set (tb_replay_jobs t)"
    "jr_DatasetID j \<in> dr_ID ` set (tb_datasets t)" "jr_EventFileID j \<in> fr_ID ` set (tb_event_files t)"
    "0 \<le> jr_Attempts j" "jr_Attempts j \<le> int32_max" "0 \<le> jr_CheckpointLine j"
  shows "schema_ok (t\<lparr>tb_replay_jobs := tb_replay_jobs t @ [j]\<rparr>)"
proof -
  have "jr_IdempotencyKey j \<notin> set (filter (\<lambda>k. k \<noteq> None) (map jr_IdempotencyKey (tb_replay_jobs t)))"
    using assms(4) by (cases "jr_IdempotencyKey j") auto
  then show ?thesis using assms(1-3,5-) unfolding schema_ok_def by (auto simp: list_all_iff)
qed

lemma keeps_inserts:
  "keeps_schema (q_CreateDataset now i n d)" "keeps_schema (q_CreateEventFile now i ds p fmt s b sha r)"
  "keeps_schema (q_CreateReplayJob now i ds ef k s sp st)"
  unfolding q_CreateDataset_def q_CreateEventFile_def q_CreateReplayJob_def Let_def
  by (rule keeps_schemaI; simp; intro impI; (rule schema_insert_dataset | rule schema_insert_file | rule schema_insert_job);
      force simp: int32_max_def)+

lemma keeps_result_inserts:
  "mt_CreatedAt m \<noteq> None \<Longrightarrow> keeps_schema (q_CreateReplayMetric m)"
  "ew_CreatedAt e \<noteq> None \<Longrightarrow> keeps_schema (q_CreateValidationError e)"
  unfolding q_CreateReplayMetric_def q_CreateValidationError_def
  by (rule keeps_schemaI; simp add: schema_ok_def)+

lemma keeps_UpdateEventFileStats: "keeps_schema (q_UpdateEventFileStats i sha r b)"
  unfolding q_UpdateEventFileStats_def
  by (rule keeps_schemaI) (auto simp: Let_def intro!: schema_update_file)

lemma reads_change_nothing [simp]:
  "snd (q_GetDataset i t) = t" "snd (q_GetEventFile i t) = t" "snd (q_GetReplayJob i t) = t"
  "snd (q_GetReplayJobByIdempotencyKey k t) = t" "snd (q_ListDatasets ord t) = t" "snd (q_ListEventFiles ord i t) = t"
  "snd (q_ListReplayJobs ord t) = t" "snd (q_ListReplayMetrics ord i t) = t" "snd (q_ListValidationErrors ord i t) = t"
  by (simp_all add: q_GetDataset_def q_GetEventFile_def q_GetReplayJob_def q_GetReplayJobByIdempotencyKey_def
      q_ListDatasets_def q_ListEventFiles_def q_ListReplayJobs_def q_ListReplayMetrics_def q_ListValidationErrors_def
      with_texts_def)

lemma keeps_reads: "(\<And>t. snd (q t) = t) \<Longrightarrow> keeps_schema q"
  by (simp add: keeps_schema_def)


lemma job_row_missing:
  assumes "job_row i (update_jobs i f t) = Inl e" "\<And>j. jr_ID (f j) = jr_ID j"
  shows "update_jobs i f t = t"
proof -
  have "filter (\<lambda>j. jr_ID j = i) (update_rows (\<lambda>j. jr_ID j = i) f (tb_replay_jobs t)) = []"
    using assms(1) by (auto simp: job_row_def one_row_def split: list.splits)
  then have "\<forall>j\<in>set (update_rows (\<lambda>j. jr_ID j = i) f (tb_replay_jobs t)). jr_ID j \<noteq> i" by (simp add: filter_empty_conv)
  then have "\<forall>j\<in>set (tb_replay_jobs t). jr_ID j \<noteq> i"
    using assms(2) unfolding update_rows_def by force
  then show ?thesis by (simp add: update_jobs_def update_rows_id)
qed

lemma clean_job_update:
  assumes "\<And>j. jr_ID (f j) = jr_ID j"
  shows "clean_failure (with_texts params (\<lambda>t. if bad t then (Inl e, t) else (job_row i (update_jobs i f t), update_jobs i f t)))"
proof (rule clean_with_texts, unfold clean_failure_def, intro allI impI)
  fix t e' assume err: "fst (if bad t then (Inl e, t) else (job_row i (update_jobs i f t), update_jobs i f t)) = Inl e'"
  show "snd (if bad t then (Inl e, t) else (job_row i (update_jobs i f t), update_jobs i f t)) = t"
  proof (cases "bad t")
    case False
    then have "job_row i (update_jobs i f t) = Inl e'" using err by simp
    from job_row_missing [OF this assms] show ?thesis using False by simp
  qed simp
qed

lemma clean_writes:
  "clean_failure (q_CancelReplayJob i at)" "clean_failure (q_UpdateReplayManifest i v)"
  "clean_failure (q_UpdateReplayJobStatus i st e at)" "clean_failure (q_UpdateReplayCheckpoint i n)"
  "clean_failure (q_CompleteReplayJobStatus i at)" "clean_failure (q_CreateDataset now i n' d)"
  "clean_failure (q_CreateEventFile now i ds p fmt s b sha r)" "clean_failure (q_CreateReplayJob now i ds ef k s sp st')"
  "clean_failure (q_CreateReplayMetric m)" "clean_failure (q_CreateValidationError err)"
proof -
  show "clean_failure (q_CancelReplayJob i at)"
    unfolding q_CancelReplayJob_def Let_def using clean_job_update [where bad = "\<lambda>_. False"] by simp
  show "clean_failure (q_UpdateReplayManifest i v)" "clean_failure (q_UpdateReplayJobStatus i st e at)"
    unfolding q_UpdateReplayManifest_def q_UpdateReplayJobStatus_def Let_def by (rule clean_job_update; simp)+
qed (auto simp: q_UpdateReplayCheckpoint_def q_CompleteReplayJobStatus_def q_CreateDataset_def q_CreateEventFile_def
    q_CreateReplayJob_def q_CreateReplayMetric_def q_CreateValidationError_def Let_def clean_failure_def with_texts_def
    split: if_splits)

lemma file_row_missing:
  assumes "one_row (filter (\<lambda>f. fr_ID f = i) (update_rows (\<lambda>f. fr_ID f = i) g fs)) = Inl e" "\<And>f. fr_ID (g f) = fr_ID f"
  shows "update_rows (\<lambda>f. fr_ID f = i) g fs = fs"
proof (rule update_rows_id)
  fix f assume "f \<in> set fs"
  moreover have "\<forall>f\<in>set (update_rows (\<lambda>f. fr_ID f = i) g fs). fr_ID f \<noteq> i"
    using assms(1) by (simp add: one_row_def filter_empty_conv split: list.splits)
  ultimately show "fr_ID f \<noteq> i" using assms(2) unfolding update_rows_def by force
qed

lemma clean_UpdateEventFileStats: "clean_failure (q_UpdateEventFileStats i sha r b)"
  unfolding q_UpdateEventFileStats_def Let_def
proof (rule clean_with_texts, unfold clean_failure_def, intro allI impI)
  let ?g = "\<lambda>f. f\<lparr>fr_Sha256 := sha, fr_Rows := r, fr_Bytes := b\<rparr>"
  let ?q = "\<lambda>t. if i \<in> fr_ID ` set (tb_event_files t) \<and> (r < 0 \<or> b < 0) then (Inl (PgError ''23514''), t)
      else (one_row (filter (\<lambda>f. fr_ID f = i) (update_rows (\<lambda>f. fr_ID f = i) ?g (tb_event_files t))),
        t\<lparr>tb_event_files := update_rows (\<lambda>f. fr_ID f = i) ?g (tb_event_files t)\<rparr>)"
  fix t e assume err: "fst (?q t) = Inl e"
  show "snd (?q t) = t"
  proof (cases "i \<in> fr_ID ` set (tb_event_files t) \<and> (r < 0 \<or> b < 0)")
    case False
    then have "one_row (filter (\<lambda>f. fr_ID f = i) (update_rows (\<lambda>f. fr_ID f = i) ?g (tb_event_files t))) = Inl e"
      using err by (simp only: if_False fst_conv)
    then have "update_rows (\<lambda>f. fr_ID f = i) ?g (tb_event_files t) = tb_event_files t" by (rule file_row_missing) simp
    then show ?thesis using False by (simp only: if_False snd_conv) simp
  qed simp
qed

end
