(* ===== verification/Postgres_Store.thy ===== *)
theory Postgres_Store
  imports Postgres_Queries Store_Spec
begin

section \<open>internal/store/postgres.go: the Postgres repository\<close>

text \<open>
  The methods of \<^verbatim>\<open>PostgresRepository\<close> over the statements of \<open>Postgres_Queries\<close>. Several processes share the
  database, and the connection can fail: before statement number \<open>n\<close> the others have done \<open>pg_others n\<close>, and the statement is
  refused, or is carried out and its reply lost, where \<open>pg_fault n\<close> says so. The statements of a transaction work on
  a copy of the tables that replaces them at the commit; the row locks it holds keep the others from the rows it uses,
  so that the others' steps come before its begin or after its commit. The clock that a method reads, its
  own or the server's \<^verbatim>\<open>now()\<close>, is that of its \<open>Io\<close>; no method reads both.
\<close>

datatype fault = Refused string | ReplyLost string

record Postgres =
  pg_tables :: Tables
  pg_done :: nat
  pg_fault :: "nat \<Rightarrow> fault option"
  pg_others :: "nat \<Rightarrow> Tables \<Rightarrow> Tables"

definition run_statement :: "'a statement \<Rightarrow> Postgres \<Rightarrow> (pg_error + 'a) \<times> Postgres" where
  "run_statement q s =
     (let n = pg_done s; t = pg_others s n (pg_tables s); s1 = s\<lparr>pg_done := Suc n, pg_tables := t\<rparr> in
      case pg_fault s n of
        Some (Refused e) \<Rightarrow> (Inl (ConnectionError e), s1)
      | Some (ReplyLost e) \<Rightarrow> (Inl (ConnectionError e), s1\<lparr>pg_tables := snd (q t)\<rparr>)
      | None \<Rightarrow> (fst (q t), s1\<lparr>pg_tables := snd (q t)\<rparr>))"

text \<open>A transaction: the tables it works on and the server.\<close>

record Tx =
  tx_tables :: Tables
  tx_server :: Postgres

definition pg_Begin :: "Postgres \<Rightarrow> (pg_error + unit) \<times> Tx" where
  "pg_Begin s =
     (let n = pg_done s; t = pg_others s n (pg_tables s); s1 = s\<lparr>pg_done := Suc n, pg_tables := t\<rparr> in
      (case pg_fault s n of
         Some (Refused e) \<Rightarrow> Inl (ConnectionError e) | Some (ReplyLost e) \<Rightarrow> Inl (ConnectionError e) | None \<Rightarrow> Inr (),
       \<lparr>tx_tables = t, tx_server = s1\<rparr>))"

text \<open>A lost connection ends the transaction, whether or not the statement was carried out.\<close>

definition tx_statement :: "'a statement \<Rightarrow> Tx \<Rightarrow> (pg_error + 'a) \<times> Tx" where
  "tx_statement q tx =
     (let s = tx_server tx; n = pg_done s; tx1 = tx\<lparr>tx_server := s\<lparr>pg_done := Suc n\<rparr>\<rparr> in
      case pg_fault s n of
        Some (Refused e) \<Rightarrow> (Inl (ConnectionError e), tx1)
      | Some (ReplyLost e) \<Rightarrow> (Inl (ConnectionError e), tx1)
      | None \<Rightarrow> (fst (q (tx_tables tx)), tx1\<lparr>tx_tables := snd (q (tx_tables tx))\<rparr>))"

definition pg_Commit :: "Tx \<Rightarrow> (pg_error + unit) \<times> Postgres" where
  "pg_Commit tx =
     (let s = tx_server tx; n = pg_done s; s1 = s\<lparr>pg_done := Suc n\<rparr> in
      case pg_fault s n of
        Some (Refused e) \<Rightarrow> (Inl (ConnectionError e), s1)
      | Some (ReplyLost e) \<Rightarrow> (Inl (ConnectionError e), s1\<lparr>pg_tables := tx_tables tx\<rparr>)
      | None \<Rightarrow> (Inr (), s1\<lparr>pg_tables := tx_tables tx\<rparr>))"

definition pg_Rollback :: "Tx \<Rightarrow> Postgres" where
  "pg_Rollback tx = tx_server tx"

subsection \<open>Conversions\<close>

definition textParam :: "string \<Rightarrow> string option" where
  "textParam val = (if val = '''' then None else Some val)"

definition timestampParam :: "time \<Rightarrow> Timestamptz" where
  "timestampParam val = Some (pg_time val)"

definition timeFromPG :: "Timestamptz \<Rightarrow> time" where
  "timeFromPG val = (case val of None \<Rightarrow> 0 | Some t \<Rightarrow> t)"

definition timePtrFromPG :: "Timestamptz \<Rightarrow> time option" where
  "timePtrFromPG val = (case val of None \<Rightarrow> None | Some t \<Rightarrow> Some t)"

definition convertDataset :: "DatasetRow \<Rightarrow> Dataset" where
  "convertDataset row = \<lparr>ds_ID = dr_ID row, ds_Name = dr_Name row, ds_Description = dr_Description row,
     ds_CreatedAt = timeFromPG (dr_CreatedAt row)\<rparr>"

definition convertEventFile :: "EventFileRow \<Rightarrow> EventFile" where
  "convertEventFile row = \<lparr>ef_ID = fr_ID row, ef_DatasetID = fr_DatasetID row, ef_Path = fr_Path row,
     ef_Format = fr_Format row, ef_Symbol = fr_Symbol row, ef_Bytes = fr_Bytes row, ef_SHA256 = fr_Sha256 row,
     ef_Rows = fr_Rows row, ef_CreatedAt = timeFromPG (fr_CreatedAt row)\<rparr>"

definition convertReplayJob :: "string JobRow \<Rightarrow> ReplayJob" where
  "convertReplayJob row = \<lparr>rj_ID = jr_ID row, rj_DatasetID = jr_DatasetID row, rj_EventFileID = jr_EventFileID row,
     rj_IdempotencyKey = jr_IdempotencyKey row, rj_Symbol = jr_Symbol row, rj_Speed = jr_Speed row,
     rj_Status = jr_Status row, rj_Attempts = jr_Attempts row, rj_LastError = jr_LastError row,
     rj_CheckpointLine = jr_CheckpointLine row, rj_CreatedAt = timeFromPG (jr_CreatedAt row),
     rj_StartedAt = timePtrFromPG (jr_StartedAt row), rj_CompletedAt = timePtrFromPG (jr_CompletedAt row),
     rj_CanceledAt = timePtrFromPG (jr_CanceledAt row), rj_Manifest = replayManifestFromJSON (jr_Manifest row)\<rparr>"

text \<open>\<^verbatim>\<open>uint64\<close> of an \<^verbatim>\<open>int64\<close>.\<close>

definition convertReplayMetric :: "MetricRow \<Rightarrow> StoreMetric" where
  "convertReplayMetric row = \<lparr>me_ID = mt_ID row, me_JobID = mt_JobID row, me_Rows = mt_Rows row, me_Events = mt_Events row,
     me_MalformedEvents = mt_MalformedEvents row, me_SequenceGaps = mt_SequenceGaps row,
     me_Duration = mt_DurationNs row, me_RowsPerSecond = mt_RowsPerSecond row,
     me_EventsPerSecond = mt_EventsPerSecond row, me_P95Latency = mt_P95LatencyNs row,
     me_PeakAllocBytes = mt_PeakAllocBytes row mod 2 ^ 64, me_AllocsPerEvent = mt_AllocsPerEvent row,
     me_CreatedAt = timeFromPG (mt_CreatedAt row)\<rparr>"

definition convertValidationError :: "ErrorRow \<Rightarrow> ValidationError" where
  "convertValidationError row = \<lparr>ve_ID = ew_ID row, ve_JobID = ew_JobID row, ve_Line = ew_Line row,
     ve_Symbol = ew_Symbol row, ve_Type = ew_Type row, ve_Message = ew_Message row,
     ve_CreatedAt = timeFromPG (ew_CreatedAt row)\<rparr>"

definition mapPostgresError :: "pg_error \<Rightarrow> store_error" where
  "mapPostgresError err =
     (case err of
        ErrNoRows \<Rightarrow> ErrNotFound
      | PgError code \<Rightarrow> (if code = ''23503'' then ErrNotFound else if code = ''23505'' then ErrAlreadyExists
                       else StoreFailure code)
      | ConnectionError e \<Rightarrow> StoreFailure e)"

definition isUniqueViolation :: "pg_error \<Rightarrow> bool" where
  "isUniqueViolation err \<longleftrightarrow> err = PgError ''23505''"

subsection \<open>Methods\<close>

text \<open>A method that makes one statement, converts its result and maps its error.\<close>

definition query :: "'a statement \<Rightarrow> ('a \<Rightarrow> 'b) \<Rightarrow> Postgres \<Rightarrow> (store_error + 'b) \<times> Postgres" where
  "query q convert s =
     (case run_statement q s of (Inl e, s1) \<Rightarrow> (Inl (mapPostgresError e), s1) | (Inr a, s1) \<Rightarrow> (Inr (convert a), s1))"

definition pg_CreateDataset :: "CreateDatasetParams \<Rightarrow> (Postgres, store_error + Dataset) repo_method" where
  "pg_CreateDataset p io =
     query (q_CreateDataset (io_now io) (io_uuid io 0) (cd_Name p) (cd_Description p)) convertDataset"

definition pg_ListDatasets :: "(Postgres, store_error + Dataset list) repo_method" where
  "pg_ListDatasets io = query (q_ListDatasets (io_order io)) (map convertDataset)"

definition pg_GetDataset :: "string \<Rightarrow> (Postgres, store_error + Dataset) repo_method" where
  "pg_GetDataset i io = query (q_GetDataset i) convertDataset"

definition pg_CreateEventFile :: "CreateEventFileParams \<Rightarrow> (Postgres, store_error + EventFile) repo_method" where
  "pg_CreateEventFile p io =
     query (q_CreateEventFile (io_now io) (io_uuid io 0) (ce_DatasetID p) (ce_Path p) (ce_Format p) (ce_Symbol p)
       (ce_Bytes p) (ce_SHA256 p) (ce_Rows p)) convertEventFile"

definition pg_GetEventFile :: "string \<Rightarrow> (Postgres, store_error + EventFile) repo_method" where
  "pg_GetEventFile i io = query (q_GetEventFile i) convertEventFile"

definition pg_ListEventFiles :: "string \<Rightarrow> (Postgres, store_error + EventFile list) repo_method" where
  "pg_ListEventFiles i io =
     try_call (pg_GetDataset i io) (\<lambda>_. query (q_ListEventFiles (io_order io) i) (map convertEventFile))"

definition pg_UpdateEventFileStats ::
  "string \<Rightarrow> UpdateEventFileStatsParams \<Rightarrow> (Postgres, store_error + EventFile) repo_method" where
  "pg_UpdateEventFileStats i p io =
     query (q_UpdateEventFileStats i (us_SHA256 p) (us_Rows p) (us_Bytes p)) convertEventFile"

definition pg_GetReplayJob :: "string \<Rightarrow> (Postgres, store_error + ReplayJob) repo_method" where
  "pg_GetReplayJob i io = query (q_GetReplayJob i) convertReplayJob"

definition pg_GetReplayJobByIdempotencyKey :: "string \<Rightarrow> (Postgres, store_error + ReplayJob) repo_method" where
  "pg_GetReplayJobByIdempotencyKey key io = query (q_GetReplayJobByIdempotencyKey (textParam key)) convertReplayJob"

text \<open>The insertion of a job, and the look at the key again when another process was faster.\<close>

definition pg_insert_job :: "CreateReplayJobParams \<Rightarrow> (Postgres, ReplayJob \<times> store_error option) repo_method" where
  "pg_insert_job p io s =
     (case run_statement (q_CreateReplayJob (io_now io) (io_uuid io 0) (cj_DatasetID p) (cj_EventFileID p)
             (textParam (cj_IdempotencyKey p)) (cj_Symbol p) (cj_Speed p) JobStatusQueued) s of
        (Inl e, s1) \<Rightarrow>
          (if isUniqueViolation e \<and> cj_IdempotencyKey p \<noteq> '''' then
             (case pg_GetReplayJobByIdempotencyKey (cj_IdempotencyKey p) io s1 of
                (Inl getErr, s2) \<Rightarrow> ((zero_ReplayJob, Some getErr), s2)
              | (Inr existing, s2) \<Rightarrow> ((existing, Some ErrAlreadyExists), s2))
           else ((zero_ReplayJob, Some (mapPostgresError e)), s1))
      | (Inr row, s1) \<Rightarrow> ((convertReplayJob row, None), s1))"

definition pg_CreateReplayJob :: "CreateReplayJobParams \<Rightarrow> (Postgres, ReplayJob \<times> store_error option) repo_method" where
  "pg_CreateReplayJob p io s =
     (if cj_IdempotencyKey p \<noteq> '''' then
        (case pg_GetReplayJobByIdempotencyKey (cj_IdempotencyKey p) io s of
           (Inr existing, s1) \<Rightarrow> ((existing, Some ErrAlreadyExists), s1)
         | (Inl err, s1) \<Rightarrow>
             (if err \<noteq> ErrNotFound then ((zero_ReplayJob, Some err), s1) else pg_insert_job p io s1))
      else pg_insert_job p io s)"

definition pg_ListReplayJobs :: "(Postgres, store_error + ReplayJob list) repo_method" where
  "pg_ListReplayJobs io = query (q_ListReplayJobs (io_order io)) (map convertReplayJob)"

definition pg_UpdateReplayJobStatus ::
  "string \<Rightarrow> JobStatus \<Rightarrow> string \<Rightarrow> (Postgres, store_error + ReplayJob) repo_method" where
  "pg_UpdateReplayJobStatus i status lastError io =
     query (q_UpdateReplayJobStatus i status lastError (timestampParam (io_now io))) convertReplayJob"

definition pg_UpdateReplayCheckpoint :: "string \<Rightarrow> int \<Rightarrow> (Postgres, store_error + unit) repo_method" where
  "pg_UpdateReplayCheckpoint i checkpointLine io =
     try_call (query (q_UpdateReplayCheckpoint i checkpointLine) id)
       (\<lambda>affected s. if affected = 0 then (Inl ErrNotFound, s) else (Inr (), s))"

definition pg_UpdateReplayManifest ::
  "string \<Rightarrow> ReplayManifest \<Rightarrow> (Postgres, store_error + ReplayJob) repo_method" where
  "pg_UpdateReplayManifest i manifest io s =
     (case ReplayManifest_json manifest of
        None \<Rightarrow> (Inl (StoreFailure ''json: year outside of range [0,9999]''), s)
      | Some encoded \<Rightarrow> query (q_UpdateReplayManifest i encoded) convertReplayJob s)"

definition metric_row :: "string \<Rightarrow> StoreMetric \<Rightarrow> MetricRow" where
  "metric_row jobID m = \<lparr>mt_ID = me_ID m, mt_JobID = jobID, mt_Rows = me_Rows m, mt_Events = me_Events m,
     mt_MalformedEvents = me_MalformedEvents m, mt_SequenceGaps = me_SequenceGaps m, mt_DurationNs = me_Duration m,
     mt_RowsPerSecond = me_RowsPerSecond m, mt_EventsPerSecond = me_EventsPerSecond m,
     mt_P95LatencyNs = me_P95Latency m, mt_PeakAllocBytes = wrap64 (me_PeakAllocBytes m),
     mt_AllocsPerEvent = me_AllocsPerEvent m, mt_CreatedAt = timestampParam (me_CreatedAt m)\<rparr>"

definition error_row :: "string \<Rightarrow> ValidationError \<Rightarrow> ErrorRow" where
  "error_row jobID e = \<lparr>ew_ID = ve_ID e, ew_JobID = jobID, ew_Line = ve_Line e, ew_Symbol = ve_Symbol e,
     ew_Type = ve_Type e, ew_Message = ve_Message e, ew_CreatedAt = timestampParam (ve_CreatedAt e)\<rparr>"

text \<open>The loop over the errors, with the number of UUIDs drawn so far.\<close>

fun insert_errors :: "Io \<Rightarrow> string \<Rightarrow> ValidationError list \<Rightarrow> nat \<Rightarrow> Tx \<Rightarrow> (pg_error + unit) \<times> Tx" where
  "insert_errors io jobID [] n tx = (Inr (), tx)"
| "insert_errors io jobID (e # es) n tx =
     (let (e1, n1) = (if ve_ID e = '''' then (e\<lparr>ve_ID := io_uuid io n\<rparr>, n + 1) else (e, n));
          e2 = (if ve_CreatedAt e1 = 0 then e1\<lparr>ve_CreatedAt := io_now io\<rparr> else e1)
      in try_call (tx_statement (q_CreateValidationError (error_row jobID e2))) (\<lambda>_. insert_errors io jobID es n1) tx)"

text \<open>The metric and the errors of the run.\<close>

definition insert_results :: "Io \<Rightarrow> string \<Rightarrow> CompleteReplayJobParams \<Rightarrow> Tx \<Rightarrow> (pg_error + unit) \<times> Tx" where
  "insert_results io jobID p =
     (let n = (if me_ID (cp_Metric p) = '''' then 1 else 0);
          metric = (if me_ID (cp_Metric p) = '''' then (cp_Metric p)\<lparr>me_ID := io_uuid io 0\<rparr> else cp_Metric p);
          metric1 = (if me_CreatedAt metric = 0 then metric\<lparr>me_CreatedAt := io_now io\<rparr> else metric)
      in try_call (tx_statement (q_CreateReplayMetric (metric_row jobID metric1)))
           (\<lambda>_. insert_errors io jobID (cp_Errors p) n))"

text \<open>What the method does between the begin and the commit; the error is that of the method.\<close>

definition complete_tx :: "Io \<Rightarrow> string \<Rightarrow> CompleteReplayJobParams \<Rightarrow> Tx \<Rightarrow> (store_error + unit) \<times> Tx" where
  "complete_tx io jobID p tx =
     (case tx_statement (q_CompleteReplayJobStatus jobID (timestampParam (io_now io))) tx of
        (Inl e, tx1) \<Rightarrow> (Inl (mapPostgresError e), tx1)
      | (Inr affected, tx1) \<Rightarrow>
          (if affected = 0 then (Inl ErrNotFound, tx1)
           else case insert_results io jobID p tx1 of
                  (Inl e, tx2) \<Rightarrow> (Inl (mapPostgresError e), tx2)
                | (Inr _, tx2) \<Rightarrow> (Inr (), tx2)))"

definition pg_CompleteReplayJob ::
  "string \<Rightarrow> CompleteReplayJobParams \<Rightarrow> (Postgres, store_error + ReplayJob) repo_method" where
  "pg_CompleteReplayJob jobID p io s =
     (case pg_Begin s of
        (Inl e, tx) \<Rightarrow> (Inl (mapPostgresError e), pg_Rollback tx)
      | (Inr _, tx) \<Rightarrow>
          (case complete_tx io jobID p tx of
             (Inl e, tx1) \<Rightarrow> (Inl e, pg_Rollback tx1)
           | (Inr _, tx1) \<Rightarrow>
               (case pg_Commit tx1 of
                  (Inl e, s1) \<Rightarrow> (Inl (mapPostgresError e), s1)
                | (Inr _, s1) \<Rightarrow> pg_GetReplayJob jobID io s1)))"

definition pg_ListReplayMetrics :: "string \<Rightarrow> (Postgres, store_error + StoreMetric list) repo_method" where
  "pg_ListReplayMetrics jobID io = query (q_ListReplayMetrics (io_order io) jobID) (map convertReplayMetric)"

definition pg_ListValidationErrors :: "string \<Rightarrow> (Postgres, store_error + ValidationError list) repo_method" where
  "pg_ListValidationErrors jobID io = query (q_ListValidationErrors (io_order io) jobID) (map convertValidationError)"

definition pg_CancelReplayJob :: "string \<Rightarrow> (Postgres, store_error + ReplayJob) repo_method" where
  "pg_CancelReplayJob jobID io = query (q_CancelReplayJob jobID (timestampParam (io_now io))) convertReplayJob"

definition NewPostgresRepository :: "Postgres Repository" where
  "NewPostgresRepository =
     \<lparr>rp_CreateDataset = pg_CreateDataset, rp_ListDatasets = pg_ListDatasets, rp_GetDataset = pg_GetDataset,
      rp_CreateEventFile = pg_CreateEventFile, rp_GetEventFile = pg_GetEventFile,
      rp_ListEventFiles = pg_ListEventFiles, rp_UpdateEventFileStats = pg_UpdateEventFileStats,
      rp_CreateReplayJob = pg_CreateReplayJob, rp_GetReplayJob = pg_GetReplayJob,
      rp_GetReplayJobByIdempotencyKey = pg_GetReplayJobByIdempotencyKey,
      rp_ListReplayJobs = pg_ListReplayJobs, rp_UpdateReplayJobStatus = pg_UpdateReplayJobStatus,
      rp_UpdateReplayCheckpoint = pg_UpdateReplayCheckpoint,
      rp_UpdateReplayManifest = pg_UpdateReplayManifest, rp_CompleteReplayJob = pg_CompleteReplayJob,
      rp_ListReplayMetrics = pg_ListReplayMetrics, rp_ListValidationErrors = pg_ListValidationErrors,
      rp_CancelReplayJob = pg_CancelReplayJob\<rparr>"

subsection \<open>The tables under any sequence of calls\<close>

text \<open>Beside the constraints of the schema, no job is stored under an empty key: \<open>textParam\<close> makes it NULL.\<close>

definition tables_ok :: "Tables \<Rightarrow> bool" where
  "tables_ok t \<longleftrightarrow> schema_ok t \<and> list_all (\<lambda>j. jr_IdempotencyKey j \<noteq> Some '''') (tb_replay_jobs t)"

definition keeps_tables :: "'a statement \<Rightarrow> bool" where
  "keeps_tables q \<longleftrightarrow> (\<forall>t. tables_ok t \<longrightarrow> tables_ok (snd (q t)))"

lemma keeps_tablesI:
  assumes "keeps_schema q"
    and "\<And>t j. j \<in> set (tb_replay_jobs (snd (q t))) \<Longrightarrow> jr_IdempotencyKey j = Some '''' \<Longrightarrow>
      \<exists>j'\<in>set (tb_replay_jobs t). jr_IdempotencyKey j' = Some ''''"
  shows "keeps_tables q"
  using assms unfolding keeps_tables_def tables_ok_def keeps_schema_def list_all_iff by meson

lemma update_rows_key:
  "j \<in> set (update_rows P f rows) \<Longrightarrow> jr_IdempotencyKey j = k \<Longrightarrow> (\<And>j. jr_IdempotencyKey (f j) = jr_IdempotencyKey j) \<Longrightarrow>
    \<exists>j'\<in>set rows. jr_IdempotencyKey j' = k"
  unfolding update_rows_def by auto

lemma keeps_tables_writes:
  "keeps_tables (q_CancelReplayJob i at)" "keeps_tables (q_CompleteReplayJobStatus i at)"
  "keeps_tables (q_UpdateReplayCheckpoint i n)" "keeps_tables (q_UpdateReplayManifest i v)"
  "keeps_tables (q_UpdateReplayJobStatus i st e at)" "keeps_tables (q_CreateDataset now i nm d)"
  "keeps_tables (q_CreateEventFile now i ds p fmt s b sha r)" "keeps_tables (q_UpdateEventFileStats i sha r b)"
  "k \<noteq> Some '''' \<Longrightarrow> keeps_tables (q_CreateReplayJob now i ds ef k s sp st)"
  "mt_CreatedAt m \<noteq> None \<Longrightarrow> keeps_tables (q_CreateReplayMetric m)"
  "ew_CreatedAt er \<noteq> None \<Longrightarrow> keeps_tables (q_CreateValidationError er)"
  by (rule keeps_tablesI, (intro keeps_updates keeps_UpdateReplayJobStatus keeps_inserts keeps_UpdateEventFileStats
        keeps_result_inserts; assumption?),
      (auto simp: q_CancelReplayJob_def q_CompleteReplayJobStatus_def q_UpdateReplayCheckpoint_def q_UpdateReplayManifest_def
        q_UpdateReplayJobStatus_def q_CreateDataset_def q_CreateEventFile_def q_UpdateEventFileStats_def q_CreateReplayJob_def
        q_CreateReplayMetric_def q_CreateValidationError_def with_texts_def Let_def split: if_splits elim!: update_rows_key) [1])+

lemma run_statement_simps [simp]:
  "pg_fault (snd (run_statement q s)) = pg_fault s" "pg_others (snd (run_statement q s)) = pg_others s"
  by (simp_all add: run_statement_def Let_def split: option.splits fault.splits)

text \<open>The others keep the tables in order too: they run the same program.\<close>

definition pg_safe :: "Postgres \<Rightarrow> bool" where
  "pg_safe s \<longleftrightarrow> tables_ok (pg_tables s) \<and> (\<forall>n t. tables_ok t \<longrightarrow> tables_ok (pg_others s n t))"

lemma run_statement_safe:
  assumes "pg_safe s" "keeps_tables q"
  shows "pg_safe (snd (run_statement q s))"
  using assms unfolding pg_safe_def keeps_tables_def
  by (auto simp: run_statement_def Let_def split: option.splits fault.splits)

lemma query_safe: "pg_safe s \<Longrightarrow> keeps_tables q \<Longrightarrow> pg_safe (snd (query q convert s))"
  using run_statement_safe [of s q] by (auto simp: query_def split: prod.splits sum.splits)

lemma keeps_tables_reads:
  "keeps_tables (q_GetDataset i)" "keeps_tables (q_GetEventFile i)" "keeps_tables (q_GetReplayJob i)"
  "keeps_tables (q_GetReplayJobByIdempotencyKey k)" "keeps_tables (q_ListDatasets ord)" "keeps_tables (q_ListEventFiles ord i)"
  "keeps_tables (q_ListReplayJobs ord)" "keeps_tables (q_ListReplayMetrics ord i)" "keeps_tables (q_ListValidationErrors ord i)"
  by (simp_all add: keeps_tables_def)

lemma textParam_not_empty: "textParam k \<noteq> Some ''''"
  by (simp add: textParam_def)


definition tx_ok :: "Tx \<Rightarrow> bool" where
  "tx_ok tx \<longleftrightarrow> tables_ok (tx_tables tx) \<and> pg_safe (tx_server tx)"

lemma Begin_ok: "pg_safe s \<Longrightarrow> tx_ok (snd (pg_Begin s))"
  by (simp add: pg_Begin_def tx_ok_def pg_safe_def Let_def)

lemma tx_statement_ok: "tx_ok tx \<Longrightarrow> keeps_tables q \<Longrightarrow> tx_ok (snd (tx_statement q tx))"
  by (simp add: tx_statement_def tx_ok_def pg_safe_def keeps_tables_def Let_def split: option.splits fault.splits)

lemma try_call_tx_ok:
  assumes "tx_ok (snd (m tx))" "\<And>a tx. tx_ok tx \<Longrightarrow> tx_ok (snd (k a tx))"
  shows "tx_ok (snd (try_call m k tx))"
  using assms by (auto simp: try_call_def split: prod.splits sum.splits)

lemma insert_errors_ok: "tx_ok tx \<Longrightarrow> tx_ok (snd (insert_errors io i es n tx))"
proof (induction es arbitrary: n tx)
  case (Cons e es)
  have "keeps_tables (q_CreateValidationError (error_row i e'))" for e'
    by (rule keeps_tables_writes) (simp add: error_row_def timestampParam_def)
  then show ?case
    using Cons by (simp add: Let_def split: prod.splits) (auto intro!: try_call_tx_ok tx_statement_ok)
qed simp

lemma insert_results_ok: "tx_ok tx \<Longrightarrow> tx_ok (snd (insert_results io i p tx))"
proof -
  have "keeps_tables (q_CreateReplayMetric (metric_row i m))" for m
    by (rule keeps_tables_writes) (simp add: metric_row_def timestampParam_def)
  then show "tx_ok tx \<Longrightarrow> tx_ok (snd (insert_results io i p tx))"
    unfolding insert_results_def Let_def by (intro try_call_tx_ok tx_statement_ok insert_errors_ok)
qed

lemma complete_tx_ok:
  assumes "tx_ok tx"
  shows "tx_ok (snd (complete_tx io i p tx))"
proof -
  obtain res tx1 where one: "tx_statement (q_CompleteReplayJobStatus i (timestampParam (io_now io))) tx = (res, tx1)"
    by (metis prod.collapse)
  have ok1: "tx_ok tx1" using tx_statement_ok [OF assms keeps_tables_writes(2), of i "timestampParam (io_now io)"] one by simp
  then show ?thesis
    using insert_results_ok [OF ok1, of io i p] by (auto simp: complete_tx_def one split: sum.splits prod.splits)
qed

lemma Commit_safe: "tx_ok tx \<Longrightarrow> pg_safe (snd (pg_Commit tx))"
  by (simp add: pg_Commit_def tx_ok_def pg_safe_def Let_def split: option.splits fault.splits)

lemma CompleteReplayJob_safe:
  assumes "pg_safe s"
  shows "pg_safe (snd (pg_CompleteReplayJob i p io s))"
proof -
  obtain b tx where bg: "pg_Begin s = (b, tx)" "tx_ok tx" using Begin_ok [OF assms] by (metis prod.collapse)
  obtain c tx1 where ct: "complete_tx io i p tx = (c, tx1)" "tx_ok tx1"
    using complete_tx_ok [OF bg(2)] by (metis prod.collapse)
  obtain d s1 where cm: "pg_Commit tx1 = (d, s1)" "pg_safe s1" using Commit_safe [OF ct(2)] by (metis prod.collapse)
  have "pg_safe (snd (pg_GetReplayJob i io s1))"
    unfolding pg_GetReplayJob_def by (rule query_safe [OF cm(2) keeps_tables_reads(3)])
  moreover have "pg_safe (pg_Rollback tx)" "pg_safe (pg_Rollback tx1)"
    using bg(2) ct(2) by (simp_all add: pg_Rollback_def tx_ok_def)
  ultimately show ?thesis
    using cm(2) by (simp add: pg_CompleteReplayJob_def bg ct cm split: sum.splits)
qed

lemma GetByKey_safe: "pg_safe s \<Longrightarrow> pg_safe (snd (pg_GetReplayJobByIdempotencyKey k io s))"
  unfolding pg_GetReplayJobByIdempotencyKey_def by (rule query_safe [OF _ keeps_tables_reads(4)])

lemma insert_job_safe:
  assumes "pg_safe s"
  shows "pg_safe (snd (pg_insert_job p io s))"
proof -
  let ?q = "q_CreateReplayJob (io_now io) (io_uuid io 0) (cj_DatasetID p) (cj_EventFileID p)
    (textParam (cj_IdempotencyKey p)) (cj_Symbol p) (cj_Speed p) JobStatusQueued"
  obtain res s1 where st: "run_statement ?q s = (res, s1)" by (metis prod.collapse)
  have s1: "pg_safe s1" using run_statement_safe [OF assms keeps_tables_writes(9) [OF textParam_not_empty]] st by (metis snd_conv)
  then show ?thesis
    using GetByKey_safe [OF s1, of "cj_IdempotencyKey p" io]
    by (auto simp: pg_insert_job_def st split: sum.splits prod.splits)
qed

lemma CreateReplayJob_safe: "pg_safe s \<Longrightarrow> pg_safe (snd (pg_CreateReplayJob p io s))"
  using GetByKey_safe [of s "cj_IdempotencyKey p" io] insert_job_safe
  by (auto simp: pg_CreateReplayJob_def split: sum.splits prod.splits)

text \<open>The calls that change the database, and the states they lead to.\<close>

fun pg_exec :: "store_op \<Rightarrow> Io \<Rightarrow> Postgres \<Rightarrow> Postgres" where
  "pg_exec (OpCreateDataset p) io s = snd (pg_CreateDataset p io s)"
| "pg_exec (OpCreateEventFile p) io s = snd (pg_CreateEventFile p io s)"
| "pg_exec (OpUpdateEventFileStats i p) io s = snd (pg_UpdateEventFileStats i p io s)"
| "pg_exec (OpCreateReplayJob p) io s = snd (pg_CreateReplayJob p io s)"
| "pg_exec (OpUpdateReplayJobStatus i st e) io s = snd (pg_UpdateReplayJobStatus i st e io s)"
| "pg_exec (OpUpdateReplayCheckpoint i n) io s = snd (pg_UpdateReplayCheckpoint i n io s)"
| "pg_exec (OpUpdateReplayManifest i m) io s = snd (pg_UpdateReplayManifest i m io s)"
| "pg_exec (OpCompleteReplayJob i p) io s = snd (pg_CompleteReplayJob i p io s)"
| "pg_exec (OpCancelReplayJob i) io s = snd (pg_CancelReplayJob i io s)"

inductive pg_step :: "Postgres \<Rightarrow> Postgres \<Rightarrow> bool" where
  step: "pg_step s (pg_exec op io s)"

inductive_cases pg_stepE: "pg_step s s'"

lemma UpdateReplayCheckpoint_safe: "pg_safe s \<Longrightarrow> pg_safe (snd (pg_UpdateReplayCheckpoint i n io s))"
  using query_safe [of s "q_UpdateReplayCheckpoint i n" id, OF _ keeps_tables_writes(3)]
  by (auto simp: pg_UpdateReplayCheckpoint_def try_call_def split: sum.splits prod.splits)

lemma pg_exec_safe: "pg_safe s \<Longrightarrow> pg_safe (pg_exec op io s)"
  by (cases op) (simp_all add: pg_CreateDataset_def pg_CreateEventFile_def pg_UpdateEventFileStats_def
      pg_UpdateReplayJobStatus_def pg_UpdateReplayManifest_def pg_CancelReplayJob_def query_safe keeps_tables_writes
      CreateReplayJob_safe CompleteReplayJob_safe UpdateReplayCheckpoint_safe split: option.splits)

lemma pg_steps_safe: "pg_step\<^sup>*\<^sup>* s s' \<Longrightarrow> pg_safe s \<Longrightarrow> pg_safe s'"
  by (induction rule: rtranclp_induct) (auto elim!: pg_stepE intro: pg_exec_safe)


subsection \<open>The abstract database of the tables\<close>

definition pg_db :: "Tables \<Rightarrow> Db" where
  "pg_db t =
     \<lparr>db_datasets = map_of (map (\<lambda>d. (dr_ID d, convertDataset d)) (tb_datasets t)),
      db_files = map_of (map (\<lambda>f. (fr_ID f, convertEventFile f)) (tb_event_files t)),
      db_jobs = map_of (map (\<lambda>j. (jr_ID j, convertReplayJob (returning j))) (tb_replay_jobs t)),
      db_keys = (\<lambda>k. map_of (map (\<lambda>j. (jr_IdempotencyKey j, jr_ID j)) (tb_replay_jobs t)) (Some k)),
      db_metrics = (\<lambda>i. map convertReplayMetric (filter (\<lambda>m. mt_JobID m = i) (tb_replay_metrics t))),
      db_errors = (\<lambda>i. map convertValidationError (filter (\<lambda>e. ew_JobID e = i) (tb_validation_errors t)))\<rparr>"

lemma convert_simps [simp]:
  "ds_ID (convertDataset d) = dr_ID d" "ef_ID (convertEventFile f) = fr_ID f" "ef_DatasetID (convertEventFile f) = fr_DatasetID f"
  "rj_ID (convertReplayJob (returning j)) = jr_ID j" "rj_DatasetID (convertReplayJob (returning j)) = jr_DatasetID j"
  "rj_EventFileID (convertReplayJob (returning j)) = jr_EventFileID j"
  "rj_CheckpointLine (convertReplayJob (returning j)) = jr_CheckpointLine j"
  "rj_Attempts (convertReplayJob (returning j)) = jr_Attempts j"
  "rj_IdempotencyKey (convertReplayJob (returning j)) = (case jr_IdempotencyKey j of None \<Rightarrow> '''' | Some k \<Rightarrow> k)"
  "ve_JobID (convertValidationError e) = ew_JobID e" "me_JobID (convertReplayMetric m) = mt_JobID m"
  by (simp_all add: convertDataset_def convertEventFile_def convertReplayJob_def returning_def
      convertValidationError_def convertReplayMetric_def)

lemma map_of_rows:
  "distinct (map f rows) \<Longrightarrow> map_of (map (\<lambda>r. (f r, g r)) rows) i = Some x \<longleftrightarrow> (\<exists>r\<in>set rows. f r = i \<and> g r = x)"
  by (subst map_of_eq_Some_iff) (auto simp: comp_def)

lemma dom_map_of_rows: "dom (map_of (map (\<lambda>r. (f r, g r)) rows)) = f ` set rows"
  by (auto simp: dom_map_of_conv_image_fst image_iff)

lemma map_of_keys:
  assumes "distinct (filter (\<lambda>k. k \<noteq> None) (map jr_IdempotencyKey js))"
  shows "map_of (map (\<lambda>j. (jr_IdempotencyKey j, jr_ID j)) js) (Some k) = Some i \<longleftrightarrow>
    (\<exists>j\<in>set js. jr_IdempotencyKey j = Some k \<and> jr_ID j = i)"
  using assms by (induction js) (auto split: if_splits, force+)

lemma pg_db_jobs:
  assumes "schema_ok t"
  shows "db_jobs (pg_db t) i = Some x \<longleftrightarrow> (\<exists>j\<in>set (tb_replay_jobs t). jr_ID j = i \<and> convertReplayJob (returning j) = x)"
  using assms by (simp add: pg_db_def map_of_rows schema_ok_def)

lemma pg_db_doms:
  "dom (db_datasets (pg_db t)) = dr_ID ` set (tb_datasets t)" "dom (db_files (pg_db t)) = fr_ID ` set (tb_event_files t)"
  "dom (db_jobs (pg_db t)) = jr_ID ` set (tb_replay_jobs t)"
  by (simp_all add: pg_db_def dom_map_of_rows)

lemma pg_db_keys:
  assumes "tables_ok t"
  shows "db_keys (pg_db t) k = Some i \<longleftrightarrow> k \<noteq> '''' \<and> (\<exists>x. db_jobs (pg_db t) i = Some x \<and> rj_IdempotencyKey x = k)"
proof -
  have s: "schema_ok t" and ne: "\<forall>j\<in>set (tb_replay_jobs t). jr_IdempotencyKey j \<noteq> Some ''''"
    using assms by (simp_all add: tables_ok_def list_all_iff)
  have "db_keys (pg_db t) k = Some i \<longleftrightarrow> (\<exists>j\<in>set (tb_replay_jobs t). jr_IdempotencyKey j = Some k \<and> jr_ID j = i)"
    unfolding pg_db_def using s by (simp add: map_of_keys schema_ok_def)
  also have "\<dots> \<longleftrightarrow> k \<noteq> '''' \<and> (\<exists>j\<in>set (tb_replay_jobs t). jr_ID j = i \<and> (case jr_IdempotencyKey j of None \<Rightarrow> '''' | Some k \<Rightarrow> k) = k)"
    using ne by (auto split: option.splits)
  finally show ?thesis unfolding pg_db_jobs [OF s] by auto
qed

lemma pg_db_wf:
  assumes "tables_ok t"
  shows "wf_db (pg_db t)"
proof -
  have s: "schema_ok t" using assms by (simp add: tables_ok_def)
  have ds: "db_datasets (pg_db t) i = Some x \<longleftrightarrow> (\<exists>d\<in>set (tb_datasets t). dr_ID d = i \<and> convertDataset d = x)" for i x
    using s by (simp add: pg_db_def map_of_rows schema_ok_def)
  have fs: "db_files (pg_db t) i = Some x \<longleftrightarrow> (\<exists>f\<in>set (tb_event_files t). fr_ID f = i \<and> convertEventFile f = x)" for i x
    using s by (simp add: pg_db_def map_of_rows schema_ok_def)
  show ?thesis
    unfolding wf_db_def pg_db_keys [OF assms] pg_db_doms ds fs pg_db_jobs [OF s]
    using s by (auto simp: schema_ok_def list_all_iff)
qed

text \<open>
  The database stays consistent. After any sequence of calls on the Postgres repository, whatever their parameters,
  whichever statements are refused or lose their reply, and whatever the other processes do in between (they keep the
  constraints as well), the tables satisfy every constraint of the schema, the rows read as a well-formed
  database, and no two jobs have the same idempotency key.
\<close>

theorem pg_reachable_consistent:
  assumes "pg_step\<^sup>*\<^sup>* s s'" "tables_ok (pg_tables s)" "\<And>n t. tables_ok t \<Longrightarrow> tables_ok (pg_others s n t)"
  shows "schema_ok (pg_tables s') \<and> wf_db (pg_db (pg_tables s')) \<and>
    (\<forall>i i' j j'. db_jobs (pg_db (pg_tables s')) i = Some j \<longrightarrow> db_jobs (pg_db (pg_tables s')) i' = Some j' \<longrightarrow>
      rj_IdempotencyKey j \<noteq> '''' \<longrightarrow> rj_IdempotencyKey j = rj_IdempotencyKey j' \<longrightarrow> i = i')"
proof -
  have "tables_ok (pg_tables s')"
    using pg_steps_safe [OF assms(1)] assms(2,3) by (simp add: pg_safe_def)
  then show ?thesis
    using pg_db_wf [of "pg_tables s'"] wf_db_key_unique [of "pg_db (pg_tables s')"] by (auto simp: tables_ok_def)
qed


subsection \<open>Completing a job is atomic\<close>

text \<open>What a transaction does to the server before its commit: nothing but send statements.\<close>

definition same_server :: "Postgres \<Rightarrow> Postgres \<Rightarrow> bool" where
  "same_server s s' \<longleftrightarrow> pg_tables s' = pg_tables s \<and> pg_others s' = pg_others s \<and> pg_fault s' = pg_fault s"

lemma same_server_trans: "same_server a b \<Longrightarrow> same_server b c \<Longrightarrow> same_server a c"
  by (simp add: same_server_def)

lemma tx_statement_server: "same_server (tx_server tx) (tx_server (snd (tx_statement q tx)))"
  by (simp add: tx_statement_def same_server_def Let_def split: option.splits fault.splits)

lemma tx_statement_done:
  "tx_statement q tx = (Inr a, tx') \<Longrightarrow> q (tx_tables tx) = (Inr a, tx_tables tx')"
  by (auto simp: tx_statement_def Let_def split: option.splits fault.splits prod.splits)
    (metis prod.collapse)

lemma try_tx_server:
  assumes "\<And>a tx. same_server (tx_server tx) (tx_server (snd (k a tx)))"
  shows "same_server (tx_server tx) (tx_server (snd (try_call (tx_statement q) k tx)))"
proof -
  obtain r tx1 where st: "tx_statement q tx = (r, tx1)" by (metis prod.collapse)
  have "same_server (tx_server tx) (tx_server tx1)" using tx_statement_server [of tx q] st by simp
  then show ?thesis
    using same_server_trans [OF _ assms [of tx1]] by (cases r) (simp_all add: try_call_def st)
qed

lemma insert_errors_server: "same_server (tx_server tx) (tx_server (snd (insert_errors io i es n tx)))"
proof (induction es arbitrary: n tx)
  case (Cons e es)
  show ?case unfolding insert_errors.simps Let_def by (simp; intro conjI impI try_tx_server Cons)
qed (simp add: same_server_def)

lemma insert_results_server: "same_server (tx_server tx) (tx_server (snd (insert_results io i p tx)))"
  unfolding insert_results_def Let_def by (intro try_tx_server insert_errors_server)

lemma complete_tx_server: "same_server (tx_server tx) (tx_server (snd (complete_tx io i p tx)))"
proof -
  obtain r tx1 where one: "tx_statement (q_CompleteReplayJobStatus i (timestampParam (io_now io))) tx = (r, tx1)"
    by (metis prod.collapse)
  have ss1: "same_server (tx_server tx) (tx_server tx1)"
    using tx_statement_server [of tx "q_CompleteReplayJobStatus i (timestampParam (io_now io))"] one by simp
  obtain c tx2 where two: "insert_results io i p tx1 = (c, tx2)" by (metis prod.collapse)
  have "same_server (tx_server tx) (tx_server tx2)"
    using same_server_trans [OF ss1 insert_results_server [of tx1 io i p]] two by simp
  then show ?thesis using ss1 by (cases r; cases c) (simp_all add: complete_tx_def one two)
qed

text \<open>The rows that the whole operation leads to.\<close>

definition complete_rows :: "Io \<Rightarrow> string \<Rightarrow> CompleteReplayJobParams \<Rightarrow> Tables \<Rightarrow> Tables" where
  "complete_rows io i p t =
     (update_jobs i (\<lambda>j. j\<lparr>jr_Status := ''completed'', jr_CompletedAt := timestampParam (io_now io)\<rparr>) t)
       \<lparr>tb_replay_metrics := tb_replay_metrics t @ [metric_row i (stamp_metric io i (cp_Metric p))],
        tb_validation_errors := tb_validation_errors t @
          map (error_row i) (stamp_errors io (first_error_uuid (cp_Metric p)) i (cp_Errors p))\<rparr>"

lemma CreateValidationError_done:
  "q_CreateValidationError r t = (Inr a, t') \<Longrightarrow> t' = t\<lparr>tb_validation_errors := tb_validation_errors t @ [r]\<rparr>"
  by (auto simp: q_CreateValidationError_def with_texts_def split: if_splits)

lemma CreateReplayMetric_done:
  "q_CreateReplayMetric r t = (Inr a, t') \<Longrightarrow> t' = t\<lparr>tb_replay_metrics := tb_replay_metrics t @ [r]\<rparr>"
  by (auto simp: q_CreateReplayMetric_def with_texts_def split: if_splits)

lemma insert_errors_Cons:
  obtains e' n' where "stamp_errors io n i (e # es) = e' # stamp_errors io n' i es"
    "insert_errors io i (e # es) n =
      try_call (tx_statement (q_CreateValidationError (error_row i e'))) (\<lambda>_. insert_errors io i es n')"
proof
  let ?e = "e\<lparr>ve_ID := (if ve_ID e = '''' then io_uuid io n else ve_ID e), ve_JobID := i,
    ve_CreatedAt := (if ve_CreatedAt e = 0 then io_now io else ve_CreatedAt e)\<rparr>"
  let ?n = "if ve_ID e = '''' then n + 1 else n"
  show "stamp_errors io n i (e # es) = ?e # stamp_errors io ?n i es" by simp
  show "insert_errors io i (e # es) n =
      try_call (tx_statement (q_CreateValidationError (error_row i ?e))) (\<lambda>_. insert_errors io i es ?n)"
    by (simp add: fun_eq_iff error_row_def Let_def)
qed

lemma insert_results_alt:
  "insert_results io i p = try_call (tx_statement (q_CreateReplayMetric (metric_row i (stamp_metric io i (cp_Metric p)))))
     (\<lambda>_. insert_errors io i (cp_Errors p) (first_error_uuid (cp_Metric p)))"
  by (simp add: insert_results_def stamp_metric_def first_error_uuid_def metric_row_def Let_def)

lemma insert_errors_done:
  "insert_errors io i es n tx = (Inr (), tx') \<Longrightarrow>
    tx_tables tx' = (tx_tables tx)\<lparr>tb_validation_errors := tb_validation_errors (tx_tables tx) @
      map (error_row i) (stamp_errors io n i es)\<rparr>"
proof (induction es arbitrary: n tx)
  case (Cons e es)
  obtain e' n1 where stamp: "stamp_errors io n i (e # es) = e' # stamp_errors io n1 i es"
    and "insert_errors io i (e # es) n =
      try_call (tx_statement (q_CreateValidationError (error_row i e'))) (\<lambda>_. insert_errors io i es n1)"
    by (rule insert_errors_Cons)
  then obtain a tx1 where st: "tx_statement (q_CreateValidationError (error_row i e')) tx = (Inr a, tx1)"
    and rest: "insert_errors io i es n1 tx1 = (Inr (), tx')"
    using Cons.prems by (auto simp: try_call_def split: prod.splits sum.splits)
  have "tx_tables tx1 = (tx_tables tx)\<lparr>tb_validation_errors := tb_validation_errors (tx_tables tx) @ [error_row i e']\<rparr>"
    using CreateValidationError_done [OF tx_statement_done [OF st]] .
  then show ?case unfolding stamp using Cons.IH [OF rest] by simp
qed simp


lemma complete_tx_done:
  assumes "complete_tx io i p tx = (Inr (), tx')"
  shows "tx_tables tx' = complete_rows io i p (tx_tables tx)" "i \<in> jr_ID ` set (tb_replay_jobs (tx_tables tx))"
proof -
  let ?q = "q_CompleteReplayJobStatus i (timestampParam (io_now io))"
  let ?m = "stamp_metric io i (cp_Metric p)"
  obtain a tx1 where one: "tx_statement ?q tx = (Inr a, tx1)" "a \<noteq> 0" and res: "insert_results io i p tx1 = (Inr (), tx')"
    using assms by (auto simp: complete_tx_def split: prod.splits sum.splits if_splits)
  obtain b tx2 where two: "tx_statement (q_CreateReplayMetric (metric_row i ?m)) tx1 = (Inr b, tx2)"
    and three: "insert_errors io i (cp_Errors p) (first_error_uuid (cp_Metric p)) tx2 = (Inr (), tx')"
    using res by (auto simp: insert_results_alt try_call_def split: prod.splits sum.splits)
  have t1: "a = affected_rows i (tx_tables tx)" "tx_tables tx1 =
      update_jobs i (\<lambda>j. j\<lparr>jr_Status := ''completed'', jr_CompletedAt := timestampParam (io_now io)\<rparr>) (tx_tables tx)"
    using tx_statement_done [OF one(1)] by (auto simp: q_CompleteReplayJobStatus_def with_texts_def split: if_splits)
  note t2 = CreateReplayMetric_done [OF tx_statement_done [OF two]]
  note t3 = insert_errors_done [OF three]
  show "tx_tables tx' = complete_rows io i p (tx_tables tx)"
    unfolding t3 t2 t1(2) complete_rows_def by simp
  have "filter (\<lambda>j. jr_ID j = i) (tb_replay_jobs (tx_tables tx)) \<noteq> []" using t1(1) one(2) by (auto simp: affected_rows_def)
  then show "i \<in> jr_ID ` set (tb_replay_jobs (tx_tables tx))" by (auto simp: filter_empty_conv)
qed

lemma complete_rows_job:
  assumes "i \<in> jr_ID ` set (tb_replay_jobs t)"
  obtains j where "job_row i (complete_rows io i p t) = Inr j" "jr_Status j = ''completed''"
proof -
  let ?rows = "filter (\<lambda>j. jr_ID j = i) (tb_replay_jobs (complete_rows io i p t))"
  have rows: "?rows = map (\<lambda>j. j\<lparr>jr_Status := ''completed'', jr_CompletedAt := timestampParam (io_now io)\<rparr>)
      (filter (\<lambda>j. jr_ID j = i) (tb_replay_jobs t))"
    by (induction "tb_replay_jobs t") (simp_all add: complete_rows_def update_rows_def filter_map comp_def)
  have "filter (\<lambda>j. jr_ID j = i) (tb_replay_jobs t) \<noteq> []" using assms by (auto simp: filter_empty_conv)
  then obtain j js where "filter (\<lambda>j. jr_ID j = i) (tb_replay_jobs t) = j # js" by (metis list.exhaust)
  then show ?thesis using that rows by (simp add: job_row_def one_row_def returning_def)
qed

lemma query_read:
  assumes "\<And>n t. pg_others s n t = t" "snd (q (pg_tables s)) = pg_tables s" "query q convert s = (res, s')"
  shows "pg_tables s' = pg_tables s"
    "res = (case fst (q (pg_tables s)) of Inl e \<Rightarrow> Inl (mapPostgresError e) | Inr a \<Rightarrow> Inr (convert a)) \<or>
      (\<exists>e. res = Inl (StoreFailure e))"
  using assms
  by (auto simp: query_def run_statement_def mapPostgresError_def Let_def split: option.splits fault.splits sum.splits prod.splits)

lemma read_completed:
  assumes "\<And>n t. pg_others s n t = t" "pg_tables s = complete_rows io i p t" "i \<in> jr_ID ` set (tb_replay_jobs t)"
    "pg_GetReplayJob i io' s = (res, s')"
  shows "pg_tables s' = complete_rows io i p t" "(\<exists>j. res = Inr j \<and> rj_Status j = JobStatusCompleted) \<or> (\<exists>e. res = Inl (StoreFailure e))"
proof -
  note rd = query_read [OF assms(1) _ assms(4) [unfolded pg_GetReplayJob_def], simplified]
  show "pg_tables s' = complete_rows io i p t" using rd(1) assms(2) by simp
  obtain j where "job_row i (complete_rows io i p t) = Inr j" "jr_Status j = ''completed''"
    using complete_rows_job [OF assms(3)] by blast
  then have "fst (q_GetReplayJob i (pg_tables s)) = Inr j \<or> fst (q_GetReplayJob i (pg_tables s)) = Inl (PgError ''22021'')"
    by (simp add: q_GetReplayJob_def with_texts_def assms(2))
  then show "(\<exists>j. res = Inr j \<and> rj_Status j = JobStatusCompleted) \<or> (\<exists>e. res = Inl (StoreFailure e))"
    using rd(2) \<open>jr_Status j = ''completed''\<close>
    by (auto simp: mapPostgresError_def convertReplayJob_def JobStatusCompleted_def)
qed

lemma tx_outcome:
  assumes "\<And>n t. pg_others s n t = t" "pg_Begin s = (b, tx)"
  shows "tx_tables tx = pg_tables s" "same_server s (tx_server tx)"
  using assms by (auto simp: pg_Begin_def same_server_def Let_def)

definition all_or_nothing :: "Tables \<Rightarrow> Tables \<Rightarrow> store_error + ReplayJob \<Rightarrow> Tables \<Rightarrow> bool" where
  "all_or_nothing t full res t' \<longleftrightarrow> (t' = t \<or> t' = full) \<and>
     (\<forall>j. res = Inr j \<longrightarrow> t' = full \<and> rj_Status j = JobStatusCompleted) \<and>
     (res = Inl ErrNotFound \<or> res = Inl ErrAlreadyExists \<longrightarrow> t' = t)"

lemma committed_outcome:
  assumes "\<And>n t. pg_others s n t = t" "same_server s (tx_server tx)" "tx_tables tx = complete_rows io i p (pg_tables s)"
    "i \<in> jr_ID ` set (tb_replay_jobs (pg_tables s))"
    "(case pg_Commit tx of (Inl e, s1) \<Rightarrow> (Inl (mapPostgresError e), s1) | (Inr _, s1) \<Rightarrow> pg_GetReplayJob i io s1) = (res, s')"
  shows "all_or_nothing (pg_tables s) (complete_rows io i p (pg_tables s)) res (pg_tables s')"
proof (cases "pg_Commit tx")
  case (Pair d s1)
  show ?thesis
  proof (cases d)
    case (Inl e)
    then have "pg_tables s1 = pg_tables s \<or> pg_tables s1 = complete_rows io i p (pg_tables s)"
      "\<exists>m. mapPostgresError e = StoreFailure m"
      using Pair assms(2,3)
      by (auto simp: pg_Commit_def same_server_def mapPostgresError_def Let_def split: option.splits fault.splits)
    then show ?thesis using assms(5) Pair Inl by (auto simp: all_or_nothing_def)
  next
    case (Inr u)
    then have s1: "pg_tables s1 = complete_rows io i p (pg_tables s)" "pg_others s1 = pg_others s"
      using Pair assms(2,3) by (auto simp: pg_Commit_def same_server_def Let_def split: option.splits fault.splits)
    have "\<And>n t. pg_others s1 n t = t" using s1(2) assms(1) by simp
    moreover have "pg_GetReplayJob i io s1 = (res, s')" using assms(5) Pair Inr by simp
    ultimately show ?thesis
      using read_completed [OF _ s1(1) assms(4)] unfolding all_or_nothing_def by blast
  qed
qed

text \<open>
  C15: a job is completed as a whole or not at all. Whichever statements fail or lose their reply, and whatever the
  parameters, the tables are afterwards as they were, or the job is completed and has its metric and all its errors.
  An answer without an error means the latter and is the completed job; an error that
  the server reported (not found, already exists) means the former. A failed connection leaves it open.
\<close>

theorem pg_complete_atomic:
  assumes "\<And>n t. pg_others s n t = t" "pg_CompleteReplayJob i p io s = (res, s')"
  shows "(pg_tables s' = pg_tables s \<or> pg_tables s' = complete_rows io i p (pg_tables s)) \<and>
    (\<forall>j. res = Inr j \<longrightarrow> pg_tables s' = complete_rows io i p (pg_tables s) \<and> rj_Status j = JobStatusCompleted) \<and>
    (res = Inl ErrNotFound \<or> res = Inl ErrAlreadyExists \<longrightarrow> pg_tables s' = pg_tables s)"
proof -
  obtain b tx where bg: "pg_Begin s = (b, tx)" by (metis prod.collapse)
  note tx = tx_outcome [OF assms(1) bg]
  obtain c tx1 where ct: "complete_tx io i p tx = (c, tx1)" by (metis prod.collapse)
  have tx1: "same_server s (tx_server tx1)"
    using same_server_trans [OF tx(2)] complete_tx_server [of tx io i p] ct by simp
  have "all_or_nothing (pg_tables s) (complete_rows io i p (pg_tables s)) res (pg_tables s')"
  proof (cases "\<exists>x y. b = Inr x \<and> c = Inr y")
    case False
    then consider e where "b = Inl e" | x e where "b = Inr x" "c = Inl e" by (cases b; cases c) auto
    then have "(\<exists>e. res = Inl e) \<and> (s' = pg_Rollback tx \<or> s' = pg_Rollback tx1)"
    proof cases
      case 1
      then show ?thesis using assms(2) by (simp add: pg_CompleteReplayJob_def bg) blast
    next
      case 2
      then show ?thesis using assms(2) by (simp add: pg_CompleteReplayJob_def bg ct) blast
    qed
    then show ?thesis using tx(2) tx1 by (auto simp: all_or_nothing_def pg_Rollback_def same_server_def)
  next
    case True
    then obtain x y where xy: "b = Inr x" "c = Inr y" by blast
    have rows: "tx_tables tx1 = complete_rows io i p (pg_tables s)" "i \<in> jr_ID ` set (tb_replay_jobs (pg_tables s))"
      using complete_tx_done [of io i p tx tx1] ct xy tx(1) by simp_all
    show ?thesis
      using assms(2) unfolding pg_CompleteReplayJob_def bg ct xy
      by (intro committed_outcome [OF assms(1) tx1 rows]) (simp add: ct xy)
  qed
  then show ?thesis unfolding all_or_nothing_def .
qed


subsection \<open>Creating a job while others do the same\<close>

text \<open>What the others leave in place: they never delete.\<close>

definition grows :: "Tables \<Rightarrow> Tables \<Rightarrow> bool" where
  "grows t t' \<longleftrightarrow> dr_ID ` set (tb_datasets t) \<subseteq> dr_ID ` set (tb_datasets t') \<and>
     fr_ID ` set (tb_event_files t) \<subseteq> fr_ID ` set (tb_event_files t') \<and>
     (\<lambda>j. (jr_ID j, jr_IdempotencyKey j)) ` set (tb_replay_jobs t) \<subseteq> (\<lambda>j. (jr_ID j, jr_IdempotencyKey j)) ` set (tb_replay_jobs t')"

definition others_grow :: "Postgres \<Rightarrow> string \<Rightarrow> bool" where
  "others_grow s i \<longleftrightarrow> (\<forall>n t. tables_ok t \<longrightarrow> tables_ok (pg_others s n t) \<and> grows t (pg_others s n t) \<and>
     (i \<notin> jr_ID ` set (tb_replay_jobs t) \<longrightarrow> i \<notin> jr_ID ` set (tb_replay_jobs (pg_others s n t))))"

lemma others_growD:
  assumes "others_grow s i" "tables_ok t" "i \<notin> jr_ID ` set (tb_replay_jobs t)"
  shows "tables_ok (pg_others s n t)" "grows t (pg_others s n t)" "i \<notin> jr_ID ` set (tb_replay_jobs (pg_others s n t))"
  using assms unfolding others_grow_def by blast+

lemma run_statement_healthy:
  assumes "pg_fault s (pg_done s) = None"
  shows "run_statement q s = (let t = pg_others s (pg_done s) (pg_tables s)
    in (fst (q t), s\<lparr>pg_done := Suc (pg_done s), pg_tables := snd (q t)\<rparr>))"
  using assms by (simp add: run_statement_def Let_def)

lemma key_lookup:
  assumes "pg_text k"
  shows "\<not> (\<exists>j\<in>set (tb_replay_jobs t). jr_IdempotencyKey j = Some k) \<Longrightarrow>
      q_GetReplayJobByIdempotencyKey (Some k) t = (Inl ErrNoRows, t)"
    "\<exists>j\<in>set (tb_replay_jobs t). jr_IdempotencyKey j = Some k \<Longrightarrow>
      \<exists>j\<in>set (tb_replay_jobs t). jr_IdempotencyKey j = Some k \<and>
        q_GetReplayJobByIdempotencyKey (Some k) t = (Inr (returning j), t)"
proof -
  let ?rows = "filter (\<lambda>j. Some k \<noteq> None \<and> jr_IdempotencyKey j = Some k) (tb_replay_jobs t)"
  have q: "q_GetReplayJobByIdempotencyKey (Some k) t = (one_row (map returning ?rows), t)"
    using assms by (simp add: q_GetReplayJobByIdempotencyKey_def with_texts_def)
  show "\<not> (\<exists>j\<in>set (tb_replay_jobs t). jr_IdempotencyKey j = Some k) \<Longrightarrow>
      q_GetReplayJobByIdempotencyKey (Some k) t = (Inl ErrNoRows, t)"
    unfolding q by (simp add: one_row_def filter_False_conv)
  assume "\<exists>j\<in>set (tb_replay_jobs t). jr_IdempotencyKey j = Some k"
  then have "?rows \<noteq> []" by (simp add: filter_empty_conv)
  then obtain j js where js: "?rows = j # js" by (metis list.exhaust)
  then have "j \<in> set ?rows" by simp
  then have "j \<in> set (tb_replay_jobs t)" "jr_IdempotencyKey j = Some k" by simp_all
  then show "\<exists>j\<in>set (tb_replay_jobs t). jr_IdempotencyKey j = Some k \<and>
      q_GetReplayJobByIdempotencyKey (Some k) t = (Inr (returning j), t)"
    unfolding q js by (intro bexI [of _ j]) (simp_all add: one_row_def)
qed

lemma get_by_key_healthy:
  assumes "pg_fault s (pg_done s) = None" "pg_text k" "k \<noteq> ''''" "t = pg_others s (pg_done s) (pg_tables s)"
    "s1 = s\<lparr>pg_done := Suc (pg_done s), pg_tables := t\<rparr>"
  shows "\<not> (\<exists>j\<in>set (tb_replay_jobs t). jr_IdempotencyKey j = Some k) \<Longrightarrow>
      pg_GetReplayJobByIdempotencyKey k io s = (Inl ErrNotFound, s1)"
    "\<exists>j\<in>set (tb_replay_jobs t). jr_IdempotencyKey j = Some k \<Longrightarrow>
      \<exists>j\<in>set (tb_replay_jobs t). jr_IdempotencyKey j = Some k \<and>
        pg_GetReplayJobByIdempotencyKey k io s = (Inr (convertReplayJob (returning j)), s1)"
  using key_lookup [OF assms(2), of t] assms(3-5)
  by (auto simp: pg_GetReplayJobByIdempotencyKey_def query_def run_statement_healthy [of s, OF assms(1)] textParam_def
      mapPostgresError_def Let_def)

lemma stored_key:
  assumes "tables_ok t" "j \<in> set (tb_replay_jobs t)" "jr_IdempotencyKey j = Some k"
  shows "db_keys (pg_db t) k = Some (jr_ID j)"
  unfolding pg_db_keys [OF assms(1)] using assms by (auto simp: pg_db_jobs tables_ok_def list_all_iff)

lemma insert_job_insert:
  assumes "pg_fault s (pg_done s) = None" "t = pg_others s (pg_done s) (pg_tables s)"
    "list_all pg_text [io_uuid io 0, cj_DatasetID p, cj_EventFileID p, cj_IdempotencyKey p, cj_Symbol p, cj_Speed p]"
    "cj_DatasetID p \<in> dr_ID ` set (tb_datasets t)" "cj_EventFileID p \<in> fr_ID ` set (tb_event_files t)"
    "io_uuid io 0 \<notin> jr_ID ` set (tb_replay_jobs t)" "cj_IdempotencyKey p \<noteq> '''' \<Longrightarrow> Some (cj_IdempotencyKey p) \<notin> jr_IdempotencyKey ` set (tb_replay_jobs t)"
  obtains row where "pg_insert_job p io s = ((convertReplayJob (returning row), None),
      s\<lparr>pg_done := Suc (pg_done s), pg_tables := t\<lparr>tb_replay_jobs := tb_replay_jobs t @ [row]\<rparr>\<rparr>)"
    "jr_ID row = io_uuid io 0" "jr_IdempotencyKey row = textParam (cj_IdempotencyKey p)" "jr_Status row = JobStatusQueued"
proof -
  have "list_all pg_text [JobStatusQueued]" by code_simp
  then have texts: "list_all pg_text ([io_uuid io 0, cj_DatasetID p, cj_EventFileID p] @
      (case textParam (cj_IdempotencyKey p) of None \<Rightarrow> [] | Some k \<Rightarrow> [k]) @ [cj_Symbol p, cj_Speed p, JobStatusQueued])"
    using assms(3) by (simp add: textParam_def)
  define row where "row = \<lparr>jr_ID = io_uuid io 0, jr_DatasetID = cj_DatasetID p, jr_EventFileID = cj_EventFileID p,
    jr_IdempotencyKey = textParam (cj_IdempotencyKey p), jr_Symbol = cj_Symbol p, jr_Speed = cj_Speed p,
    jr_Status = JobStatusQueued, jr_Attempts = 0, jr_LastError = '''', jr_CheckpointLine = 0,
    jr_CreatedAt = Some (pg_time (io_now io)), jr_StartedAt = None, jr_CompletedAt = None, jr_CanceledAt = None,
    jr_Manifest = JObj []\<rparr>"
  have "textParam (cj_IdempotencyKey p) = None \<or> textParam (cj_IdempotencyKey p) \<notin> jr_IdempotencyKey ` set (tb_replay_jobs t)"
    using assms(7) by (simp add: textParam_def)
  then have "q_CreateReplayJob (io_now io) (io_uuid io 0) (cj_DatasetID p) (cj_EventFileID p)
      (textParam (cj_IdempotencyKey p)) (cj_Symbol p) (cj_Speed p) JobStatusQueued t =
      (Inr (returning row), t\<lparr>tb_replay_jobs := tb_replay_jobs t @ [row]\<rparr>)"
    using assms(4-6) unfolding q_CreateReplayJob_def with_texts_def Let_def row_def by (simp only: texts) simp
  then have "pg_insert_job p io s = ((convertReplayJob (returning row), None),
      s\<lparr>pg_done := Suc (pg_done s), pg_tables := t\<lparr>tb_replay_jobs := tb_replay_jobs t @ [row]\<rparr>\<rparr>)"
    by (simp add: pg_insert_job_def run_statement_healthy [OF assms(1)] assms(2) [symmetric] Let_def)
  then show ?thesis by (rule that) (simp_all add: row_def)
qed


lemma insert_job_raced:
  assumes "pg_fault s (pg_done s) = None" "t = pg_others s (pg_done s) (pg_tables s)" "cj_IdempotencyKey p \<noteq> ''''"
    "list_all pg_text [io_uuid io 0, cj_DatasetID p, cj_EventFileID p, cj_IdempotencyKey p, cj_Symbol p, cj_Speed p]"
    "\<exists>j\<in>set (tb_replay_jobs t). jr_IdempotencyKey j = Some (cj_IdempotencyKey p)"
    "pg_GetReplayJobByIdempotencyKey (cj_IdempotencyKey p) io (s\<lparr>pg_done := Suc (pg_done s), pg_tables := t\<rparr>) = (Inr job, s')"
  shows "pg_insert_job p io s = ((job, Some ErrAlreadyExists), s')"
proof -
  have "list_all pg_text [JobStatusQueued]" by code_simp
  then have texts: "list_all pg_text ([io_uuid io 0, cj_DatasetID p, cj_EventFileID p] @
      (case Some (cj_IdempotencyKey p) of None \<Rightarrow> [] | Some k \<Rightarrow> [k]) @ [cj_Symbol p, cj_Speed p, JobStatusQueued])"
    using assms(4) by simp
  have "Some (cj_IdempotencyKey p) \<in> jr_IdempotencyKey ` set (tb_replay_jobs t)" using assms(5) by force
  then have "q_CreateReplayJob (io_now io) (io_uuid io 0) (cj_DatasetID p) (cj_EventFileID p)
      (Some (cj_IdempotencyKey p)) (cj_Symbol p) (cj_Speed p) JobStatusQueued t = (Inl (PgError ''23505''), t)"
    unfolding q_CreateReplayJob_def with_texts_def by (simp only: texts) simp
  then show ?thesis
    using assms(3,6)
    by (simp add: pg_insert_job_def run_statement_healthy [OF assms(1)] assms(2) [symmetric] textParam_def isUniqueViolation_def Let_def)
qed

text \<open>The job that a look at the key finds, when one is stored under it.\<close>

lemma found_by_key:
  assumes "pg_fault s (pg_done s) = None" "pg_text k" "k \<noteq> ''''" "t = pg_others s (pg_done s) (pg_tables s)" "tables_ok t"
    "\<exists>j\<in>set (tb_replay_jobs t). jr_IdempotencyKey j = Some k"
  obtains job where "pg_GetReplayJobByIdempotencyKey k io s = (Inr job, s\<lparr>pg_done := Suc (pg_done s), pg_tables := t\<rparr>)"
    "db_keys (pg_db t) k = Some (rj_ID job)" "rj_ID job \<in> jr_ID ` set (tb_replay_jobs t)"
proof -
  obtain j where j: "j \<in> set (tb_replay_jobs t)" "jr_IdempotencyKey j = Some k"
    "pg_GetReplayJobByIdempotencyKey k io s = (Inr (convertReplayJob (returning j)), s\<lparr>pg_done := Suc (pg_done s), pg_tables := t\<rparr>)"
    using get_by_key_healthy(2) [OF assms(1-4) refl assms(6), of io] by blast
  show ?thesis by (rule that [OF j(3)]) (use stored_key [OF assms(5) j(1,2)] j(1) in auto)
qed

lemma grows_refs:
  assumes "grows t t'"
  shows "i \<in> dr_ID ` set (tb_datasets t) \<Longrightarrow> i \<in> dr_ID ` set (tb_datasets t')"
    "i \<in> fr_ID ` set (tb_event_files t) \<Longrightarrow> i \<in> fr_ID ` set (tb_event_files t')"
  using assms unfolding grows_def by (meson subsetD)+

lemma grows_key:
  assumes "grows t t'" "\<exists>j\<in>set (tb_replay_jobs t). jr_IdempotencyKey j = k"
  shows "\<exists>j\<in>set (tb_replay_jobs t'). jr_IdempotencyKey j = k"
proof -
  obtain j where j: "j \<in> set (tb_replay_jobs t)" "jr_IdempotencyKey j = k" using assms(2) by blast
  then have "(jr_ID j, k) \<in> (\<lambda>j. (jr_ID j, jr_IdempotencyKey j)) ` set (tb_replay_jobs t)" by (auto intro!: image_eqI [of _ _ j])
  then have "(jr_ID j, k) \<in> (\<lambda>j. (jr_ID j, jr_IdempotencyKey j)) ` set (tb_replay_jobs t')"
    using assms(1) unfolding grows_def by (meson subsetD)
  then show ?thesis by auto
qed

lemma insert_job_wins:
  assumes "pg_safe s" "pg_fault s (pg_done s) = None" "t = pg_others s (pg_done s) (pg_tables s)" "cj_IdempotencyKey p \<noteq> ''''"
    and "list_all pg_text [io_uuid io 0, cj_DatasetID p, cj_EventFileID p, cj_IdempotencyKey p, cj_Symbol p, cj_Speed p]"
    and "cj_DatasetID p \<in> dr_ID ` set (tb_datasets t)" "cj_EventFileID p \<in> fr_ID ` set (tb_event_files t)"
    and "io_uuid io 0 \<notin> jr_ID ` set (tb_replay_jobs t)" "\<not> (\<exists>j\<in>set (tb_replay_jobs t). jr_IdempotencyKey j = Some (cj_IdempotencyKey p))"
  obtains job s' where "pg_insert_job p io s = ((job, None), s')" "rj_ID job = io_uuid io 0"
    "db_keys (pg_db (pg_tables s')) (cj_IdempotencyKey p) = Some (io_uuid io 0)"
proof -
  have "Some (cj_IdempotencyKey p) \<notin> jr_IdempotencyKey ` set (tb_replay_jobs t)" using assms(9) by force
  from insert_job_insert [OF assms(2,3,5-8) this] obtain row where
    row: "pg_insert_job p io s = ((convertReplayJob (returning row), None),
      s\<lparr>pg_done := Suc (pg_done s), pg_tables := t\<lparr>tb_replay_jobs := tb_replay_jobs t @ [row]\<rparr>\<rparr>)"
    "jr_ID row = io_uuid io 0" "jr_IdempotencyKey row = textParam (cj_IdempotencyKey p)" by blast
  have "tables_ok (t\<lparr>tb_replay_jobs := tb_replay_jobs t @ [row]\<rparr>)"
    using insert_job_safe [OF assms(1), of p io] row(1) by (simp add: pg_safe_def)
  then have "db_keys (pg_db (t\<lparr>tb_replay_jobs := tb_replay_jobs t @ [row]\<rparr>)) (cj_IdempotencyKey p) = Some (io_uuid io 0)"
    using stored_key [of _ row "cj_IdempotencyKey p"] row assms(4) by (simp add: textParam_def)
  then show ?thesis using that [OF row(1)] row(2) by simp
qed

text \<open>The one job under the key, and whose it is.\<close>

definition key_settled :: "string \<Rightarrow> string \<Rightarrow> (ReplayJob \<times> store_error option) \<times> Postgres \<Rightarrow> bool" where
  "key_settled k i = (\<lambda>((job, err), s'). err \<in> {None, Some ErrAlreadyExists} \<and>
     db_keys (pg_db (pg_tables s')) k = Some (rj_ID job) \<and> (err = None \<longleftrightarrow> rj_ID job = i))"

lemma key_settled_found:
  assumes "tables_ok t" "db_keys (pg_db t) k = Some (rj_ID job)" "rj_ID job \<in> jr_ID ` set (tb_replay_jobs t)"
    "i \<notin> jr_ID ` set (tb_replay_jobs t)" "pg_tables s' = t"
  shows "key_settled k i ((job, Some ErrAlreadyExists), s')"
  using assms by (auto simp: key_settled_def)

lemma insert_job_race:
  assumes "\<And>n. pg_fault s n = None" "tables_ok (pg_tables s)" "others_grow s (io_uuid io 0)"
    and "cj_DatasetID p \<in> dr_ID ` set (tb_datasets (pg_tables s))" "cj_EventFileID p \<in> fr_ID ` set (tb_event_files (pg_tables s))"
    and "io_uuid io 0 \<notin> jr_ID ` set (tb_replay_jobs (pg_tables s))" "cj_IdempotencyKey p \<noteq> ''''"
    and "list_all pg_text [io_uuid io 0, cj_DatasetID p, cj_EventFileID p, cj_IdempotencyKey p, cj_Symbol p, cj_Speed p]"
  shows "key_settled (cj_IdempotencyKey p) (io_uuid io 0) (pg_insert_job p io s)"
proof -
  let ?k = "cj_IdempotencyKey p" and ?i = "io_uuid io 0"
  define t1 where "t1 = pg_others s (pg_done s) (pg_tables s)"
  define s2 where "s2 = s\<lparr>pg_done := Suc (pg_done s), pg_tables := t1\<rparr>"
  define t2 where "t2 = pg_others s2 (pg_done s2) (pg_tables s2)"
  have fault: "pg_fault s2 n = None" for n using assms(1) by (simp add: s2_def)
  have t2: "t2 = pg_others s (pg_done s2) t1" unfolding t2_def s2_def by simp
  note ok1 = others_growD [OF assms(3,2,6), of "pg_done s", folded t1_def]
  note ok2 = others_growD [OF assms(3) ok1(1,3), of "pg_done s2", folded t2]
  have refs: "cj_DatasetID p \<in> dr_ID ` set (tb_datasets t1)" "cj_EventFileID p \<in> fr_ID ` set (tb_event_files t1)"
    using grows_refs [OF ok1(2)] assms(4,5) by simp_all
  show ?thesis
  proof (cases "\<exists>j\<in>set (tb_replay_jobs t1). jr_IdempotencyKey j = Some ?k")
    case True
    have k: "pg_text ?k" using assms(8) by simp
    from found_by_key [OF fault k assms(7) t2_def ok2(1) grows_key [OF ok2(2) True]] obtain job s3 where
      job: "pg_GetReplayJobByIdempotencyKey ?k io s2 = (Inr job, s3)" "db_keys (pg_db t2) ?k = Some (rj_ID job)"
      "rj_ID job \<in> jr_ID ` set (tb_replay_jobs t2)" "pg_tables s3 = t2"
      by (metis Postgres.select_convs(1) Postgres.surjective Postgres.update_convs(1))
    have "pg_insert_job p io s = ((job, Some ErrAlreadyExists), s3)"
      by (rule insert_job_raced [OF assms(1) t1_def assms(7,8) True]) (use job(1) in \<open>simp add: s2_def\<close>)
    then show ?thesis using key_settled_found [OF ok2(1) job(2,3) ok2(3) job(4)] by simp
  next
    case False
    have "pg_safe s" using assms(2,3) by (simp add: pg_safe_def others_grow_def)
    from insert_job_wins [OF this assms(1) t1_def assms(7,8) refs ok1(3) False] obtain job s' where
      "pg_insert_job p io s = ((job, None), s')" "rj_ID job = ?i" "db_keys (pg_db (pg_tables s')) ?k = Some ?i" .
    then show ?thesis by (simp add: key_settled_def)
  qed
qed

text \<open>
  C16: a key is used once, whoever is first. Several processes submit jobs under the same idempotency key. They may insert
  rows between any two statements, but delete nothing, keep the constraints and draw other UUIDs. Then the call succeeds
  whatever the interleaving: its answer is the one job that is stored under the key in the end. The answer comes
  without an error exactly when the job is the caller's own; otherwise it comes with \<^verbatim>\<open>ErrAlreadyExists\<close>, also
  when the other process was faster between the look at the key and the insertion.
\<close>

theorem pg_create_race:
  assumes "\<And>n. pg_fault s n = None" "tables_ok (pg_tables s)" "others_grow s (io_uuid io 0)"
    and "cj_DatasetID p \<in> dr_ID ` set (tb_datasets (pg_tables s))" "cj_EventFileID p \<in> fr_ID ` set (tb_event_files (pg_tables s))"
    and "io_uuid io 0 \<notin> jr_ID ` set (tb_replay_jobs (pg_tables s))" "cj_IdempotencyKey p \<noteq> ''''"
    and "list_all pg_text [io_uuid io 0, cj_DatasetID p, cj_EventFileID p, cj_IdempotencyKey p, cj_Symbol p, cj_Speed p]"
  shows "\<exists>job err s'. pg_CreateReplayJob p io s = ((job, err), s') \<and> err \<in> {None, Some ErrAlreadyExists} \<and>
    db_keys (pg_db (pg_tables s')) (cj_IdempotencyKey p) = Some (rj_ID job) \<and>
    (err = None \<longleftrightarrow> rj_ID job = io_uuid io 0)"
proof -
  let ?k = "cj_IdempotencyKey p" and ?i = "io_uuid io 0"
  define t0 where "t0 = pg_others s (pg_done s) (pg_tables s)"
  define s1 where "s1 = s\<lparr>pg_done := Suc (pg_done s), pg_tables := t0\<rparr>"
  have k: "pg_text ?k" using assms(8) by simp
  note ok = others_growD [OF assms(3,2,6), of "pg_done s", folded t0_def]
  have "key_settled ?k ?i (pg_CreateReplayJob p io s)"
  proof (cases "\<exists>j\<in>set (tb_replay_jobs t0). jr_IdempotencyKey j = Some ?k")
    case True
    from found_by_key [OF assms(1) k assms(7) t0_def ok(1) True] obtain job where
      "pg_GetReplayJobByIdempotencyKey ?k io s = (Inr job, s1)" "db_keys (pg_db t0) ?k = Some (rj_ID job)"
      "rj_ID job \<in> jr_ID ` set (tb_replay_jobs t0)" unfolding s1_def by blast
    then show ?thesis
      using key_settled_found [OF ok(1) _ _ ok(3)] assms(7) by (simp add: pg_CreateReplayJob_def s1_def)
  next
    case False
    have "key_settled ?k ?i (pg_insert_job p io s1)"
    proof (rule insert_job_race)
      show "others_grow s1 ?i" using assms(3) by (simp add: others_grow_def s1_def)
    qed (use assms(1,4-8) ok grows_refs [OF ok(2)] in \<open>simp_all add: s1_def\<close>)
    moreover have "pg_CreateReplayJob p io s = pg_insert_job p io s1"
      using get_by_key_healthy(1) [OF assms(1) k assms(7) t0_def s1_def False, of io] assms(7)
      by (simp add: pg_CreateReplayJob_def)
    ultimately show ?thesis by simp
  qed
  then show ?thesis by (auto simp: key_settled_def split: prod.splits)
qed


subsection \<open>A server\<close>

text \<open>A server with a data set and a file, and a rival that submits a job under the same key before the second statement.\<close>

definition server_io :: Io where
  "server_io = \<lparr>io_now = 1700000000123456789, io_uuid = (\<lambda>n. ''u'' @ replicate n CHR ''.''), io_order = []\<rparr>"

definition server_tables :: Tables where
  "server_tables = fresh_tables\<lparr>
     tb_datasets := [\<lparr>dr_ID = ''d'', dr_Name = ''demo'', dr_Description = '''', dr_CreatedAt = Some 1000\<rparr>],
     tb_event_files := [\<lparr>fr_ID = ''f'', fr_DatasetID = ''d'', fr_Path = ''a.csv'', fr_Format = ''auto'', fr_Symbol = '''',
       fr_Bytes = 0, fr_CreatedAt = Some 2000, fr_Sha256 = '''', fr_Rows = 0\<rparr>]\<rparr>"

definition server_params :: CreateReplayJobParams where
  "server_params = \<lparr>cj_DatasetID = ''d'', cj_EventFileID = ''f'', cj_IdempotencyKey = ''key'', cj_Symbol = '''', cj_Speed = ''1x''\<rparr>"

definition rival :: "nat \<Rightarrow> Tables \<Rightarrow> Tables" where
  "rival n = (if n = 1 then snd \<circ> q_CreateReplayJob 5000 ''r'' ''d'' ''f'' (Some ''key'') '''' ''1x'' ''queued'' else id)"

definition server :: Postgres where
  "server = \<lparr>pg_tables = server_tables, pg_done = 0, pg_fault = (\<lambda>_. None), pg_others = rival\<rparr>"

lemma server_tables_ok: "tables_ok server_tables"
  by (simp add: server_tables_def fresh_tables_def tables_ok_def schema_ok_def)

lemma rival_ok: "tables_ok t \<Longrightarrow> tables_ok (rival n t)"
  using keeps_tables_writes(9) [of "Some ''key''" 5000 "''r''" "''d''" "''f''" "''''" "''1x''" "''queued''"]
  by (simp add: rival_def keeps_tables_def)

lemma CreateReplayJob_rows:
  obtains "snd (q_CreateReplayJob now i ds ef k sy sp st t) = t"
  | row where "snd (q_CreateReplayJob now i ds ef k sy sp st t) = t\<lparr>tb_replay_jobs := tb_replay_jobs t @ [row]\<rparr>" "jr_ID row = i"
proof (cases "fst (q_CreateReplayJob now i ds ef k sy sp st t)")
  case Inl
  then show ?thesis using that(1) clean_writes(8) [of now i ds ef k sy sp st] unfolding clean_failure_def by blast
next
  case (Inr a)
  define row where "row = \<lparr>jr_ID = i, jr_DatasetID = ds, jr_EventFileID = ef, jr_IdempotencyKey = k, jr_Symbol = sy, jr_Speed = sp,
    jr_Status = st, jr_Attempts = 0, jr_LastError = '''', jr_CheckpointLine = 0, jr_CreatedAt = Some (pg_time now),
    jr_StartedAt = None, jr_CompletedAt = None, jr_CanceledAt = None, jr_Manifest = JObj []\<rparr>"
  have "snd (q_CreateReplayJob now i ds ef k sy sp st t) = t\<lparr>tb_replay_jobs := tb_replay_jobs t @ [row]\<rparr>"
    using Inr unfolding q_CreateReplayJob_def with_texts_def Let_def row_def by (simp split: if_splits; blast)
  then show ?thesis by (rule that(2)) (simp add: row_def)
qed

lemma rival_rows:
  obtains "rival n t = t" | row where "rival n t = t\<lparr>tb_replay_jobs := tb_replay_jobs t @ [row]\<rparr>" "jr_ID row = ''r''"
proof (cases "n = 1")
  case True
  then show ?thesis
    using CreateReplayJob_rows [of 5000 "''r''" "''d''" "''f''" "Some ''key''" "''''" "''1x''" "''queued''" t] that
    by (simp add: rival_def) metis
qed (use that in \<open>simp add: rival_def\<close>)

lemma server_others_grow: "others_grow server (io_uuid server_io 0)"
proof -
  have "grows t (rival n t) \<and> (''u'' \<notin> jr_ID ` set (tb_replay_jobs t) \<longrightarrow> ''u'' \<notin> jr_ID ` set (tb_replay_jobs (rival n t)))" for n t
    by (rule rival_rows [of n t]) (auto simp: grows_def)
  then show ?thesis using rival_ok by (simp add: others_grow_def server_def server_io_def)
qed

theorem pg_reachable_consistent_witness:
  "wf_db (pg_db (pg_tables (pg_exec (OpCreateReplayJob server_params) server_io server)))"
proof -
  have "pg_step\<^sup>*\<^sup>* server (pg_exec (OpCreateReplayJob server_params) server_io server)"
    using pg_step.step by (rule r_into_rtranclp)
  from pg_reachable_consistent [OF this] show ?thesis
    using server_tables_ok rival_ok by (simp add: server_def)
qed

text \<open>The rival was faster: its job is the answer.\<close>

theorem pg_create_race_witness:
  "\<exists>job err s'. pg_CreateReplayJob server_params server_io server = ((job, err), s') \<and> err \<in> {None, Some ErrAlreadyExists} \<and>
     db_keys (pg_db (pg_tables s')) ''key'' = Some (rj_ID job)"
proof -
  have texts: "list_all pg_text [''u'', ''d'', ''f'', ''key'', '''', ''1x'']" by code_simp
  show ?thesis
    using pg_create_race [of server server_io server_params] server_tables_ok server_others_grow texts
    by (simp add: server_def server_params_def server_io_def server_tables_def fresh_tables_def) blast
qed

text \<open>The job was created, and the reply to the commit of its completion is lost.\<close>

definition lossy_server :: Postgres where
  "lossy_server = server\<lparr>pg_tables := rival 1 server_tables, pg_others := (\<lambda>_ t. t),
     pg_fault := (\<lambda>n. if n = 4 then Some (ReplyLost ''unexpected EOF'') else None)\<rparr>"

definition server_results :: CompleteReplayJobParams where
  "server_results = \<lparr>cp_Metric = \<lparr>me_ID = '''', me_JobID = '''', me_Rows = 3, me_Events = 2, me_MalformedEvents = 1,
     me_SequenceGaps = 0, me_Duration = 5, me_RowsPerSecond = FInt 0, me_EventsPerSecond = FInt 0,
     me_P95Latency = 0, me_PeakAllocBytes = 0, me_AllocsPerEvent = FInt 0, me_CreatedAt = 0\<rparr>,
     cp_Errors = [\<lparr>ve_ID = '''', ve_JobID = '''', ve_Line = 2, ve_Symbol = '''', ve_Type = ''malformed'',
       ve_Message = ''missing symbol'', ve_CreatedAt = 0\<rparr>]\<rparr>"

theorem pg_complete_atomic_witness:
  "pg_tables (snd (pg_CompleteReplayJob ''r'' server_results server_io lossy_server)) \<in>
     {pg_tables lossy_server, complete_rows server_io ''r'' server_results (pg_tables lossy_server)}"
proof -
  have "pg_others lossy_server n t = t" for n t by (simp add: lossy_server_def)
  from pg_complete_atomic [OF this surjective_pairing, of "''r''" server_results server_io] show ?thesis by simp
qed

end
