(* ===== verification/Store_Refinement.thy ===== *)
theory Store_Refinement
  imports Memory_Store Postgres_Store
begin

section \<open>internal/store: the two repositories implement the same store\<close>

text \<open>
  The Postgres repository implements the specification of \<open>Store_Spec\<close>, as the memory repository does, on the operations that
  its columns can hold. A server that works and has no other clients is one whose state satisfies \<open>pg_inv\<close>. From the two
  interpretations of \<open>refines_spec\<close> it follows that the two repositories hold the same rows after the same
  operations, up to the microseconds that Postgres keeps of a time.
\<close>

subsection \<open>The database under changes of the tables\<close>

lemma map_of_snoc: "k \<notin> fst ` set xs \<Longrightarrow> map_of (xs @ [(k, v)]) = (map_of xs)(k \<mapsto> v)"
  by (induction xs) (auto simp: fun_upd_twist)

lemma map_of_snoc_rows:
  "key r \<notin> key ` set rows \<Longrightarrow>
    map_of (map (\<lambda>r. (key r, c r)) (rows @ [r])) = (map_of (map (\<lambda>r. (key r, c r)) rows))(key r \<mapsto> c r)"
  using map_of_snoc [of "key r" "map (\<lambda>r. (key r, c r)) rows" "c r"] by (simp add: image_image)

definition change :: "'k \<Rightarrow> ('v \<Rightarrow> 'v) \<Rightarrow> ('k \<rightharpoonup> 'v) \<Rightarrow> ('k \<rightharpoonup> 'v)" where
  "change i g m = (case m i of None \<Rightarrow> m | Some x \<Rightarrow> m(i \<mapsto> g x))"

lemma map_of_update_rows:
  assumes "\<And>r. r \<in> set rows \<Longrightarrow> key r = i \<Longrightarrow> key (f r) = i \<and> c (f r) = g (c r)"
  shows "map_of (map (\<lambda>r. (key r, c r)) (update_rows (\<lambda>r. key r = i) f rows)) =
    change i g (map_of (map (\<lambda>r. (key r, c r)) rows))"
  using assms
  by (induction rows) (auto simp: update_rows_def change_def fun_upd_twist split: option.splits)

lemma on_job_change: "on_job i g d = d\<lparr>db_jobs := change i g (db_jobs d)\<rparr>"
  by (simp add: on_job_def change_def put_job_def split: option.splits)

lemma pg_db_insert_dataset:
  "dr_ID row \<notin> dr_ID ` set (tb_datasets t) \<Longrightarrow>
    pg_db (t\<lparr>tb_datasets := tb_datasets t @ [row]\<rparr>) =
      (pg_db t)\<lparr>db_datasets := (db_datasets (pg_db t))(dr_ID row \<mapsto> convertDataset row)\<rparr>"
  using map_of_snoc_rows [of dr_ID row "tb_datasets t" convertDataset] by (simp add: pg_db_def)

lemma pg_db_insert_file:
  "fr_ID row \<notin> fr_ID ` set (tb_event_files t) \<Longrightarrow>
    pg_db (t\<lparr>tb_event_files := tb_event_files t @ [row]\<rparr>) =
      (pg_db t)\<lparr>db_files := (db_files (pg_db t))(fr_ID row \<mapsto> convertEventFile row)\<rparr>"
  using map_of_snoc_rows [of fr_ID row "tb_event_files t" convertEventFile] by (simp add: pg_db_def)

lemma map_of_snoc_keys:
  assumes "jr_IdempotencyKey row \<noteq> None \<Longrightarrow> jr_IdempotencyKey row \<notin> jr_IdempotencyKey ` set js"
  shows "map_of (map (\<lambda>j. (jr_IdempotencyKey j, jr_ID j)) (js @ [row])) (Some k) =
    (if jr_IdempotencyKey row = Some k then Some (jr_ID row)
     else map_of (map (\<lambda>j. (jr_IdempotencyKey j, jr_ID j)) js) (Some k))"
  using assms by (induction js) (auto, metis+)

lemma pg_db_insert_job:
  assumes "jr_ID row \<notin> jr_ID ` set (tb_replay_jobs t)"
    "jr_IdempotencyKey row \<noteq> None \<Longrightarrow> jr_IdempotencyKey row \<notin> jr_IdempotencyKey ` set (tb_replay_jobs t)"
    "jr_IdempotencyKey row \<noteq> Some ''''"
  shows "pg_db (t\<lparr>tb_replay_jobs := tb_replay_jobs t @ [row]\<rparr>) = insert_job (convertReplayJob (returning row)) (pg_db t)"
proof -
  have "(\<lambda>k. map_of (map (\<lambda>j. (jr_IdempotencyKey j, jr_ID j)) (tb_replay_jobs t @ [row])) (Some k)) =
      (let m = \<lambda>k. map_of (map (\<lambda>j. (jr_IdempotencyKey j, jr_ID j)) (tb_replay_jobs t)) (Some k)
       in case jr_IdempotencyKey row of None \<Rightarrow> m | Some k \<Rightarrow> m(k \<mapsto> jr_ID row))"
    using map_of_snoc_keys [of row "tb_replay_jobs t"] assms(2)
    by (simp add: Let_def fun_eq_iff del: map_append split: option.splits)
  then show ?thesis
    using assms(1,3) map_of_snoc_rows [of jr_ID row "tb_replay_jobs t" "\<lambda>j. convertReplayJob (returning j)"]
    by (auto simp: pg_db_def insert_job_def Let_def split: option.splits)
qed

lemma pg_db_update_jobs:
  assumes "\<And>j. j \<in> set (tb_replay_jobs t) \<Longrightarrow> jr_ID j = i \<Longrightarrow> convertReplayJob (returning (f j)) = g (convertReplayJob (returning j))"
    "\<And>j. jr_ID (f j) = jr_ID j" "\<And>j. jr_IdempotencyKey (f j) = jr_IdempotencyKey j"
  shows "pg_db (update_jobs i f t) = on_job i g (pg_db t)"
proof -
  have "map (\<lambda>j. (jr_IdempotencyKey j, jr_ID j)) (update_rows (\<lambda>j. jr_ID j = i) f (tb_replay_jobs t)) =
      map (\<lambda>j. (jr_IdempotencyKey j, jr_ID j)) (tb_replay_jobs t)"
    by (rule update_rows_map) (simp add: assms(2,3))
  then show ?thesis
    using map_of_update_rows [of "tb_replay_jobs t" jr_ID i f "\<lambda>j. convertReplayJob (returning j)" g] assms(1,2)
    by (simp add: pg_db_def on_job_change)
qed

lemma pg_db_update_file:
  assumes "\<And>f. convertEventFile (u f) = g (convertEventFile f)" "\<And>f. fr_ID (u f) = fr_ID f"
  shows "pg_db (t\<lparr>tb_event_files := update_rows (\<lambda>f. fr_ID f = i) u (tb_event_files t)\<rparr>) =
    (pg_db t)\<lparr>db_files := change i g (db_files (pg_db t))\<rparr>"
  using map_of_update_rows [of "tb_event_files t" fr_ID i u convertEventFile g] assms by (simp add: pg_db_def)


subsection \<open>A server that works\<close>

definition pg_inv :: "Postgres \<Rightarrow> bool" where
  "pg_inv s \<longleftrightarrow> tables_ok (pg_tables s) \<and> (\<forall>n. pg_fault s n = None) \<and> (\<forall>n t. pg_others s n t = t)"

lemma pg_invD:
  assumes "pg_inv s"
  shows "schema_ok (pg_tables s)" "tables_ok (pg_tables s)" "pg_safe s" "pg_fault s n = None" "pg_others s n t = t"
  using assms by (auto simp: pg_inv_def tables_ok_def pg_safe_def)

text \<open>What a call keeps of the server.\<close>

definition same_environment :: "Postgres \<Rightarrow> Postgres \<Rightarrow> bool" where
  "same_environment s s' \<longleftrightarrow> pg_fault s' = pg_fault s \<and> pg_others s' = pg_others s"

lemma same_environment_refl: "same_environment a a"
  by (simp add: same_environment_def)

lemma same_environment_trans: "same_environment a b \<Longrightarrow> same_environment b c \<Longrightarrow> same_environment a c"
  by (simp add: same_environment_def)

lemma query_environment: "same_environment s (snd (query q c s))"
proof -
  have "snd (query q c s) = snd (run_statement q s)" by (simp add: query_def split: prod.splits sum.splits)
  then show ?thesis by (simp add: same_environment_def)
qed

lemma insert_job_environment: "same_environment s (snd (pg_insert_job p io s))"
proof -
  let ?q = "q_CreateReplayJob (io_now io) (io_uuid io 0) (cj_DatasetID p) (cj_EventFileID p)
    (textParam (cj_IdempotencyKey p)) (cj_Symbol p) (cj_Speed p) JobStatusQueued"
  obtain res s1 where st: "run_statement ?q s = (res, s1)" by (metis prod.collapse)
  then have "same_environment s s1" using run_statement_simps [of ?q s] by (simp add: same_environment_def)
  moreover from this have "same_environment s (snd (pg_GetReplayJobByIdempotencyKey (cj_IdempotencyKey p) io s1))"
    unfolding pg_GetReplayJobByIdempotencyKey_def by (rule same_environment_trans [OF _ query_environment])
  ultimately show ?thesis by (auto simp: pg_insert_job_def st split: sum.splits prod.splits)
qed

lemma create_job_environment: "same_environment s (snd (pg_CreateReplayJob p io s))"
proof -
  obtain res s1 where st: "pg_GetReplayJobByIdempotencyKey (cj_IdempotencyKey p) io s = (res, s1)" by (metis prod.collapse)
  then have "same_environment s s1" using query_environment unfolding pg_GetReplayJobByIdempotencyKey_def by (metis snd_conv)
  moreover from this have "same_environment s (snd (pg_insert_job p io s1))"
    by (rule same_environment_trans [OF _ insert_job_environment])
  ultimately show ?thesis
    using insert_job_environment [of s p io] by (simp add: pg_CreateReplayJob_def st split: sum.splits)
qed

lemma complete_environment: "same_environment s (snd (pg_CompleteReplayJob i p io s))"
proof -
  obtain b tx where bg: "pg_Begin s = (b, tx)" by (metis prod.collapse)
  obtain c tx1 where ct: "complete_tx io i p tx = (c, tx1)" by (metis prod.collapse)
  obtain d s1 where cm: "pg_Commit tx1 = (d, s1)" by (metis prod.collapse)
  have tx: "same_environment s (tx_server tx)" using bg by (auto simp: pg_Begin_def same_environment_def Let_def)
  moreover have tx1: "same_environment s (tx_server tx1)"
    using tx complete_tx_server [of tx io i p] ct by (simp add: same_environment_def same_server_def)
  moreover have s1: "same_environment s s1"
    using cm tx1 by (auto simp: pg_Commit_def same_environment_def Let_def split: option.splits fault.splits)
  moreover have "same_environment s (snd (pg_GetReplayJob i io s1))"
    unfolding pg_GetReplayJob_def by (rule same_environment_trans [OF s1 query_environment])
  ultimately show ?thesis
    by (simp add: pg_CompleteReplayJob_def bg ct cm pg_Rollback_def split: sum.splits)
qed

lemma checkpoint_environment: "same_environment s (snd (pg_UpdateReplayCheckpoint i n io s))"
  using query_environment [of s "q_UpdateReplayCheckpoint i n" id]
  by (auto simp: pg_UpdateReplayCheckpoint_def try_call_def split: sum.splits prod.splits)

lemma pg_exec_environment: "same_environment s (pg_exec op io s)"
  by (cases op) (simp_all add: pg_CreateDataset_def pg_CreateEventFile_def pg_UpdateEventFileStats_def
      pg_UpdateReplayJobStatus_def pg_UpdateReplayManifest_def pg_CancelReplayJob_def query_environment
      create_job_environment complete_environment checkpoint_environment same_environment_refl split: option.splits)

lemma pg_exec_inv: "pg_inv s \<Longrightarrow> pg_inv (pg_exec op io s)"
  using pg_exec_environment [of s op io] pg_exec_safe [OF pg_invD(3), of s op io]
  by (simp add: pg_inv_def same_environment_def pg_safe_def)

lemma query_tables: "pg_inv s \<Longrightarrow> pg_tables (snd (query q c s)) = snd (q (pg_tables s))"
  by (auto simp: query_def run_statement_def pg_invD Let_def split: prod.splits sum.splits)

subsection \<open>The operations that the columns can hold\<close>

definition pg_cancel :: "time \<Rightarrow> ReplayJob \<Rightarrow> ReplayJob" where
  "pg_cancel now j = j\<lparr>rj_Status := JobStatusCanceled, rj_CanceledAt := Some now\<rparr>"

text \<open>
  Texts that Postgres can store, new identifiers, sizes that are not negative, room in the counter of attempts, and a manifest
  that JSON can hold.
\<close>

fun pg_can :: "store_op \<Rightarrow> Io \<Rightarrow> Db \<Rightarrow> bool" where
  "pg_can (OpCreateDataset p) io d \<longleftrightarrow>
     list_all pg_text [io_uuid io 0, cd_Name p, cd_Description p] \<and> db_datasets d (io_uuid io 0) = None"
| "pg_can (OpCreateEventFile p) io d \<longleftrightarrow>
     list_all pg_text [io_uuid io 0, ce_DatasetID p, ce_Path p, ce_Format p, ce_Symbol p, ce_SHA256 p] \<and>
     0 \<le> ce_Bytes p \<and> 0 \<le> ce_Rows p \<and> db_files d (io_uuid io 0) = None"
| "pg_can (OpUpdateEventFileStats i u) io d \<longleftrightarrow> list_all pg_text [i, us_SHA256 u] \<and> 0 \<le> us_Rows u \<and> 0 \<le> us_Bytes u"
| "pg_can (OpCreateReplayJob p) io d \<longleftrightarrow>
     list_all pg_text [io_uuid io 0, cj_DatasetID p, cj_EventFileID p, cj_IdempotencyKey p, cj_Symbol p, cj_Speed p] \<and>
     db_jobs d (io_uuid io 0) = None"
| "pg_can (OpUpdateReplayJobStatus i st e) io d \<longleftrightarrow>
     list_all pg_text [i, st, e] \<and> (case db_jobs d i of None \<Rightarrow> True | Some j \<Rightarrow> rj_Attempts j < int32_max)"
| "pg_can (OpUpdateReplayCheckpoint i n) io d \<longleftrightarrow> pg_text i"
| "pg_can (OpUpdateReplayManifest i m) io d \<longleftrightarrow> pg_text i \<and> manifest_ok m \<and>
     (case ReplayManifest_json m of None \<Rightarrow> False | Some v \<Rightarrow> jsonb_ok v)"
| "pg_can (OpCompleteReplayJob i p) io d \<longleftrightarrow>
     (let m = stamp_metric io i (cp_Metric p); es = stamp_errors io (first_error_uuid (cp_Metric p)) i (cp_Errors p)
      in pg_text i \<and> pg_text (me_ID m) \<and> 0 \<le> me_PeakAllocBytes m \<and> me_PeakAllocBytes m < 2 ^ 64 \<and>
         list_all (\<lambda>e. list_all pg_text [ve_ID e, ve_Symbol e, ve_Type e, ve_Message e]) es \<and> distinct (map ve_ID es) \<and>
         (\<forall>k. me_ID m \<notin> me_ID ` set (db_metrics d k) \<and> ve_ID ` set es \<inter> ve_ID ` set (db_errors d k) = {}))"
| "pg_can (OpCancelReplayJob i) io d \<longleftrightarrow> pg_text i"


subsection \<open>Each operation does what the specification says\<close>

lemma missing_rows:
  "db_datasets (pg_db t) i = None \<longleftrightarrow> i \<notin> dr_ID ` set (tb_datasets t)"
  "db_files (pg_db t) i = None \<longleftrightarrow> i \<notin> fr_ID ` set (tb_event_files t)"
  "db_jobs (pg_db t) i = None \<longleftrightarrow> i \<notin> jr_ID ` set (tb_replay_jobs t)"
  unfolding pg_db_doms [symmetric] by (simp_all add: domIff)

lemma stored_manifest_empty: "replayManifestFromJSON (JObj []) = zero_ReplayManifest"
  by (simp add: replayManifestFromJSON_def dec_struct_def)

lemma create_dataset_tables:
  assumes "pg_can (OpCreateDataset p) io (pg_db t)"
  shows "pg_db (snd (q_CreateDataset (io_now io) (io_uuid io 0) (cd_Name p) (cd_Description p) t)) =
    db_step pg_time c (OpCreateDataset p) io (pg_db t)"
  using assms
  by (simp add: q_CreateDataset_def with_texts_def missing_rows pg_db_insert_dataset convertDataset_def spec_dataset_def
      timeFromPG_def Let_def)

lemma create_file_tables:
  assumes "pg_can (OpCreateEventFile p) io (pg_db t)"
  shows "pg_db (snd (q_CreateEventFile (io_now io) (io_uuid io 0) (ce_DatasetID p) (ce_Path p) (ce_Format p) (ce_Symbol p)
      (ce_Bytes p) (ce_SHA256 p) (ce_Rows p) t)) = db_step pg_time c (OpCreateEventFile p) io (pg_db t)"
  using assms
  by (simp add: q_CreateEventFile_def with_texts_def missing_rows pg_db_insert_file convertEventFile_def spec_file_def
      timeFromPG_def Let_def)

lemma update_stats_tables:
  assumes "pg_can (OpUpdateEventFileStats i u) io (pg_db t)"
  shows "pg_db (snd (q_UpdateEventFileStats i (us_SHA256 u) (us_Rows u) (us_Bytes u) t)) =
    db_step pg_time c (OpUpdateEventFileStats i u) io (pg_db t)"
proof -
  let ?u = "\<lambda>f. f\<lparr>fr_Sha256 := us_SHA256 u, fr_Rows := us_Rows u, fr_Bytes := us_Bytes u\<rparr>"
  have "snd (q_UpdateEventFileStats i (us_SHA256 u) (us_Rows u) (us_Bytes u) t) =
      t\<lparr>tb_event_files := update_rows (\<lambda>f. fr_ID f = i) ?u (tb_event_files t)\<rparr>"
    using assms by (simp add: q_UpdateEventFileStats_def with_texts_def Let_def)
  moreover have "convertEventFile (?u f) = with_stats u (convertEventFile f)" for f
    by (simp add: convertEventFile_def with_stats_def)
  ultimately show ?thesis
    using pg_db_update_file [of ?u "with_stats u"] by (simp add: change_def split: option.splits)
qed

lemma update_status_tables:
  assumes "schema_ok t" "pg_can (OpUpdateReplayJobStatus i st e) io (pg_db t)"
  shows "pg_db (snd (q_UpdateReplayJobStatus i st e (timestampParam (io_now io)) t)) =
    db_step pg_time c (OpUpdateReplayJobStatus i st e) io (pg_db t)"
proof -
  have room: "\<not> list_ex (\<lambda>j. jr_ID j = i \<and> jr_Attempts j \<ge> int32_max) (tb_replay_jobs t)"
  proof
    assume "list_ex (\<lambda>j. jr_ID j = i \<and> jr_Attempts j \<ge> int32_max) (tb_replay_jobs t)"
    then obtain j where "j \<in> set (tb_replay_jobs t)" "jr_ID j = i" "jr_Attempts j \<ge> int32_max" by (auto simp: list_ex_iff)
    then have "db_jobs (pg_db t) i = Some (convertReplayJob (returning j))" using pg_db_jobs [OF assms(1)] by blast
    then show False using assms(2) \<open>jr_Attempts j \<ge> int32_max\<close> by simp
  qed
  show ?thesis
    using assms(2) room unfolding q_UpdateReplayJobStatus_def with_texts_def Let_def
    by (simp, intro pg_db_update_jobs)
      (simp_all add: convertReplayJob_def returning_def with_status_def timestampParam_def timePtrFromPG_def JobStatus_defs)
qed

lemma update_job_tables:
  "pg_text i \<Longrightarrow> pg_db (snd (q_UpdateReplayCheckpoint i n t)) = db_step pg_time c (OpUpdateReplayCheckpoint i n) io (pg_db t)"
  "pg_text i \<Longrightarrow> pg_db (snd (q_CancelReplayJob i (timestampParam (io_now io)) t)) =
    db_step pg_time pg_cancel (OpCancelReplayJob i) io (pg_db t)"
  "pg_text i \<Longrightarrow> manifest_ok m \<Longrightarrow> ReplayManifest_json m = Some v \<Longrightarrow> jsonb_ok v \<Longrightarrow>
    pg_db (snd (q_UpdateReplayManifest i v t)) = db_step pg_time c (OpUpdateReplayManifest i m) io (pg_db t)"
  by (simp_all add: q_UpdateReplayCheckpoint_def q_CancelReplayJob_def q_UpdateReplayManifest_def with_texts_def Let_def)
    (intro pg_db_update_jobs; simp add: convertReplayJob_def returning_def timestampParam_def timePtrFromPG_def
      JobStatus_defs pg_cancel_def manifest_roundtrip)+


lemma stored_keys:
  assumes "tables_ok t"
  shows "db_keys (pg_db t) k = None \<longleftrightarrow> k = '''' \<or> Some k \<notin> jr_IdempotencyKey ` set (tb_replay_jobs t)"
proof -
  have "db_keys (pg_db t) k = None \<longleftrightarrow> Some k \<notin> jr_IdempotencyKey ` set (tb_replay_jobs t)"
    by (auto simp: pg_db_def map_of_eq_None_iff image_image)
  moreover have "Some '''' \<notin> jr_IdempotencyKey ` set (tb_replay_jobs t)"
    using assms by (force simp: tables_ok_def list_all_iff)
  ultimately show ?thesis by auto
qed

lemma insert_job_spec:
  assumes "pg_inv s" "pg_can (OpCreateReplayJob p) io (pg_db (pg_tables s))" "db_keys (pg_db (pg_tables s)) (cj_IdempotencyKey p) = None"
  shows "pg_db (pg_tables (snd (pg_insert_job p io s))) = db_step pg_time c (OpCreateReplayJob p) io (pg_db (pg_tables s))"
proof -
  let ?t = "pg_tables s" and ?k = "textParam (cj_IdempotencyKey p)"
  let ?q = "q_CreateReplayJob (io_now io) (io_uuid io 0) (cj_DatasetID p) (cj_EventFileID p) ?k (cj_Symbol p) (cj_Speed p) JobStatusQueued"
  have "list_all pg_text [JobStatusQueued]" by code_simp
  then have texts: "list_all pg_text ([io_uuid io 0, cj_DatasetID p, cj_EventFileID p] @
      (case ?k of None \<Rightarrow> [] | Some k \<Rightarrow> [k]) @ [cj_Symbol p, cj_Speed p, JobStatusQueued])"
    using assms(2) by (simp add: textParam_def)
  have key: "?k \<noteq> None \<Longrightarrow> ?k \<notin> jr_IdempotencyKey ` set (tb_replay_jobs ?t)" "?k \<noteq> Some ''''"
    using assms(3) stored_keys [OF pg_invD(2) [OF assms(1)]] by (auto simp: textParam_def split: if_splits)
  have fresh: "io_uuid io 0 \<notin> jr_ID ` set (tb_replay_jobs ?t)" using assms(2) by (simp add: missing_rows)
  have "pg_db (snd (?q ?t)) = db_step pg_time c (OpCreateReplayJob p) io (pg_db ?t)"
  proof (cases "cj_DatasetID p \<in> dr_ID ` set (tb_datasets ?t) \<and> cj_EventFileID p \<in> fr_ID ` set (tb_event_files ?t)")
    case False
    then have "snd (?q ?t) = ?t" unfolding q_CreateReplayJob_def with_texts_def by (simp only: texts) auto
    then show ?thesis using False by (auto simp: missing_rows)
  next
    case True
    define row where "row = \<lparr>jr_ID = io_uuid io 0, jr_DatasetID = cj_DatasetID p, jr_EventFileID = cj_EventFileID p,
      jr_IdempotencyKey = ?k, jr_Symbol = cj_Symbol p, jr_Speed = cj_Speed p, jr_Status = JobStatusQueued, jr_Attempts = 0,
      jr_LastError = '''', jr_CheckpointLine = 0, jr_CreatedAt = Some (pg_time (io_now io)), jr_StartedAt = None,
      jr_CompletedAt = None, jr_CanceledAt = None, jr_Manifest = JObj []\<rparr>"
    have "snd (?q ?t) = ?t\<lparr>tb_replay_jobs := tb_replay_jobs ?t @ [row]\<rparr>"
      using True key fresh unfolding q_CreateReplayJob_def with_texts_def Let_def row_def by (simp only: texts) auto
    moreover have "convertReplayJob (returning row) = spec_job pg_time io p"
      by (simp add: row_def spec_job_def new_job_def convertReplayJob_def returning_def timeFromPG_def timePtrFromPG_def
          textParam_def stored_manifest_empty zero_ReplayJob_def)
    ultimately show ?thesis
      using pg_db_insert_job [of row ?t] key fresh True assms(3) by (simp add: row_def missing_rows)
  qed
  moreover have "isUniqueViolation e \<Longrightarrow> cj_IdempotencyKey p \<noteq> '''' \<Longrightarrow> fst (?q ?t) \<noteq> Inl e" for e
    using key fresh unfolding q_CreateReplayJob_def with_texts_def Let_def
    by (simp only: texts) (auto simp: isUniqueViolation_def)
  ultimately show ?thesis
    by (auto simp: pg_insert_job_def run_statement_def pg_invD [OF assms(1)] Let_def split: sum.splits prod.splits)
qed

lemma get_by_key_tables:
  assumes "pg_inv s" "pg_text k" "k \<noteq> ''''" "pg_GetReplayJobByIdempotencyKey k io s = (res, s')"
  shows "pg_tables s' = pg_tables s" "pg_inv s'"
    "db_keys (pg_db (pg_tables s)) k = None \<Longrightarrow> res = Inl ErrNotFound" "db_keys (pg_db (pg_tables s)) k \<noteq> None \<Longrightarrow> \<exists>j. res = Inr j"
proof -
  have t: "pg_tables s = pg_others s (pg_done s) (pg_tables s)" using assms(1) by (simp add: pg_invD)
  note found = get_by_key_healthy [OF pg_invD(4) [OF assms(1)] assms(2,3) t refl, of io, unfolded assms(4)]
  show tables: "pg_tables s' = pg_tables s"
    using found by (cases "\<exists>j\<in>set (tb_replay_jobs (pg_tables s)). jr_IdempotencyKey j = Some k") auto
  have "same_environment s s'"
    using query_environment assms(4) unfolding pg_GetReplayJobByIdempotencyKey_def by (metis snd_conv)
  then show "pg_inv s'" using assms(1) tables by (simp add: pg_inv_def same_environment_def)
  show "db_keys (pg_db (pg_tables s)) k = None \<Longrightarrow> res = Inl ErrNotFound"
    "db_keys (pg_db (pg_tables s)) k \<noteq> None \<Longrightarrow> \<exists>j. res = Inr j"
    using found stored_keys [OF pg_invD(2) [OF assms(1)], of k] assms(3) by force+
qed

lemma create_job_spec:
  assumes "pg_inv s" "pg_can (OpCreateReplayJob p) io (pg_db (pg_tables s))"
  shows "pg_db (pg_tables (snd (pg_CreateReplayJob p io s))) = db_step pg_time c (OpCreateReplayJob p) io (pg_db (pg_tables s))"
proof (cases "cj_IdempotencyKey p = ''''")
  case True
  then show ?thesis
    using insert_job_spec [OF assms] stored_keys [OF pg_invD(2) [OF assms(1)]] by (simp add: pg_CreateReplayJob_def)
next
  case False
  obtain res s1 where get: "pg_GetReplayJobByIdempotencyKey (cj_IdempotencyKey p) io s = (res, s1)" by (metis prod.collapse)
  have "pg_text (cj_IdempotencyKey p)" using assms(2) by simp
  note s1 = get_by_key_tables [OF assms(1) this False get]
  show ?thesis
  proof (cases "db_keys (pg_db (pg_tables s)) (cj_IdempotencyKey p)")
    case None
    then show ?thesis
      using insert_job_spec [OF s1(2)] assms(2) s1 False by (simp add: pg_CreateReplayJob_def get)
  next
    case (Some i)
    then show ?thesis using s1(1,4) False by (auto simp: pg_CreateReplayJob_def get)
  qed
qed


text \<open>A transaction on a server that works.\<close>

definition tx_works :: "Tx \<Rightarrow> bool" where
  "tx_works tx \<longleftrightarrow> (\<forall>n. pg_fault (tx_server tx) n = None)"

lemma tx_statement_works:
  assumes "tx_works tx" "q (tx_tables tx) = (res, t')"
  obtains tx' where "tx_statement q tx = (res, tx')" "tx_tables tx' = t'" "tx_works tx'"
  using assms that [of "tx\<lparr>tx_server := (tx_server tx)\<lparr>pg_done := Suc (pg_done (tx_server tx))\<rparr>, tx_tables := t'\<rparr>"]
  by (simp add: tx_statement_def tx_works_def Let_def)

lemma insert_errors_works:
  assumes "tx_works tx" "pg_text i" "i \<in> jr_ID ` set (tb_replay_jobs (tx_tables tx))" "distinct (map ve_ID (stamp_errors io n i es))"
    "list_all (\<lambda>e. list_all pg_text [ve_ID e, ve_Symbol e, ve_Type e, ve_Message e]) (stamp_errors io n i es)"
    "ve_ID ` set (stamp_errors io n i es) \<inter> ew_ID ` set (tb_validation_errors (tx_tables tx)) = {}"
  shows "\<exists>tx'. insert_errors io i es n tx = (Inr (), tx') \<and> tx_works tx'"
  using assms
proof (induction es arbitrary: n tx)
  case (Cons e es)
  let ?t = "tx_tables tx"
  obtain e' n1 where stamp: "stamp_errors io n i (e # es) = e' # stamp_errors io n1 i es"
    and ins: "insert_errors io i (e # es) n =
      try_call (tx_statement (q_CreateValidationError (error_row i e'))) (\<lambda>_. insert_errors io i es n1)"
    by (rule insert_errors_Cons)
  have "q_CreateValidationError (error_row i e') ?t =
      (Inr (error_row i e'), ?t\<lparr>tb_validation_errors := tb_validation_errors ?t @ [error_row i e']\<rparr>)"
    using Cons.prems(2,3,5,6) unfolding stamp q_CreateValidationError_def with_texts_def by (simp add: error_row_def)
  with Cons.prems(1) obtain tx1 where tx1: "tx_statement (q_CreateValidationError (error_row i e')) tx = (Inr (error_row i e'), tx1)"
    "tx_tables tx1 = ?t\<lparr>tb_validation_errors := tb_validation_errors ?t @ [error_row i e']\<rparr>" "tx_works tx1"
    by (rule tx_statement_works)
  have "ve_ID ` set (stamp_errors io n1 i es) \<inter> ew_ID ` set (tb_validation_errors (tx_tables tx1)) = {}"
    using Cons.prems(4,6) unfolding stamp tx1(2) by (auto simp: error_row_def)
  then have "\<exists>tx'. insert_errors io i es n1 tx1 = (Inr (), tx') \<and> tx_works tx'"
    using Cons.prems(2-5) tx1(2,3) unfolding stamp by (intro Cons.IH) simp_all
  then show ?case unfolding ins by (simp add: try_call_def tx1(1))
qed simp

lemma stored_ids:
  "(\<forall>k. x \<notin> me_ID ` set (db_metrics (pg_db t) k)) \<longleftrightarrow> x \<notin> mt_ID ` set (tb_replay_metrics t)"
  "(\<forall>k. X \<inter> ve_ID ` set (db_errors (pg_db t) k) = {}) \<longleftrightarrow> X \<inter> ew_ID ` set (tb_validation_errors t) = {}"
proof -
  have "me_ID ` set (db_metrics (pg_db t) k) = mt_ID ` {m \<in> set (tb_replay_metrics t). mt_JobID m = k}"
    "ve_ID ` set (db_errors (pg_db t) k) = ew_ID ` {e \<in> set (tb_validation_errors t). ew_JobID e = k}" for k
    by (simp_all add: pg_db_def convertReplayMetric_def convertValidationError_def image_image)
  then have *: "(\<Union>k. me_ID ` set (db_metrics (pg_db t) k)) = mt_ID ` set (tb_replay_metrics t)"
    "(\<Union>k. ve_ID ` set (db_errors (pg_db t) k)) = ew_ID ` set (tb_validation_errors t)" by auto
  show "(\<forall>k. x \<notin> me_ID ` set (db_metrics (pg_db t) k)) \<longleftrightarrow> x \<notin> mt_ID ` set (tb_replay_metrics t)"
    "(\<forall>k. X \<inter> ve_ID ` set (db_errors (pg_db t) k) = {}) \<longleftrightarrow> X \<inter> ew_ID ` set (tb_validation_errors t) = {}"
    unfolding * [symmetric] by blast+
qed

lemma complete_tx_works:
  assumes "tx_works tx" "pg_can (OpCompleteReplayJob i p) io (pg_db (tx_tables tx))" "i \<in> jr_ID ` set (tb_replay_jobs (tx_tables tx))"
  shows "\<exists>tx'. complete_tx io i p tx = (Inr (), tx') \<and> tx_works tx'"
proof -
  let ?t = "tx_tables tx" and ?m = "stamp_metric io i (cp_Metric p)" and ?n = "first_error_uuid (cp_Metric p)"
  let ?t1 = "update_jobs i (\<lambda>j. j\<lparr>jr_Status := ''completed'', jr_CompletedAt := timestampParam (io_now io)\<rparr>) ?t"
  have can: "pg_text i" "pg_text (me_ID ?m)" "distinct (map ve_ID (stamp_errors io ?n i (cp_Errors p)))"
    "list_all (\<lambda>e. list_all pg_text [ve_ID e, ve_Symbol e, ve_Type e, ve_Message e]) (stamp_errors io ?n i (cp_Errors p))"
    "me_ID ?m \<notin> mt_ID ` set (tb_replay_metrics ?t)"
    "ve_ID ` set (stamp_errors io ?n i (cp_Errors p)) \<inter> ew_ID ` set (tb_validation_errors ?t) = {}"
    using assms(2) unfolding pg_can.simps Let_def all_conj_distrib stored_ids by blast+
  have ids: "jr_ID ` set (update_rows (\<lambda>j. jr_ID j = i)
      (\<lambda>j. j\<lparr>jr_Status := ''completed'', jr_CompletedAt := timestampParam (io_now io)\<rparr>) (tb_replay_jobs ?t)) = jr_ID ` set (tb_replay_jobs ?t)"
    by (rule update_rows_image) simp
  have "q_CompleteReplayJobStatus i (timestampParam (io_now io)) ?t = (Inr (affected_rows i ?t), ?t1)"
    using can(1) by (simp add: q_CompleteReplayJobStatus_def with_texts_def)
  with assms(1) obtain tx1 where tx1: "tx_statement (q_CompleteReplayJobStatus i (timestampParam (io_now io))) tx =
      (Inr (affected_rows i ?t), tx1)" "tx_tables tx1 = ?t1" "tx_works tx1" by (rule tx_statement_works)
  have "q_CreateReplayMetric (metric_row i ?m) (tx_tables tx1) =
      (Inr (metric_row i ?m), ?t1\<lparr>tb_replay_metrics := tb_replay_metrics ?t @ [metric_row i ?m]\<rparr>)"
    using can(1,2,5) assms(3) ids by (simp add: q_CreateReplayMetric_def with_texts_def metric_row_def tx1(2))
  with tx1(3) obtain tx2 where tx2: "tx_statement (q_CreateReplayMetric (metric_row i ?m)) tx1 = (Inr (metric_row i ?m), tx2)"
    "tx_tables tx2 = ?t1\<lparr>tb_replay_metrics := tb_replay_metrics ?t @ [metric_row i ?m]\<rparr>" "tx_works tx2" by (rule tx_statement_works)
  obtain tx3 where tx3: "insert_errors io i (cp_Errors p) ?n tx2 = (Inr (), tx3)" "tx_works tx3"
    using insert_errors_works [OF tx2(3) can(1) _ can(3,4)] can(6) assms(3) ids by (auto simp: tx2(2))
  have "insert_results io i p tx1 = (Inr (), tx3)"
    using tx2(1) tx3(1) by (simp add: insert_results_alt try_call_def)
  moreover have "affected_rows i ?t \<noteq> 0" using assms(3) by (auto simp: affected_rows_def filter_empty_conv)
  ultimately show ?thesis using tx3(2) by (simp add: complete_tx_def tx1(1))
qed


lemma uint64_through_int64: "0 \<le> x \<Longrightarrow> x < 2 ^ 64 \<Longrightarrow> wrap64 x mod 2 ^ 64 = x"
  by (simp add: wrap64_def mod_diff_left_eq)

lemma convert_results:
  "0 \<le> me_PeakAllocBytes m \<Longrightarrow> me_PeakAllocBytes m < 2 ^ 64 \<Longrightarrow> me_JobID m = i \<Longrightarrow>
    convertReplayMetric (metric_row i m) = keep_metric pg_time m"
  "ve_JobID e = i \<Longrightarrow> convertValidationError (error_row i e) = keep_error pg_time e"
  using uint64_through_int64 [of "me_PeakAllocBytes m"]
  by (auto simp: convertReplayMetric_def metric_row_def keep_metric_def convertValidationError_def error_row_def keep_error_def
      timeFromPG_def timestampParam_def simp del: power_numeral)

lemma pg_db_complete_rows:
  assumes "pg_can (OpCompleteReplayJob i p) io (pg_db t)" "i \<in> jr_ID ` set (tb_replay_jobs t)"
  shows "pg_db (complete_rows io i p t) = db_step pg_time c (OpCompleteReplayJob i p) io (pg_db t)"
proof -
  let ?m = "stamp_metric io i (cp_Metric p)" and ?es = "stamp_errors io (first_error_uuid (cp_Metric p)) i (cp_Errors p)"
  let ?u = "\<lambda>j. j\<lparr>jr_Status := ''completed'', jr_CompletedAt := timestampParam (io_now io)\<rparr>"
  have metric: "convertReplayMetric (metric_row i ?m) = keep_metric pg_time ?m"
    using assms(1) by (intro convert_results) (simp_all add: Let_def stamp_metric_def)
  have errs: "map (\<lambda>e. convertValidationError (error_row i e)) ?es = map (keep_error pg_time) ?es"
    by (simp add: convert_results stamp_errors_rows)
  have job: "pg_db (update_jobs i ?u t) =
      on_job i (\<lambda>j. j\<lparr>rj_Status := JobStatusCompleted, rj_CompletedAt := Some (pg_time (io_now io))\<rparr>) (pg_db t)"
    by (rule pg_db_update_jobs) (simp_all add: convertReplayJob_def returning_def timestampParam_def timePtrFromPG_def JobStatus_defs)
  have rows: "pg_db (complete_rows io i p t) = (pg_db (update_jobs i ?u t))
      \<lparr>db_metrics := (db_metrics (pg_db t))(i := db_metrics (pg_db t) i @ [convertReplayMetric (metric_row i ?m)]),
       db_errors := (db_errors (pg_db t))(i := db_errors (pg_db t) i @ map (\<lambda>e. convertValidationError (error_row i e)) ?es)\<rparr>"
    by (auto simp: complete_rows_def pg_db_def metric_row_def error_row_def filter_map comp_def fun_eq_iff)
  have "db_jobs (pg_db t) i \<noteq> None" using assms(2) by (simp add: missing_rows)
  then show ?thesis unfolding rows metric errs job by auto
qed

lemma complete_spec:
  assumes "pg_inv s" "pg_can (OpCompleteReplayJob i p) io (pg_db (pg_tables s))"
  shows "pg_db (pg_tables (snd (pg_CompleteReplayJob i p io s))) = db_step pg_time c (OpCompleteReplayJob i p) io (pg_db (pg_tables s))"
proof -
  let ?t = "pg_tables s"
  obtain tx where bg: "pg_Begin s = (Inr (), tx)" "tx_tables tx = ?t" "tx_works tx" "pg_tables (tx_server tx) = ?t"
    "pg_others (tx_server tx) = pg_others s"
    by (simp add: pg_Begin_def pg_invD [OF assms(1)] tx_works_def Let_def)
  show ?thesis
  proof (cases "i \<in> jr_ID ` set (tb_replay_jobs ?t)")
    case False
    then have "affected_rows i ?t = 0" by (auto simp: affected_rows_def filter_empty_conv)
    moreover have "q_CompleteReplayJobStatus i (timestampParam (io_now io)) (tx_tables tx) =
        (Inr (affected_rows i ?t), snd (q_CompleteReplayJobStatus i (timestampParam (io_now io)) (tx_tables tx)))"
      using assms(2) by (simp add: q_CompleteReplayJobStatus_def with_texts_def bg(2) Let_def)
    from tx_statement_works [where q = "q_CompleteReplayJobStatus i (timestampParam (io_now io))", OF bg(3) this] obtain tx1
      where "tx_statement (q_CompleteReplayJobStatus i (timestampParam (io_now io))) tx = (Inr (affected_rows i ?t), tx1)" by blast
    moreover from this have "pg_tables (tx_server tx1) = ?t"
      using tx_statement_server [of tx "q_CompleteReplayJobStatus i (timestampParam (io_now io))"] bg(4) by (simp add: same_server_def)
    ultimately show ?thesis
      using False by (simp add: pg_CompleteReplayJob_def bg(1) complete_tx_def pg_Rollback_def missing_rows)
  next
    case True
    obtain tx1 where tx1: "complete_tx io i p tx = (Inr (), tx1)" "tx_works tx1"
      using complete_tx_works [OF bg(3), of i p io, unfolded bg(2), OF assms(2) True] by blast
    have t1: "tx_tables tx1 = complete_rows io i p ?t" using complete_tx_done(1) [OF tx1(1)] bg(2) by simp
    have srv: "pg_others (tx_server tx1) = pg_others s"
      using complete_tx_server [of tx io i p] tx1(1) bg(5) by (simp add: same_server_def)
    obtain s1 where cm: "pg_Commit tx1 = (Inr (), s1)" "pg_tables s1 = complete_rows io i p ?t" "pg_others s1 = pg_others s"
      using tx1(2) t1 srv by (simp add: pg_Commit_def tx_works_def Let_def)
    obtain res s2 where get: "pg_GetReplayJob i io s1 = (res, s2)" by (metis prod.collapse)
    have "pg_tables s2 = pg_tables s1"
      using query_read(1) [OF _ _ get [unfolded pg_GetReplayJob_def]] cm(3) by (simp add: pg_invD [OF assms(1)])
    then show ?thesis
      using pg_db_complete_rows [OF assms(2) True] cm(2) by (simp add: pg_CompleteReplayJob_def bg(1) tx1(1) cm(1) get del: db_step.simps)
  qed
qed

interpretation pg_spec: refines_spec pg_exec pg_inv "\<lambda>s. pg_db (pg_tables s)" pg_time pg_cancel pg_can
proof (unfold_locales, goal_cases)
  case (1 s op io)
  note inv = 1(1) and can = 1(2)
  have "pg_db (pg_tables (pg_exec op io s)) = db_step pg_time pg_cancel op io (pg_db (pg_tables s))"
  proof (cases op)
    case (OpCreateReplayJob p)
    then show ?thesis using create_job_spec [OF inv] can by (simp del: db_step.simps pg_can.simps)
  next
    case (OpCompleteReplayJob i p)
    then show ?thesis using complete_spec [OF inv] can by (simp del: db_step.simps pg_can.simps)
  next
    case (OpUpdateReplayJobStatus i st e)
    then show ?thesis
      using update_status_tables [OF pg_invD(1) [OF inv]] can
      by (simp add: pg_UpdateReplayJobStatus_def query_tables [OF inv] del: db_step.simps pg_can.simps)
  next
    case (OpUpdateReplayCheckpoint i n)
    have "pg_tables (snd (pg_UpdateReplayCheckpoint i n io s)) = snd (q_UpdateReplayCheckpoint i n (pg_tables s))"
      using query_tables [OF inv, of "q_UpdateReplayCheckpoint i n" id]
      by (auto simp: pg_UpdateReplayCheckpoint_def try_call_def split: sum.splits prod.splits)
    then show ?thesis using update_job_tables(1) can OpUpdateReplayCheckpoint by (simp del: db_step.simps)
  next
    case (OpUpdateReplayManifest i m)
    then show ?thesis
      using update_job_tables(3) can
      by (auto simp: pg_UpdateReplayManifest_def query_tables [OF inv] simp del: db_step.simps split: option.splits)
  qed (use create_dataset_tables create_file_tables update_stats_tables update_job_tables(2) can
      in \<open>simp_all add: query_tables [OF inv] pg_CreateDataset_def pg_CreateEventFile_def pg_UpdateEventFileStats_def pg_CancelReplayJob_def
        del: db_step.simps\<close>)
  then show ?case using pg_exec_inv [OF inv] by simp
qed


subsection \<open>Postgres and memory\<close>

text \<open>What Postgres keeps of a database: the times to the microsecond.\<close>

definition kept_dataset :: "Dataset \<Rightarrow> Dataset" where
  "kept_dataset x = x\<lparr>ds_CreatedAt := pg_time (ds_CreatedAt x)\<rparr>"

definition kept_file :: "EventFile \<Rightarrow> EventFile" where
  "kept_file x = x\<lparr>ef_CreatedAt := pg_time (ef_CreatedAt x)\<rparr>"

definition kept_job :: "ReplayJob \<Rightarrow> ReplayJob" where
  "kept_job x = x\<lparr>rj_CreatedAt := pg_time (rj_CreatedAt x), rj_StartedAt := map_option pg_time (rj_StartedAt x),
     rj_CompletedAt := map_option pg_time (rj_CompletedAt x), rj_CanceledAt := map_option pg_time (rj_CanceledAt x)\<rparr>"

definition kept :: "Db \<Rightarrow> Db" where
  "kept d =
     \<lparr>db_datasets = (\<lambda>i. map_option kept_dataset (db_datasets d i)), db_files = (\<lambda>i. map_option kept_file (db_files d i)),
      db_jobs = (\<lambda>i. map_option kept_job (db_jobs d i)), db_keys = db_keys d,
      db_metrics = (\<lambda>i. map (keep_metric pg_time) (db_metrics d i)), db_errors = (\<lambda>i. map (keep_error pg_time) (db_errors d i))\<rparr>"

text \<open>
  Operations that both stores take, with new identifiers. Canceling is left out: the memory repository counts it as an attempt
  and clears the last error, the Postgres repository does neither. So is an empty hash, which the memory repository
  takes for no change of the hash, and the Postgres repository stores.
\<close>

definition both_can :: "store_op \<Rightarrow> Io \<Rightarrow> Db \<Rightarrow> bool" where
  "both_can op io d \<longleftrightarrow> memory_can op io d \<and> pg_can op io d \<and> (case op of OpCancelReplayJob _ \<Rightarrow> False | _ \<Rightarrow> True)"

lemma kept_simps [simp]:
  "db_datasets (kept d) i = map_option kept_dataset (db_datasets d i)" "db_files (kept d) i = map_option kept_file (db_files d i)"
  "db_jobs (kept d) i = map_option kept_job (db_jobs d i)" "db_keys (kept d) = db_keys d"
  "db_metrics (kept d) i = map (keep_metric pg_time) (db_metrics d i)" "db_errors (kept d) i = map (keep_error pg_time) (db_errors d i)"
  by (simp_all add: kept_def)

lemma kept_on_job:
  assumes "\<And>j. kept_job (f j) = g (kept_job j)"
  shows "kept (on_job i f d) = on_job i g (kept d)"
  using assms by (auto simp: on_job_def put_job_def kept_def split: option.splits)

lemma keep_keep:
  "keep_metric pg_time (keep_metric (\<lambda>t. t) m) = keep_metric pg_time m" "keep_error pg_time (keep_error (\<lambda>t. t) e) = keep_error pg_time e"
  by (simp_all add: keep_metric_def keep_error_def)

lemma kept_complete:
  "kept (db_step (\<lambda>t. t) c (OpCompleteReplayJob i p) io d) = db_step pg_time c' (OpCompleteReplayJob i p) io (kept d)"
proof -
  have job: "kept (on_job i (\<lambda>j. j\<lparr>rj_Status := JobStatusCompleted, rj_CompletedAt := Some (io_now io)\<rparr>) d) =
      on_job i (\<lambda>j. j\<lparr>rj_Status := JobStatusCompleted, rj_CompletedAt := Some (pg_time (io_now io))\<rparr>) (kept d)"
    by (rule kept_on_job) (simp add: kept_job_def)
  have results: "kept (d\<lparr>db_metrics := (db_metrics d')(i := ms @ [keep_metric (\<lambda>t. t) m]),
        db_errors := (db_errors d')(i := es @ map (keep_error (\<lambda>t. t)) es')\<rparr>) =
      (kept d)\<lparr>db_metrics := (db_metrics (kept d'))(i := map (keep_metric pg_time) ms @ [keep_metric pg_time m]),
        db_errors := (db_errors (kept d'))(i := map (keep_error pg_time) es @ map (keep_error pg_time) es')\<rparr>" for d d' m ms es es'
    by (auto simp: kept_def fun_eq_iff keep_keep)
  show ?thesis by (simp add: results job)
qed

lemma kept_step:
  assumes "\<And>i. op \<noteq> OpCancelReplayJob i"
  shows "kept (db_step (\<lambda>t. t) c op io d) = db_step pg_time c' op io (kept d)"
proof (cases op)
  case (OpUpdateReplayJobStatus i st e)
  have "kept_job (with_status (io_now io) st e j) = with_status (pg_time (io_now io)) st e (kept_job j)" for j
    by (simp add: kept_job_def with_status_def Let_def)
  then show ?thesis unfolding OpUpdateReplayJobStatus by (simp add: kept_on_job)
next
  case (OpCompleteReplayJob i p)
  then show ?thesis by (simp only: kept_complete)
next
  case (OpCancelReplayJob i)
  then show ?thesis using assms by simp
qed (auto simp: spec_dataset_def spec_file_def spec_job_def insert_job_def with_stats_def new_job_def zero_ReplayJob_def
    kept_dataset_def kept_file_def kept_job_def kept_def fun_eq_iff intro!: kept_on_job [unfolded kept_def] split: option.splits)

lemma kept_can: "pg_can op io (kept d) = pg_can op io d"
  by (cases op) (auto simp: kept_job_def keep_metric_def keep_error_def image_image Let_def split: option.splits)


lemma both_run:
  assumes "can_run both_can (\<lambda>t. t) memory_cancel ops d"
  shows "can_run memory_can (\<lambda>t. t) memory_cancel ops d" "can_run pg_can pg_time pg_cancel ops (kept d)"
    "kept (fold (\<lambda>(op, io). db_step (\<lambda>t. t) memory_cancel op io) ops d) =
      fold (\<lambda>(op, io). db_step pg_time pg_cancel op io) ops (kept d)"
proof -
  have "can_run memory_can (\<lambda>t. t) memory_cancel ops d \<and> can_run pg_can pg_time pg_cancel ops (kept d) \<and>
    kept (fold (\<lambda>(op, io). db_step (\<lambda>t. t) memory_cancel op io) ops d) =
      fold (\<lambda>(op, io). db_step pg_time pg_cancel op io) ops (kept d)"
    using assms
  proof (induction ops arbitrary: d)
    case (Cons o1 ops)
    obtain op io where o1: "o1 = (op, io)" by (cases o1)
    have "op \<noteq> OpCancelReplayJob i" for i using Cons.prems o1 by (auto simp: both_can_def)
    then have "kept (db_step (\<lambda>t. t) memory_cancel op io d) = db_step pg_time pg_cancel op io (kept d)" by (rule kept_step)
    then show ?case
      using Cons.IH [of "db_step (\<lambda>t. t) memory_cancel op io d"] Cons.prems o1
      by (simp add: both_can_def kept_can del: db_step.simps pg_can.simps)
  qed simp
  then show "can_run memory_can (\<lambda>t. t) memory_cancel ops d" "can_run pg_can pg_time pg_cancel ops (kept d)"
    "kept (fold (\<lambda>(op, io). db_step (\<lambda>t. t) memory_cancel op io) ops d) =
      fold (\<lambda>(op, io). db_step pg_time pg_cancel op io) ops (kept d)" by simp_all
qed

text \<open>What a look at a job answers, on either side.\<close>

lemma job_row_lookup:
  assumes "schema_ok t"
  shows "(case job_row i t of Inl e \<Rightarrow> Inl (mapPostgresError e) | Inr j \<Rightarrow> Inr (convertReplayJob j)) = lookup (db_jobs (pg_db t)) i"
proof (cases "filter (\<lambda>j. jr_ID j = i) (tb_replay_jobs t)")
  case Nil
  then have "db_jobs (pg_db t) i = None" by (auto simp: missing_rows filter_empty_conv)
  then show ?thesis using Nil by (simp add: job_row_def one_row_def mapPostgresError_def)
next
  case (Cons j js)
  then have "j \<in> set (filter (\<lambda>j. jr_ID j = i) (tb_replay_jobs t))" by simp
  then have "db_jobs (pg_db t) i = Some (convertReplayJob (returning j))" using pg_db_jobs [OF assms] by auto
  then show ?thesis using Cons by (simp add: job_row_def one_row_def)
qed

lemma pg_GetReplayJob_lookup:
  assumes "pg_inv s" "pg_text i"
  shows "fst (pg_GetReplayJob i io s) = lookup (db_jobs (pg_db (pg_tables s))) i"
  using job_row_lookup [OF pg_invD(1) [OF assms(1)], of i] assms(2)
  by (simp add: pg_GetReplayJob_def query_def run_statement_def q_GetReplayJob_def with_texts_def pg_invD [OF assms(1)] Let_def
      split: sum.splits)

text \<open>
  C14: the two repositories are interchangeable. Start an empty Postgres server that works and an empty memory repository, and
  make the same calls on both, with the same clock and the same new UUIDs: any calls but cancellations, whose parameters
  the columns can hold, with a hash that is not empty where the statistics of a file are set. Afterwards they hold the same rows, up to the microseconds that Postgres keeps of a time,
  and asking for any job gives the same answer.
\<close>

theorem stores_agree:
  assumes "pg_tables s = fresh_tables" "\<And>n. pg_fault s n = None" "\<And>n t. pg_others s n t = t"
    and "can_run both_can (\<lambda>t. t) memory_cancel ops (memory_db NewMemoryRepository)"
    and "s' = fold (\<lambda>(op, io). pg_exec op io) ops s" "r' = fold (\<lambda>(op, io). exec_op op io) ops NewMemoryRepository"
  shows "pg_db (pg_tables s') = kept (memory_db r') \<and>
    (\<forall>i io. pg_text i \<longrightarrow> fst (pg_GetReplayJob i io s') = map_sum id kept_job (fst (GetReplayJob i io r')))"
proof -
  have "tables_ok fresh_tables" by (simp add: tables_ok_def schema_ok_def fresh_tables_def)
  then have s: "pg_inv s" using assms(1-3) by (simp add: pg_inv_def)
  have d: "pg_db (pg_tables s) = kept (memory_db NewMemoryRepository)"
    by (simp add: assms(1) fresh_tables_def pg_db_def kept_def NewMemoryRepository_def memory_db_def)
  note both = both_run [OF assms(4)]
  have pg: "pg_inv s'" "pg_db (pg_tables s') = fold (\<lambda>(op, io). db_step pg_time pg_cancel op io) ops (pg_db (pg_tables s))"
    using pg_spec.run [OF s, of ops] both(2) unfolding d assms(5) by auto
  have "memory_db r' = fold (\<lambda>(op, io). db_step (\<lambda>t. t) memory_cancel op io) ops (memory_db NewMemoryRepository)"
    using memory_spec.run [OF memory_inv_new both(1)] unfolding assms(6) by auto
  then have "pg_db (pg_tables s') = kept (memory_db r')" using pg(2) both(3) unfolding d by simp
  moreover from this have "fst (pg_GetReplayJob i io s') = map_sum id kept_job (fst (GetReplayJob i io r'))" if "pg_text i" for i io
    using pg_GetReplayJob_lookup [OF pg(1) that, of io]
    by (simp add: GetReplayJob_def lookup_def memory_db_def split: option.splits)
  ultimately show ?thesis by blast
qed


definition sample_ops :: "(store_op \<times> Io) list" where
  "sample_ops =
     [(OpCreateDataset \<lparr>cd_Name = ''demo'', cd_Description = ''''\<rparr>, sample_io (CHR ''d'') 1700000000123456789),
      (OpCreateEventFile \<lparr>ce_DatasetID = ''d'', ce_Path = ''a.csv'', ce_Format = ''auto'', ce_Symbol = '''', ce_Bytes = 0,
         ce_SHA256 = '''', ce_Rows = 0\<rparr>, sample_io (CHR ''f'') 1700000000123456800),
      (OpCreateReplayJob sample_job_params, sample_io (CHR ''j'') 1700000000123456900),
      (OpUpdateReplayJobStatus ''j'' ''running'' '''', sample_io (CHR ''k'') 1700000001123456900)]"

lemma sample_fresh:
  "fresh_io (sample_io c t) d \<longleftrightarrow> (\<forall>n. io_uuid (sample_io c t) n \<notin> dom (db_datasets d) \<union> dom (db_files d) \<union> dom (db_jobs d))"
  using sample_io_inj [of c t] by (auto simp: fresh_io_def sample_io_def)

lemma sample_ops_run: "can_run both_can (\<lambda>t. t) memory_cancel sample_ops (memory_db NewMemoryRepository)"
proof -
  have texts: "list_all pg_text [''d'', ''f'', ''j'', ''demo'', '''', ''a.csv'', ''auto'', ''key'', ''max'', ''running'']" by code_simp
  show ?thesis
    using texts
    by (simp add: sample_ops_def both_can_def memory_can_def sample_fresh NewMemoryRepository_def memory_db_def
        spec_job_def new_job_def insert_job_def int32_max_def zero_ReplayJob_def) (simp add: sample_io_def)
qed

theorem stores_agree_witness:
  "pg_db (pg_tables (fold (\<lambda>(op, io). pg_exec op io) sample_ops (server\<lparr>pg_tables := fresh_tables, pg_others := (\<lambda>_ t. t)\<rparr>))) =
     kept (memory_db (fold (\<lambda>(op, io). exec_op op io) sample_ops NewMemoryRepository))"
  using stores_agree [OF _ _ _ sample_ops_run refl refl, of "server\<lparr>pg_tables := fresh_tables, pg_others := (\<lambda>_ t. t)\<rparr>"]
  by (simp add: server_def)

end
