(* ===== verification/Postgres_Schema.thy ===== *)
theory Postgres_Schema
  imports Postgres_Queries
begin

section \<open>internal/store/postgres_schema.go: creating the tables\<close>

text \<open>
  The statements of \<^verbatim>\<open>EnsurePostgresSchema\<close> on a catalog: which tables, columns and constraints exist, and the rows.
  Only the columns and the constraint that later statements add are tracked; an added column
  holds its default in the rows that are there. An index changes nothing but needs its table. Statement \<open>n\<close> is refused
  where \<open>fault n\<close> says so.
\<close>

record Catalog =
  ct_tables :: "string list"
  ct_columns :: "(string \<times> string) list"
  ct_constraints :: "string list"
  ct_rows :: Tables

definition create_table :: "string \<Rightarrow> string list \<Rightarrow> string list \<Rightarrow> Catalog \<Rightarrow> pg_error + Catalog" where
  "create_table name references columns c =
     (if name \<in> set (ct_tables c) then Inr c
      else if \<not> list_all (\<lambda>r. r \<in> set (ct_tables c)) references then Inl (PgError ''42P01'')
      else Inr (c\<lparr>ct_tables := ct_tables c @ [name], ct_columns := ct_columns c @ map (\<lambda>col. (name, col)) columns\<rparr>))"

definition add_column :: "string \<Rightarrow> string \<Rightarrow> (Tables \<Rightarrow> Tables) \<Rightarrow> Catalog \<Rightarrow> pg_error + Catalog" where
  "add_column table column fill c =
     (if table \<notin> set (ct_tables c) then Inl (PgError ''42P01'')
      else if (table, column) \<in> set (ct_columns c) then Inr c
      else Inr (c\<lparr>ct_columns := ct_columns c @ [(table, column)], ct_rows := fill (ct_rows c)\<rparr>))"

definition add_constraint :: "string \<Rightarrow> (Tables \<Rightarrow> bool) \<Rightarrow> Catalog \<Rightarrow> pg_error + Catalog" where
  "add_constraint name ok c =
     (if name \<in> set (ct_constraints c) then Inr c
      else if \<not> ok (ct_rows c) then Inl (PgError ''23514'')
      else Inr (c\<lparr>ct_constraints := ct_constraints c @ [name]\<rparr>))"

definition create_index :: "string \<Rightarrow> Catalog \<Rightarrow> pg_error + Catalog" where
  "create_index table c = (if table \<in> set (ct_tables c) then Inr c else Inl (PgError ''42P01''))"

definition schema_statements :: "(Catalog \<Rightarrow> pg_error + Catalog) list" where
  "schema_statements =
     [create_table ''datasets'' [] [],
      create_table ''event_files'' [''datasets''] [''sha256'', ''rows''],
      create_table ''replay_jobs'' [''datasets'', ''event_files''] [''manifest''],
      add_column ''event_files'' ''sha256''
        (\<lambda>t. t\<lparr>tb_event_files := map (\<lambda>f. f\<lparr>fr_Sha256 := ''''\<rparr>) (tb_event_files t)\<rparr>),
      add_column ''event_files'' ''rows'' (\<lambda>t. t\<lparr>tb_event_files := map (\<lambda>f. f\<lparr>fr_Rows := 0\<rparr>) (tb_event_files t)\<rparr>),
      add_column ''replay_jobs'' ''manifest''
        (\<lambda>t. t\<lparr>tb_replay_jobs := map (\<lambda>j. j\<lparr>jr_Manifest := JObj []\<rparr>) (tb_replay_jobs t)\<rparr>),
      add_constraint ''event_files_rows_nonnegative'' (\<lambda>t. list_all (\<lambda>f. 0 \<le> fr_Rows f) (tb_event_files t)),
      create_table ''replay_metrics'' [''replay_jobs''] [],
      create_table ''validation_errors'' [''replay_jobs''] [],
      create_index ''event_files'', create_index ''replay_jobs'', create_index ''replay_jobs'', create_index ''replay_jobs'',
      create_index ''replay_metrics'', create_index ''validation_errors'']"

fun exec_statements ::
  "(nat \<Rightarrow> string option) \<Rightarrow> nat \<Rightarrow> (Catalog \<Rightarrow> pg_error + Catalog) list \<Rightarrow> Catalog \<Rightarrow> pg_error option \<times> Catalog" where
  "exec_statements fault n [] c = (None, c)"
| "exec_statements fault n (statement # statements) c =
     (case fault n of
        Some e \<Rightarrow> (Some (ConnectionError e), c)
      | None \<Rightarrow> (case statement c of Inl e \<Rightarrow> (Some e, c) | Inr c' \<Rightarrow> exec_statements fault (Suc n) statements c'))"

definition EnsurePostgresSchema :: "(nat \<Rightarrow> string option) \<Rightarrow> Catalog \<Rightarrow> pg_error option \<times> Catalog" where
  "EnsurePostgresSchema fault c = exec_statements fault 0 schema_statements c"

subsection \<open>What it establishes\<close>

lemmas schema_defs = create_table_def add_column_def add_constraint_def create_index_def

text \<open>A catalog on which every statement succeeds and changes nothing.\<close>

definition complete_catalog :: "Catalog \<Rightarrow> bool" where
  "complete_catalog c \<longleftrightarrow>
     {''datasets'', ''event_files'', ''replay_jobs'', ''replay_metrics'', ''validation_errors''} \<subseteq> set (ct_tables c) \<and>
     {(''event_files'', ''sha256''), (''event_files'', ''rows''), (''replay_jobs'', ''manifest'')} \<subseteq> set (ct_columns c) \<and>
     ''event_files_rows_nonnegative'' \<in> set (ct_constraints c)"

lemma EnsurePostgresSchema_fresh:
  "\<exists>c. EnsurePostgresSchema (\<lambda>_. None) \<lparr>ct_tables = [], ct_columns = [], ct_constraints = [], ct_rows = fresh_tables\<rparr> = (None, c) \<and>
    complete_catalog c \<and> ct_rows c = fresh_tables"
  by (simp add: EnsurePostgresSchema_def schema_statements_def schema_defs complete_catalog_def fresh_tables_def)

lemma EnsurePostgresSchema_idle:
  "complete_catalog c \<Longrightarrow> EnsurePostgresSchema (\<lambda>_. None) c = (None, c)"
  by (simp add: EnsurePostgresSchema_def schema_statements_def schema_defs complete_catalog_def)

lemma exec_statements_None:
  "exec_statements fault n (st # sts) c = (None, c') \<longleftrightarrow>
    fault n = None \<and> (\<exists>c1. st c = Inr c1 \<and> exec_statements fault (Suc n) sts c1 = (None, c'))"
  by (auto split: option.splits sum.splits)

text \<open>What a statement that succeeds leaves in place, and what it adds.\<close>

definition extends :: "Catalog \<Rightarrow> Catalog \<Rightarrow> bool" where
  "extends c c' \<longleftrightarrow> set (ct_tables c) \<subseteq> set (ct_tables c') \<and> set (ct_columns c) \<subseteq> set (ct_columns c') \<and>
     set (ct_constraints c) \<subseteq> set (ct_constraints c') \<and>
     map fr_ID (tb_event_files (ct_rows c')) = map fr_ID (tb_event_files (ct_rows c)) \<and>
     map jr_ID (tb_replay_jobs (ct_rows c')) = map jr_ID (tb_replay_jobs (ct_rows c)) \<and>
     tb_datasets (ct_rows c') = tb_datasets (ct_rows c) \<and> tb_replay_metrics (ct_rows c') = tb_replay_metrics (ct_rows c) \<and>
     tb_validation_errors (ct_rows c') = tb_validation_errors (ct_rows c)"

lemma extends_trans: "extends a b \<Longrightarrow> extends b c \<Longrightarrow> extends a c"
  by (auto simp: extends_def)

lemma statements_extend:
  "create_table nm rs cs c = Inr c' \<Longrightarrow> extends c c' \<and> nm \<in> set (ct_tables c')"
  "add_column tb cl fill c = Inr c' \<Longrightarrow> (\<And>c. extends c (c\<lparr>ct_rows := fill (ct_rows c)\<rparr>)) \<Longrightarrow> extends c c' \<and> (tb, cl) \<in> set (ct_columns c')"
  "add_constraint k ok c = Inr c' \<Longrightarrow> extends c c' \<and> k \<in> set (ct_constraints c')"
  "create_index tb c = Inr c' \<Longrightarrow> extends c c'"
  by (auto simp: schema_defs extends_def split: if_splits)


definition establishes :: "(Catalog \<Rightarrow> pg_error + Catalog) \<Rightarrow> (Catalog \<Rightarrow> bool) \<Rightarrow> bool" where
  "establishes st P \<longleftrightarrow> (\<forall>c c'. st c = Inr c' \<longrightarrow> extends c c' \<and> P c') \<and> (\<forall>c c'. P c \<longrightarrow> extends c c' \<longrightarrow> P c')"

lemma exec_establishes:
  assumes "list_all2 establishes sts Ps" "exec_statements fault n sts c = (None, c')"
  shows "extends c c' \<and> list_all (\<lambda>P. P c') Ps"
  using assms
proof (induction sts Ps arbitrary: n c rule: list_all2_induct)
  case Nil
  then show ?case by (simp add: extends_def)
next
  case (Cons st sts P Ps)
  from Cons.prems obtain c1 where c1: "st c = Inr c1" "exec_statements fault (Suc n) sts c1 = (None, c')"
    unfolding exec_statements_None by blast
  have "extends c c1" "P c1" using Cons.hyps(1) c1(1) unfolding establishes_def by blast+
  moreover have rest: "extends c1 c'" "list_all (\<lambda>P. P c') Ps" using Cons.IH [OF c1(2)] by blast+
  moreover have "P c'" using \<open>P c1\<close> rest(1) Cons.hyps(1) unfolding establishes_def by blast
  ultimately show ?case using extends_trans by auto
qed

lemma statements_establish:
  "establishes (create_table nm rs cs) (\<lambda>c. nm \<in> set (ct_tables c))"
  "(\<And>c. extends c (c\<lparr>ct_rows := fill (ct_rows c)\<rparr>)) \<Longrightarrow> establishes (add_column tb cl fill) (\<lambda>c. (tb, cl) \<in> set (ct_columns c))"
  "establishes (add_constraint k ok) (\<lambda>c. k \<in> set (ct_constraints c))"
  "establishes (create_index tb) (\<lambda>_. True)"
  unfolding establishes_def using statements_extend by (blast intro: statements_extend | auto simp: extends_def)+

text \<open>
  Whatever the catalog and whichever statements fail: when no error is returned, the schema is complete and no row was
  removed, and doing it all again changes nothing.
\<close>

lemma EnsurePostgresSchema_complete:
  assumes "EnsurePostgresSchema fault c = (None, c')"
  shows "complete_catalog c'" "extends c c'" "EnsurePostgresSchema (\<lambda>_. None) c' = (None, c')"
proof -
  let ?Ps = "[\<lambda>c. ''datasets'' \<in> set (ct_tables c), \<lambda>c. ''event_files'' \<in> set (ct_tables c),
    \<lambda>c. ''replay_jobs'' \<in> set (ct_tables c), \<lambda>c. (''event_files'', ''sha256'') \<in> set (ct_columns c),
    \<lambda>c. (''event_files'', ''rows'') \<in> set (ct_columns c), \<lambda>c. (''replay_jobs'', ''manifest'') \<in> set (ct_columns c),
    \<lambda>c. ''event_files_rows_nonnegative'' \<in> set (ct_constraints c), \<lambda>c. ''replay_metrics'' \<in> set (ct_tables c),
    \<lambda>c. ''validation_errors'' \<in> set (ct_tables c), \<lambda>_. True, \<lambda>_. True, \<lambda>_. True, \<lambda>_. True, \<lambda>_. True, \<lambda>_. True]"
  have "list_all2 establishes schema_statements ?Ps"
    unfolding schema_statements_def list_all2_Cons list_all2_Nil
    by (intro conjI statements_establish TrueI) (simp_all add: extends_def comp_def)
  from exec_establishes [OF this assms [unfolded EnsurePostgresSchema_def]]
  show c: "complete_catalog c'" "extends c c'" by (simp_all add: complete_catalog_def)
  show "EnsurePostgresSchema (\<lambda>_. None) c' = (None, c')" by (rule EnsurePostgresSchema_idle [OF c(1)])
qed

end
