(* ===== verification/Go_Float.thy ===== *)
theory Go_Float
  imports Complex_Main Go_Json
begin

section \<open>strconv: 64-bit floating-point numbers\<close>

text \<open>
  The finite values of a \<^verbatim>\<open>float64\<close>, as a sign and a magnitude: rational, of 53 bits and at least \<open>2\<^sup>-\<^sup>1\<^sup>0\<^sup>7\<^sup>4\<close> apart. A decimal
  literal is rounded to the nearest value, to the even one in the middle, and is out of range when it rounds to \<open>2\<^sup>1\<^sup>0\<^sup>2\<^sup>4\<close> or beyond. A
  value is printed with the fewest digits that are read back as it.
\<close>

datatype binary64 = Binary64 (fl_neg: bool) (fl_mag: rat)

definition float_val :: "binary64 \<Rightarrow> rat" where
  "float_val f = (if fl_neg f then - fl_mag f else fl_mag f)"

subsection \<open>Exponents and rounding\<close>

function num_digits :: "int \<Rightarrow> int \<Rightarrow> nat" where
  "num_digits b n = (if b < 2 \<or> n \<le> 0 then 0 else Suc (num_digits b (n div b)))"
  by pat_completeness auto
termination
  by (relation "measure (\<lambda>(b, n). nat n)") (auto simp: int_div_less_self)

declare num_digits.simps [simp del]

text \<open>The exponent of the highest digit of a positive number.\<close>

definition top_exponent :: "int \<Rightarrow> rat \<Rightarrow> int" where
  "top_exponent b r =
     (case quotient_of r of
        (n, d) \<Rightarrow>
          (let e = int (num_digits b n) - int (num_digits b d)
           in if r < of_int b powi e then e - 1 else e))"

definition round_half_even :: "rat \<Rightarrow> int" where
  "round_half_even q =
     (let f = \<lfloor>q\<rfloor>; r = q - of_int f
      in if r < 1 / 2 \<or> r = 1 / 2 \<and> even f then f else f + 1)"

definition to_binary64 :: "rat \<Rightarrow> rat option" where
  "to_binary64 r =
     (if r = 0 then Some 0
      else let unit = 2 powi (max (top_exponent 2 r - 52) (- 1074));
               v = of_int (round_half_even (r / unit)) * unit
           in if v < 2 ^ 1024 then Some v else None)"

lemma num_digits_bounds: "2 \<le> b \<Longrightarrow> 0 < n \<Longrightarrow> b ^ (num_digits b n - 1) \<le> n \<and> n < b ^ num_digits b n \<and> 0 < num_digits b n"
proof (induction b n rule: num_digits.induct)
  case (1 b n)
  let ?d = "num_digits b (n div b)"
  have d: "num_digits b n = Suc ?d" using "1.prems" by (simp add: num_digits.simps [of b n])
  show ?case
  proof (cases "n < b")
    case True
    then have "n div b = 0" using "1.prems" by simp
    then show ?thesis using True "1.prems" d by (simp add: num_digits.simps [of b 0])
  next
    case False
    then have "0 < n div b" using "1.prems" by (simp add: pos_imp_zdiv_pos_iff)
    then have IH: "b ^ (?d - 1) \<le> n div b" "n div b < b ^ ?d" "0 < ?d" using "1.IH" "1.prems" by simp_all
    have n: "n = b * (n div b) + n mod b" "0 \<le> n mod b" "n mod b < b" using "1.prems" by simp_all
    have "b ^ ?d = b * b ^ (?d - 1)" using IH(3) by (cases ?d) simp_all
    also have "\<dots> \<le> b * (n div b)" using IH(1) "1.prems"(1) by simp
    also have "\<dots> \<le> n" using n(1,2) by linarith
    finally have "b ^ ?d \<le> n" .
    moreover have "n < b * (n div b + 1)" using n by (simp only: distrib_left mult_1_right)
    moreover have "b * (n div b + 1) \<le> b * b ^ ?d" using IH(2) "1.prems"(1) by (intro mult_left_mono) simp_all
    ultimately show ?thesis using d by simp
  qed
qed

lemma top_exponent_le:
  assumes "2 \<le> b" "0 < r"
  shows "of_int b powi top_exponent b r \<le> r"
proof -
  obtain n d where q: "quotient_of r = (n, d)" by (cases "quotient_of r")
  have r: "r = of_int n / of_int d" and d: "0 < d" using q quotient_of_div quotient_of_denom_pos by auto
  then have n: "0 < n" using assms(2) by (simp add: zero_less_divide_iff)
  let ?a = "num_digits b n" and ?c = "num_digits b d"
  have a: "b ^ (?a - 1) \<le> n" "0 < ?a" and c: "d < b ^ ?c"
    using num_digits_bounds [OF assms(1) n] num_digits_bounds [OF assms(1) d] by simp_all
  have b0: "(of_int b :: rat) \<noteq> 0" using assms(1) by simp
  have "int ?a - int ?c - 1 = int (?a - 1) - int ?c" using a(2) by simp
  then have "(of_int b :: rat) powi (int ?a - int ?c - 1) = of_int b ^ (?a - 1) / of_int b ^ ?c"
    using b0 by (simp only: power_int_diff power_int_of_nat simp_thms)
  also have "\<dots> \<le> of_int n / of_int d"
  proof (rule frac_le)
    show "(of_int b :: rat) ^ (?a - 1) \<le> of_int n" using a(1) by (metis of_int_le_iff of_int_power)
    show "(of_int d :: rat) \<le> of_int b ^ ?c" using c by (metis less_imp_le of_int_le_iff of_int_power)
  qed (use d n in simp_all)
  also have "\<dots> = r" using r by simp
  finally show ?thesis by (auto simp: top_exponent_def q Let_def)
qed

text \<open>Whole numbers up to \<open>2\<^sup>5\<^sup>3\<close> are multiples of the unit of every number that is not greater.\<close>

lemma unit_divides:
  assumes "0 < r" "r \<le> of_int z" "z \<le> 2 ^ 53"
  obtains m :: int where "(of_int z :: rat) = of_int m * 2 powi (max (top_exponent 2 r - 52) (- 1074))"
proof -
  let ?e = "top_exponent 2 r" and ?k = "max (top_exponent 2 r - 52) (- 1074)"
  have le: "(2::rat) powi ?e \<le> of_int z" using top_exponent_le [of 2 r] assms by simp
  have "(of_int z :: rat) \<le> of_int (2 ^ 53)" using assms(3) by (simp only: of_int_le_iff)
  then have "(of_int z :: rat) \<le> 2 powi 53" by (simp only: of_int_power of_int_numeral power_int_numeral)
  then have "(2::rat) powi ?e \<le> 2 powi 53" using le by simp
  then have e: "?e \<le> 53"
    using power_int_strict_increasing [of 53 ?e "2::rat"] by (metis not_le one_less_numeral_iff semiring_norm(76))
  show ?thesis
  proof (cases "?e = 53")
    case True
    then have "of_int (2 ^ 53) \<le> (of_int z :: rat)"
      using le by (simp only: of_int_power of_int_numeral power_int_numeral)
    then have "z = 2 ^ 53" using assms(3) by (simp only: of_int_le_iff)
    then show ?thesis using that [of "2 ^ 52"] True by simp
  next
    case False
    then have k: "?k \<le> 0" using e by simp
    have "(of_int z :: rat) = of_int (z * 2 ^ nat (- ?k)) * 2 powi ?k"
      using k by (simp add: power_int_def flip: power_mult_distrib)
    then show ?thesis by (rule that)
  qed
qed

lemma round_half_even_le: "q \<le> of_int m \<Longrightarrow> round_half_even q \<le> m"
proof -
  assume q: "q \<le> of_int m"
  then have f: "\<lfloor>q\<rfloor> \<le> m" by (metis floor_mono floor_of_int)
  show ?thesis
  proof (cases "\<lfloor>q\<rfloor> = m")
    case True
    then have "q = of_int m" using q by (metis floor_correct order_antisym)
    then show ?thesis by (simp add: round_half_even_def)
  next
    case False
    then show ?thesis using f by (simp add: round_half_even_def Let_def)
  qed
qed

lemma round_half_even_nonneg: "0 \<le> q \<Longrightarrow> 0 \<le> round_half_even q"
  by (simp add: round_half_even_def Let_def)

lemma below_range: "z \<le> 2 ^ 53 \<Longrightarrow> (of_int z :: rat) < 2 ^ 1024"
proof -
  assume "z \<le> 2 ^ 53"
  then have "z < 2 ^ 1024" by simp
  then have "(of_int z :: rat) < of_int (2 ^ 1024)" by (simp only: of_int_less_iff)
  then show ?thesis by (simp only: of_int_power of_int_numeral)
qed

text \<open>Rounding does not cross such a whole number, and leaves it as it is.\<close>

lemma to_binary64_le:
  assumes "0 \<le> r" "r \<le> of_int z" "0 \<le> z" "z \<le> 2 ^ 53"
  shows "\<exists>v. to_binary64 r = Some v \<and> 0 \<le> v \<and> v \<le> of_int z"
proof (cases "r = 0")
  case True
  then show ?thesis using assms(3) by (simp add: to_binary64_def)
next
  case False
  let ?u = "(2::rat) powi (max (top_exponent 2 r - 52) (- 1074))"
  have r: "0 < r" using assms(1) False by simp
  obtain m :: int where m: "(of_int z :: rat) = of_int m * ?u" using unit_divides [OF r assms(2,4)] by blast
  have u: "0 < ?u" by (simp add: zero_less_power_int)
  have "r / ?u \<le> of_int m" using assms(2) u unfolding m by (simp add: divide_le_eq)
  then have "of_int (round_half_even (r / ?u)) \<le> (of_int m :: rat)" using round_half_even_le by (simp only: of_int_le_iff)
  then have v: "of_int (round_half_even (r / ?u)) * ?u \<le> of_int z" unfolding m using u by (intro mult_right_mono) simp_all
  have "0 \<le> round_half_even (r / ?u)" using r u by (intro round_half_even_nonneg) simp
  then have "0 \<le> of_int (round_half_even (r / ?u)) * ?u" using u by simp
  moreover have "to_binary64 r = Some (of_int (round_half_even (r / ?u)) * ?u)"
    using v below_range [OF assms(4)] False unfolding to_binary64_def Let_def by (simp only: if_False if_True order_le_less_trans [OF v])
  ultimately show ?thesis using v by blast
qed

lemma to_binary64_int:
  assumes "0 \<le> z" "z \<le> 2 ^ 53"
  shows "to_binary64 (of_int z) = Some (of_int z)"
proof (cases "z = 0")
  case False
  let ?u = "(2::rat) powi (max (top_exponent 2 (of_int z) - 52) (- 1074))"
  obtain m :: int where m: "(of_int z :: rat) = of_int m * ?u"
    using unit_divides [of "of_int z" z] assms False by (metis of_int_0_less_iff order_le_less order_refl)
  have m': "of_int z / ?u = of_int m" by (rule iffD2 [OF nonzero_divide_eq_eq m]) simp
  have "round_half_even (of_int m) = m" by (simp add: round_half_even_def Let_def)
  then show ?thesis
    using False below_range [OF assms(2)] m [symmetric] unfolding to_binary64_def Let_def m'
    by (simp only: of_int_eq_0_iff if_True if_False)
qed (simp add: to_binary64_def)

subsection \<open>Reading\<close>

fun digits_value :: "nat \<Rightarrow> string \<Rightarrow> nat" where
  "digits_value n [] = n"
| "digits_value n (c # cs) = digits_value (10 * n + nat (digit_val c)) cs"

text \<open>The sign, the digits and the power of ten of a literal in JSON's grammar.\<close>

definition decimal_of :: "string \<Rightarrow> bool \<times> nat \<times> int" where
  "decimal_of l =
     (let neg = (l \<noteq> [] \<and> hd l = CHR ''-''); body = (if neg then tl l else l);
          whole = takeWhile is_digit body; r = dropWhile is_digit body;
          frac = (if r \<noteq> [] \<and> hd r = CHR ''.'' then takeWhile is_digit (tl r) else []);
          r' = (if r \<noteq> [] \<and> hd r = CHR ''.'' then dropWhile is_digit (tl r) else r);
          ex = (if r' = [] then [] else tl r'); exneg = (ex \<noteq> [] \<and> hd ex = CHR ''-'');
          exdigits = (if ex \<noteq> [] \<and> (hd ex = CHR ''-'' \<or> hd ex = CHR ''+'') then tl ex else ex);
          exval = int (digits_value 0 exdigits)
      in (neg, digits_value 0 (whole @ frac), (if exneg then - exval else exval) - int (length frac)))"

definition ParseFloat :: "string \<Rightarrow> binary64 option" where
  "ParseFloat l = (case decimal_of l of (neg, m, x) \<Rightarrow> map_option (Binary64 neg) (to_binary64 (of_nat m * 10 powi x)))"

lemma digits_value_append: "digits_value n (xs @ ys) = digits_value (digits_value n xs) ys"
  by (induction n xs rule: digits_value.induct) simp_all

lemma digits_value_format_nat: "digits_value 0 (format_nat n) = n"
proof (induction n rule: format_nat.induct)
  case (1 n)
  have "nat (digit_val (char_of (48 + m))) = m" if "m < 10" for m :: nat using digit_val_char_of [OF that] by simp
  then show ?case using "1.IH" by (subst format_nat.simps) (auto simp: digits_value_append)
qed

lemma decimal_of_FormatInt: "decimal_of (FormatInt z) = (z < 0, nat \<bar>z\<bar>, 0)"
proof -
  obtain c cs where f: "format_nat (nat \<bar>z\<bar>) = c # cs" "is_digit c" using format_nat_head by metis
  have all: "\<forall>x \<in> set (format_nat (nat \<bar>z\<bar>)). is_digit x" using format_nat_digits by (simp add: list_all_iff)
  then have "takeWhile is_digit (format_nat (nat \<bar>z\<bar>)) = format_nat (nat \<bar>z\<bar>)" "dropWhile is_digit (format_nat (nat \<bar>z\<bar>)) = []"
    by simp_all
  moreover have "c \<noteq> CHR ''-''" using f(2) by (auto simp: is_digit_def)
  ultimately show ?thesis
    using f(1) digits_value_format_nat [of "nat \<bar>z\<bar>"]
    by (cases "z < 0") (simp_all add: decimal_of_def FormatInt_def Let_def del: takeWhile_eq_all_conv dropWhile_eq_Nil_conv)
qed

lemma ParseFloat_FormatInt:
  assumes "\<bar>z\<bar> \<le> 2 ^ 53"
  shows "ParseFloat (FormatInt z) = Some (Binary64 (z < 0) (of_int \<bar>z\<bar>))"
  using to_binary64_int [of "\<bar>z\<bar>"] assms by (simp add: ParseFloat_def decimal_of_FormatInt)

subsection \<open>Conversions between integers and floats\<close>

text \<open>
  \<^verbatim>\<open>int64(f)\<close> drops the fraction; beyond the range of an \<^verbatim>\<open>int64\<close> its value depends on the processor, here \<open>cpu f\<close>.
\<close>

definition int64_of_float :: "(binary64 \<Rightarrow> int) \<Rightarrow> binary64 \<Rightarrow> int" where
  "int64_of_float cpu f =
     (let z = (if fl_neg f then - \<lfloor>fl_mag f\<rfloor> else \<lfloor>fl_mag f\<rfloor>) in if int64 z then z else cpu f)"

definition float_of_int64 :: "int \<Rightarrow> binary64" where
  "float_of_int64 z = Binary64 (z < 0) (case to_binary64 (of_int \<bar>z\<bar>) of Some v \<Rightarrow> v | None \<Rightarrow> 0)"

lemma float_int_roundtrip:
  assumes "\<bar>z\<bar> \<le> 2 ^ 53"
  shows "int64_of_float cpu (Binary64 (z < 0) (of_int \<bar>z\<bar>)) = z" "float_of_int64 z = Binary64 (z < 0) (of_int \<bar>z\<bar>)"
  using to_binary64_int [of "\<bar>z\<bar>"] assms by (auto simp: int64_of_float_def float_of_int64_def int64_def Let_def)

subsection \<open>Printing\<close>

text \<open>Of the decimals with \<open>n\<close> digits next to a positive value, those that are read back as it, the nearest first.\<close>

definition decimals_near :: "rat \<Rightarrow> nat \<Rightarrow> int list" where
  "decimals_near v n =
     (let unit = 10 powi (top_exponent 10 v + 1 - int n); lo = \<lfloor>v / unit\<rfloor>; near = round_half_even (v / unit)
      in filter (\<lambda>m. to_binary64 (of_int m * unit) = Some v) (if near = lo then [lo, lo + 1] else [lo + 1, lo]))"

text \<open>The digits and the exponent of the last one. 17 digits are enough for every value.\<close>

definition shortest :: "rat \<Rightarrow> nat \<times> int" where
  "shortest v =
     (case filter (\<lambda>n. decimals_near v n \<noteq> []) [1..<18] of
        n # _ \<Rightarrow> (nat (hd (decimals_near v n)), top_exponent 10 v + 1 - int n)
      | [] \<Rightarrow> (0, 0))"

text \<open>Trailing zeros are left out: the digits as a text, and the position of the decimal point in it.\<close>

definition shortest_digits :: "rat \<Rightarrow> string \<times> int" where
  "shortest_digits v =
     (case shortest v of
        (m, x) \<Rightarrow>
          (let ds = format_nat m; kept = rev (dropWhile (\<lambda>c. c = CHR ''0'') (rev ds))
           in (kept, int (length ds) + x)))"

definition zeros :: "nat \<Rightarrow> string" where
  "zeros n = replicate n (CHR ''0'')"

text \<open>The format \<^verbatim>\<open>f\<close>, and the format \<^verbatim>\<open>e\<close> with the exponent as the JSON encoder leaves it, without a leading zero.\<close>

definition fixed_text :: "string \<Rightarrow> int \<Rightarrow> string" where
  "fixed_text ds point =
     (let whole = (if point \<le> 0 then ''0''
                   else take (nat point) ds @ zeros (nat point - length ds));
          frac = (if point \<le> 0 then zeros (nat (- point)) @ ds else drop (nat point) ds)
      in if frac = [] then whole else whole @ ''.'' @ frac)"

definition exponent_text :: "string \<Rightarrow> int \<Rightarrow> string" where
  "exponent_text ds point =
     take 1 ds @ (if length ds > 1 then ''.'' @ drop 1 ds else []) @ ''e'' @
       (if point - 1 < 0 then ''-'' else ''+'') @ format_nat (nat \<bar>point - 1\<bar>)"

definition json_float :: "binary64 \<Rightarrow> string" where
  "json_float f =
     (let v = fl_mag f; (ds, point) = shortest_digits v
      in (if fl_neg f then ''-'' else '''') @
         (if v = 0 then ''0''
          else if v < (case to_binary64 (1 / 10 ^ 6) of Some c \<Rightarrow> c | None \<Rightarrow> 0) \<or> 10 ^ 21 \<le> v then exponent_text ds point
          else fixed_text ds point))"

end
