(* ===== verification/Go_Path.thy ===== *)
theory Go_Path
  imports Go_Lib
begin

section \<open>path/filepath: joining and cleaning paths\<close>

text \<open>
  \<^verbatim>\<open>Clean\<close>, \<^verbatim>\<open>Join\<close>, \<^verbatim>\<open>Dir\<close> and \<^verbatim>\<open>IsAbs\<close> on Unix, and that the parent of a path is shorter, on which walks to the root rely.
\<close>

subsection \<open>Definitions\<close>

fun split_slash :: "string \<Rightarrow> string list" where
  "split_slash [] = ['''']"
| "split_slash (c # cs) =
     (if c = CHR ''/'' then '''' # split_slash cs
      else case split_slash cs of [] \<Rightarrow> [[c]] | p # ps \<Rightarrow> (c # p) # ps)"

fun join_slash :: "string list \<Rightarrow> string" where
  "join_slash [] = ''''"
| "join_slash [p] = p"
| "join_slash (p # ps) = p @ CHR ''/'' # join_slash ps"

text \<open>The parts kept so far, the last first: an empty part and a dot are dropped, two dots take one part back where they can.\<close>

fun clean_parts :: "bool \<Rightarrow> string list \<Rightarrow> string list \<Rightarrow> string list" where
  "clean_parts rooted stack [] = rev stack"
| "clean_parts rooted stack (p # ps) =
     (if p = '''' \<or> p = ''.'' then clean_parts rooted stack ps
      else if p = ''..'' then
        (case stack of
           [] \<Rightarrow> clean_parts rooted (if rooted then [] else [''..'']) ps
         | q # qs \<Rightarrow> if q = ''..'' then clean_parts rooted (''..'' # stack) ps else clean_parts rooted qs ps)
      else clean_parts rooted (p # stack) ps)"

definition IsAbs :: "string \<Rightarrow> bool" where
  "IsAbs path = (take 1 path = ''/'')"

definition Clean :: "string \<Rightarrow> string" where
  "Clean path =
     (let cleaned = (if IsAbs path then ''/'' else '''') @ join_slash (clean_parts (IsAbs path) [] (split_slash path))
      in if cleaned = '''' then ''.'' else cleaned)"

definition Join :: "string list \<Rightarrow> string" where
  "Join elems = (case dropWhile (\<lambda>e. e = '''') elems of [] \<Rightarrow> '''' | es \<Rightarrow> Clean (join_slash es))"

definition Dir :: "string \<Rightarrow> string" where
  "Dir path = Clean (rev (dropWhile (\<lambda>c. c \<noteq> CHR ''/'') (rev path)))"

subsection \<open>Cleaning does not lengthen\<close>

text \<open>The length of parts with a slash behind each.\<close>

definition weight :: "string list \<Rightarrow> nat" where
  "weight ps = sum_list (map (\<lambda>p. Suc (length p)) ps)"

lemma weight_simps [simp]:
  "weight [] = 0" "weight (p # ps) = Suc (length p + weight ps)" "weight (ps @ qs) = weight ps + weight qs" "weight (rev ps) = weight ps"
  by (simp_all add: weight_def rev_map [symmetric])

lemma join_slash_length: "ps \<noteq> [] \<Longrightarrow> Suc (length (join_slash ps)) = weight ps"
  by (induction ps rule: join_slash.induct) auto

lemma split_slash_ne [simp]: "split_slash s \<noteq> []"
  by (induction s) (auto split: list.splits)

lemma split_slash_weight [simp]: "weight (split_slash s) = Suc (length s)"
  by (induction s) (auto split: list.splits)

lemma split_slash_end: "split_slash (s @ ''/'') = split_slash s @ ['''']"
  by (induction s) (auto split: list.splits)

lemma clean_parts_weight: "weight (clean_parts rooted stack ps) \<le> weight stack + weight ps"
  by (induction rooted stack ps rule: clean_parts.induct) (auto split: list.splits)

lemma clean_parts_end: "clean_parts rooted stack (ps @ ['''']) = clean_parts rooted stack ps"
  by (induction rooted stack ps rule: clean_parts.induct) (auto split: list.splits)

lemma clean_parts_le: "length (join_slash (clean_parts rooted [] ps)) \<le> weight ps - 1"
proof (cases "clean_parts rooted [] ps = []")
  case False
  then show ?thesis using join_slash_length clean_parts_weight [of rooted "[]" ps] by fastforce
qed simp

text \<open>A path that ends with a slash and is not the root gets shorter.\<close>

lemma Clean_shorter:
  assumes "s \<noteq> ''''"
  shows "length (Clean (s @ ''/'')) \<le> length s"
proof (cases s)
  case (Cons c cs)
  show ?thesis
  proof (cases "c = CHR ''/''")
    case True
    then have "length (join_slash (clean_parts True [] (split_slash (s @ ''/'')))) \<le> length cs"
      using clean_parts_le [of True "split_slash cs"] by (simp add: Cons split_slash_end clean_parts_end)
    then show ?thesis using True by (simp add: Clean_def IsAbs_def Let_def Cons)
  next
    case False
    then have "length (join_slash (clean_parts False [] (split_slash (s @ ''/'')))) \<le> length s"
      using clean_parts_le [of False "split_slash s"] by (simp only: split_slash_end clean_parts_end split_slash_weight)
    then show ?thesis using False by (simp add: Clean_def IsAbs_def Let_def Cons)
  qed
qed (simp add: assms)

definition path_measure :: "string \<Rightarrow> nat" where
  "path_measure d = (if d = ''.'' then 0 else Suc (length d))"

lemma Dir_decreases:
  assumes "Dir d \<noteq> d"
  shows "path_measure (Dir d) < path_measure d"
proof (cases "dropWhile (\<lambda>c. c \<noteq> CHR ''/'') (rev d)")
  case Nil
  then have "Dir d = Clean ''''" unfolding Dir_def by (simp only: rev.simps)
  then have "Dir d = ''.''" by (simp add: Clean_def IsAbs_def)
  then show ?thesis using assms by (auto simp: path_measure_def)
next
  case (Cons c cs)
  then have c: "c = CHR ''/''" using hd_dropWhile [of "\<lambda>c. c \<noteq> CHR ''/''" "rev d"] by simp
  have le: "length cs < length d" using Cons length_dropWhile_le [of "\<lambda>c. c \<noteq> CHR ''/''" "rev d"] by simp
  have dir: "Dir d = Clean (rev cs @ ''/'')" using Cons c by (simp add: Dir_def)
  show ?thesis
  proof (cases "rev cs = ''''")
    case True
    then have "Dir d = Clean ''/''" using dir by simp
    then have root: "Dir d = ''/''" by (simp add: Clean_def IsAbs_def)
    moreover have "d \<noteq> ''.''" using Cons by auto
    moreover have "length d \<noteq> 1"
    proof
      assume "length d = 1"
      then obtain x where "d = [x]" by (metis One_nat_def Suc_length_conv length_0_conv)
      then show False using Cons c assms root by (auto split: if_splits)
    qed
    ultimately show ?thesis using le by (auto simp: path_measure_def)
  next
    case False
    then have "length (Dir d) < length d" using Clean_shorter [OF False] dir le by simp
    moreover have "d \<noteq> ''.''" using Cons by auto
    ultimately show ?thesis by (auto simp: path_measure_def)
  qed
qed

end
