(* ===== verification/Dashboard.thy ===== *)
theory Dashboard
  imports Http_Api Go_Float Go_Path
begin

section \<open>internal/dashboard: the pages over the repository\<close>

text \<open>
  \<^verbatim>\<open>dashboard.go\<close>: the routes, what each page reads from the repository, and the summary of the metrics. The templates are
  not Go code: \<open>exec name data\<close> are the bytes that executing a template writes and the error it may end with. A response
  has the status of the first write, and a body of pieces: what a template wrote, fixed texts and texts of errors, each text with the
  line break that \<^verbatim>\<open>Fprintln\<close> adds.
\<close>

record datasetRow =
  dr_Dataset :: Dataset
  dr_Files :: "EventFile list"

record jobRow =
  jr_Job :: ReplayJob
  jr_Dataset :: string
  jr_File :: string

record jobDetail =
  jd_Job :: ReplayJob
  jd_Dataset :: Dataset
  jd_File :: EventFile
  jd_Metrics :: "StoreMetric list"
  jd_Errors :: "ValidationError list"

record validationErrorRow =
  vw_Error :: ValidationError
  vw_Job :: ReplayJob

record metricRow =
  mw_Metric :: StoreMetric
  mw_Job :: ReplayJob

record metricsSummary =
  ms_TotalJobs :: int
  ms_CompletedJobs :: int
  ms_FailedJobs :: int
  ms_TotalRows :: int
  ms_TotalEvents :: int
  ms_MalformedEvents :: int
  ms_SequenceGaps :: int
  ms_RowsPerSecond :: float64
  ms_EventsPerSecond :: float64
  ms_PeakAllocMB :: rat
  ms_AverageP95Millis :: float64

definition zero_metricsSummary :: metricsSummary where
  "zero_metricsSummary = \<lparr>ms_TotalJobs = 0, ms_CompletedJobs = 0, ms_FailedJobs = 0, ms_TotalRows = 0, ms_TotalEvents = 0,
     ms_MalformedEvents = 0, ms_SequenceGaps = 0, ms_RowsPerSecond = FInt 0, ms_EventsPerSecond = FInt 0, ms_PeakAllocMB = 0,
     ms_AverageP95Millis = FInt 0\<rparr>"

definition zero_Dataset :: Dataset where
  "zero_Dataset = \<lparr>ds_ID = '''', ds_Name = '''', ds_Description = '''', ds_CreatedAt = 0\<rparr>"

definition zero_EventFile :: EventFile where
  "zero_EventFile = \<lparr>ef_ID = '''', ef_DatasetID = '''', ef_Path = '''', ef_Format = '''', ef_Symbol = '''', ef_Bytes = 0,
     ef_SHA256 = '''', ef_Rows = 0, ef_CreatedAt = 0\<rparr>"

record pageData =
  pd_Title :: string
  pd_Datasets :: "datasetRow list"
  pd_Jobs :: "jobRow list"
  pd_Job :: jobDetail
  pd_Errors :: "validationErrorRow list"
  pd_ErrorSummary :: "ValidationErrorSummary list"
  pd_Metrics :: "metricRow list"
  pd_Summary :: metricsSummary
  pd_Lineage :: DatasetLineage
  pd_GeneratedAt :: time

definition page :: "string \<Rightarrow> time \<Rightarrow> pageData" where
  "page title now = \<lparr>pd_Title = title, pd_Datasets = [], pd_Jobs = [],
     pd_Job = \<lparr>jd_Job = zero_ReplayJob, jd_Dataset = zero_Dataset, jd_File = zero_EventFile, jd_Metrics = [], jd_Errors = []\<rparr>,
     pd_Errors = [], pd_ErrorSummary = [], pd_Metrics = [], pd_Summary = zero_metricsSummary,
     pd_Lineage = \<lparr>dl_Dataset = zero_Dataset, dl_EventFiles = [], dl_GeneratedAt = 0\<rparr>, pd_GeneratedAt = now\<rparr>"

subsection \<open>Responses\<close>

datatype chunk = Html bytes | PlainText string | StoreText store_error | RenderText string

record DashResponse =
  dp_Status :: "int option"
  dp_ContentType :: string
  dp_Location :: string
  dp_Body :: "chunk list"

definition NewResponse :: DashResponse where
  "NewResponse = \<lparr>dp_Status = None, dp_ContentType = '''', dp_Location = '''', dp_Body = []\<rparr>"

text \<open>\<^verbatim>\<open>WriteHeader\<close> after the first write has no effect; a response that is never written to has status 200.\<close>

definition WriteHeader :: "int \<Rightarrow> DashResponse \<Rightarrow> DashResponse" where
  "WriteHeader code w = (case dp_Status w of None \<Rightarrow> w\<lparr>dp_Status := Some code\<rparr> | Some _ \<Rightarrow> w)"

definition Write :: "chunk \<Rightarrow> DashResponse \<Rightarrow> DashResponse" where
  "Write c w = (let w' = WriteHeader 200 w in w'\<lparr>dp_Body := dp_Body w' @ [c]\<rparr>)"

definition final_status :: "DashResponse \<Rightarrow> int" where
  "final_status w = (case dp_Status w of None \<Rightarrow> 200 | Some code \<Rightarrow> code)"

definition http_Error :: "chunk \<Rightarrow> int \<Rightarrow> DashResponse \<Rightarrow> DashResponse" where
  "http_Error c code w = Write c (WriteHeader code (w\<lparr>dp_ContentType := ''text/plain; charset=utf-8''\<rparr>))"

definition http_NotFound :: "DashResponse \<Rightarrow> DashResponse" where
  "http_NotFound = http_Error (PlainText ''404 page not found'') 404"

definition http_Redirect :: "string \<Rightarrow> int \<Rightarrow> DashResponse \<Rightarrow> DashResponse" where
  "http_Redirect url code w =
     Write (PlainText (''<a href='' @ [CHR 0x22] @ url @ [CHR 0x22] @ ''>Found</a>.'' @ [CHR 0x0A]))
       (WriteHeader code (w\<lparr>dp_Location := url, dp_ContentType := ''text/html; charset=utf-8''\<rparr>))"

type_synonym templates = "string \<Rightarrow> pageData \<Rightarrow> bytes \<times> string option"

definition render :: "templates \<Rightarrow> string \<Rightarrow> pageData \<Rightarrow> DashResponse \<Rightarrow> DashResponse" where
  "render exec name data w =
     (let (out, err) = exec name data;
          w1 = w\<lparr>dp_ContentType := ''text/html; charset=utf-8''\<rparr>;
          w2 = (if out = [] then w1 else Write (Html out) w1)
      in case err of None \<Rightarrow> w2 | Some e \<Rightarrow> http_Error (RenderText (''render dashboard: '' @ e)) 500 w2)"

subsection \<open>Reading the repository\<close>

fun dataset_rows ::
  "'r Repository \<Rightarrow> 'r Runtime \<Rightarrow> Dataset list \<Rightarrow> 'r calls \<Rightarrow> (store_error + datasetRow list) \<times> 'r calls" where
  "dataset_rows repo rt [] s = (Inr [], s)"
| "dataset_rows repo rt (d # ds) s =
     try_call (call rt (rp_ListEventFiles repo (ds_ID d))) (\<lambda>files.
     try_call (dataset_rows repo rt ds) (\<lambda>rows s. (Inr (\<lparr>dr_Dataset = d, dr_Files = files\<rparr> # rows), s))) s"

fun error_rows ::
  "'r Repository \<Rightarrow> 'r Runtime \<Rightarrow> ReplayJob list \<Rightarrow> 'r calls \<Rightarrow> (store_error + validationErrorRow list) \<times> 'r calls" where
  "error_rows repo rt [] s = (Inr [], s)"
| "error_rows repo rt (job # jobs) s =
     try_call (call rt (rp_ListValidationErrors repo (rj_ID job))) (\<lambda>errs.
     try_call (error_rows repo rt jobs) (\<lambda>rows s. (Inr (map (\<lambda>e. \<lparr>vw_Error = e, vw_Job = job\<rparr>) errs @ rows), s))) s"

fun metric_rows ::
  "'r Repository \<Rightarrow> 'r Runtime \<Rightarrow> ReplayJob list \<Rightarrow> 'r calls \<Rightarrow> (store_error + metricRow list) \<times> 'r calls" where
  "metric_rows repo rt [] s = (Inr [], s)"
| "metric_rows repo rt (job # jobs) s =
     try_call (call rt (rp_ListReplayMetrics repo (rj_ID job))) (\<lambda>metrics.
     try_call (metric_rows repo rt jobs) (\<lambda>rows s. (Inr (map (\<lambda>m. \<lparr>mw_Metric = m, mw_Job = job\<rparr>) metrics @ rows), s))) s"

text \<open>The names of the data set and the file stay empty when they cannot be read.\<close>

fun job_rows :: "'r Repository \<Rightarrow> 'r Runtime \<Rightarrow> ReplayJob list \<Rightarrow> 'r calls \<Rightarrow> jobRow list \<times> 'r calls" where
  "job_rows repo rt [] s = ([], s)"
| "job_rows repo rt (job # jobs) s =
     (case call rt (rp_GetDataset repo (rj_DatasetID job)) s of
        (dataset, s1) \<Rightarrow>
          (case call rt (rp_GetEventFile repo (rj_EventFileID job)) s1 of
             (evfile, s2) \<Rightarrow>
               (case job_rows repo rt jobs s2 of
                  (rows, s3) \<Rightarrow>
                    (\<lparr>jr_Job = job, jr_Dataset = (case dataset of Inl _ \<Rightarrow> '''' | Inr d \<Rightarrow> ds_Name d),
                      jr_File = (case evfile of Inl _ \<Rightarrow> '''' | Inr f \<Rightarrow> ef_Path f)\<rparr> # rows, s3))))"

definition loadDatasetsAndJobs ::
  "'r Repository \<Rightarrow> 'r Runtime \<Rightarrow> 'r calls \<Rightarrow> (store_error + Dataset list \<times> ReplayJob list) \<times> 'r calls" where
  "loadDatasetsAndJobs repo rt =
     try_call (call rt (rp_ListDatasets repo)) (\<lambda>datasets.
     try_call (call rt (rp_ListReplayJobs repo)) (\<lambda>jobs s. (Inr (datasets, jobs), s)))"

definition loadJobRows ::
  "'r Repository \<Rightarrow> 'r Runtime \<Rightarrow> 'r calls \<Rightarrow> (store_error + ReplayJob list \<times> jobRow list) \<times> 'r calls" where
  "loadJobRows repo rt =
     try_call (call rt (rp_ListReplayJobs repo)) (\<lambda>jobs s.
       case job_rows repo rt jobs s of (rows, s') \<Rightarrow> (Inr (jobs, rows), s'))"

definition loadMetrics ::
  "'r Repository \<Rightarrow> 'r Runtime \<Rightarrow> 'r calls \<Rightarrow> (store_error + ReplayJob list \<times> metricRow list) \<times> 'r calls" where
  "loadMetrics repo rt =
     try_call (call rt (rp_ListReplayJobs repo)) (\<lambda>jobs.
     try_call (metric_rows repo rt jobs) (\<lambda>rows s. (Inr (jobs, rows), s)))"

subsection \<open>The summary of the metrics\<close>

text \<open>\<^verbatim>\<open>float64(bytes) / (1024 * 1024)\<close>: the division by a power of two is exact.\<close>

definition bytesMB :: "int \<Rightarrow> rat" where
  "bytesMB n = (case to_binary64 (of_int n) of Some v \<Rightarrow> v / 2 ^ 20 | None \<Rightarrow> 0)"

definition millis :: "duration \<Rightarrow> float64" where
  "millis d = FDiv (FInt (quot64 d 1000)) (FInt 1000)"

definition count_job :: "metricsSummary \<Rightarrow> ReplayJob \<Rightarrow> metricsSummary" where
  "count_job s job =
     (if rj_Status job = JobStatusCompleted then s\<lparr>ms_CompletedJobs := ms_CompletedJobs s + 1\<rparr>
      else if rj_Status job = JobStatusFailed \<or> rj_Status job = JobStatusDLQ then s\<lparr>ms_FailedJobs := ms_FailedJobs s + 1\<rparr>
      else s)"

definition add_metric :: "metricsSummary \<Rightarrow> metricRow \<Rightarrow> metricsSummary" where
  "add_metric s row =
     (let m = mw_Metric row; mb = bytesMB (me_PeakAllocBytes m) in
      s\<lparr>ms_TotalRows := wrap64 (ms_TotalRows s + me_Rows m),
        ms_TotalEvents := wrap64 (ms_TotalEvents s + me_Events m),
        ms_MalformedEvents := wrap64 (ms_MalformedEvents s + me_MalformedEvents m),
        ms_SequenceGaps := wrap64 (ms_SequenceGaps s + me_SequenceGaps m),
        ms_RowsPerSecond := FAdd (ms_RowsPerSecond s) (me_RowsPerSecond m),
        ms_EventsPerSecond := FAdd (ms_EventsPerSecond s) (me_EventsPerSecond m),
        ms_PeakAllocMB := (if mb > ms_PeakAllocMB s then mb else ms_PeakAllocMB s),
        ms_AverageP95Millis := FAdd (ms_AverageP95Millis s) (millis (me_P95Latency m))\<rparr>)"

definition summarizeMetrics :: "ReplayJob list \<Rightarrow> metricRow list \<Rightarrow> metricsSummary" where
  "summarizeMetrics jobs rows =
     (let s0 = zero_metricsSummary\<lparr>ms_TotalJobs := int (length jobs)\<rparr>;
          s1 = foldl count_job s0 jobs;
          s2 = foldl add_metric s1 rows;
          n = FInt (int (length rows))
      in if rows = [] then s2
         else s2\<lparr>ms_RowsPerSecond := FDiv (ms_RowsPerSecond s2) n, ms_EventsPerSecond := FDiv (ms_EventsPerSecond s2) n,
                ms_AverageP95Millis := FDiv (ms_AverageP95Millis s2) n\<rparr>)"

subsection \<open>The pages\<close>

text \<open>A page on what is read, or an error page; the clock is read after the calls.\<close>

definition page_of ::
  "templates \<Rightarrow> string \<Rightarrow> 'r Runtime \<Rightarrow> ('a \<Rightarrow> time \<Rightarrow> pageData) \<Rightarrow> (store_error \<Rightarrow> DashResponse) \<Rightarrow>
    ('r calls \<Rightarrow> (store_error + 'a) \<times> 'r calls) \<Rightarrow> 'r calls \<Rightarrow> DashResponse \<times> 'r calls" where
  "page_of exec name rt data fail m s =
     (case m s of
        (Inl e, s') \<Rightarrow> (fail e, s')
      | (Inr a, s') \<Rightarrow> (render exec name (data a (io_now (rt_io rt (snd s')))) NewResponse, s'))"

definition internal_error :: "store_error \<Rightarrow> DashResponse" where
  "internal_error e = http_Error (StoreText e) 500 NewResponse"

definition missing_or_internal :: "store_error \<Rightarrow> DashResponse" where
  "missing_or_internal e = (if e = ErrNotFound then http_NotFound NewResponse else internal_error e)"

definition renderDatasets :: "templates \<Rightarrow> 'r Repository \<Rightarrow> 'r Runtime \<Rightarrow> 'r calls \<Rightarrow> DashResponse \<times> 'r calls" where
  "renderDatasets exec repo rt =
     page_of exec ''datasets.html'' rt (\<lambda>rows now. (page ''Datasets'' now)\<lparr>pd_Datasets := rows\<rparr>) internal_error
       (try_call (call rt (rp_ListDatasets repo)) (dataset_rows repo rt))"

definition renderDatasetLineage :: "templates \<Rightarrow> 'r Repository \<Rightarrow> 'r Runtime \<Rightarrow> string \<Rightarrow> 'r calls \<Rightarrow> DashResponse \<times> 'r calls" where
  "renderDatasetLineage exec repo rt i =
     page_of exec ''dataset_lineage.html'' rt (\<lambda>lineage now. (page ''Dataset Lineage'' now)\<lparr>pd_Lineage := lineage\<rparr>) missing_or_internal
       (BuildDatasetLineage repo rt i)"

definition renderJobs :: "templates \<Rightarrow> 'r Repository \<Rightarrow> 'r Runtime \<Rightarrow> 'r calls \<Rightarrow> DashResponse \<times> 'r calls" where
  "renderJobs exec repo rt =
     page_of exec ''jobs.html'' rt (\<lambda>(_, rows) now. (page ''Replay Jobs'' now)\<lparr>pd_Jobs := rows\<rparr>) internal_error (loadJobRows repo rt)"

text \<open>Only a job that is missing is answered with 404; errors on its data set and its file are dropped.\<close>

definition job_detail :: "'r Repository \<Rightarrow> 'r Runtime \<Rightarrow> ReplayJob \<Rightarrow> 'r calls \<Rightarrow> (store_error + jobDetail) \<times> 'r calls" where
  "job_detail repo rt job s =
     (case call rt (rp_GetDataset repo (rj_DatasetID job)) s of
        (dataset, s1) \<Rightarrow>
          (case call rt (rp_GetEventFile repo (rj_EventFileID job)) s1 of
             (evfile, s2) \<Rightarrow>
               try_call (call rt (rp_ListReplayMetrics repo (rj_ID job))) (\<lambda>metrics.
               try_call (call rt (rp_ListValidationErrors repo (rj_ID job))) (\<lambda>errs s.
                 (Inr \<lparr>jd_Job = job, jd_Dataset = (case dataset of Inl _ \<Rightarrow> zero_Dataset | Inr d \<Rightarrow> d),
                    jd_File = (case evfile of Inl _ \<Rightarrow> zero_EventFile | Inr f \<Rightarrow> f), jd_Metrics = metrics, jd_Errors = errs\<rparr>, s))) s2))"

definition renderJobDetail :: "templates \<Rightarrow> 'r Repository \<Rightarrow> 'r Runtime \<Rightarrow> string \<Rightarrow> 'r calls \<Rightarrow> DashResponse \<times> 'r calls" where
  "renderJobDetail exec repo rt i s =
     (case call rt (rp_GetReplayJob repo i) s of
        (Inl e, s') \<Rightarrow> (missing_or_internal e, s')
      | (Inr job, s') \<Rightarrow>
          page_of exec ''job_detail.html'' rt (\<lambda>detail now. (page ''Job Detail'' now)\<lparr>pd_Job := detail\<rparr>) internal_error
            (job_detail repo rt job) s')"

definition renderValidationErrors :: "templates \<Rightarrow> 'r Repository \<Rightarrow> 'r Runtime \<Rightarrow> 'r calls \<Rightarrow> DashResponse \<times> 'r calls" where
  "renderValidationErrors exec repo rt =
     page_of exec ''validation_errors.html'' rt
       (\<lambda>(rows, summary) now. (page ''Validation Errors'' now)\<lparr>pd_Errors := rows, pd_ErrorSummary := summary\<rparr>) internal_error
       (try_call (call rt (rp_ListReplayJobs repo)) (\<lambda>jobs.
        try_call (error_rows repo rt jobs) (\<lambda>rows.
        try_call (BuildValidationErrorSummary repo rt) (\<lambda>summary s. (Inr (rows, summary), s)))))"

definition renderMetrics ::
  "templates \<Rightarrow> 'r Repository \<Rightarrow> 'r Runtime \<Rightarrow> string \<Rightarrow> string \<Rightarrow> 'r calls \<Rightarrow> DashResponse \<times> 'r calls" where
  "renderMetrics exec repo rt templateName title =
     page_of exec templateName rt
       (\<lambda>(jobs, rows) now. (page title now)\<lparr>pd_Metrics := rows, pd_Summary := summarizeMetrics jobs rows\<rparr>) internal_error
       (loadMetrics repo rt)"

subsection \<open>Routes\<close>

definition HasPrefix :: "string \<Rightarrow> string \<Rightarrow> bool" where
  "HasPrefix s p \<longleftrightarrow> take (length p) s = p"

definition HasSuffix :: "string \<Rightarrow> string \<Rightarrow> bool" where
  "HasSuffix s p \<longleftrightarrow> HasPrefix (rev s) (rev p)"

definition TrimPrefix :: "string \<Rightarrow> string \<Rightarrow> string" where
  "TrimPrefix s p = (if HasPrefix s p then drop (length p) s else s)"

definition TrimSuffix :: "string \<Rightarrow> string \<Rightarrow> string" where
  "TrimSuffix s p = (if HasSuffix s p then take (length s - length p) s else s)"

definition ServeHTTP ::
  "templates \<Rightarrow> 'r Repository \<Rightarrow> 'r Runtime \<Rightarrow> string \<Rightarrow> string \<Rightarrow> 'r calls \<Rightarrow> DashResponse \<times> 'r calls" where
  "ServeHTTP exec repo rt http_method url s =
     (if http_method \<noteq> ''GET'' then (http_Error (PlainText ''method not allowed'') 405 NewResponse, s)
      else let path = TrimSuffix url ''/'' in
        if path = '''' \<or> path = ''/dashboard'' then (http_Redirect ''/dashboard/jobs'' 302 NewResponse, s)
        else if path = ''/dashboard/datasets'' then renderDatasets exec repo rt s
        else if HasPrefix path ''/dashboard/datasets/'' \<and> HasSuffix path ''/lineage'' then
          renderDatasetLineage exec repo rt (TrimSuffix (TrimPrefix path ''/dashboard/datasets/'') ''/lineage'') s
        else if path = ''/dashboard/jobs'' then renderJobs exec repo rt s
        else if HasPrefix path ''/dashboard/jobs/'' then renderJobDetail exec repo rt (TrimPrefix path ''/dashboard/jobs/'') s
        else if path = ''/dashboard/validation-errors'' then renderValidationErrors exec repo rt s
        else if path = ''/dashboard/metrics'' then renderMetrics exec repo rt ''metrics.html'' ''Metrics Summary'' s
        else if path = ''/dashboard/benchmark'' then renderMetrics exec repo rt ''benchmark.html'' ''Benchmark Report'' s
        else (http_NotFound NewResponse, s))"

subsection \<open>Finding the templates\<close>

text \<open>
  From the working directory up to the root of the file system, the first directory that has \<^verbatim>\<open>web/templates\<close>. \<open>stat path\<close> says
  whether the path exists, and \<open>parse dir\<close> is what the template library makes of a directory. \<open>None\<close> is the panic of
  \<^verbatim>\<open>template.Must\<close>.
\<close>

datatype root_error = GetwdFailed | TemplatesNotFound | TemplatesParse string

function find_root :: "(string \<Rightarrow> bool) \<Rightarrow> string \<Rightarrow> root_error + string" where
  "find_root stat dir =
     (if stat (Join [dir, ''web'', ''templates'']) then Inr dir
      else if Dir dir = dir then Inl TemplatesNotFound
      else find_root stat (Dir dir))"
  by pat_completeness auto
termination
  by (relation "measure (\<lambda>(stat, dir). path_measure dir)") (auto intro: Dir_decreases)

declare find_root.simps [simp del]

definition findRepoRoot :: "(string \<Rightarrow> bool) \<Rightarrow> string option \<Rightarrow> root_error + string" where
  "findRepoRoot stat getwd = (case getwd of None \<Rightarrow> Inl GetwdFailed | Some dir \<Rightarrow> find_root stat dir)"

definition parseTemplates ::
  "(string \<Rightarrow> string + templates) \<Rightarrow> (string \<Rightarrow> bool) \<Rightarrow> string option \<Rightarrow> root_error + templates" where
  "parseTemplates parse stat getwd =
     (case findRepoRoot stat getwd of
        Inl e \<Rightarrow> Inl e
      | Inr root_dir \<Rightarrow>
          (case parse (Join [root_dir, ''web'', ''templates'']) of Inl e \<Rightarrow> Inl (TemplatesParse e) | Inr exec \<Rightarrow> Inr exec))"

definition dashboard_New :: "(string \<Rightarrow> string + templates) \<Rightarrow> (string \<Rightarrow> bool) \<Rightarrow> string option \<Rightarrow> templates option" where
  "dashboard_New parse stat getwd = (case parseTemplates parse stat getwd of Inl e \<Rightarrow> None | Inr exec \<Rightarrow> Some exec)"

text \<open>The walk ends: at the nearest directory above that has the templates, or at the top when there is none.\<close>

lemma find_root_nearest:
  "case find_root stat dir of
      Inr d \<Rightarrow> \<exists>k. d = (Dir ^^ k) dir \<and> stat (Join [d, ''web'', ''templates'']) \<and>
        (\<forall>i<k. \<not> stat (Join [(Dir ^^ i) dir, ''web'', ''templates'']))
    | Inl e \<Rightarrow> e = TemplatesNotFound \<and> (\<exists>k. Dir ((Dir ^^ k) dir) = (Dir ^^ k) dir \<and>
        (\<forall>i\<le>k. \<not> stat (Join [(Dir ^^ i) dir, ''web'', ''templates''])))"
proof (induction stat dir rule: find_root.induct)
  case (1 stat dir)
  let ?has = "\<lambda>d. stat (Join [d, ''web'', ''templates''])"
  consider (here) "?has dir" | (top) "\<not> ?has dir" "Dir dir = dir" | (up) "\<not> ?has dir" "Dir dir \<noteq> dir" by blast
  then show ?case
  proof cases
    case here
    then show ?thesis by (simp add: find_root.simps [of stat dir]) (rule exI [of _ 0], simp)
  next
    case top
    then show ?thesis by (simp add: find_root.simps [of stat dir]) (rule exI [of _ 0], simp)
  next
    case up
    have pow: "(Dir ^^ i) (Dir dir) = (Dir ^^ Suc i) dir" for i by (simp add: funpow_swap1)
    have less: "(\<forall>i<Suc k. \<not> ?has ((Dir ^^ i) dir)) \<longleftrightarrow> (\<forall>i<k. \<not> ?has ((Dir ^^ i) (Dir dir)))" for k
      unfolding All_less_Suc2 pow using up(1) by simp
    have le: "(\<forall>i\<le>k. P i) \<longleftrightarrow> (\<forall>i<Suc k. P i)" for k and P :: "nat \<Rightarrow> bool" by (simp add: less_Suc_eq_le)
    have eq: "find_root stat dir = find_root stat (Dir dir)" using up by (simp add: find_root.simps [of stat dir])
    show ?thesis
    proof (cases "find_root stat (Dir dir)")
      case (Inl e)
      then obtain k where "e = TemplatesNotFound" "Dir ((Dir ^^ k) (Dir dir)) = (Dir ^^ k) (Dir dir)" "\<forall>i\<le>k. \<not> ?has ((Dir ^^ i) (Dir dir))"
        using "1.IH" [OF up] by auto
      then show ?thesis unfolding eq Inl using less [of "Suc k"] by (auto simp: le pow intro!: exI [of _ "Suc k"])
    next
      case (Inr d)
      then obtain k where "d = (Dir ^^ k) (Dir dir)" "?has d" "\<forall>i<k. \<not> ?has ((Dir ^^ i) (Dir dir))" using "1.IH" [OF up] by auto
      then show ?thesis unfolding eq Inr using less [of k] by (auto simp: pow simp del: funpow.simps intro!: exI [of _ "Suc k"])
    qed
  qed
qed

subsection \<open>What the pages show\<close>

lemma wrap64_add: "wrap64 (wrap64 x + y) = wrap64 (x + y)"
proof -
  have "(x + 2 ^ 63) mod 2 ^ 64 - 2 ^ 63 + y + 2 ^ 63 = (x + 2 ^ 63) mod 2 ^ 64 + y" by simp
  moreover have "((x + 2 ^ 63) mod 2 ^ 64 + y) mod 2 ^ 64 = (x + 2 ^ 63 + y) mod 2 ^ 64" by (rule mod_add_left_eq)
  moreover have "x + 2 ^ 63 + y = x + y + 2 ^ 63" by simp
  ultimately show ?thesis unfolding wrap64_def by (simp only:)
qed

lemma count_jobs:
  "ms_CompletedJobs (foldl count_job s jobs) = ms_CompletedJobs s + int (length (filter (\<lambda>j. rj_Status j = JobStatusCompleted) jobs))"
  "ms_FailedJobs (foldl count_job s jobs) =
    ms_FailedJobs s + int (length (filter (\<lambda>j. rj_Status j = JobStatusFailed \<or> rj_Status j = JobStatusDLQ) jobs))"
  "ms_TotalJobs (foldl count_job s jobs) = ms_TotalJobs s" "ms_TotalRows (foldl count_job s jobs) = ms_TotalRows s"
  "ms_TotalEvents (foldl count_job s jobs) = ms_TotalEvents s"
  "ms_MalformedEvents (foldl count_job s jobs) = ms_MalformedEvents s"
  "ms_SequenceGaps (foldl count_job s jobs) = ms_SequenceGaps s" "ms_PeakAllocMB (foldl count_job s jobs) = ms_PeakAllocMB s"
  by (induction jobs arbitrary: s) (auto simp: count_job_def)

lemma add_metrics:
  assumes "int64 (ms_TotalRows s)" "int64 (ms_TotalEvents s)" "int64 (ms_MalformedEvents s)" "int64 (ms_SequenceGaps s)"
  shows "ms_TotalRows (foldl add_metric s rows) = wrap64 (ms_TotalRows s + (\<Sum>w \<leftarrow> rows. me_Rows (mw_Metric w)))"
    "ms_TotalEvents (foldl add_metric s rows) = wrap64 (ms_TotalEvents s + (\<Sum>w \<leftarrow> rows. me_Events (mw_Metric w)))"
    "ms_MalformedEvents (foldl add_metric s rows) = wrap64 (ms_MalformedEvents s + (\<Sum>w \<leftarrow> rows. me_MalformedEvents (mw_Metric w)))"
    "ms_SequenceGaps (foldl add_metric s rows) = wrap64 (ms_SequenceGaps s + (\<Sum>w \<leftarrow> rows. me_SequenceGaps (mw_Metric w)))"
  using assms by (induction rows arbitrary: s) (simp_all add: add_metric_def Let_def wrap64_add add.assoc)

lemma add_metrics_kept:
  "ms_TotalJobs (foldl add_metric s rows) = ms_TotalJobs s" "ms_CompletedJobs (foldl add_metric s rows) = ms_CompletedJobs s"
  "ms_FailedJobs (foldl add_metric s rows) = ms_FailedJobs s"
  by (induction rows arbitrary: s) (simp_all add: add_metric_def Let_def)

lemma add_metrics_peak:
  "ms_PeakAllocMB (foldl add_metric s rows) =
    Max (insert (ms_PeakAllocMB s) ((\<lambda>w. bytesMB (me_PeakAllocBytes (mw_Metric w))) ` set rows))"
proof (induction rows arbitrary: s)
  case (Cons w rows)
  have "ms_PeakAllocMB (add_metric s w) = max (ms_PeakAllocMB s) (bytesMB (me_PeakAllocBytes (mw_Metric w)))"
    by (simp add: add_metric_def Let_def)
  then show ?case using Cons.IH [of "add_metric s w"] by (cases rows) (simp_all add: max.assoc max.left_commute)
qed simp

text \<open>The summary in terms of the jobs and the metrics.\<close>

definition summary_ok :: "ReplayJob list \<Rightarrow> metricRow list \<Rightarrow> metricsSummary \<Rightarrow> bool" where
  "summary_ok jobs rows s \<longleftrightarrow> ms_TotalJobs s = int (length jobs) \<and>
     ms_CompletedJobs s = int (length (filter (\<lambda>j. rj_Status j = JobStatusCompleted) jobs)) \<and>
     ms_FailedJobs s = int (length (filter (\<lambda>j. rj_Status j = JobStatusFailed \<or> rj_Status j = JobStatusDLQ) jobs)) \<and>
     ms_TotalRows s = wrap64 (\<Sum>w \<leftarrow> rows. me_Rows (mw_Metric w)) \<and>
     ms_TotalEvents s = wrap64 (\<Sum>w \<leftarrow> rows. me_Events (mw_Metric w)) \<and>
     ms_MalformedEvents s = wrap64 (\<Sum>w \<leftarrow> rows. me_MalformedEvents (mw_Metric w)) \<and>
     ms_SequenceGaps s = wrap64 (\<Sum>w \<leftarrow> rows. me_SequenceGaps (mw_Metric w)) \<and>
     ms_PeakAllocMB s = Max (insert 0 ((\<lambda>w. bytesMB (me_PeakAllocBytes (mw_Metric w))) ` set rows))"

lemma summarizeMetrics_ok: "summary_ok jobs rows (summarizeMetrics jobs rows)"
proof -
  let ?s1 = "foldl count_job (zero_metricsSummary\<lparr>ms_TotalJobs := int (length jobs)\<rparr>) jobs"
  have "int64 0" by (simp add: int64_def)
  then show ?thesis
    using add_metrics_peak [of ?s1 rows]
    by (simp add: summary_ok_def summarizeMetrics_def Let_def add_metrics add_metrics_kept count_jobs zero_metricsSummary_def)
qed

text \<open>What the loops read from a repository that nobody else changes.\<close>

definition metrics_of :: "Db \<Rightarrow> ReplayJob list \<Rightarrow> metricRow list" where
  "metrics_of d jobs = concat (map (\<lambda>j. map (\<lambda>m. \<lparr>mw_Metric = m, mw_Job = j\<rparr>) (db_metrics d (rj_ID j))) jobs)"

context repository
begin

lemma metric_rows_all:
  assumes "quiet rt" "inv r"
  shows "metric_rows repo rt jobs (r, n) = (Inr (metrics_of (db r) jobs), (r, n + length jobs))"
  by (induction jobs arbitrary: n) (simp_all add: call_reads(4) [OF assms] metrics_of_def)

lemma error_rows_all:
  assumes "quiet rt" "inv r"
  shows "\<exists>rows n'. error_rows repo rt jobs (r, n) = (Inr rows, (r, n')) \<and>
    mset rows = mset (concat (map (\<lambda>j. map (\<lambda>e. \<lparr>vw_Error = e, vw_Job = j\<rparr>) (db_errors (db r) (rj_ID j))) jobs))"
proof (induction jobs arbitrary: n)
  case (Cons j jobs)
  obtain es where es: "call rt (rp_ListValidationErrors repo (rj_ID j)) (r, n) = (Inr es, (r, Suc n))"
    "mset es = mset (db_errors (db r) (rj_ID j))"
    using call_reads(5) [OF assms] by blast
  obtain rows n' where "error_rows repo rt jobs (r, Suc n) = (Inr rows, (r, n'))"
    "mset rows = mset (concat (map (\<lambda>j. map (\<lambda>e. \<lparr>vw_Error = e, vw_Job = j\<rparr>) (db_errors (db r) (rj_ID j))) jobs))"
    using Cons.IH by blast
  then show ?case using es by simp
qed simp

lemma job_rows_all:
  assumes "quiet rt" "inv r" "set jobs \<subseteq> ran (db_jobs (db r))"
  shows "\<exists>rows n'. job_rows repo rt jobs (r, n) = (rows, (r, n')) \<and> map jr_Job rows = jobs \<and>
    (\<forall>row \<in> set rows. \<exists>d f. db_datasets (db r) (rj_DatasetID (jr_Job row)) = Some d \<and> db_files (db r) (rj_EventFileID (jr_Job row)) = Some f \<and>
      jr_Dataset row = ds_Name d \<and> jr_File row = ef_Path f)"
  using assms(3)
proof (induction jobs arbitrary: n)
  case (Cons j jobs)
  obtain i where "db_jobs (db r) i = Some j" using Cons.prems by (auto simp: ran_def)
  then obtain d f where "db_datasets (db r) (rj_DatasetID j) = Some d" "db_files (db r) (rj_EventFileID j) = Some f"
    using wf_db_job(3,4) [OF wf [OF assms(2)]] by blast
  moreover obtain rows n' where "job_rows repo rt jobs (r, Suc (Suc n)) = (rows, (r, n'))" "map jr_Job rows = jobs"
    "\<forall>row \<in> set rows. \<exists>d f. db_datasets (db r) (rj_DatasetID (jr_Job row)) = Some d \<and> db_files (db r) (rj_EventFileID (jr_Job row)) = Some f \<and>
      jr_Dataset row = ds_Name d \<and> jr_File row = ef_Path f"
    using Cons by (metis insert_subset list.simps(15))
  ultimately show ?case by (auto simp: call_reads(1,2) [OF assms(1,2)])
qed simp

lemma job_detail_ok:
  assumes "quiet rt" "inv r"
  shows "\<exists>detail n'. job_detail repo rt job (r, n) = (Inr detail, (r, n')) \<and> jd_Job detail = job \<and>
    jd_Metrics detail = db_metrics (db r) (rj_ID job) \<and> mset (jd_Errors detail) = mset (db_errors (db r) (rj_ID job))"
proof -
  obtain es where "call rt (rp_ListValidationErrors repo (rj_ID job)) (r, Suc (Suc (Suc n))) = (Inr es, (r, Suc (Suc (Suc (Suc n)))))"
    "mset es = mset (db_errors (db r) (rj_ID job))"
    using call_reads(5) [OF assms] by blast
  then show ?thesis by (simp add: job_detail_def call_reads(1,2,4) [OF assms])
qed

lemma load_ok:
  assumes "quiet rt" "inv r"
  shows "\<exists>jobs rows n'. loadMetrics repo rt (r, n) = (Inr (jobs, rows), (r, n')) \<and> rows = metrics_of (db r) jobs \<and>
      distinct (map rj_ID jobs) \<and> set jobs = ran (db_jobs (db r))"
    "\<exists>jobs rows n'. loadJobRows repo rt (r, n) = (Inr (jobs, rows), (r, n')) \<and> map jr_Job rows = jobs \<and> set jobs = ran (db_jobs (db r))"
proof -
  obtain jobs where jobs: "call rt (rp_ListReplayJobs repo) (r, n) = (Inr jobs, (r, Suc n))" "distinct (map rj_ID jobs)"
    "set jobs = ran (db_jobs (db r))"
    using call_reads(6) [OF assms] by blast
  show "\<exists>jobs rows n'. loadMetrics repo rt (r, n) = (Inr (jobs, rows), (r, n')) \<and> rows = metrics_of (db r) jobs \<and>
      distinct (map rj_ID jobs) \<and> set jobs = ran (db_jobs (db r))"
    using jobs by (auto simp: loadMetrics_def metric_rows_all [OF assms])
  show "\<exists>jobs rows n'. loadJobRows repo rt (r, n) = (Inr (jobs, rows), (r, n')) \<and> map jr_Job rows = jobs \<and> set jobs = ran (db_jobs (db r))"
    using jobs job_rows_all [OF assms, of jobs "Suc n"] by (auto simp: loadJobRows_def)
qed

end

subsection \<open>Every request\<close>

lemma response_status [simp]:
  "final_status (http_Error c code NewResponse) = code" "final_status (http_Redirect url code NewResponse) = code"
  by (simp_all add: final_status_def http_Error_def http_Redirect_def Write_def WriteHeader_def NewResponse_def Let_def)

text \<open>
  A template that fails before it has written anything is answered with 500. After the first write the status is sent: the text
  of the error is appended to the page, which keeps its status 200.
\<close>

lemma render_status:
  "final_status (render exec name data NewResponse) = (if fst (exec name data) = [] \<and> snd (exec name data) \<noteq> None then 500 else 200)"
  by (auto simp: render_def final_status_def http_Error_def Write_def WriteHeader_def NewResponse_def Let_def split: prod.splits option.splits)

definition rendered :: "templates \<Rightarrow> DashResponse \<Rightarrow> bool" where
  "rendered exec resp \<longleftrightarrow> (\<exists>name d. resp = render exec name d NewResponse \<and>
     final_status resp = (if fst (exec name d) = [] \<and> snd (exec name d) \<noteq> None then 500 else 200))"

lemma rendered_render [simp]: "rendered exec (render exec name d NewResponse)"
  using render_status [of exec name d] unfolding rendered_def by blast

lemma rendered_status: "rendered exec resp \<Longrightarrow> final_status resp \<in> {200, 500}"
  by (auto simp: rendered_def split: if_splits)

lemma dataset_rows_memory:
  assumes "quiet rt" "\<forall>d \<in> set ds. ds_ID d \<in> dom (map_of (mr_datasets r))"
  shows "\<exists>rows n'. dataset_rows memory_repository rt ds (r, n) = (Inr rows, (r, n')) \<and> map dr_Dataset rows = ds"
  using assms(2)
proof (induction ds arbitrary: n)
  case (Cons d ds)
  obtain files where "call rt (rp_ListEventFiles memory_repository (ds_ID d)) (r, n) = (Inr files, (r, Suc n))"
    using Cons.prems assms(1) by (auto simp: call_def quiet_def memory_repository_def ListEventFiles_def split: option.splits)
  moreover obtain rows n' where "dataset_rows memory_repository rt ds (r, Suc n) = (Inr rows, (r, n'))" "map dr_Dataset rows = ds"
    using Cons by (meson list.set_intros(2))
  ultimately show ?case by simp
qed simp

lemma renderDatasets_memory:
  assumes "quiet rt" "memory_inv r"
  shows "\<exists>d n'. renderDatasets exec memory_repository rt (r, n) = (render exec ''datasets.html'' d NewResponse, (r, n'))"
proof -
  obtain ds where ds: "call rt (rp_ListDatasets memory_repository) (r, n) = (Inr ds, (r, Suc n))"
    "set ds = set (range_values (rt_io rt n) (mr_datasets r))"
    using assms(1) by (simp add: call_def quiet_def memory_repository_def ListDatasets_def)
  have "\<forall>d \<in> set ds. ds_ID d \<in> dom (map_of (mr_datasets r))"
  proof
    fix d
    assume "d \<in> set ds"
    then have "d \<in> ran (map_of (mr_datasets r))"
      using ds(2) assms(2) range_values_set [of "mr_datasets r"] by (simp add: memory_inv_def)
    then obtain i where "map_of (mr_datasets r) i = Some d" by (auto simp: ran_def)
    moreover have "wf_db (memory_db r)" using assms(2) by (simp add: memory_inv_def)
    ultimately have "ds_ID d = i" "map_of (mr_datasets r) i = Some d" by (auto simp: wf_db_def)
    then show "ds_ID d \<in> dom (map_of (mr_datasets r))" by auto
  qed
  then obtain rows n' where "dataset_rows memory_repository rt ds (r, Suc n) = (Inr rows, (r, n'))"
    using dataset_rows_memory [OF assms(1)] by blast
  then have "try_call (call rt (rp_ListDatasets memory_repository)) (dataset_rows memory_repository rt) (r, n) = (Inr rows, (r, n'))"
    using ds(1) by simp
  then show ?thesis by (auto simp: renderDatasets_def page_of_def)
qed

lemma renderDatasetLineage_memory:
  assumes "quiet rt" "memory_inv r"
  shows "\<exists>resp n'. renderDatasetLineage exec memory_repository rt i (r, n) = (resp, (r, n')) \<and>
    (if map_of (mr_datasets r) i = None then final_status resp = 404
     else \<exists>d. resp = render exec ''dataset_lineage.html'' d NewResponse)"
proof (cases "map_of (mr_datasets r) i")
  case None
  then have "BuildDatasetLineage memory_repository rt i (r, n) = (Inl ErrNotFound, (r, Suc n))"
    by (simp add: BuildDatasetLineage_def memory.call_reads(1) [OF assms(1,2)])
  then show ?thesis using None by (simp add: renderDatasetLineage_def page_of_def missing_or_internal_def http_NotFound_def)
next
  case (Some d)
  then obtain l n' where "BuildDatasetLineage memory_repository rt i (r, n) = (Inr l, (r, n'))"
    using memory.dataset_lineage [OF assms(1,2), of i d n] by auto
  then show ?thesis using Some by (auto simp: renderDatasetLineage_def page_of_def)
qed

lemma renderJobDetail_memory:
  assumes "quiet rt" "memory_inv r"
  shows "\<exists>resp n'. renderJobDetail exec memory_repository rt i (r, n) = (resp, (r, n')) \<and>
    (case map_of (mr_jobs r) i of
       None \<Rightarrow> final_status resp = 404
     | Some j \<Rightarrow> \<exists>d. resp = render exec ''job_detail.html'' d NewResponse \<and> jd_Job (pd_Job d) = j \<and>
         jd_Metrics (pd_Job d) = mr_metrics r i \<and> mset (jd_Errors (pd_Job d)) = mset (mr_errors r i))"
proof (cases "map_of (mr_jobs r) i")
  case None
  then show ?thesis
    by (simp add: renderJobDetail_def memory.call_reads(3) [OF assms(1,2)] missing_or_internal_def http_NotFound_def)
next
  case (Some j)
  have id: "rj_ID j = i" using wf_db_job(1) [OF memory.wf [OF assms(2)], of i j] Some by simp
  obtain detail n' where "job_detail memory_repository rt j (r, Suc n) = (Inr detail, (r, n'))" "jd_Job detail = j"
    "jd_Metrics detail = mr_metrics r i" "mset (jd_Errors detail) = mset (mr_errors r i)"
    using memory.job_detail_ok [OF assms(1,2), of j "Suc n"] id by auto
  then show ?thesis using Some by (auto simp: renderJobDetail_def page_of_def memory.call_reads(3) [OF assms(1,2)])
qed

lemma renderJobs_memory:
  assumes "quiet rt" "memory_inv r"
  shows "\<exists>d n'. renderJobs exec memory_repository rt (r, n) = (render exec ''jobs.html'' d NewResponse, (r, n'))"
proof -
  obtain jobs rows n' where "loadJobRows memory_repository rt (r, n) = (Inr (jobs, rows), (r, n'))"
    using memory.load_ok(2) [OF assms(1,2)] by blast
  then show ?thesis by (auto simp: renderJobs_def page_of_def)
qed

lemma renderMetrics_memory:
  assumes "quiet rt" "memory_inv r"
  shows "\<exists>d n'. renderMetrics exec memory_repository rt name title (r, n) = (render exec name d NewResponse, (r, n'))"
proof -
  obtain jobs rows n' where "loadMetrics memory_repository rt (r, n) = (Inr (jobs, rows), (r, n'))"
    using memory.load_ok(1) [OF assms(1,2)] by blast
  then show ?thesis by (auto simp: renderMetrics_def page_of_def)
qed

lemma renderValidationErrors_memory:
  assumes "quiet rt" "memory_inv r"
  shows "\<exists>d n'. renderValidationErrors exec memory_repository rt (r, n) = (render exec ''validation_errors.html'' d NewResponse, (r, n'))"
proof -
  obtain jobs where jobs: "call rt (rp_ListReplayJobs memory_repository) (r, n) = (Inr jobs, (r, Suc n))"
    using memory.call_reads(6) [OF assms(1,2)] by blast
  obtain rows n1 where rows: "error_rows memory_repository rt jobs (r, Suc n) = (Inr rows, (r, n1))"
    using memory.error_rows_all [OF assms(1,2)] by blast
  obtain js summary n' where summary: "BuildValidationErrorSummary memory_repository rt (r, n1) = (Inr summary, (r, n'))"
    by (rule memory.error_summary [OF assms(1,2)])
  have "try_call (call rt (rp_ListReplayJobs memory_repository)) (\<lambda>jobs. try_call (error_rows memory_repository rt jobs) (\<lambda>rows.
      try_call (BuildValidationErrorSummary memory_repository rt) (\<lambda>summary s. (Inr (rows, summary), s)))) (r, n) =
      (Inr (rows, summary), (r, n'))"
    using jobs rows summary by simp
  then show ?thesis by (auto simp: renderValidationErrors_def page_of_def)
qed

text \<open>
  C34: the dashboard only reads. On a reachable memory store that nobody else changes, whatever the templates do, every request
  leaves the store as it was. It is answered with a redirect, with 404, with 405 (exactly when it is not a GET), or with a
  rendered page: with status 200, or with 500 when the template failed before it had written anything. No store error ever leads
  to a 500. The page of a job is answered with 404 when the job is not stored, and else renders that job with its
  metrics and errors.
\<close>

theorem dashboard_answers:
  assumes "memory_step\<^sup>*\<^sup>* NewMemoryRepository r" "quiet rt"
  shows "\<exists>resp n'. ServeHTTP exec memory_repository rt http_method url (r, n) = (resp, (r, n')) \<and>
    (final_status resp = 405 \<longleftrightarrow> http_method \<noteq> ''GET'') \<and>
    (final_status resp \<in> {302, 404, 405} \<or> rendered exec resp) \<and>
    (http_method = ''GET'' \<and> url = ''/dashboard/jobs/'' @ i \<and> i \<noteq> '''' \<and> last i \<noteq> CHR ''/'' \<longrightarrow>
      (case map_of (mr_jobs r) i of
         None \<Rightarrow> final_status resp = 404
       | Some j \<Rightarrow> \<exists>d. resp = render exec ''job_detail.html'' d NewResponse \<and> jd_Job (pd_Job d) = j \<and>
           jd_Metrics (pd_Job d) = mr_metrics r i \<and> mset (jd_Errors (pd_Job d)) = mset (mr_errors r i)))"
proof -
  have inv: "memory_inv r" using memory_steps_good [OF assms(1) memory_inv_new] by (simp add: good_step_def)
  let ?ok = "\<lambda>out. \<exists>resp n'. out = (resp, (r, n')) \<and> (final_status resp \<in> {302, 404} \<or> rendered exec resp)"
  have "?ok (renderDatasets exec memory_repository rt (r, n))"
    using renderDatasets_memory [OF assms(2) inv, of exec n] by auto
  moreover have "?ok (renderDatasetLineage exec memory_repository rt k (r, n))" for k
    using renderDatasetLineage_memory [OF assms(2) inv, of exec k n] by (auto split: if_splits)
  moreover have "?ok (renderJobs exec memory_repository rt (r, n))"
    using renderJobs_memory [OF assms(2) inv, of exec n] by auto
  moreover have "?ok (renderJobDetail exec memory_repository rt k (r, n))" for k
    using renderJobDetail_memory [OF assms(2) inv, of exec k n] by (auto split: option.splits)
  moreover have "?ok (renderValidationErrors exec memory_repository rt (r, n))"
    using renderValidationErrors_memory [OF assms(2) inv, of exec n] by auto
  moreover have "?ok (renderMetrics exec memory_repository rt name title (r, n))" for name title
    using renderMetrics_memory [OF assms(2) inv, of exec name title n] by auto
  ultimately have get: "?ok (ServeHTTP exec memory_repository rt ''GET'' url (r, n))"
    by (simp add: ServeHTTP_def Let_def http_NotFound_def)
  have job: "\<exists>resp n'. ServeHTTP exec memory_repository rt ''GET'' (''/dashboard/jobs/'' @ i) (r, n) = (resp, (r, n')) \<and>
      (case map_of (mr_jobs r) i of
         None \<Rightarrow> final_status resp = 404
       | Some j \<Rightarrow> \<exists>d. resp = render exec ''job_detail.html'' d NewResponse \<and> jd_Job (pd_Job d) = j \<and>
           jd_Metrics (pd_Job d) = mr_metrics r i \<and> mset (jd_Errors (pd_Job d)) = mset (mr_errors r i))"
    if i: "i \<noteq> ''''" "last i \<noteq> CHR ''/''"
  proof -
    obtain i' c where "i = i' @ [c]" "c \<noteq> CHR ''/''" using i by (cases i rule: rev_cases) auto
    then have "TrimSuffix (''/dashboard/jobs/'' @ i) ''/'' = ''/dashboard/jobs/'' @ i"
      by (simp add: TrimSuffix_def HasSuffix_def HasPrefix_def)
    then have "ServeHTTP exec memory_repository rt ''GET'' (''/dashboard/jobs/'' @ i) (r, n) = renderJobDetail exec memory_repository rt i (r, n)"
      using i by (simp add: ServeHTTP_def HasPrefix_def TrimPrefix_def Let_def)
    then show ?thesis using renderJobDetail_memory [OF assms(2) inv] by simp
  qed
  show ?thesis
  proof (cases "http_method = ''GET''")
    case False
    then show ?thesis by (simp add: ServeHTTP_def)
  next
    case True
    obtain resp n' where out: "ServeHTTP exec memory_repository rt ''GET'' url (r, n) = (resp, (r, n'))"
      "final_status resp \<in> {302, 404} \<or> rendered exec resp" using get by blast
    then have "final_status resp \<noteq> 405" by (auto dest: rendered_status)
    then show ?thesis using True out job by (intro exI [of _ resp] exI [of _ n']) fastforce
  qed
qed

text \<open>
  C35: the page with the metrics shows each stored metric once, with its job, and a summary of them: the numbers of jobs, of
  completed and of failed ones, the sums of the counters (modulo \<open>2\<^sup>6\<^sup>4\<close>, as 64-bit integers), and as the peak the greatest of the metrics' peaks,
  or zero when there is none.
\<close>

theorem dashboard_metrics_page:
  assumes "memory_step\<^sup>*\<^sup>* NewMemoryRepository r" "quiet rt"
  shows "\<exists>d jobs n'. ServeHTTP exec memory_repository rt ''GET'' ''/dashboard/metrics'' (r, n) =
      (render exec ''metrics.html'' d NewResponse, (r, n')) \<and>
    distinct (map rj_ID jobs) \<and> set jobs = ran (map_of (mr_jobs r)) \<and>
    pd_Metrics d = concat (map (\<lambda>j. map (\<lambda>m. \<lparr>mw_Metric = m, mw_Job = j\<rparr>) (mr_metrics r (rj_ID j))) jobs) \<and>
    summary_ok jobs (pd_Metrics d) (pd_Summary d)"
proof -
  have inv: "memory_inv r" using memory_steps_good [OF assms(1) memory_inv_new] by (simp add: good_step_def)
  obtain jobs rows n' where l: "loadMetrics memory_repository rt (r, n) = (Inr (jobs, rows), (r, n'))"
    "rows = metrics_of (memory_db r) jobs" "distinct (map rj_ID jobs)" "set jobs = ran (db_jobs (memory_db r))"
    using memory.load_ok(1) [OF assms(2) inv] by blast
  let ?d = "(page ''Metrics Summary'' (io_now (rt_io rt n')))\<lparr>pd_Metrics := rows, pd_Summary := summarizeMetrics jobs rows\<rparr>"
  have "ServeHTTP exec memory_repository rt ''GET'' ''/dashboard/metrics'' (r, n) =
      renderMetrics exec memory_repository rt ''metrics.html'' ''Metrics Summary'' (r, n)"
    by (simp add: ServeHTTP_def TrimSuffix_def HasSuffix_def HasPrefix_def)
  also have "\<dots> = (render exec ''metrics.html'' ?d NewResponse, (r, n'))"
    using l(1) by (simp add: renderMetrics_def page_of_def)
  finally show ?thesis
    using l(2-4) summarizeMetrics_ok [of jobs rows] by (intro exI [of _ ?d]) (auto simp: metrics_of_def)
qed

subsection \<open>The theorems at work\<close>

theorem dashboard_answers_witness:
  "\<exists>d n'. ServeHTTP (\<lambda>_ _. (''page'', None)) memory_repository sample_runtime ''GET'' ''/dashboard/jobs/j'' (sample_store, 0) =
      (render (\<lambda>_ _. (''page'', None)) ''job_detail.html'' d NewResponse, (sample_store, n')) \<and>
    jd_Job (pd_Job d) = new_job (sample_io (CHR ''j'') 3) sample_job_params"
  using dashboard_answers [OF sample_store_reachable sample_runtime_quiet, of "\<lambda>_ _. (''page'', None)" "''GET''" "''/dashboard/jobs/j''" 0 "''j''"]
  by (auto simp: sample_store_values)

theorem dashboard_metrics_page_witness:
  "\<exists>d n'. ServeHTTP (\<lambda>_ _. ('''', None)) memory_repository sample_runtime ''GET'' ''/dashboard/metrics'' (sample_store, 0) =
      (render (\<lambda>_ _. ('''', None)) ''metrics.html'' d NewResponse, (sample_store, n')) \<and> ms_TotalJobs (pd_Summary d) = 1"
proof -
  have "ran (map_of (mr_jobs sample_store)) = {new_job (sample_io (CHR ''j'') 3) sample_job_params}"
    using sample_store_values(7,8) by (auto simp: ran_def dest!: map_of_SomeD)
  moreover have "length jobs = 1" if "distinct (map rj_ID jobs)" "set jobs = {j}" for jobs and j :: ReplayJob
    using that by (metis card_1_singleton_iff distinct_card distinct_map One_nat_def)
  ultimately show ?thesis
    using dashboard_metrics_page [OF sample_store_reachable sample_runtime_quiet, of "\<lambda>_ _. ('''', None)" 0] by (auto simp: summary_ok_def)
qed

end
