(* ===== verification/Go_Bufio.thy ===== *)
theory Go_Bufio
  imports Go_Csv "HOL-Library.Sublist"
begin

section \<open>bufio.Writer on a file\<close>

text \<open>
  A \<^verbatim>\<open>bufio.Writer\<close> of the default size on an \<^verbatim>\<open>os.File\<close> that can take \<open>room\<close> bytes. A write that does not fit takes what fits
  and fails; the writer then fails for good. A string that does not fit an empty buffer is written past it.
\<close>

definition buffer_size :: nat where "buffer_size = 4096"

record Writer =
  wr_file :: bytes
  wr_buf :: bytes
  wr_failed :: bool

definition NewWriter :: Writer where
  "NewWriter = \<lparr>wr_file = [], wr_buf = [], wr_failed = False\<rparr>"

definition Flush :: "nat \<Rightarrow> Writer \<Rightarrow> Writer" where
  "Flush room w =
     (if wr_failed w then w
      else let n = min (length (wr_buf w)) (room - length (wr_file w))
           in w\<lparr>wr_file := wr_file w @ take n (wr_buf w), wr_buf := drop n (wr_buf w),
                wr_failed := n < length (wr_buf w)\<rparr>)"

function WriteString :: "nat \<Rightarrow> bytes \<Rightarrow> Writer \<Rightarrow> Writer" where
  "WriteString room s w =
     (if wr_failed w then w
      else if length s \<le> buffer_size - length (wr_buf w) then w\<lparr>wr_buf := wr_buf w @ s\<rparr>
      else if wr_buf w = [] then
        let n = min (length s) (room - length (wr_file w))
        in w\<lparr>wr_file := wr_file w @ take n s, wr_failed := n < length s\<rparr>
      else let n = buffer_size - length (wr_buf w)
           in WriteString room (drop n s) (Flush room (w\<lparr>wr_buf := wr_buf w @ take n s\<rparr>)))"
  by pat_completeness auto
termination
  by (relation "measure (\<lambda>(room, s, w). 2 * length s + (if wr_failed w \<or> wr_buf w = [] then 0 else 1))")
    (auto simp: Flush_def Let_def)

declare WriteString.simps [simp del]

lemma WriteString_code [code]:
  "WriteString room s w =
     (if wr_failed w then w
      else if s = [] \<or> int (length s) + int (length (wr_buf w)) \<le> 4096 then w\<lparr>wr_buf := wr_buf w @ s\<rparr>
      else if wr_buf w = [] then
        let n = min (length s) (room - length (wr_file w))
        in w\<lparr>wr_file := wr_file w @ take n s, wr_failed := n < length s\<rparr>
      else let n = buffer_size - length (wr_buf w)
           in WriteString room (drop n s) (Flush room (w\<lparr>wr_buf := wr_buf w @ take n s\<rparr>)))"
proof -
  have "length s \<le> buffer_size - length (wr_buf w) \<longleftrightarrow> s = [] \<or> int (length s) + int (length (wr_buf w)) \<le> 4096"
    unfolding buffer_size_def by (cases s) auto
  then show ?thesis by (subst WriteString.simps) (simp only:)
qed

text \<open>What a writer that has been given \<open>bs\<close> holds: all of it, or after a failure a full file with its beginning.\<close>

definition given :: "nat \<Rightarrow> bytes \<Rightarrow> Writer \<Rightarrow> bool" where
  "given room bs w \<longleftrightarrow> length (wr_file w) \<le> room \<and> length (wr_buf w) \<le> buffer_size \<and> prefix (wr_file w) bs \<and>
     (if wr_failed w then length (wr_file w) = room \<and> room < length bs else wr_file w @ wr_buf w = bs)"

lemma given_NewWriter: "given room [] NewWriter"
  by (simp add: given_def NewWriter_def)

lemma given_Flush:
  assumes "given room bs w"
  shows "given room bs (Flush room w)" "\<not> wr_failed (Flush room w) \<Longrightarrow> wr_file (Flush room w) = bs"
proof -
  have "\<not> wr_failed w \<Longrightarrow> wr_file w @ wr_buf w = bs" using assms by (simp add: given_def)
  then show "given room bs (Flush room w)" "\<not> wr_failed (Flush room w) \<Longrightarrow> wr_file (Flush room w) = bs"
    using assms by (auto simp: Flush_def given_def Let_def min_def take_is_prefix)
qed

lemma given_append: "given room bs w \<Longrightarrow> wr_failed w \<Longrightarrow> given room (bs @ s) w"
  by (auto simp: given_def)

lemma given_WriteString: "given room bs w \<Longrightarrow> given room (bs @ s) (WriteString room s w)"
proof (induction room s w arbitrary: bs rule: WriteString.induct)
  case (1 room s w)
  show ?case
  proof (cases "wr_failed w \<or> length s \<le> buffer_size - length (wr_buf w) \<or> wr_buf w = []")
    case True
    then show ?thesis
      using "1.prems" given_append [OF "1.prems"]
      by (subst WriteString.simps) (auto simp: given_def Let_def min_def take_is_prefix)
  next
    case False
    let ?n = "buffer_size - length (wr_buf w)"
    have "given room (bs @ take ?n s) (w\<lparr>wr_buf := wr_buf w @ take ?n s\<rparr>)"
      using "1.prems" False by (auto simp: given_def prefix_def)
    from "1.IH" [OF _ _ _ refl given_Flush(1) [OF this]] show ?thesis
      using False by (subst WriteString.simps) (simp add: Let_def)
  qed
qed

definition write_all :: "nat \<Rightarrow> bytes list \<Rightarrow> Writer \<Rightarrow> Writer" where
  "write_all room ss w = fold (WriteString room) ss w"

lemma given_write_all: "given room bs w \<Longrightarrow> given room (bs @ concat ss) (write_all room ss w)"
proof (induction ss arbitrary: bs w)
  case (Cons s ss)
  then show ?case using Cons.IH [OF given_WriteString, of bs w s] by (simp add: write_all_def)
qed (simp add: write_all_def)

lemma given_room: "given room bs w \<Longrightarrow> length bs \<le> room \<Longrightarrow> \<not> wr_failed w"
  by (auto simp: given_def split: if_splits)

text \<open>
  What is in the file after the last flush, and how much of it can be missing although no write reported an error.
\<close>

lemma given_close:
  assumes "given room bs w"
  shows "wr_file (Flush room w) = take room bs"
    "\<not> wr_failed w \<Longrightarrow> length bs \<le> length (wr_file (Flush room w)) + buffer_size"
proof -
  have "\<not> wr_failed w \<Longrightarrow> bs = wr_file w @ wr_buf w" using assms by (simp add: given_def)
  then show "wr_file (Flush room w) = take room bs"
    "\<not> wr_failed w \<Longrightarrow> length bs \<le> length (wr_file (Flush room w)) + buffer_size"
    using assms by (auto simp: Flush_def given_def Let_def min_def take_is_prefix elim: prefixE)
qed

text \<open>
  The calls that \<^verbatim>\<open>csv.Writer.Write\<close> makes: a field in one piece or, quoted, in pieces that end before the characters
  it treats specially.
\<close>

function quoted_pieces :: "string \<Rightarrow> bytes list" where
  "quoted_pieces f =
     (if f = [] then []
      else let pre = takeWhile (\<lambda>c. c \<noteq> CHR 0x22 \<and> c \<noteq> CHR 0x0A \<and> c \<noteq> CHR 0x0D) f in
        (case drop (length pre) f of
           [] \<Rightarrow> [pre]
         | c # rest \<Rightarrow> [pre, if c = CHR 0x22 then [c, c] else [c]] @ quoted_pieces rest))"
  by pat_completeness auto
termination
  by (relation "measure length") (auto dest!: arg_cong [of "drop _ _" _ length])

declare quoted_pieces.simps [simp del]

definition field_pieces :: "string \<Rightarrow> bytes list" where
  "field_pieces f = (if fieldNeedsQuotes f then [[CHR 0x22]] @ quoted_pieces f @ [[CHR 0x22]] else [f])"

fun csv_pieces :: "string list \<Rightarrow> bytes list" where
  "csv_pieces [] = [[CHR 0x0A]]"
| "csv_pieces [f] = field_pieces f @ [[CHR 0x0A]]"
| "csv_pieces (f # fs) = field_pieces f @ [[CHR '','']] @ csv_pieces fs"

lemma csv_escape_plain: "CHR 0x22 \<notin> set xs \<Longrightarrow> csv_escape (xs @ ys) = xs @ csv_escape ys"
  by (induction xs) (auto simp: csv_escape_def)

lemma concat_quoted_pieces: "concat (quoted_pieces f) = csv_escape f"
proof (induction f rule: quoted_pieces.induct)
  case (1 f)
  let ?P = "\<lambda>c. c \<noteq> CHR 0x22 \<and> c \<noteq> CHR 0x0A \<and> c \<noteq> CHR 0x0D"
  let ?pre = "takeWhile ?P f"
  have pre: "csv_escape (?pre @ x) = ?pre @ csv_escape x" for x
    by (rule csv_escape_plain) (auto dest: set_takeWhileD)
  have f: "f = ?pre @ drop (length ?pre) f" by (metis takeWhile_dropWhile_id dropWhile_eq_drop)
  show ?case
  proof (cases "drop (length ?pre) f")
    case Nil
    then have "csv_escape f = ?pre" using pre [of "[]"] f by (simp add: csv_escape_def)
    then show ?thesis using Nil by (subst quoted_pieces.simps) (auto simp: csv_escape_def)
  next
    case (Cons c rest)
    have ne: "f \<noteq> []" using Cons by auto
    have "csv_escape f = ?pre @ csv_escape (c # rest)"
      using pre [of "c # rest"] f unfolding Cons by (rule trans [OF arg_cong [of f _ csv_escape], rotated])
    then show ?thesis
      using "1.IH" [OF ne refl Cons] ne Cons
      by (subst quoted_pieces.simps) (simp add: Let_def csv_escape_def)
  qed
qed

lemma concat_csv_pieces: "concat (csv_pieces fs) = csv_write fs"
  by (induction fs rule: csv_pieces.induct) (simp_all add: field_pieces_def csv_field_def concat_quoted_pieces)

end
