(* ===== verification/Workload.thy ===== *)
theory Workload
  imports Event_Validator Go_Bufio
begin

section \<open>internal/workload/generator.go: repeating a file\<close>

text \<open>
  A fixture is repeated until the output has a number of bytes; identifiers and times move on from one repetition to the
  next. The source is read from a file system; the output is a file that can take \<open>dk_room\<close> bytes, and may not be
  creatable. The result comes with the contents of the output file, \<open>None\<close> when it was not created.
\<close>

record GenerateOptions =
  go_SourcePath :: string
  go_OutputPath :: string
  go_TargetBytes :: int

record GenerateResult =
  gr_SourcePath :: string
  gr_OutputPath :: string
  gr_TargetBytes :: int
  gr_BytesWritten :: int
  gr_RowsWritten :: int

record Disk =
  dk_files :: file_system
  dk_creatable :: "string \<Rightarrow> bool"
  dk_room :: nat

datatype generate_error =
    SourceOpen | SourceTooLong | NoRows | SourceCsv csv_error | NoCsvRows | OutputCreate | OutputWrite

subsection \<open>The two loops\<close>

text \<open>The rows and bytes written so far, with the writer.\<close>

record Gen =
  ge_bytes :: int
  ge_rows :: int
  ge_writer :: Writer

text \<open>
  Both formats have the same loops: \<open>emit row n\<close> are the strings that are written for a row of the source when \<open>n\<close> rows have
  been written. The inner loop breaks when the target is reached and returns when a write fails.
\<close>

fun gen_pass :: "nat \<Rightarrow> int \<Rightarrow> ('a \<Rightarrow> int \<Rightarrow> bytes list) \<Rightarrow> 'a list \<Rightarrow> Gen \<Rightarrow> Gen" where
  "gen_pass room target emit [] g = g"
| "gen_pass room target emit (row # rows) g =
     (let pieces = emit row (ge_rows g); w = write_all room pieces (ge_writer g)
      in if wr_failed w then g\<lparr>ge_writer := w\<rparr>
         else let g' = g\<lparr>ge_bytes := ge_bytes g + int (length (concat pieces)), ge_rows := ge_rows g + 1, ge_writer := w\<rparr>
              in if target \<le> ge_bytes g' then g' else gen_pass room target emit rows g')"

partial_function (option) gen_loop ::
  "nat \<Rightarrow> int \<Rightarrow> ('a \<Rightarrow> int \<Rightarrow> bytes list) \<Rightarrow> 'a list \<Rightarrow> Gen \<Rightarrow> Gen option" where
  "gen_loop room target emit rows g =
     (if wr_failed (ge_writer g) \<or> target \<le> ge_bytes g then Some g
      else gen_loop room target emit rows (gen_pass room target emit rows g))"

declare gen_loop.simps [code]

text \<open>What has been written after \<open>n\<close> rows behind the header.\<close>

definition written :: "bytes \<Rightarrow> ('a \<Rightarrow> int \<Rightarrow> bytes list) \<Rightarrow> 'a list \<Rightarrow> nat \<Rightarrow> bytes" where
  "written pre emit rows n = pre @ concat (map (\<lambda>k. concat (emit (rows ! (k mod length rows)) (int k))) [0..<n])"

definition gen_inv :: "nat \<Rightarrow> (nat \<Rightarrow> bytes) \<Rightarrow> nat \<Rightarrow> Gen \<Rightarrow> bool" where
  "gen_inv room content n g \<longleftrightarrow> ge_rows g = int n \<and> ge_bytes g = int (length (content n)) \<and> \<not> wr_failed (ge_writer g) \<and>
     given room (content n) (ge_writer g)"

lemma written_Suc:
  "written pre emit rows (Suc n) = written pre emit rows n @ concat (emit (rows ! (n mod length rows)) (int n))"
  by (simp add: written_def)

text \<open>
  How a pass ends: with a failed write, because the file was too small, or with more rows, each of which but the
  last left the target out of reach.
\<close>

definition passed :: "nat \<Rightarrow> int \<Rightarrow> (nat \<Rightarrow> bytes) \<Rightarrow> nat \<Rightarrow> nat \<Rightarrow> Gen \<Rightarrow> bool" where
  "passed room target content n n' g \<longleftrightarrow> n \<le> n' \<and> (\<forall>m. n \<le> m \<and> m < n' \<longrightarrow> int (length (content m)) < target) \<and>
     (if wr_failed (ge_writer g)
      then int (length (content n')) < target \<and> room < length (content (Suc n')) \<and> given room (content (Suc n')) (ge_writer g)
      else gen_inv room content n' g)"

lemma gen_pass_passed:
  assumes "gen_inv room (written pre emit rows) n g" "ge_bytes g < target" "n mod length rows + length rows' = length rows"
    "rows' = drop (n mod length rows) rows"
  shows "\<exists>n'. passed room target (written pre emit rows) n n' (gen_pass room target emit rows' g) \<and>
    (\<not> wr_failed (ge_writer (gen_pass room target emit rows' g)) \<longrightarrow>
      target \<le> ge_bytes (gen_pass room target emit rows' g) \<or> n' = n + length rows')"
  using assms
proof (induction rows' arbitrary: n g)
  case Nil
  then show ?case by (auto simp: passed_def gen_inv_def intro!: exI [of _ n])
next
  case (Cons row rows')
  let ?c = "written pre emit rows" and ?L = "length rows"
  let ?ps = "emit row (int n)" and ?w = "write_all room (emit row (int n)) (ge_writer g)"
  have lt: "n mod ?L < ?L" using Cons.prems(3) by simp
  have "row # rows' = rows ! (n mod ?L) # drop (Suc (n mod ?L)) rows"
    using Cons.prems(4) Cons_nth_drop_Suc [OF lt] by simp
  then have j: "n mod ?L < ?L" "rows ! (n mod ?L) = row" "rows' = drop (Suc (n mod ?L)) rows" using lt by simp_all
  have c: "?c (Suc n) = ?c n @ concat ?ps" using j(2) by (simp add: written_Suc)
  have g: "ge_rows g = int n" "ge_bytes g = int (length (?c n))" "given room (?c n) (ge_writer g)"
    using Cons.prems(1) by (simp_all add: gen_inv_def)
  have w: "given room (?c (Suc n)) ?w" unfolding c by (rule given_write_all [OF g(3)])
  show ?case
  proof (cases "wr_failed ?w")
    case True
    then show ?thesis
      using w Cons.prems(2) g by (intro exI [of _ n]) (simp add: passed_def given_def Let_def)
  next
    case False
    define g' where "g' = g\<lparr>ge_bytes := ge_bytes g + int (length (concat ?ps)), ge_rows := ge_rows g + 1, ge_writer := ?w\<rparr>"
    have inv: "gen_inv room ?c (Suc n) g'" using False w g by (simp add: gen_inv_def g'_def c)
    have step: "gen_pass room target emit (row # rows') g =
        (if target \<le> ge_bytes g' then g' else gen_pass room target emit rows' g')"
      using False g(1) by (simp add: g'_def Let_def)
    show ?thesis
    proof (cases "target \<le> ge_bytes g'")
      case True
      then show ?thesis
        using inv Cons.prems(2) g(2) unfolding step
        by (intro exI [of _ "Suc n"]) (auto simp: passed_def gen_inv_def less_Suc_eq)
    next
      case nt: False
      show ?thesis
      proof (cases "rows' = []")
        case True
        then show ?thesis
          using inv Cons.prems(2) g(2) nt unfolding step
          by (intro exI [of _ "Suc n"]) (auto simp: passed_def gen_inv_def less_Suc_eq)
      next
        case False
        have "Suc (n mod ?L) < ?L" using False j(3) by (simp add: not_less)
        then have m: "Suc n mod ?L = Suc (n mod ?L)" by (metis mod_Suc nat_neq_iff)
        have "Suc n mod ?L + length rows' = ?L" "rows' = drop (Suc n mod ?L) rows" using Cons.prems(3) j(3) m by simp_all
        from Cons.IH [OF inv _ this] nt obtain n' where
          "passed room target ?c (Suc n) n' (gen_pass room target emit rows' g')"
          "\<not> wr_failed (ge_writer (gen_pass room target emit rows' g')) \<longrightarrow>
            target \<le> ge_bytes (gen_pass room target emit rows' g') \<or> n' = Suc n + length rows'" by auto
        then show ?thesis
          using nt Cons.prems(2) g(2) unfolding step
          by (intro exI [of _ n']) (auto simp: passed_def Suc_le_eq le_eq_less_or_eq [of n])
      qed
    qed
  qed
qed


lemma passed_trans:
  assumes "gen_inv room content n' g'" "passed room target content n n' g'" "passed room target content n' n'' g''"
  shows "passed room target content n n'' g''"
proof -
  have "\<not> wr_failed (ge_writer g')" using assms(1) by (simp add: gen_inv_def)
  then show ?thesis using assms(2,3) unfolding passed_def by (metis le_trans not_le)
qed

lemma written_grows:
  assumes "\<And>row n. row \<in> set rows \<Longrightarrow> concat (emit row n) \<noteq> []" "rows \<noteq> []" "n < n'"
  shows "length (written pre emit rows n) < length (written pre emit rows n')"
  using assms(3)
proof (induction n')
  case (Suc n')
  have "concat (emit (rows ! (n' mod length rows)) (int n')) \<noteq> []" using assms(1,2) by simp
  then have "length (written pre emit rows n') < length (written pre emit rows (Suc n'))" unfolding written_Suc by simp
  then show ?case using Suc by (cases "n = n'") auto
qed simp

text \<open>The loops end, since every row adds a byte, at the first row that reaches the target or at a write that fails.\<close>

lemma gen_loop_ends:
  assumes "\<And>row n. row \<in> set rows \<Longrightarrow> concat (emit row n) \<noteq> []" "rows \<noteq> []"
    "gen_inv room (written pre emit rows) n g" "n mod length rows = 0"
  shows "\<exists>g' n'. gen_loop room target emit rows g = Some g' \<and> passed room target (written pre emit rows) n n' g' \<and>
    (wr_failed (ge_writer g') \<or> target \<le> ge_bytes g')"
  using assms(3,4)
proof (induction "nat (target - ge_bytes g)" arbitrary: n g rule: less_induct)
  case less
  let ?c = "written pre emit rows" and ?g = "gen_pass room target emit rows g"
  have g: "\<not> wr_failed (ge_writer g)" "ge_bytes g = int (length (?c n))" using less.prems(1) by (simp_all add: gen_inv_def)
  show ?case
  proof (cases "target \<le> ge_bytes g")
    case True
    then show ?thesis
      using less.prems(1) g by (subst gen_loop.simps) (auto simp: passed_def intro!: exI [of _ n])
  next
    case False
    then have loop: "gen_loop room target emit rows g = gen_loop room target emit rows ?g"
      using g by (subst gen_loop.simps) simp
    obtain n1 where n1: "passed room target ?c n n1 ?g"
      "\<not> wr_failed (ge_writer ?g) \<longrightarrow> target \<le> ge_bytes ?g \<or> n1 = n + length rows"
      using gen_pass_passed [OF less.prems(1), of target rows] False less.prems(2) by auto
    show ?thesis
    proof (cases "wr_failed (ge_writer ?g) \<or> target \<le> ge_bytes ?g")
      case True
      then have "gen_loop room target emit rows ?g = Some ?g" by (subst gen_loop.simps) simp
      then show ?thesis using loop n1(1) True by auto
    next
      case nf: False
      then have inv: "gen_inv room ?c n1 ?g" and n1': "n1 = n + length rows" using n1 by (simp_all add: passed_def)
      then have "ge_bytes g < ge_bytes ?g"
        using written_grows [OF assms(1,2), where n = n and n' = n1 and pre = pre] assms(2) g(2) by (simp add: gen_inv_def)
      then have "nat (target - ge_bytes ?g) < nat (target - ge_bytes g)" using nf by simp
      from less.hyps [OF this inv] n1' less.prems(2) obtain g' n' where
        "gen_loop room target emit rows ?g = Some g'" "passed room target ?c n1 n' g'" "wr_failed (ge_writer g') \<or> target \<le> ge_bytes g'"
        by auto
      then show ?thesis using loop passed_trans [OF inv n1(1)] by auto
    qed
  qed
qed


text \<open>The loops from an empty file on.\<close>

lemma gen_loop_output:
  assumes "\<And>row n. row \<in> set rows \<Longrightarrow> concat (emit row n) \<noteq> []" "rows \<noteq> []" "given room pre w" "\<not> wr_failed w"
  obtains g n where "gen_loop room target emit rows \<lparr>ge_bytes = int (length pre), ge_rows = 0, ge_writer = w\<rparr> = Some g"
    "\<forall>m<n. int (length (written pre emit rows m)) < target"
    "wr_failed (ge_writer g) \<longrightarrow>
      int (length (written pre emit rows n)) < target \<and> room < length (written pre emit rows (Suc n))"
    "\<not> wr_failed (ge_writer g) \<longrightarrow> ge_rows g = int n \<and> ge_bytes g = int (length (written pre emit rows n)) \<and>
      target \<le> ge_bytes g \<and> wr_file (Flush room (ge_writer g)) = take room (written pre emit rows n) \<and>
      length (written pre emit rows n) \<le> length (wr_file (Flush room (ge_writer g))) + buffer_size"
proof -
  let ?g = "\<lparr>ge_bytes = int (length pre), ge_rows = 0, ge_writer = w\<rparr>"
  have "gen_inv room (written pre emit rows) 0 ?g" using assms(3,4) by (simp add: gen_inv_def written_def)
  from gen_loop_ends [OF assms(1,2) this mod_0, of target] obtain g n where
    g: "gen_loop room target emit rows ?g = Some g" "passed room target (written pre emit rows) 0 n g"
      "wr_failed (ge_writer g) \<or> target \<le> ge_bytes g" by auto
  show ?thesis
    by (rule that [OF g(1), of n])
      (use g(2,3) given_close [of room "written pre emit rows n" "ge_writer g"] in \<open>auto simp: passed_def gen_inv_def\<close>)
qed

subsection \<open>CSV\<close>

record csvNormalizer =
  cn_enabled :: bool
  cn_tradeIDIndex :: nat
  cn_tradeTimeIndex :: nat
  cn_baseTradeID :: int
  cn_lastTradeID :: int
  cn_baseTradeTime :: int
  cn_lastTradeTime :: int
  cn_rowCount :: int

definition zero_csvNormalizer :: csvNormalizer where
  "zero_csvNormalizer = \<lparr>cn_enabled = False, cn_tradeIDIndex = 0, cn_tradeTimeIndex = 0, cn_baseTradeID = 0,
     cn_lastTradeID = 0, cn_baseTradeTime = 0, cn_lastTradeTime = 0, cn_rowCount = 0\<rparr>"

fun csv_scan :: "nat \<Rightarrow> nat \<Rightarrow> nat \<Rightarrow> string list list \<Rightarrow> csvNormalizer \<Rightarrow> csvNormalizer" where
  "csv_scan idIndex timeIndex i [] n = n"
| "csv_scan idIndex timeIndex i (row # rows) n =
     (if idIndex \<ge> length row \<or> timeIndex \<ge> length row then zero_csvNormalizer
      else case ParseInt (row ! idIndex) of
             Inl _ \<Rightarrow> zero_csvNormalizer
           | Inr tid \<Rightarrow>
               (case ParseInt (row ! timeIndex) of
                  Inl _ \<Rightarrow> zero_csvNormalizer
                | Inr tradeTime \<Rightarrow>
                    (let n1 = (if i = 0 then n\<lparr>cn_enabled := True, cn_tradeIDIndex := idIndex, cn_tradeTimeIndex := timeIndex,
                                 cn_baseTradeID := tid, cn_baseTradeTime := tradeTime\<rparr> else n)
                     in csv_scan idIndex timeIndex (Suc i) rows
                          (n1\<lparr>cn_lastTradeID := tid, cn_lastTradeTime := tradeTime, cn_rowCount := cn_rowCount n1 + 1\<rparr>))))"

definition newCSVNormalizer :: "header \<Rightarrow> string list list \<Rightarrow> csvNormalizer" where
  "newCSVNormalizer hdr rows =
     (case (hdr ''trade_id'', hdr ''trade_time'') of
        (Some idIndex, Some timeIndex) \<Rightarrow>
          (if rows = [] then zero_csvNormalizer else csv_scan idIndex timeIndex 0 rows zero_csvNormalizer)
      | _ \<Rightarrow> zero_csvNormalizer)"

text \<open>The indexes are in range: the rows are those that the normalizer was made from.\<close>

definition csv_normalize :: "csvNormalizer \<Rightarrow> string list \<Rightarrow> int \<Rightarrow> string list" where
  "csv_normalize n row emittedRows =
     (if \<not> cn_enabled n \<or> cn_rowCount n \<le> 0 then row
      else case (ParseInt (row ! cn_tradeIDIndex n), ParseInt (row ! cn_tradeTimeIndex n)) of
             (Inr tid, Inr tradeTime) \<Rightarrow>
               (let idSpan = wrap64 (cn_lastTradeID n - cn_baseTradeID n + 1);
                    timeSpan = wrap64 (cn_lastTradeTime n - cn_baseTradeTime n + 1);
                    cycle = quot64 emittedRows (cn_rowCount n)
                in row[cn_tradeIDIndex n := FormatInt (wrap64 (tid + cycle * idSpan)),
                       cn_tradeTimeIndex n := FormatInt (wrap64 (tradeTime + cycle * timeSpan))])
           | _ \<Rightarrow> row)"

definition csvRecordBytes :: "string list \<Rightarrow> int" where
  "csvRecordBytes row = int (length (csv_write row))"

text \<open>The result with the counters of the loops, or the error of a write, and the file that the deferred flush leaves.\<close>

definition generate_result :: "GenerateOptions \<Rightarrow> Disk \<Rightarrow> Gen \<Rightarrow> (generate_error + GenerateResult) \<times> bytes option" where
  "generate_result opts disk g =
     (if wr_failed (ge_writer g) then Inl OutputWrite
      else Inr \<lparr>gr_SourcePath = go_SourcePath opts, gr_OutputPath = go_OutputPath opts, gr_TargetBytes = go_TargetBytes opts,
             gr_BytesWritten = ge_bytes g, gr_RowsWritten = ge_rows g\<rparr>,
      Some (wr_file (Flush (dk_room disk) (ge_writer g))))"

definition generateCSV ::
  "GenerateOptions \<Rightarrow> Disk \<Rightarrow> bytes \<Rightarrow> ((generate_error + GenerateResult) \<times> bytes option) option" where
  "generateCSV opts disk source =
     (case csv_read_all False source of
        Inl e \<Rightarrow> Some (Inl (SourceCsv e), None)
      | Inr records \<Rightarrow>
          (if length records < 2 then Some (Inl NoCsvRows, None)
           else if \<not> dk_creatable disk (go_OutputPath opts) then Some (Inl OutputCreate, None)
           else let header = hd records; rows = tl records;
                    w = write_all (dk_room disk) (csv_pieces header) NewWriter
                in if wr_failed w then Some (Inl OutputWrite, Some (wr_file (Flush (dk_room disk) w)))
                   else let normalizer = newCSVNormalizer (indexHeader header) rows
                        in map_option (generate_result opts disk)
                             (gen_loop (dk_room disk) (go_TargetBytes opts)
                               (\<lambda>row n. csv_pieces (csv_normalize normalizer row n)) rows
                               \<lparr>ge_bytes = csvRecordBytes header, ge_rows = 0, ge_writer = w\<rparr>)))"

text \<open>The rows that the output should have after the header: those of the source over and over, moved on.\<close>

definition csv_output_rows :: "string list \<Rightarrow> string list list \<Rightarrow> nat \<Rightarrow> string list list" where
  "csv_output_rows header rows n =
     map (\<lambda>k. csv_normalize (newCSVNormalizer (indexHeader header) rows) (rows ! (k mod length rows)) (int k)) [0..<n]"

definition csv_output :: "string list \<Rightarrow> string list list \<Rightarrow> nat \<Rightarrow> bytes" where
  "csv_output header rows n = concat (map csv_write (header # csv_output_rows header rows n))"

lemma csv_output_written:
  "csv_output header rows n = written (csv_write header)
     (\<lambda>row n. csv_pieces (csv_normalize (newCSVNormalizer (indexHeader header) rows) row n)) rows n"
  by (simp add: csv_output_def csv_output_rows_def written_def concat_csv_pieces comp_def)

lemma csv_write_ne: "csv_write fs \<noteq> []"
  by (cases fs rule: csv_write.cases) simp_all


lemma generateCSV_output:
  assumes "csv_read_all False source = Inr (header # rows)" "rows \<noteq> []" "dk_creatable disk (go_OutputPath opts)"
  shows "\<exists>n res out. generateCSV opts disk source = Some (res, Some out) \<and>
    (\<forall>m<n. int (length (csv_output header rows m)) < go_TargetBytes opts) \<and>
    (res = Inl OutputWrite \<and> dk_room disk < length (csv_output header rows (Suc n)) \<or>
     (\<exists>r. res = Inr r \<and> gr_RowsWritten r = int n \<and> gr_BytesWritten r = int (length (csv_output header rows n)) \<and>
       go_TargetBytes opts \<le> gr_BytesWritten r \<and> out = take (dk_room disk) (csv_output header rows n) \<and>
       gr_BytesWritten r \<le> int (length out) + 4096))"
proof -
  let ?room = "dk_room disk" and ?pre = "csv_write header" and ?w = "write_all (dk_room disk) (csv_pieces header) NewWriter"
  let ?emit = "\<lambda>row n. csv_pieces (csv_normalize (newCSVNormalizer (indexHeader header) rows) row n)"
  have len: "\<not> length (header # rows) < 2" using assms(2) by (cases rows) auto
  have w: "given ?room ?pre ?w"
    using given_write_all [OF given_NewWriter, of ?room "csv_pieces header"] by (simp add: concat_csv_pieces)
  have ne: "concat (?emit row n) \<noteq> []" for row n by (simp add: concat_csv_pieces csv_write_ne)
  show ?thesis
  proof (cases "wr_failed ?w")
    case True
    then have "generateCSV opts disk source = Some (Inl OutputWrite, Some (wr_file (Flush ?room ?w)))"
      using assms len by (simp add: generateCSV_def Let_def)
    moreover have "?room < length (csv_output header rows (Suc 0))"
      using True w by (simp add: given_def csv_output_def)
    ultimately show ?thesis by (intro exI [of _ 0]) simp
  next
    case False
    obtain g n where
      g: "gen_loop ?room (go_TargetBytes opts) ?emit rows \<lparr>ge_bytes = int (length ?pre), ge_rows = 0, ge_writer = ?w\<rparr> = Some g"
      "\<forall>m<n. int (length (csv_output header rows m)) < go_TargetBytes opts"
      "wr_failed (ge_writer g) \<longrightarrow>
        int (length (csv_output header rows n)) < go_TargetBytes opts \<and> ?room < length (csv_output header rows (Suc n))"
      "\<not> wr_failed (ge_writer g) \<longrightarrow> ge_rows g = int n \<and> ge_bytes g = int (length (csv_output header rows n)) \<and>
        go_TargetBytes opts \<le> ge_bytes g \<and> wr_file (Flush ?room (ge_writer g)) = take ?room (csv_output header rows n) \<and>
        length (csv_output header rows n) \<le> length (wr_file (Flush ?room (ge_writer g))) + buffer_size"
      by (rule gen_loop_output [where emit = ?emit, OF ne assms(2) w False, of "go_TargetBytes opts", folded csv_output_written])
    have "generateCSV opts disk source = Some (generate_result opts disk g)"
      using assms len False g(1) by (simp add: generateCSV_def csvRecordBytes_def Let_def)
    then show ?thesis
      using g(2-4) by (intro exI [of _ n]) (auto simp: generate_result_def buffer_size_def)
  qed
qed

text \<open>
  C31: what the CSV generator writes. For every source with a header and a row, and a file that can be created, it ends. It
  writes the header and then the rows of the source over and over, moved on, up to the first row with which the target is
  reached. Without an error the result counts those rows and bytes, and the file is as much of them as fits; at most a
  buffer of 4096 bytes is missing from it, of which no error tells. An error means that the file is too small.
\<close>

theorem csv_workload:
  assumes "csv_read_all False source = Inr (header # rows)" "rows \<noteq> []" "dk_creatable disk (go_OutputPath opts)"
  shows "\<exists>n res out. generateCSV opts disk source = Some (res, Some out) \<and>
    (\<forall>m<n. int (length (csv_output header rows m)) < go_TargetBytes opts) \<and>
    (res = Inl OutputWrite \<and> dk_room disk < length (csv_output header rows (Suc n)) \<or>
     (\<exists>r. res = Inr r \<and> gr_RowsWritten r = int n \<and> gr_BytesWritten r = int (length (csv_output header rows n)) \<and>
       go_TargetBytes opts \<le> gr_BytesWritten r \<and> out = take (dk_room disk) (csv_output header rows n) \<and>
       gr_BytesWritten r \<le> int (length out) + 4096))"
  by (rule generateCSV_output [OF assms])

subsection \<open>The generator at work\<close>

text \<open>Two trades, repeated until a file of 150 bytes is reached.\<close>

definition sample_trades :: bytes where
  "sample_trades = ''type,symbol,trade_id,trade_time,price,quantity,is_buyer_maker'' @ [CHR 0x0A] @
     ''trade,btcusdt,7,1000,1.5,2,true'' @ [CHR 0x0A] @ ''trade,btcusdt,8,1004,1.6,3,false'' @ [CHR 0x0A]"

definition sample_trade_header :: "string list" where
  "sample_trade_header = [''type'', ''symbol'', ''trade_id'', ''trade_time'', ''price'', ''quantity'', ''is_buyer_maker'']"

definition sample_trade_rows :: "string list list" where
  "sample_trade_rows = [[''trade'', ''btcusdt'', ''7'', ''1000'', ''1.5'', ''2'', ''true''],
     [''trade'', ''btcusdt'', ''8'', ''1004'', ''1.6'', ''3'', ''false'']]"

definition sample_options :: GenerateOptions where
  "sample_options = \<lparr>go_SourcePath = ''a.csv'', go_OutputPath = ''b.csv'', go_TargetBytes = 150\<rparr>"

definition sample_disk :: Disk where
  "sample_disk = \<lparr>dk_files = (\<lambda>p. if p = ''a.csv'' then Some sample_trades else None), dk_creatable = (\<lambda>_. True), dk_room = 1000\<rparr>"

lemma sample_trades_read: "csv_read_all False sample_trades = Inr (sample_trade_header # sample_trade_rows)"
  by code_simp

lemma sample_trades_generated:
  obtains r out where "generateCSV sample_options sample_disk sample_trades = Some (Inr r, Some out)"
    "gr_RowsWritten r = 3" "gr_BytesWritten r = 159" "length out = 159"
proof -
  have c: "case generateCSV sample_options sample_disk sample_trades of
      Some (Inr r, Some out) \<Rightarrow> gr_RowsWritten r = 3 \<and> gr_BytesWritten r = 159 \<and> length out = 159
    | _ \<Rightarrow> False"
    by code_simp
  then obtain res out where e: "generateCSV sample_options sample_disk sample_trades = Some (res, out)"
    by (cases "generateCSV sample_options sample_disk sample_trades") auto
  show ?thesis using c that unfolding e by (cases res; cases out) auto
qed

theorem csv_workload_witness:
  "\<exists>n res out. generateCSV sample_options sample_disk sample_trades = Some (res, Some out) \<and>
    (\<exists>r. res = Inr r \<and> gr_RowsWritten r = 3 \<and> n = 3 \<and> out = csv_output sample_trade_header sample_trade_rows 3 \<and> length out = 159)"
proof -
  obtain r out where g: "generateCSV sample_options sample_disk sample_trades = Some (Inr r, Some out)"
    "gr_RowsWritten r = 3" "gr_BytesWritten r = 159" "length out = 159"
    by (rule sample_trades_generated)
  have "dk_creatable sample_disk (go_OutputPath sample_options)" by (simp add: sample_disk_def)
  from csv_workload [OF sample_trades_read _ this] g show ?thesis
    by (auto simp: sample_trade_rows_def)
qed

end
