(* ===== verification/Workload_Trades.thy ===== *)
theory Workload_Trades
  imports Workload
begin

section \<open>internal/workload: repeated trades stay in sequence\<close>

text \<open>
  What the CSV generator, the parser and the validator do together: a file made by repeating clean trades of one symbol is
  clean again, since every repetition moves the trade ids and the times on past those of the one before.
\<close>

subsection \<open>Columns\<close>

lemma indexHeader_snoc:
  "indexHeader (names @ [name]) = (indexHeader names)(ToLower (TrimSpace name) \<mapsto> length names)"
  by (simp add: indexHeader_def enumerate_append_eq)

lemma indexHeader_Some:
  "indexHeader names k = Some i \<Longrightarrow> i < length names \<and> ToLower (TrimSpace (names ! i)) = k"
proof (induction names rule: rev_induct)
  case (snoc name names)
  then show ?case by (auto simp: indexHeader_snoc nth_append split: if_splits)
qed (simp add: indexHeader_def)

lemma indexHeader_inj: "indexHeader names k = Some i \<Longrightarrow> indexHeader names k' = Some i \<Longrightarrow> k = k'"
  using indexHeader_Some by metis

lemma parse_digits_Inr: "parse_digits n s = Inr m \<Longrightarrow> list_all is_digit s"
  by (induction n s rule: parse_digits.induct) (auto simp: Let_def split: if_splits)

lemma number_char:
  assumes "is_digit c \<or> c = CHR ''+'' \<or> c = CHR ''-''"
  shows "\<not> is_space c" "c \<noteq> CHR 0x0D"
proof -
  have "\<not> is_space c \<and> c \<noteq> CHR 0x0D" if "is_digit c"
  proof -
    have "c \<noteq> d" if "\<not> is_digit d" for d using that \<open>is_digit c\<close> by auto
    moreover have "is_space c \<Longrightarrow> \<not> is_digit c"
      by (auto simp: is_space_def is_digit_def)
    ultimately show ?thesis using \<open>is_digit c\<close> by (auto simp: is_digit_def)
  qed
  then show "\<not> is_space c" "c \<noteq> CHR 0x0D" using assms by (auto simp: is_space_def)
qed

lemma ParseInt_text:
  assumes "ParseInt s = Inr v"
  shows "TrimSpace s = s" "s \<noteq> []" "CHR 0x0D \<notin> set s"
proof -
  obtain c cs where s: "s = c # cs" using assms by (cases s) (simp_all add: ParseInt_def)
  let ?body = "if c = CHR ''+'' \<or> c = CHR ''-'' then cs else s"
  obtain un where "parse_digits 0 ?body = Inr un"
    using assms unfolding s
    by (cases "ParseUint ?body") (simp_all add: ParseInt_def ParseUint_def Let_def s split: if_split_asm)
  then have "list_all is_digit ?body" by (rule parse_digits_Inr)
  then have "list_all (\<lambda>c. is_digit c \<or> c = CHR ''+'' \<or> c = CHR ''-'') s"
    by (auto simp: s list_all_iff split: if_split_asm)
  then have chars: "\<forall>c\<in>set s. \<not> is_space c \<and> c \<noteq> CHR 0x0D" using number_char by (auto simp: list_all_iff)
  then show "CHR 0x0D \<notin> set s" by blast
  show ne: "s \<noteq> []" using s by simp
  show "TrimSpace s = s" using chars ne by (intro TrimSpace_id) simp_all
qed

lemma csvInt_column:
  assumes "hdr k = Some i" "i < length row" "ParseInt (row ! i) = Inr v"
  shows "csvInt row hdr k = Inr v"
  using ParseInt_text [OF assms(3)] assms by (simp add: csvInt_def csvValue_def)

subsection \<open>A row that is moved on\<close>

text \<open>
  Trades without a column of event times, read from a row whose id and time are in columns \<open>i\<close> and \<open>t\<close>.
\<close>

definition trade_row :: "header \<Rightarrow> nat \<Rightarrow> nat \<Rightarrow> string \<Rightarrow> string list \<Rightarrow> int \<Rightarrow> int \<Rightarrow> bool" where
  "trade_row hdr i t sy row x y \<longleftrightarrow> i < length row \<and> t < length row \<and> ParseInt (row ! i) = Inr x \<and> ParseInt (row ! t) = Inr y \<and>
     csvValue row hdr ''event_time'' = '''' \<and> ev_Type (parseCSV_base row hdr 0) = EventTypeAggTrade \<and>
     ev_Symbol (parseCSV_base row hdr 0) = sy \<and> sy \<noteq> '''' \<and> ev_Price (parseCSV_base row hdr 0) \<noteq> '''' \<and>
     ev_Quantity (parseCSV_base row hdr 0) \<noteq> '''' \<and> \<not> isl (ParseBool (csvValue row hdr ''is_buyer_maker''))"

lemma parseCSV_base_line: "parseCSV_base row hdr l = (parseCSV_base row hdr 0)\<lparr>ev_Line := l\<rparr>"
  by (simp add: parseCSV_base_def Let_def)

lemma trade_row_parses:
  assumes "trade_row hdr i t sy row x y" "hdr ''trade_id'' = Some i" "hdr ''trade_time'' = Some t" "0 < x" "0 < y"
  shows "\<exists>ev. parseCSV row hdr l = Inr ev \<and> ev_Type ev = EventTypeAggTrade \<and> ev_Symbol ev = sy \<and> ev_TradeID ev = x \<and>
    EventTimeMillis ev = y"
proof -
  note r = assms(1) [unfolded trade_row_def]
  have "csvInt row hdr ''trade_id'' = Inr x" "csvInt row hdr ''trade_time'' = Inr y"
    using r assms(2,3) by (auto intro: csvInt_column)
  moreover obtain b where "ParseBool (csvValue row hdr ''is_buyer_maker'') = Inr b"
    using r by (cases "ParseBool (csvValue row hdr ''is_buyer_maker'')") simp_all
  moreover have "ev_EventTimeMS (parseCSV_base row hdr 0) = 0" by (simp add: parseCSV_base_def Let_def)
  ultimately show ?thesis
    using r assms(4,5)
    by (auto simp: parseCSV_def parseCSV_base_line [of row hdr l] parseCSV_trade_def validateEventShape_def Let_def
        EventTypeDepth_def EventTypeAggTrade_def EventTimeMillis_def)
qed

lemma csvValue_update:
  assumes "hdr k \<noteq> Some i" "hdr k \<noteq> Some t"
  shows "csvValue (row[i := a, t := b]) hdr k = csvValue row hdr k"
  using assms by (auto simp: csvValue_def split: option.splits)

lemma trade_row_moved:
  assumes "trade_row (indexHeader header) i t sy row x y" "indexHeader header ''trade_id'' = Some i"
    "indexHeader header ''trade_time'' = Some t" "int64 x'" "int64 y'"
  shows "trade_row (indexHeader header) i t sy (row[i := FormatInt x', t := FormatInt y']) x' y'"
proof -
  let ?row = "row[i := FormatInt x', t := FormatInt y']" and ?hdr = "indexHeader header"
  have it: "i \<noteq> t" using indexHeader_inj [OF assms(2), of "''trade_time''"] assms(3) by auto
  have v: "csvValue ?row ?hdr k = csvValue row ?hdr k" if "k \<noteq> ''trade_id''" "k \<noteq> ''trade_time''" for k
    using that indexHeader_inj assms(2,3) by (intro csvValue_update) blast+
  have "parseCSV_base ?row ?hdr 0 = parseCSV_base row ?hdr 0" by (simp add: parseCSV_base_def v Let_def)
  then show ?thesis
    using assms(1,4,5) it by (auto simp: trade_row_def v ParseInt_FormatInt nth_list_update)
qed

subsection \<open>Reading written rows\<close>

text \<open>Rows that a CSV reader gives back as they were written.\<close>

definition plain_row :: "string list \<Rightarrow> bool" where
  "plain_row fs \<longleftrightarrow> fs \<noteq> [] \<and> fs \<noteq> [[]] \<and> (\<forall>f \<in> set fs. CHR 0x0D \<notin> set f)"

lemma drain_csv_rows:
  assumes "\<forall>fs \<in> set rows. plain_row fs"
  shows "drain \<lparr>st_format = FormatCSV, st_input = concat (map csv_write rows), st_header = hdr, st_line = n, st_faults = 0\<rparr> =
    (map2 (\<lambda>k fs. ok_record k [] (parseCSV fs hdr k)) [n + 1..n + int (length rows)] rows, None)"
  using assms
proof (induction rows arbitrary: n)
  case Nil
  show ?case
    by (subst drain.simps) (simp add: Next_def nextCSV_def csv_read.simps csv_line_def FormatCSV_def FormatJSONL_def)
next
  case (Cons fs rows)
  let ?s = "\<lambda>n rows. \<lparr>st_format = FormatCSV, st_input = concat (map csv_write rows), st_header = hdr, st_line = n, st_faults = 0\<rparr>"
  let ?r = "\<lambda>k fs. ok_record k [] (parseCSV fs hdr k)"
  have "csv_read True (csv_write fs @ x) = CsvRecord fs x" for x
    using Cons.prems by (intro csv_read_write) (auto simp: plain_row_def)
  then have "Next (?s n (fs # rows)) = NextRecord (?r (n + 1) fs) (?s (n + 1) rows)"
    by (simp add: Next_def nextCSV_def Let_def FormatCSV_def FormatJSONL_def)
  then have "drain (?s n (fs # rows)) = (let (rs, end) = drain (?s (n + 1) rows) in (?r (n + 1) fs # rs, end))"
    by (subst drain.simps) simp
  also have "drain (?s (n + 1) rows) = (map2 ?r [n + 1 + 1..n + 1 + int (length rows)] rows, None)"
    using Cons.prems by (intro Cons.IH) simp
  finally show ?case using upto_line [of n "length rows", symmetric] by simp
qed

lemma NewStream_csv:
  assumes "plain_row header"
  shows "NewStream (concat (map csv_write (header # rows))) FormatCSV =
    Inr \<lparr>st_format = FormatCSV, st_input = concat (map csv_write rows), st_header = indexHeader header, st_line = 1, st_faults = 0\<rparr>"
  using assms csv_read_write [of header True "concat (map csv_write rows)"]
  by (simp add: NewStream_def NewReaderStream_def plain_row_def FormatCSV_def FormatJSONL_def)

subsection \<open>The rows that are written\<close>

text \<open>The scan of a source whose row \<open>k\<close> has the id \<open>x k\<close> and the time \<open>y k\<close>.\<close>

lemma csv_scan_rows:
  assumes "\<forall>k<length rows. i < length (rows ! k) \<and> t < length (rows ! k) \<and> ParseInt (rows ! k ! i) = Inr (x k) \<and>
      ParseInt (rows ! k ! t) = Inr (y k)" "rows \<noteq> []" "j \<noteq> 0"
  shows "csv_scan i t j rows n = n\<lparr>cn_lastTradeID := x (length rows - 1), cn_lastTradeTime := y (length rows - 1),
    cn_rowCount := cn_rowCount n + int (length rows)\<rparr>"
  using assms
proof (induction rows arbitrary: x y j n)
  case (Cons row rows)
  have row: "i < length row" "t < length row" "ParseInt (row ! i) = Inr (x 0)" "ParseInt (row ! t) = Inr (y 0)"
    using Cons.prems(1) by fastforce+
  have rest: "\<forall>k<length rows. i < length (rows ! k) \<and> t < length (rows ! k) \<and> ParseInt (rows ! k ! i) = Inr (x (Suc k)) \<and>
      ParseInt (rows ! k ! t) = Inr (y (Suc k))"
    using Cons.prems(1) by (metis Suc_less_eq length_Cons nth_Cons_Suc)
  show ?case
  proof (cases "rows = []")
    case True
    then show ?thesis using row Cons.prems(3) by simp
  next
    case False
    then show ?thesis using row Cons.prems(3) Cons.IH [OF rest False, of "Suc j"] by simp
  qed
qed simp

lemma newCSVNormalizer_rows:
  assumes "hdr ''trade_id'' = Some i" "hdr ''trade_time'' = Some t" "rows \<noteq> []"
    "\<forall>k<length rows. i < length (rows ! k) \<and> t < length (rows ! k) \<and> ParseInt (rows ! k ! i) = Inr (x k) \<and>
      ParseInt (rows ! k ! t) = Inr (y k)"
  shows "newCSVNormalizer hdr rows = \<lparr>cn_enabled = True, cn_tradeIDIndex = i, cn_tradeTimeIndex = t, cn_baseTradeID = x 0,
    cn_lastTradeID = x (length rows - 1), cn_baseTradeTime = y 0, cn_lastTradeTime = y (length rows - 1),
    cn_rowCount = int (length rows)\<rparr>"
proof -
  obtain row rows' where rows: "rows = row # rows'" using assms(3) by (cases rows) auto
  have row: "i < length row" "t < length row" "ParseInt (row ! i) = Inr (x 0)" "ParseInt (row ! t) = Inr (y 0)"
    using assms(4) unfolding rows by fastforce+
  have rest: "\<forall>k<length rows'. i < length (rows' ! k) \<and> t < length (rows' ! k) \<and> ParseInt (rows' ! k ! i) = Inr (x (Suc k)) \<and>
      ParseInt (rows' ! k ! t) = Inr (y (Suc k))"
    using assms(4) unfolding rows by (metis Suc_less_eq length_Cons nth_Cons_Suc)
  show ?thesis
  proof (cases "rows' = []")
    case True
    then show ?thesis using row assms(1,2) by (simp add: newCSVNormalizer_def rows zero_csvNormalizer_def)
  next
    case False
    then show ?thesis
      using row assms(1,2) csv_scan_rows [OF rest False, of "Suc 0"]
      by (simp add: newCSVNormalizer_def rows zero_csvNormalizer_def)
  qed
qed

text \<open>A source of trades of one symbol with the ids from \<open>x\<close> on and the times \<open>ys\<close>, which never go back.\<close>

definition clean_trades :: "string list \<Rightarrow> string list list \<Rightarrow> string \<Rightarrow> int \<Rightarrow> int list \<Rightarrow> bool" where
  "clean_trades header rows sy x ys \<longleftrightarrow>
     plain_row header \<and> rows \<noteq> [] \<and> length ys = length rows \<and> sorted ys \<and> 0 < x \<and> (\<forall>y \<in> set ys. 0 < y) \<and>
     (case (indexHeader header ''trade_id'', indexHeader header ''trade_time'') of
        (Some i, Some t) \<Rightarrow> \<forall>k<length rows. plain_row (rows ! k) \<and> trade_row (indexHeader header) i t sy (rows ! k) (x + int k) (ys ! k)
      | _ \<Rightarrow> False)"

definition time_span :: "int list \<Rightarrow> int" where
  "time_span ys = last ys - hd ys + 1"

text \<open>The time of row \<open>k\<close> of the output.\<close>

definition moved_time :: "int list \<Rightarrow> nat \<Rightarrow> int" where
  "moved_time ys k = ys ! (k mod length ys) + int (k div length ys) * time_span ys"

lemma time_span_pos: "ys \<noteq> [] \<Longrightarrow> sorted ys \<Longrightarrow> 0 < time_span ys"
  by (cases ys) (auto simp: time_span_def)

lemma moved_time_mono:
  assumes "ys \<noteq> []" "sorted ys"
  shows "moved_time ys k \<le> moved_time ys (Suc k)"
proof (cases "Suc (k mod length ys) = length ys")
  case True
  then have "Suc k mod length ys = 0" "Suc k div length ys = Suc (k div length ys)" by (simp_all add: mod_Suc div_Suc)
  moreover have "k mod length ys = length ys - 1" using True by simp
  then have "ys ! (k mod length ys) = last ys" using assms(1) by (simp only: last_conv_nth not_False_eq_True)
  ultimately show ?thesis using assms(1) by (simp add: moved_time_def time_span_def algebra_simps hd_conv_nth)
next
  case False
  then have "Suc k mod length ys = Suc (k mod length ys)" "Suc k div length ys = k div length ys"
    by (simp_all add: mod_Suc div_Suc)
  moreover have "Suc (k mod length ys) < length ys" using False assms(1) by (metis Suc_lessI length_greater_0_conv mod_less_divisor)
  ultimately show ?thesis using assms(2) by (simp add: moved_time_def sorted_nth_mono)
qed

lemma moved_time_bound:
  assumes "ys \<noteq> []" "sorted ys" "\<forall>y \<in> set ys. 0 < y" "k \<le> n"
  shows "0 < moved_time ys k" "moved_time ys k \<le> last ys + int (n div length ys) * time_span ys"
proof -
  have m: "k mod length ys < length ys" using assms(1) by simp
  then have "k mod length ys \<le> length ys - 1" by simp
  then have "ys ! (k mod length ys) \<le> last ys"
    using sorted_nth_mono [OF assms(2), of "k mod length ys" "length ys - 1"] assms(1) by (simp add: last_conv_nth)
  moreover have "int (k div length ys) * time_span ys \<le> int (n div length ys) * time_span ys"
    using time_span_pos [OF assms(1,2)] assms(4) by (intro mult_right_mono) (simp_all add: div_le_mono)
  ultimately show "moved_time ys k \<le> last ys + int (n div length ys) * time_span ys" by (simp add: moved_time_def)
  have "0 < ys ! (k mod length ys)" using assms(3) m by simp
  then show "0 < moved_time ys k" using time_span_pos [OF assms(1,2)] by (simp add: moved_time_def add_pos_nonneg)
qed

lemma plain_row_update:
  assumes "plain_row fs" "CHR 0x0D \<notin> set a" "CHR 0x0D \<notin> set b" "a \<noteq> []" "b \<noteq> []"
  shows "plain_row (fs[i := a, t := b])"
proof -
  have "set (fs[i := a, t := b]) \<subseteq> insert b (insert a (set fs))"
    by (meson insert_mono order_trans set_update_subset_insert)
  moreover have "fs[i := a, t := b] \<noteq> [[]]" using assms by (cases fs; cases i; cases t) (auto simp: plain_row_def)
  ultimately show ?thesis using assms by (auto simp: plain_row_def)
qed

lemma csv_output_row:
  assumes "clean_trades header rows sy x ys" "k < n" "x + int n \<le> 2 ^ 63"
    "last ys + int (n div length rows) * time_span ys < 2 ^ 63"
  defines "row \<equiv> csv_normalize (newCSVNormalizer (indexHeader header) rows) (rows ! (k mod length rows)) (int k)"
  shows "plain_row row" "\<exists>ev. parseCSV row (indexHeader header) l = Inr ev \<and> ev_Type ev = EventTypeAggTrade \<and> ev_Symbol ev = sy \<and>
    ev_TradeID ev = x + int k \<and> EventTimeMillis ev = moved_time ys k"
proof -
  let ?L = "length rows" and ?hdr = "indexHeader header"
  obtain i t where it: "?hdr ''trade_id'' = Some i" "?hdr ''trade_time'' = Some t"
    and rows: "\<forall>k<?L. plain_row (rows ! k) \<and> trade_row ?hdr i t sy (rows ! k) (x + int k) (ys ! k)"
    using assms(1) by (auto simp: clean_trades_def split: option.splits)
  have src: "rows \<noteq> []" "ys \<noteq> []" "length ys = ?L" "sorted ys" "0 < x" "\<forall>y \<in> set ys. 0 < y"
    using assms(1) by (auto simp: clean_trades_def)
  let ?m = "k mod ?L" and ?c = "int (k div ?L)"
  have m: "?m < ?L" using src(1) by simp
  have N: "newCSVNormalizer ?hdr rows = \<lparr>cn_enabled = True, cn_tradeIDIndex = i, cn_tradeTimeIndex = t, cn_baseTradeID = x,
    cn_lastTradeID = x + int (?L - 1), cn_baseTradeTime = ys ! 0, cn_lastTradeTime = ys ! (?L - 1), cn_rowCount = int ?L\<rparr>"
    using newCSVNormalizer_rows [of ?hdr i t rows "\<lambda>k. x + int k" "\<lambda>k. ys ! k"] it src(1) rows by (simp add: trade_row_def)
  have tr: "trade_row ?hdr i t sy (rows ! ?m) (x + int ?m) (ys ! ?m)" and pl: "plain_row (rows ! ?m)" using rows m by auto
  have id: "x + int ?m + ?c * int ?L = x + int k" by (simp flip: of_nat_mult of_nat_add)
  have last: "ys ! (?L - 1) = last ys" "ys ! 0 = hd ys" using src(2,3) by (simp_all add: last_conv_nth hd_conv_nth)
  have "trade_row ?hdr i t sy (rows ! (?L - 1)) (x + int (?L - 1)) (ys ! (?L - 1))" using rows src(1) by simp
  then have "int64 (x + int (?L - 1))" "int64 (last ys)" using ParseInt_int64 last(1) by (auto simp: trade_row_def)
  moreover have "0 < hd ys" "hd ys \<le> last ys" using src(2,6) time_span_pos [OF src(2,4)] by (simp_all add: time_span_def)
  ultimately have "int64 (last ys - hd ys + 1)" "int64 (int ?L)" using src(1,5) by (simp_all add: int64_def)
  then have spans: "wrap64 (x + int (?L - 1) - x + 1) = int ?L" "wrap64 (last ys - hd ys + 1) = time_span ys"
    using src(1) by (simp_all add: time_span_def Suc_leI)
  have fit: "int64 (x + int k)" "int64 (moved_time ys k)" "0 < moved_time ys k"
    using moved_time_bound [OF src(2,4,6), of k n] assms(2-4) src(3,5) by (simp_all add: int64_def)
  have "row = (rows ! ?m)[i := FormatInt (x + int k), t := FormatInt (moved_time ys k)]"
    using tr src(1,3) fit(1,2) unfolding row_def N
    by (simp add: csv_normalize_def trade_row_def last [simplified] spans [simplified] id quot64_nonneg Let_def moved_time_def
        flip: zdiv_int)
  moreover have "trade_row ?hdr i t sy \<dots> (x + int k) (moved_time ys k)" by (rule trade_row_moved [OF tr it fit(1,2)])
  ultimately have row: "row = (rows ! ?m)[i := FormatInt (x + int k), t := FormatInt (moved_time ys k)]"
    "trade_row ?hdr i t sy row (x + int k) (moved_time ys k)" by simp_all
  show "\<exists>ev. parseCSV row (indexHeader header) l = Inr ev \<and> ev_Type ev = EventTypeAggTrade \<and> ev_Symbol ev = sy \<and>
    ev_TradeID ev = x + int k \<and> EventTimeMillis ev = moved_time ys k"
    using trade_row_parses [OF row(2) it, of l] fit(3) src(5) by simp
  have "CHR 0x0D \<notin> set (FormatInt v)" "FormatInt v \<noteq> []" if "int64 v" for v
    using ParseInt_text(2,3) [OF ParseInt_FormatInt [OF that]] by simp_all
  then show "plain_row row" unfolding row(1) using pl fit(1,2) by (rule_tac plain_row_update) auto
qed

subsection \<open>The output is clean\<close>

text \<open>Records of trades of one symbol with consecutive ids and times that do not go back are clean.\<close>

lemma trades_clean:
  assumes "\<forall>k<length rs. rec_Err (rs ! k) = None \<and> ev_Type (rec_Event (rs ! k)) = EventTypeAggTrade \<and>
      ev_Symbol (rec_Event (rs ! k)) = sy \<and> ev_TradeID (rec_Event (rs ! k)) = x + int k \<and>
      EventTimeMillis (rec_Event (rs ! k)) = z k" "\<And>k. z k \<le> z (Suc k)"
  shows "clean_input rs"
proof -
  have mem: "rec_Err r = None" "ev_Type (rec_Event r) = EventTypeAggTrade" "ev_Symbol (rec_Event r) = sy" if "r \<in> set rs" for r
    using that assms(1) by (auto simp: in_set_conv_nth)
  have "events_of s rs = (if s = sy then map rec_Event rs else [])" for s
    using mem by (auto simp: events_of_def filter_id_conv intro!: arg_cong [of _ _ "map rec_Event"])
  moreover have "depths_of s rs = []" "trades_of s rs = events_of s rs" for s
    using mem by (auto simp: depths_of_def trades_of_def events_of_def filter_empty_conv filter_id_conv)
  moreover have "successively (\<lambda>a b. EventTimeMillis a \<le> EventTimeMillis b) (map rec_Event rs)"
    "successively (\<lambda>a b. ev_TradeID b = ev_TradeID a + 1) (map rec_Event rs)"
    using assms by (simp_all add: successively_conv_nth)
  ultimately show ?thesis using mem(1) by (simp add: clean_input_def)
qed

lemma upto_map2: "map2 f [m..m + int (length xs) - 1] xs = map (\<lambda>k. f (m + int k) (xs ! k)) [0..<length xs]"
  by (rule nth_equalityI) simp_all

lemma csv_output_clean:
  assumes "clean_trades header rows sy x ys" "x + int n \<le> 2 ^ 63" "last ys + int (n div length rows) * time_span ys < 2 ^ 63"
  shows "\<exists>s rs. NewStream (csv_output header rows n) FormatCSV = Inr s \<and> drain s = (rs, None) \<and> length rs = n \<and> clean_input rs"
proof -
  let ?out = "csv_output_rows header rows n" and ?hdr = "indexHeader header"
  let ?s = "\<lparr>st_format = FormatCSV, st_input = concat (map csv_write ?out), st_header = ?hdr, st_line = 1, st_faults = 0\<rparr>"
  let ?rs = "map (\<lambda>k. ok_record (2 + int k) [] (parseCSV (?out ! k) ?hdr (2 + int k))) [0..<n]"
  have len: "length ?out = n" by (simp add: csv_output_rows_def)
  note row = csv_output_row [OF assms(1) _ assms(2,3)]
  have "plain_row header" using assms(1) by (simp add: clean_trades_def)
  then have s: "NewStream (csv_output header rows n) FormatCSV = Inr ?s" unfolding csv_output_def by (rule NewStream_csv)
  have "\<forall>fs \<in> set ?out. plain_row fs" using row(1) by (auto simp: csv_output_rows_def)
  then have d: "drain ?s = (?rs, None)"
    using upto_map2 [of "\<lambda>k fs. ok_record k [] (parseCSV fs ?hdr k)" 2 ?out] by (simp add: drain_csv_rows len)
  have "clean_input ?rs"
  proof (rule trades_clean [where z = "moved_time ys" and sy = sy and x = x], intro allI impI)
    fix k assume "k < length ?rs"
    then have k: "k < n" by simp
    from row(2) [OF k, of "2 + int k"] k show "rec_Err (?rs ! k) = None \<and> ev_Type (rec_Event (?rs ! k)) = EventTypeAggTrade \<and>
      ev_Symbol (rec_Event (?rs ! k)) = sy \<and> ev_TradeID (rec_Event (?rs ! k)) = x + int k \<and>
      EventTimeMillis (rec_Event (?rs ! k)) = moved_time ys k"
      by (auto simp: csv_output_rows_def ok_record_def)
  next
    show "moved_time ys k \<le> moved_time ys (Suc k)" for k
      using assms(1) by (intro moved_time_mono) (auto simp: clean_trades_def)
  qed
  then show ?thesis using s d by auto
qed

text \<open>
  C32: the CSV generator makes clean workloads of clean trades. From a source with trades of one symbol, with consecutive ids,
  times that never go back and no times in a column of event times, a run that writes all it counts (and stays within
  64-bit ids and times) makes a file that the validator reads to its end, with as many rows as the result says, and in which
  it finds no failure, however often the source is repeated.
\<close>

theorem generated_trades_clean:
  assumes "csv_read_all False source = Inr (header # rows)" "clean_trades header rows sy x ys"
    "generateCSV opts disk source = Some (Inr r, Some out)" "gr_BytesWritten r \<le> int (length out)"
    "x + gr_RowsWritten r \<le> 2 ^ 63"
    "last ys + gr_RowsWritten r div int (length rows) * (last ys - hd ys + 1) < 2 ^ 63"
  shows "\<exists>res. validate_Reader t0 t1 out FormatCSV \<lparr>op_Symbol = ''''\<rparr> = Inr res \<and> vr_Rows res = gr_RowsWritten r \<and>
    vr_Failures res = []"
proof -
  have "rows \<noteq> []" using assms(2) by (simp add: clean_trades_def)
  moreover have "dk_creatable disk (go_OutputPath opts)" using assms(1,3) by (auto simp: generateCSV_def split: if_splits)
  ultimately obtain n where n: "gr_RowsWritten r = int n" "gr_BytesWritten r = int (length (csv_output header rows n))"
    "out = take (dk_room disk) (csv_output header rows n)"
    using generateCSV_output [OF assms(1), of disk opts] assms(3) by auto
  then have "out = csv_output header rows n" using assms(4) by simp
  then obtain s rs where s: "NewStream out FormatCSV = Inr s" "drain s = (rs, None)" "length rs = n" "clean_input rs"
    using csv_output_clean [OF assms(2), of n] assms(5,6) n(1) by (auto simp: time_span_def zdiv_int)
  have "list_all shaped rs" using drain_lines [of s] s(2) by (auto simp: list_all_iff shaped_def record_ok_def)
  then show ?thesis
    using run_clean [of rs] s n(1) by (simp add: validate_Reader_def validate_Stream_def foldl_Process_result)
qed

subsection \<open>The theorem at work\<close>

lemma sample_trades_clean: "clean_trades sample_trade_header sample_trade_rows ''BTCUSDT'' 7 [1000, 1004]"
  by code_simp

theorem generated_trades_clean_witness:
  "\<exists>r out res. generateCSV sample_options sample_disk sample_trades = Some (Inr r, Some out) \<and> gr_RowsWritten r = 3 \<and>
    validate_Reader 0 0 out FormatCSV \<lparr>op_Symbol = ''''\<rparr> = Inr res \<and> vr_Rows res = 3 \<and> vr_Failures res = []"
proof -
  obtain r out where g: "generateCSV sample_options sample_disk sample_trades = Some (Inr r, Some out)"
    "gr_RowsWritten r = 3" "gr_BytesWritten r = 159" "length out = 159"
    by (rule sample_trades_generated)
  from generated_trades_clean [OF sample_trades_read sample_trades_clean g(1), of 0 0] g(2-4) show ?thesis
    by (simp add: g(1) sample_trade_rows_def)
qed

end
