(* ===== verification/Workload_Jsonl.thy ===== *)
theory Workload_Jsonl
  imports Workload_Trades Go_Float
begin

section \<open>internal/workload/generator.go: JSON lines\<close>

text \<open>
  The generator for JSON lines and the choice between the formats. A line is decoded into a \<^verbatim>\<open>map[string]any\<close>, whose numbers are
  floating-point numbers, and encoded again with its ids and its time moved on. Repeated depth updates of one
  symbol are shown to be clean for the validator.
\<close>

subsection \<open>Values of type any\<close>

text \<open>What \<^verbatim>\<open>json.Unmarshal\<close> stores in an \<^verbatim>\<open>any\<close>, and the \<^verbatim>\<open>int64\<close> values that the normalizer puts into the map.\<close>

datatype goval =
    GNil
  | GBool bool
  | GFloat binary64
  | GInt int
  | GString string
  | GSlice "goval list"
  | GMap "(string \<times> goval) list"

text \<open>A number out of range fails the decoding; a repeated key replaces the value of the earlier one.\<close>

fun any_of_json :: "jv \<Rightarrow> goval option" where
  "any_of_json JNull = Some GNil"
| "any_of_json (JBool b) = Some (GBool b)"
| "any_of_json (JNum l) = map_option GFloat (ParseFloat l)"
| "any_of_json (JStr s) = Some (GString s)"
| "any_of_json (JArr vs) = map_option GSlice (those (map any_of_json vs))"
| "any_of_json (JObj ms) =
     map_option (\<lambda>kvs. GMap (foldl (\<lambda>m (k, v). AList.update k v m) [] kvs))
       (those (map (\<lambda>(k, v). map_option (Pair k) (any_of_json v)) ms))"

definition unmarshal_map :: "bytes \<Rightarrow> (string \<times> goval) list option" where
  "unmarshal_map line =
     (case json_parse line of
        Some (JObj ms) \<Rightarrow> (case any_of_json (JObj ms) of Some (GMap m) \<Rightarrow> Some m | _ \<Rightarrow> None)
      | Some JNull \<Rightarrow> Some []
      | _ \<Rightarrow> None)"

text \<open>\<^verbatim>\<open>json.Marshal\<close> writes the keys of a map in order.\<close>

fun json_of_any :: "goval \<Rightarrow> jv" where
  "json_of_any GNil = JNull"
| "json_of_any (GBool b) = JBool b"
| "json_of_any (GFloat f) = JNum (json_float f)"
| "json_of_any (GInt z) = JNum (FormatInt z)"
| "json_of_any (GString s) = JStr s"
| "json_of_any (GSlice vs) = JArr (map json_of_any vs)"
| "json_of_any (GMap m) = JObj (sort_key fst (map (\<lambda>(k, v). (k, json_of_any v)) m))"

definition any_at :: "(string \<times> goval) list \<Rightarrow> string \<Rightarrow> goval" where
  "any_at m k = (case map_of m k of Some v \<Rightarrow> v | None \<Rightarrow> GNil)"

definition jsonInt :: "(binary64 \<Rightarrow> int) \<Rightarrow> goval \<Rightarrow> int \<times> bool" where
  "jsonInt cpu v =
     (case v of
        GFloat f \<Rightarrow> (let z = int64_of_float cpu f in (z, float_val f = float_val (float_of_int64 z)))
      | GInt z \<Rightarrow> (z, True)
      | _ \<Rightarrow> (0, False))"

subsection \<open>The normalizer\<close>

record jsonlNormalizer =
  jn_enabled :: bool
  jn_baseFirstID :: int
  jn_lastFinalID :: int
  jn_baseTime :: int
  jn_lastEventTime :: int
  jn_rowCount :: int

definition zero_jsonlNormalizer :: jsonlNormalizer where
  "zero_jsonlNormalizer = \<lparr>jn_enabled = False, jn_baseFirstID = 0, jn_lastFinalID = 0, jn_baseTime = 0, jn_lastEventTime = 0,
     jn_rowCount = 0\<rparr>"

fun jsonl_scan :: "(binary64 \<Rightarrow> int) \<Rightarrow> bytes list \<Rightarrow> jsonlNormalizer \<Rightarrow> jsonlNormalizer" where
  "jsonl_scan cpu [] n = n"
| "jsonl_scan cpu (line # lines) n =
     (case unmarshal_map line of
        None \<Rightarrow> zero_jsonlNormalizer
      | Some obj \<Rightarrow>
          (if any_at obj ''event_type'' \<noteq> GString ''depth'' then zero_jsonlNormalizer
           else let (first, okFirst) = jsonInt cpu (any_at obj ''first_update_id'');
                    (final, okFinal) = jsonInt cpu (any_at obj ''final_update_id'');
                    (eventTime, okTime) = jsonInt cpu (any_at obj ''event_time'')
                in if \<not> okFirst \<or> \<not> okFinal \<or> \<not> okTime then zero_jsonlNormalizer
                   else let n1 = (if \<not> jn_enabled n then n\<lparr>jn_enabled := True, jn_baseFirstID := first, jn_baseTime := eventTime\<rparr>
                                  else n)
                        in jsonl_scan cpu lines
                             (n1\<lparr>jn_lastFinalID := final, jn_lastEventTime := eventTime, jn_rowCount := jn_rowCount n1 + 1\<rparr>)))"

definition newJSONLNormalizer :: "(binary64 \<Rightarrow> int) \<Rightarrow> bytes list \<Rightarrow> jsonlNormalizer" where
  "newJSONLNormalizer cpu lines = jsonl_scan cpu lines zero_jsonlNormalizer"

definition jsonl_normalize :: "(binary64 \<Rightarrow> int) \<Rightarrow> jsonlNormalizer \<Rightarrow> bytes \<Rightarrow> int \<Rightarrow> bytes" where
  "jsonl_normalize cpu n line row =
     (if \<not> jn_enabled n then line
      else case unmarshal_map line of
             None \<Rightarrow> line
           | Some obj \<Rightarrow>
               (let (first, okFirst) = jsonInt cpu (any_at obj ''first_update_id'');
                    (final, okFinal) = jsonInt cpu (any_at obj ''final_update_id'');
                    (eventTime, okTime) = jsonInt cpu (any_at obj ''event_time'');
                    sequenceSpan = wrap64 (jn_lastFinalID n - jn_baseFirstID n + 1);
                    timeSpan = wrap64 (jn_lastEventTime n - jn_baseTime n + 1)
                in if \<not> okFirst \<or> \<not> okFinal \<or> \<not> okTime then line
                   else if sequenceSpan \<le> 0 \<or> timeSpan \<le> 0 then line
                   else let cycle = quot64 row (jn_rowCount n);
                            idOffset = wrap64 (cycle * sequenceSpan);
                            timeOffset = wrap64 (cycle * timeSpan);
                            obj1 = AList.update ''first_update_id'' (GInt (wrap64 (first + idOffset))) obj;
                            obj2 = AList.update ''final_update_id'' (GInt (wrap64 (final + idOffset))) obj1;
                            obj3 = AList.update ''event_time'' (GInt (wrap64 (eventTime + timeOffset))) obj2
                        in json_print (json_of_any (GMap obj3)) @ [CHR 0x0A]))"

subsection \<open>The generator\<close>

function readLines :: "bytes \<Rightarrow> generate_error + bytes list" where
  "readLines r =
     (case scan_line max_token r of
        ScanEOF \<Rightarrow> Inr []
      | ScanTooLong \<Rightarrow> Inl SourceTooLong
      | ScanLine l rest \<Rightarrow> (case readLines rest of Inl e \<Rightarrow> Inl e | Inr ls \<Rightarrow> Inr ((l @ [CHR 0x0A]) # ls)))"
  by pat_completeness auto
termination
  by (relation "measure length") (auto dest: scan_line_length)

declare readLines.simps [simp del]

definition generateJSONL ::
  "(binary64 \<Rightarrow> int) \<Rightarrow> GenerateOptions \<Rightarrow> Disk \<Rightarrow> bytes \<Rightarrow> ((generate_error + GenerateResult) \<times> bytes option) option" where
  "generateJSONL cpu opts disk source =
     (case readLines source of
        Inl e \<Rightarrow> Some (Inl e, None)
      | Inr lines \<Rightarrow>
          (if lines = [] then Some (Inl NoRows, None)
           else if \<not> dk_creatable disk (go_OutputPath opts) then Some (Inl OutputCreate, None)
           else let normalizer = newJSONLNormalizer cpu lines
                in map_option (generate_result opts disk)
                     (gen_loop (dk_room disk) (go_TargetBytes opts) (\<lambda>line n. [jsonl_normalize cpu normalizer line n]) lines
                       \<lparr>ge_bytes = 0, ge_rows = 0, ge_writer = NewWriter\<rparr>)))"

definition GenerateFile ::
  "(binary64 \<Rightarrow> int) \<Rightarrow> GenerateOptions \<Rightarrow> Disk \<Rightarrow> ((generate_error + GenerateResult) \<times> bytes option) option" where
  "GenerateFile cpu opts disk =
     (case dk_files disk (go_SourcePath opts) of
        None \<Rightarrow> Some (Inl SourceOpen, None)
      | Some source \<Rightarrow>
          (if ToLower (Ext (go_SourcePath opts)) = ''.csv'' then generateCSV opts disk source
           else generateJSONL cpu opts disk source))"

text \<open>The lines that the output should have.\<close>

definition jsonl_output :: "(binary64 \<Rightarrow> int) \<Rightarrow> bytes list \<Rightarrow> nat \<Rightarrow> bytes" where
  "jsonl_output cpu lines n =
     concat (map (\<lambda>k. jsonl_normalize cpu (newJSONLNormalizer cpu lines) (lines ! (k mod length lines)) (int k)) [0..<n])"

lemma jsonl_output_written:
  "jsonl_output cpu lines n =
     written [] (\<lambda>line n. [jsonl_normalize cpu (newJSONLNormalizer cpu lines) line n]) lines n"
  by (simp add: jsonl_output_def written_def)

lemma jsonl_normalize_ne: "line \<noteq> [] \<Longrightarrow> jsonl_normalize cpu n line row \<noteq> []"
  by (auto simp: jsonl_normalize_def Let_def split: option.splits prod.splits)

lemma readLines_ne: "readLines r = Inr ls \<Longrightarrow> l \<in> set ls \<Longrightarrow> l \<noteq> []"
proof (induction r arbitrary: ls rule: readLines.induct)
  case (1 r)
  show ?case
  proof (cases "scan_line max_token r")
    case (ScanLine l' rest)
    then obtain ls' where "readLines rest = Inr ls'" "ls = (l' @ [CHR 0x0A]) # ls'"
      using "1.prems"(1) by (subst (asm) readLines.simps) (auto split: sum.splits)
    then show ?thesis using "1.IH" [OF ScanLine] "1.prems"(2) by auto
  qed (use "1.prems" in \<open>auto simp: readLines.simps [of r]\<close>)
qed

text \<open>The JSON lines generator ends, and its file holds the moved lines up to the one that reaches the target.\<close>

lemma generateJSONL_output:
  assumes "readLines source = Inr lines" "lines \<noteq> []" "dk_creatable disk (go_OutputPath opts)"
  shows "\<exists>n res out. generateJSONL cpu opts disk source = Some (res, Some out) \<and>
    (\<forall>m<n. int (length (jsonl_output cpu lines m)) < go_TargetBytes opts) \<and>
    (res = Inl OutputWrite \<and> dk_room disk < length (jsonl_output cpu lines (Suc n)) \<or>
     (\<exists>r. res = Inr r \<and> gr_RowsWritten r = int n \<and> gr_BytesWritten r = int (length (jsonl_output cpu lines n)) \<and>
       go_TargetBytes opts \<le> gr_BytesWritten r \<and> out = take (dk_room disk) (jsonl_output cpu lines n) \<and>
       gr_BytesWritten r \<le> int (length out) + 4096))"
proof -
  let ?room = "dk_room disk" and ?emit = "\<lambda>line n. [jsonl_normalize cpu (newJSONLNormalizer cpu lines) line n]"
  have ne: "concat (?emit line n) \<noteq> []" if "line \<in> set lines" for line n
    using jsonl_normalize_ne readLines_ne [OF assms(1) that] by simp
  have w: "\<not> wr_failed NewWriter" by (simp add: NewWriter_def)
  obtain g n where
    g: "gen_loop ?room (go_TargetBytes opts) ?emit lines \<lparr>ge_bytes = int (length ([] :: bytes)), ge_rows = 0, ge_writer = NewWriter\<rparr> = Some g"
    "\<forall>m<n. int (length (jsonl_output cpu lines m)) < go_TargetBytes opts"
    "wr_failed (ge_writer g) \<longrightarrow>
      int (length (jsonl_output cpu lines n)) < go_TargetBytes opts \<and> ?room < length (jsonl_output cpu lines (Suc n))"
    "\<not> wr_failed (ge_writer g) \<longrightarrow> ge_rows g = int n \<and> ge_bytes g = int (length (jsonl_output cpu lines n)) \<and>
      go_TargetBytes opts \<le> ge_bytes g \<and> wr_file (Flush ?room (ge_writer g)) = take ?room (jsonl_output cpu lines n) \<and>
      length (jsonl_output cpu lines n) \<le> length (wr_file (Flush ?room (ge_writer g))) + buffer_size"
    by (rule gen_loop_output [where emit = ?emit and room = ?room and target = "go_TargetBytes opts",
          OF ne assms(2) given_NewWriter w, folded jsonl_output_written])
  have "generateJSONL cpu opts disk source = Some (generate_result opts disk g)"
    using assms g(1) by (simp add: generateJSONL_def Let_def)
  then show ?thesis
    using g(2-4) by (intro exI [of _ n]) (auto simp: generate_result_def buffer_size_def)
qed

subsection \<open>Depth updates\<close>

text \<open>A line with a depth update in the form of the fixtures, and in the form in which the normalizer writes it.\<close>

record depth_row =
  dp_time :: int
  dp_first :: int
  dp_final :: int
  dp_bids :: "(string \<times> string) list"
  dp_asks :: "(string \<times> string) list"

definition levels_json :: "(string \<times> string) list \<Rightarrow> jv" where
  "levels_json ls = JArr (map (\<lambda>(p, q). JArr [JStr p, JStr q]) ls)"

definition depth_json :: "string \<Rightarrow> depth_row \<Rightarrow> jv" where
  "depth_json sy d = JObj [(''event_type'', JStr ''depth''), (''symbol'', JStr sy), (''event_time'', JNum (FormatInt (dp_time d))),
     (''first_update_id'', JNum (FormatInt (dp_first d))), (''final_update_id'', JNum (FormatInt (dp_final d))),
     (''bids'', levels_json (dp_bids d)), (''asks'', levels_json (dp_asks d))]"

definition sorted_json :: "string \<Rightarrow> depth_row \<Rightarrow> jv" where
  "sorted_json sy d = JObj [(''asks'', levels_json (dp_asks d)), (''bids'', levels_json (dp_bids d)),
     (''event_time'', JNum (FormatInt (dp_time d))), (''event_type'', JStr ''depth''),
     (''final_update_id'', JNum (FormatInt (dp_final d))), (''first_update_id'', JNum (FormatInt (dp_first d))),
     (''symbol'', JStr sy)]"

lemma depth_json_ok: "jv_ok max_nesting (depth_json sy d)" "jv_ok max_nesting (sorted_json sy d)"
proof -
  have m: "max_nesting = Suc (Suc (Suc 9997))" by (simp add: max_nesting_def)
  show "jv_ok max_nesting (depth_json sy d)" "jv_ok max_nesting (sorted_json sy d)"
    unfolding m by (auto simp: depth_json_def sorted_json_def levels_json_def literal_ok_FormatInt list_all_iff)
qed

definition levels_any :: "(string \<times> string) list \<Rightarrow> goval" where
  "levels_any ls = GSlice (map (\<lambda>(p, q). GSlice [GString p, GString q]) ls)"

lemma any_levels: "any_of_json (levels_json ls) = Some (levels_any ls)" "json_of_any (levels_any ls) = levels_json ls"
proof -
  have "those (map any_of_json (map (\<lambda>(p, q). JArr [JStr p, JStr q]) ls)) = Some (map (\<lambda>(p, q). GSlice [GString p, GString q]) ls)"
    by (induction ls) auto
  then show "any_of_json (levels_json ls) = Some (levels_any ls)" by (simp add: levels_json_def levels_any_def)
  show "json_of_any (levels_any ls) = levels_json ls" by (auto simp: levels_json_def levels_any_def)
qed

definition float_of :: "int \<Rightarrow> goval" where
  "float_of z = GFloat (Binary64 False (of_int z))"

lemma float_of_positive:
  assumes "0 < z" "z \<le> 2 ^ 53"
  shows "jsonInt cpu (float_of z) = (z, True)" "ParseFloat (FormatInt z) = Some (Binary64 False (of_int z))"
  using float_int_roundtrip(1) [of z cpu] float_int_roundtrip(2) [of z] ParseFloat_FormatInt [of z] assms
  by (simp_all add: jsonInt_def float_of_def Let_def)

text \<open>The numbers of an update that the floating-point numbers represent exactly.\<close>

definition exact_row :: "depth_row \<Rightarrow> bool" where
  "exact_row d \<longleftrightarrow> 0 < dp_time d \<and> dp_time d \<le> 2 ^ 53 \<and> 0 < dp_first d \<and> dp_first d \<le> dp_final d \<and> dp_final d \<le> 2 ^ 53"

lemma unmarshal_depth:
  assumes "exact_row d"
  shows "unmarshal_map (json_print (depth_json sy d) @ [CHR 0x0A]) = Some [(''event_type'', GString ''depth''), (''symbol'', GString sy),
    (''event_time'', float_of (dp_time d)), (''first_update_id'', float_of (dp_first d)), (''final_update_id'', float_of (dp_final d)),
    (''bids'', levels_any (dp_bids d)), (''asks'', levels_any (dp_asks d))]"
proof -
  have "json_parse (json_print (depth_json sy d) @ [CHR 0x0A]) = Some (depth_json sy d)"
    by (rule json_parse_print_space [OF depth_json_ok(1)]) (simp add: json_space_def)
  then show ?thesis
    using assms float_of_positive(2) [of "dp_time d"] float_of_positive(2) [of "dp_first d"] float_of_positive(2) [of "dp_final d"]
    by (simp add: unmarshal_map_def depth_json_def exact_row_def any_levels float_of_def)
qed

text \<open>The update, moved on.\<close>

definition moved_row :: "int \<Rightarrow> int \<Rightarrow> depth_row \<Rightarrow> depth_row" where
  "moved_row ids ms d = d\<lparr>dp_time := dp_time d + ms, dp_first := dp_first d + ids, dp_final := dp_final d + ids\<rparr>"

lemma sorted_keys:
  "sort_key fst [(''event_type'', a), (''symbol'', b), (''event_time'', c), (''first_update_id'', d), (''final_update_id'', e),
      (''bids'', f), (''asks'', g)] =
    [(''asks'', g), (''bids'', f), (''event_time'', c), (''event_type'', a), (''final_update_id'', e), (''first_update_id'', d),
     (''symbol'', b)]"
  for a :: jv
  by (simp add: Cons_le_Cons less_char_def)

definition spans_ok :: "jsonlNormalizer \<Rightarrow> int \<Rightarrow> int \<Rightarrow> bool" where
  "spans_ok n ids ms \<longleftrightarrow> jn_enabled n \<and> wrap64 (jn_lastFinalID n - jn_baseFirstID n + 1) = ids \<and>
     wrap64 (jn_lastEventTime n - jn_baseTime n + 1) = ms \<and> 0 < ids \<and> 0 < ms"

lemma jsonl_normalize_depth:
  assumes "exact_row d" "spans_ok n ids ms" "c = quot64 row (jn_rowCount n)" "int64 (c * ids)" "int64 (c * ms)"
    "int64 (dp_final d + c * ids)" "int64 (dp_first d + c * ids)" "int64 (dp_time d + c * ms)"
  shows "jsonl_normalize cpu n (json_print (depth_json sy d) @ [CHR 0x0A]) row =
    json_print (sorted_json sy (moved_row (c * ids) (c * ms) d)) @ [CHR 0x0A]"
proof -
  have j: "jsonInt cpu (float_of (dp_time d)) = (dp_time d, True)" "jsonInt cpu (float_of (dp_first d)) = (dp_first d, True)"
    "jsonInt cpu (float_of (dp_final d)) = (dp_final d, True)"
    using assms(1) by (simp_all add: exact_row_def float_of_positive(1))
  have "json_of_any (GMap [(''event_type'', GString ''depth''), (''symbol'', GString sy), (''event_time'', GInt (dp_time d + c * ms)),
      (''first_update_id'', GInt (dp_first d + c * ids)), (''final_update_id'', GInt (dp_final d + c * ids)),
      (''bids'', levels_any (dp_bids d)), (''asks'', levels_any (dp_asks d))]) = sorted_json sy (moved_row (c * ids) (c * ms) d)"
    by (simp add: sorted_keys any_levels sorted_json_def moved_row_def del: sort_key_simps)
  then show ?thesis
    using assms(2-) by (simp add: jsonl_normalize_def unmarshal_depth [OF assms(1)] any_at_def j Let_def spans_ok_def
        del: json_of_any.simps)
qed

subsection \<open>The moved updates are parsed\<close>

lemma dec_levels_json: "dec_levels (levels_json ls) = Inr (map (\<lambda>(p, q). \<lparr>pl_Price = p, pl_Quantity = q\<rparr>) ls)"
proof -
  have "dec_level_list (map (\<lambda>(p, q). JArr [JStr p, JStr q]) ls) = Inr (map (\<lambda>(p, q). \<lparr>pl_Price = p, pl_Quantity = q\<rparr>) ls)"
    by (induction ls) (auto simp: PriceLevel_UnmarshalJSON_def dec_pair_def)
  then show ?thesis by (simp add: levels_json_def)
qed

lemma dec_sorted_json:
  assumes "int64 (dp_time d)" "int64 (dp_first d)" "int64 (dp_final d)"
  shows "dec_struct set_jsonEvent zero_jsonEvent (sorted_json sy d) = Inr (zero_jsonEvent\<lparr>je_Type := ''depth'', je_Symbol := sy,
    je_EventTimeMS := dp_time d, je_FirstUpdateID := Some (dp_first d), je_FinalUpdateID := Some (dp_final d),
    je_Bids := map (\<lambda>(p, q). \<lparr>pl_Price = p, pl_Quantity = q\<rparr>) (dp_bids d),
    je_Asks := map (\<lambda>(p, q). \<lparr>pl_Price = p, pl_Quantity = q\<rparr>) (dp_asks d)\<rparr>)"
  using assms
  by (simp add: dec_struct_def sorted_json_def set_jsonEvent_def set_plain_def set_pointer_def set_levels_def key_lower
      dec_levels_json ParseInt_FormatInt zero_jsonEvent_def)

lemma sorted_line_parses:
  assumes "int64 (dp_time d)" "int64 (dp_first d)" "int64 (dp_final d)" "0 < dp_time d" "dp_first d \<le> dp_final d"
    "TrimSpace sy \<noteq> ''''" "dp_bids d \<noteq> [] \<or> dp_asks d \<noteq> []"
  shows "\<exists>ev. ParseJSONLine (json_print (sorted_json sy d)) l = Inr ev \<and> ev_Type ev = EventTypeDepth \<and>
    ev_Symbol ev = ToUpper (TrimSpace sy) \<and> ev_FirstUpdateID ev = dp_first d \<and> ev_FinalUpdateID ev = dp_final d \<and>
    EventTimeMillis ev = dp_time d"
proof -
  obtain raw where raw: "json_unmarshal set_jsonEvent zero_jsonEvent (json_print (sorted_json sy d)) = Inr raw"
    "raw = zero_jsonEvent\<lparr>je_Type := ''depth'', je_Symbol := sy,
      je_EventTimeMS := dp_time d, je_FirstUpdateID := Some (dp_first d), je_FinalUpdateID := Some (dp_final d),
      je_Bids := map (\<lambda>(p, q). \<lparr>pl_Price = p, pl_Quantity = q\<rparr>) (dp_bids d),
      je_Asks := map (\<lambda>(p, q). \<lparr>pl_Price = p, pl_Quantity = q\<rparr>) (dp_asks d)\<rparr>"
    using dec_sorted_json [OF assms(1-3)] by (simp add: json_unmarshal_def json_parse_print depth_json_ok(2))
  have "CHR 0x7B \<in> set (json_print (sorted_json sy d))" by (simp add: json_print_def sorted_json_def)
  then have "TrimSpace (json_print (sorted_json sy d)) \<noteq> []" by (rule TrimSpace_nonempty) (simp add: is_space_def)
  then have parse: "ParseJSONLine (json_print (sorted_json sy d)) l =
      (case validateEventShape (event_of_json raw l) (je_FirstUpdateID raw \<noteq> None \<or> je_LegacyPrevSeq raw \<noteq> None)
          (je_FinalUpdateID raw \<noteq> None \<or> je_LegacySeq raw \<noteq> None) (je_TradeID raw \<noteq> None) of
         Some e \<Rightarrow> Inl e | None \<Rightarrow> Inr (event_of_json raw l))"
    by (simp add: ParseJSONLine_def raw(1) Let_def)
  have "normalizeEventType ''depth'' = EventTypeDepth" by code_simp
  moreover have "ToUpper (TrimSpace sy) \<noteq> ''''" using assms(6) by (simp add: ToUpper_def)
  ultimately show ?thesis
    using assms(4-) unfolding parse raw(2)
    by (auto simp: event_of_json_def validateEventShape_def EventTimeMillis_def zero_jsonEvent_def zero_MarketEvent_def Let_def)
qed

subsection \<open>Lines\<close>

lemma readLines_lines:
  assumes "\<forall>l \<in> set ls. CHR 0x0A \<notin> set l \<and> int (length l) < max_token \<and> drop_cr l = l"
  shows "readLines (concat (map (\<lambda>l. l @ [CHR 0x0A]) ls)) = Inr (map (\<lambda>l. l @ [CHR 0x0A]) ls)"
  using assms
proof (induction ls)
  case Nil
  then show ?case by (simp add: readLines.simps scan_line_def)
next
  case (Cons l ls)
  have "takeWhile (\<lambda>c. c \<noteq> CHR 0x0A) (l @ CHR 0x0A # xs) = l" for xs
    using Cons.prems by (subst takeWhile_append2) auto
  then have "scan_line max_token (l @ CHR 0x0A # xs) = ScanLine l xs" for xs
    using Cons.prems by (simp add: scan_line_def Let_def)
  then show ?case using Cons by (simp add: readLines.simps [of "l @ CHR 0x0A # _"])
qed

lemma drop_cr_object: "drop_cr (json_print (JObj ms)) = json_print (JObj ms)"
  by (simp add: json_print_def drop_cr_def)

lemma length_format_nat: "n < 10 ^ d \<Longrightarrow> 0 < d \<Longrightarrow> length (format_nat n) \<le> d"
proof (induction n arbitrary: d rule: format_nat.induct)
  case (1 n)
  show ?case
  proof (cases "n < 10")
    case False
    then have "1 < d" using "1.prems" by (cases "d = 1") auto
    then obtain d' where d: "d = Suc d'" "0 < d'" by (cases d) auto
    then have "n div 10 < 10 ^ d'" using "1.prems"(1) by (simp add: less_mult_imp_div_less mult.commute)
    then show ?thesis using "1.IH" [OF False _ d(2)] False d(1) by (simp add: format_nat.simps [of n])
  qed (use "1.prems"(2) in \<open>simp add: format_nat.simps [of n]\<close>)
qed

lemma length_FormatInt: "0 < z \<Longrightarrow> int64 z \<Longrightarrow> length (FormatInt z) \<le> 19"
  using length_format_nat [of "nat z" 19] by (simp add: FormatInt_def int64_def nat_less_iff)

lemma length_sorted_line:
  assumes "0 < dp_time d'" "0 < dp_first d'" "0 < dp_final d'" "int64 (dp_time d')" "int64 (dp_first d')" "int64 (dp_final d')"
    "dp_bids d' = dp_bids d" "dp_asks d' = dp_asks d"
  shows "length (json_print (sorted_json sy d')) \<le> length (json_print (depth_json sy d)) + 57"
  using length_FormatInt [OF assms(1,4)] length_FormatInt [OF assms(2,5)] length_FormatInt [OF assms(3,6)] assms(7,8)
  by (simp add: json_print_def sorted_json_def depth_json_def)

subsection \<open>The scan of a source\<close>

definition depth_lines :: "string \<Rightarrow> depth_row list \<Rightarrow> bytes list" where
  "depth_lines sy ds = map (\<lambda>d. json_print (depth_json sy d) @ [CHR 0x0A]) ds"

lemma jsonl_scan_step:
  assumes "exact_row d"
  shows "jsonl_scan cpu ((json_print (depth_json sy d) @ [CHR 0x0A]) # lines) n =
    (let n1 = (if \<not> jn_enabled n then n\<lparr>jn_enabled := True, jn_baseFirstID := dp_first d, jn_baseTime := dp_time d\<rparr> else n)
     in jsonl_scan cpu lines (n1\<lparr>jn_lastFinalID := dp_final d, jn_lastEventTime := dp_time d, jn_rowCount := jn_rowCount n1 + 1\<rparr>))"
proof -
  have "jsonInt cpu (float_of (dp_time d)) = (dp_time d, True)" "jsonInt cpu (float_of (dp_first d)) = (dp_first d, True)"
    "jsonInt cpu (float_of (dp_final d)) = (dp_final d, True)"
    using assms by (simp_all add: exact_row_def float_of_positive(1))
  then show ?thesis by (simp add: unmarshal_depth [OF assms] any_at_def Let_def)
qed

lemma jsonl_scan_enabled:
  "list_all exact_row ds \<Longrightarrow> ds \<noteq> [] \<Longrightarrow> jn_enabled n \<Longrightarrow>
    jsonl_scan cpu (depth_lines sy ds) n = n\<lparr>jn_lastFinalID := dp_final (last ds), jn_lastEventTime := dp_time (last ds),
      jn_rowCount := jn_rowCount n + int (length ds)\<rparr>"
proof (induction ds arbitrary: n)
  case (Cons d ds)
  then show ?case
    by (cases "ds = []") (simp_all add: depth_lines_def jsonl_scan_step Let_def del: jsonl_scan.simps(2))
qed simp

lemma newJSONLNormalizer_depths:
  assumes "list_all exact_row ds" "ds \<noteq> []"
  shows "newJSONLNormalizer cpu (depth_lines sy ds) = \<lparr>jn_enabled = True, jn_baseFirstID = dp_first (hd ds),
    jn_lastFinalID = dp_final (last ds), jn_baseTime = dp_time (hd ds), jn_lastEventTime = dp_time (last ds), jn_rowCount = int (length ds)\<rparr>"
proof -
  obtain d ds' where ds: "ds = d # ds'" using assms(2) by (cases ds) auto
  show ?thesis
    using assms(1) jsonl_scan_enabled [of ds'] unfolding ds newJSONLNormalizer_def
    by (cases "ds' = []") (simp_all add: depth_lines_def jsonl_scan_step zero_jsonlNormalizer_def Let_def del: jsonl_scan.simps(2))
qed

subsection \<open>The output is clean\<close>

text \<open>
  A source of depth updates of one symbol that continue one another, with times that never go back and numbers that
  floating-point numbers represent; the lines leave room for longer numbers.
\<close>

definition clean_depths :: "string \<Rightarrow> depth_row list \<Rightarrow> bool" where
  "clean_depths sy ds \<longleftrightarrow> ds \<noteq> [] \<and> TrimSpace sy \<noteq> '''' \<and> sorted (map dp_time ds) \<and>
     successively (\<lambda>a b. dp_first b = dp_final a + 1) ds \<and>
     (\<forall>d \<in> set ds. exact_row d \<and> (dp_bids d \<noteq> [] \<or> dp_asks d \<noteq> []) \<and>
       int (length (json_print (depth_json sy d))) + 60 \<le> max_token)"

definition id_span :: "depth_row list \<Rightarrow> int" where
  "id_span ds = dp_final (last ds) - dp_first (hd ds) + 1"

text \<open>Row \<open>k\<close> of the output.\<close>

definition output_row :: "depth_row list \<Rightarrow> nat \<Rightarrow> depth_row" where
  "output_row ds k = moved_row (int (k div length ds) * id_span ds) (int (k div length ds) * time_span (map dp_time ds))
     (ds ! (k mod length ds))"

lemma finals_sorted:
  assumes "successively (\<lambda>a b. dp_first b = dp_final a + 1) ds" "\<forall>d \<in> set ds. exact_row d"
  shows "sorted (map dp_final ds)"
proof -
  have "successively (\<lambda>a b. dp_final a \<le> dp_final b) ds"
    unfolding successively_conv_nth
  proof (intro allI impI)
    fix i
    assume i: "Suc i < length ds"
    then have "dp_first (ds ! Suc i) \<le> dp_final (ds ! Suc i)" using assms(2) nth_mem [OF i] by (simp add: exact_row_def)
    moreover have "dp_first (ds ! Suc i) = dp_final (ds ! i) + 1" using assms(1) i by (simp add: successively_conv_nth)
    ultimately show "dp_final (ds ! i) \<le> dp_final (ds ! Suc i)" by simp
  qed
  then show ?thesis by (simp add: successively_conv_sorted_wrt sorted_map transp_on_def)
qed

lemma output_row_time: "ds \<noteq> [] \<Longrightarrow> dp_time (output_row ds k) = moved_time (map dp_time ds) k"
  by (simp add: output_row_def moved_row_def moved_time_def)

lemma output_rows_continue:
  assumes "clean_depths sy ds"
  shows "dp_first (output_row ds (Suc k)) = dp_final (output_row ds k) + 1"
proof (cases "Suc (k mod length ds) = length ds")
  case True
  then have "k mod length ds = length ds - 1" by simp
  moreover have "ds \<noteq> []" using assms by (simp add: clean_depths_def)
  ultimately have "ds ! (k mod length ds) = last ds" "ds ! 0 = hd ds" by (simp_all add: last_conv_nth hd_conv_nth)
  moreover have "Suc k mod length ds = 0" "Suc k div length ds = Suc (k div length ds)" using True by (simp_all add: mod_Suc div_Suc)
  ultimately show ?thesis by (simp add: output_row_def moved_row_def id_span_def algebra_simps)
next
  case False
  have "length ds > 0" using assms by (simp add: clean_depths_def)
  then have "Suc (k mod length ds) < length ds" using False by (metis Suc_lessI mod_less_divisor)
  then have "dp_first (ds ! Suc (k mod length ds)) = dp_final (ds ! (k mod length ds)) + 1"
    using assms by (simp add: clean_depths_def successively_conv_nth)
  moreover have "Suc k mod length ds = Suc (k mod length ds)" "Suc k div length ds = k div length ds"
    using False by (simp_all add: mod_Suc div_Suc)
  ultimately show ?thesis by (simp add: output_row_def moved_row_def)
qed

text \<open>The rows of the output are those of the source, moved on, within the bounds of the last one.\<close>

lemma output_row_bounds:
  assumes "clean_depths sy ds" "k \<le> n" "dp_final (last ds) + int (n div length ds) * id_span ds < 2 ^ 63"
    "dp_time (last ds) + int (n div length ds) * time_span (map dp_time ds) < 2 ^ 63"
  shows "0 < dp_first (output_row ds k)" "dp_first (output_row ds k) \<le> dp_final (output_row ds k)"
    "dp_final (output_row ds k) < 2 ^ 63" "0 < dp_time (output_row ds k)" "dp_time (output_row ds k) < 2 ^ 63"
    "int (k div length ds) * id_span ds < 2 ^ 63" "int (k div length ds) * time_span (map dp_time ds) < 2 ^ 63"
    "0 < id_span ds" "0 < time_span (map dp_time ds)"
proof -
  let ?d = "ds ! (k mod length ds)" and ?c = "int (k div length ds)" and ?C = "int (n div length ds)"
  have ne: "ds \<noteq> []" and ex: "\<forall>d \<in> set ds. exact_row d" and seq: "successively (\<lambda>a b. dp_first b = dp_final a + 1) ds"
    and times: "sorted (map dp_time ds)" using assms(1) by (simp_all add: clean_depths_def)
  have m: "k mod length ds < length ds" using ne by simp
  have d: "exact_row ?d" "exact_row (last ds)" "exact_row (hd ds)" using ex ne m by simp_all
  have "k mod length ds \<le> length ds - 1" using m by simp
  then have fin: "dp_final ?d \<le> dp_final (last ds)"
    using sorted_nth_mono [OF finals_sorted [OF seq ex], of "k mod length ds" "length ds - 1"] ne m by (simp add: last_conv_nth)
  have "dp_final (hd ds) \<le> dp_final (last ds)"
    using sorted_nth_mono [OF finals_sorted [OF seq ex], of 0 "length ds - 1"] ne by (simp add: last_conv_nth hd_conv_nth)
  then show span: "0 < id_span ds" using d(3) by (simp add: id_span_def exact_row_def)
  show tspan: "0 < time_span (map dp_time ds)" using ne times by (simp add: time_span_pos)
  have c: "?c \<le> ?C" "0 \<le> ?c" using assms(2) by (simp_all add: div_le_mono)
  have ids: "0 \<le> ?c * id_span ds" "?c * id_span ds \<le> ?C * id_span ds"
    and ms: "0 \<le> ?c * time_span (map dp_time ds)" "?c * time_span (map dp_time ds) \<le> ?C * time_span (map dp_time ds)"
    using c span tspan by (simp_all add: mult_right_mono)
  have pos: "\<forall>y \<in> set (map dp_time ds). 0 < y" using ex by (auto simp: exact_row_def)
  have t: "0 < moved_time (map dp_time ds) k"
    "moved_time (map dp_time ds) k \<le> dp_time (last ds) + ?C * time_span (map dp_time ds)"
    using moved_time_bound [OF _ times pos assms(2)] ne by (simp_all add: last_map)
  show "0 < dp_first (output_row ds k)" "dp_first (output_row ds k) \<le> dp_final (output_row ds k)"
    "dp_final (output_row ds k) < 2 ^ 63"
    using d(1) ids fin assms(3) by (simp_all add: output_row_def moved_row_def exact_row_def)
  show "0 < dp_time (output_row ds k)" "dp_time (output_row ds k) < 2 ^ 63"
    using t assms(4) by (simp_all add: output_row_time [OF ne])
  show "?c * id_span ds < 2 ^ 63" "?c * time_span (map dp_time ds) < 2 ^ 63"
    using ids ms assms(3,4) d(2) by (simp_all add: exact_row_def)
qed

lemma jsonl_output_row:
  assumes "clean_depths sy ds" "k \<le> n" "dp_final (last ds) + int (n div length ds) * id_span ds < 2 ^ 63"
    "dp_time (last ds) + int (n div length ds) * time_span (map dp_time ds) < 2 ^ 63"
  shows "jsonl_normalize cpu (newJSONLNormalizer cpu (depth_lines sy ds)) (depth_lines sy ds ! (k mod length ds)) (int k) =
    json_print (sorted_json sy (output_row ds k)) @ [CHR 0x0A]"
proof -
  let ?n = "newJSONLNormalizer cpu (depth_lines sy ds)" and ?d = "ds ! (k mod length ds)" and ?c = "int (k div length ds)"
  note b = output_row_bounds [OF assms]
  have ne: "ds \<noteq> []" and ex: "\<forall>d \<in> set ds. exact_row d" using assms(1) by (simp_all add: clean_depths_def)
  have m: "k mod length ds < length ds" using ne by simp
  then have d: "exact_row ?d" "exact_row (last ds)" "exact_row (hd ds)" using ex ne by simp_all
  have n: "?n = \<lparr>jn_enabled = True, jn_baseFirstID = dp_first (hd ds), jn_lastFinalID = dp_final (last ds),
      jn_baseTime = dp_time (hd ds), jn_lastEventTime = dp_time (last ds), jn_rowCount = int (length ds)\<rparr>"
    using ex ne by (intro newJSONLNormalizer_depths) (simp_all add: list_all_iff)
  have ts: "time_span (map dp_time ds) = dp_time (last ds) - dp_time (hd ds) + 1" using ne by (simp add: time_span_def last_map hd_map)
  have "int64 (id_span ds)" "int64 (time_span (map dp_time ds))"
    using b(8,9) d(2,3) by (simp_all add: int64_def id_span_def ts exact_row_def)
  then have sp: "spans_ok ?n (id_span ds) (time_span (map dp_time ds))"
    using b(8,9) by (simp add: spans_ok_def n flip: ts id_span_def)
  have "0 \<le> ?c * id_span ds" "0 \<le> ?c * time_span (map dp_time ds)" using b(8,9) by simp_all
  then have i64: "int64 (?c * id_span ds)" "int64 (?c * time_span (map dp_time ds))" using b(6,7) unfolding int64_def by linarith+
  have c: "?c = quot64 (int k) (jn_rowCount ?n)" using ne by (simp add: n quot64_nonneg zdiv_int)
  have "jsonl_normalize cpu ?n (json_print (depth_json sy ?d) @ [CHR 0x0A]) (int k) =
      json_print (sorted_json sy (moved_row (?c * id_span ds) (?c * time_span (map dp_time ds)) ?d)) @ [CHR 0x0A]"
    using b by (intro jsonl_normalize_depth [OF d(1) sp c i64]) (simp_all add: int64_def output_row_def moved_row_def)
  then show ?thesis using m by (simp add: depth_lines_def output_row_def)
qed

text \<open>Records of depth updates of one symbol that continue one another, with times that do not go back, are clean.\<close>

lemma depths_clean:
  assumes "\<forall>k<length rs. rec_Err (rs ! k) = None \<and> ev_Type (rec_Event (rs ! k)) = EventTypeDepth \<and>
      ev_Symbol (rec_Event (rs ! k)) = sy \<and> ev_FirstUpdateID (rec_Event (rs ! k)) = a k \<and>
      ev_FinalUpdateID (rec_Event (rs ! k)) = b k \<and> EventTimeMillis (rec_Event (rs ! k)) = z k"
    "\<And>k. z k \<le> z (Suc k)" "\<And>k. a (Suc k) = b k + 1"
  shows "clean_input rs"
proof -
  have mem: "rec_Err r = None" "ev_Type (rec_Event r) = EventTypeDepth" "ev_Symbol (rec_Event r) = sy" if "r \<in> set rs" for r
    using that assms(1) by (auto simp: in_set_conv_nth)
  have "events_of s rs = (if s = sy then map rec_Event rs else [])" for s
    using mem by (auto simp: events_of_def filter_id_conv intro!: arg_cong [of _ _ "map rec_Event"])
  moreover have "trades_of s rs = []" "depths_of s rs = events_of s rs" for s
    using mem by (auto simp: depths_of_def trades_of_def events_of_def filter_empty_conv filter_id_conv)
  moreover have "successively (\<lambda>a b. EventTimeMillis a \<le> EventTimeMillis b) (map rec_Event rs)"
    "successively (\<lambda>a b. ev_FirstUpdateID b = ev_FinalUpdateID a + 1) (map rec_Event rs)"
    using assms by (simp_all add: successively_conv_nth)
  ultimately show ?thesis using mem(1) by (simp add: clean_input_def)
qed

lemma jsonl_output_clean:
  assumes "clean_depths sy ds" "dp_final (last ds) + int (n div length ds) * id_span ds < 2 ^ 63"
    "dp_time (last ds) + int (n div length ds) * time_span (map dp_time ds) < 2 ^ 63"
  shows "\<exists>s rs. NewStream (jsonl_output cpu (depth_lines sy ds) n) FormatJSONL = Inr s \<and> drain s = (rs, None) \<and> length rs = n \<and>
    clean_input rs"
proof -
  let ?line = "\<lambda>k. json_print (sorted_json sy (output_row ds k))" and ?ls = "map (\<lambda>k. json_print (sorted_json sy (output_row ds k))) [0..<n]"
  let ?rs = "map (\<lambda>k. ok_record (1 + int k) (?line k) (ParseJSONLine (?line k) (1 + int k))) [0..<n]"
  let ?s = "\<lparr>st_format = FormatJSONL, st_input = concat (map (\<lambda>l. l @ [CHR 0x0A]) ?ls), st_header = Map.empty, st_line = 0, st_faults = 0\<rparr>"
  have ne: "ds \<noteq> []" and sy: "TrimSpace sy \<noteq> ''''" and times: "sorted (map dp_time ds)" using assms(1) by (auto simp: clean_depths_def)
  have b: "int64 (dp_time (output_row ds k))" "int64 (dp_first (output_row ds k))" "int64 (dp_final (output_row ds k))"
    "0 < dp_time (output_row ds k)" "0 < dp_first (output_row ds k)" "0 < dp_final (output_row ds k)"
    "dp_first (output_row ds k) \<le> dp_final (output_row ds k)" if "k < n" for k
    using output_row_bounds [OF assms(1) _ assms(2,3), of k] that by (simp_all add: int64_def)
  have src: "dp_bids (output_row ds k) \<noteq> [] \<or> dp_asks (output_row ds k) \<noteq> []" "int (length (?line k)) < max_token" if "k < n" for k
  proof -
    let ?d = "ds ! (k mod length ds)"
    have "?d \<in> set ds" using ne by simp
    then have d: "dp_bids ?d \<noteq> [] \<or> dp_asks ?d \<noteq> []" "int (length (json_print (depth_json sy ?d))) + 60 \<le> max_token"
      using assms(1) by (simp_all add: clean_depths_def)
    have o: "dp_bids (output_row ds k) = dp_bids ?d" "dp_asks (output_row ds k) = dp_asks ?d" by (simp_all add: output_row_def moved_row_def)
    then show "dp_bids (output_row ds k) \<noteq> [] \<or> dp_asks (output_row ds k) \<noteq> []" using d(1) by simp
    show "int (length (?line k)) < max_token"
      using length_sorted_line [OF b(4-6,1-3) [OF that] o, of sy] d(2) by linarith
  qed
  have "jsonl_output cpu (depth_lines sy ds) n = concat (map (\<lambda>l. l @ [CHR 0x0A]) ?ls)"
    using jsonl_output_row [OF assms(1) _ assms(2,3), of _ cpu]
    by (auto simp: jsonl_output_def comp_def depth_lines_def intro!: arg_cong [of _ _ concat])
  then have s: "NewStream (jsonl_output cpu (depth_lines sy ds) n) FormatJSONL = Inr ?s" by (simp add: NewStream_def NewReaderStream_def)
  have "\<forall>l \<in> set ?ls. CHR 0x0A \<notin> set l \<and> int (length l) < max_token"
    using src(2) json_print_not_newline [OF depth_json_ok(2)] by auto
  from drain_jsonl [OF this, of Map.empty 0]
  have "drain ?s = (map2 (\<lambda>k l. ok_record k (drop_cr l) (ParseJSONLine (drop_cr l) k)) [0 + 1..0 + int (length ?ls)] ?ls, None)" .
  moreover have "drop_cr (?line k) = ?line k" for k by (simp add: sorted_json_def drop_cr_object)
  then have "map2 (\<lambda>k l. ok_record k (drop_cr l) (ParseJSONLine (drop_cr l) k)) [0 + 1..0 + int (length ?ls)] ?ls = ?rs"
    by (intro nth_equalityI) simp_all
  ultimately have d: "drain ?s = (?rs, None)" by simp
  have "clean_input ?rs"
  proof (rule depths_clean [where z = "moved_time (map dp_time ds)" and sy = "ToUpper (TrimSpace sy)" and
        a = "\<lambda>k. dp_first (output_row ds k)" and b = "\<lambda>k. dp_final (output_row ds k)"], intro allI impI)
    fix k assume "k < length ?rs"
    then have k: "k < n" by simp
    from sorted_line_parses [OF b(1-4,7) [OF k] sy src(1) [OF k], of "1 + int k"] k
    show "rec_Err (?rs ! k) = None \<and> ev_Type (rec_Event (?rs ! k)) = EventTypeDepth \<and>
      ev_Symbol (rec_Event (?rs ! k)) = ToUpper (TrimSpace sy) \<and> ev_FirstUpdateID (rec_Event (?rs ! k)) = dp_first (output_row ds k) \<and>
      ev_FinalUpdateID (rec_Event (?rs ! k)) = dp_final (output_row ds k) \<and>
      EventTimeMillis (rec_Event (?rs ! k)) = moved_time (map dp_time ds) k"
      by (auto simp: ok_record_def output_row_time [OF ne])
  qed (use moved_time_mono [OF _ times] ne output_rows_continue [OF assms(1)] in simp_all)
  then show ?thesis using s d by auto
qed

lemma readLines_depths:
  assumes "clean_depths sy ds"
  shows "readLines (concat (depth_lines sy ds)) = Inr (depth_lines sy ds)"
proof -
  have "readLines (concat (map (\<lambda>l. l @ [CHR 0x0A]) (map (\<lambda>d. json_print (depth_json sy d)) ds))) =
      Inr (map (\<lambda>l. l @ [CHR 0x0A]) (map (\<lambda>d. json_print (depth_json sy d)) ds))"
    using assms json_print_not_newline [OF depth_json_ok(1)]
    by (intro readLines_lines) (auto simp: clean_depths_def depth_json_def drop_cr_object)
  then show ?thesis by (simp add: depth_lines_def comp_def)
qed

text \<open>
  C33: the JSON lines generator makes clean workloads of clean depth updates. From a file with updates of one symbol in the form of
  the fixtures, which continue one another and whose times never go back, a run that writes all it counts (with
  source numbers that floating-point numbers represent exactly and moved numbers within 64 bits) makes a file that the validator
  reads to its end, with as many rows as the result says, and in which it finds no failure.
\<close>

theorem generated_depths_clean:
  assumes "dk_files disk (go_SourcePath opts) = Some (concat (depth_lines sy ds))" "ToLower (Ext (go_SourcePath opts)) \<noteq> ''.csv''"
    "clean_depths sy ds" "GenerateFile cpu opts disk = Some (Inr r, Some out)" "gr_BytesWritten r \<le> int (length out)"
    "dp_final (last ds) + gr_RowsWritten r div int (length ds) * (dp_final (last ds) - dp_first (hd ds) + 1) < 2 ^ 63"
    "dp_time (last ds) + gr_RowsWritten r div int (length ds) * (dp_time (last ds) - dp_time (hd ds) + 1) < 2 ^ 63"
  shows "\<exists>res. validate_Reader t0 t1 out FormatJSONL \<lparr>op_Symbol = ''''\<rparr> = Inr res \<and> vr_Rows res = gr_RowsWritten r \<and>
    vr_Failures res = []"
proof -
  let ?lines = "depth_lines sy ds"
  have ne: "ds \<noteq> []" using assms(3) by (simp add: clean_depths_def)
  then have ln: "?lines \<noteq> []" by (simp add: depth_lines_def)
  have g: "generateJSONL cpu opts disk (concat ?lines) = Some (Inr r, Some out)" using assms(1,2,4) by (simp add: GenerateFile_def)
  then have "dk_creatable disk (go_OutputPath opts)"
    by (auto simp: generateJSONL_def readLines_depths [OF assms(3)] split: if_splits)
  then obtain n where n: "gr_RowsWritten r = int n" "gr_BytesWritten r = int (length (jsonl_output cpu ?lines n))"
    "out = take (dk_room disk) (jsonl_output cpu ?lines n)"
    using generateJSONL_output [OF readLines_depths [OF assms(3)] ln, of disk opts cpu] g by auto
  then have "out = jsonl_output cpu ?lines n" using assms(5) by simp
  then obtain s rs where s: "NewStream out FormatJSONL = Inr s" "drain s = (rs, None)" "length rs = n" "clean_input rs"
    using jsonl_output_clean [OF assms(3), of n cpu] assms(6,7) n(1) ne
    by (auto simp: time_span_def id_span_def last_map hd_map zdiv_int)
  have "list_all shaped rs" using drain_lines [of s] s(2) by (auto simp: list_all_iff shaped_def record_ok_def)
  then show ?thesis
    using run_clean [of rs] s n(1) by (simp add: validate_Reader_def validate_Stream_def foldl_Process_result)
qed

subsection \<open>The theorem at work\<close>

definition sample_depths :: "depth_row list" where
  "sample_depths = [\<lparr>dp_time = 5, dp_first = 1, dp_final = 2, dp_bids = [(''1'', ''2'')], dp_asks = []\<rparr>]"

definition sample_depth_options :: GenerateOptions where
  "sample_depth_options = \<lparr>go_SourcePath = ''a.jsonl'', go_OutputPath = ''b.jsonl'', go_TargetBytes = 130\<rparr>"

definition sample_depth_disk :: Disk where
  "sample_depth_disk = \<lparr>dk_files = (\<lambda>p. if p = ''a.jsonl'' then Some (concat (depth_lines ''BTC'' sample_depths)) else None),
     dk_creatable = (\<lambda>_. True), dk_room = 1000\<rparr>"

lemma sample_depths_clean: "clean_depths ''BTC'' sample_depths"
  by code_simp

lemma sample_depth_output:
  assumes "m \<le> 3"
  shows "length (jsonl_output cpu (depth_lines ''BTC'' sample_depths) m) = m * 122"
proof -
  have sp: "length sample_depths = 1" "id_span sample_depths = 2" "time_span (map dp_time sample_depths) = 1"
    "dp_final (last sample_depths) = 2" "dp_time (last sample_depths) = 5"
    by (simp_all add: sample_depths_def id_span_def time_span_def)
  have "length (jsonl_normalize cpu (newJSONLNormalizer cpu (depth_lines ''BTC'' sample_depths)) (depth_lines ''BTC'' sample_depths ! 0) (int k)) = 122"
    if "k < 3" for k
  proof -
    have "\<forall>k \<in> {0, 1, 2}. length (json_print (sorted_json ''BTC'' (output_row sample_depths k))) = 121" by code_simp
    moreover have "k \<in> {0, 1, 2}" using that by auto
    ultimately have "length (json_print (sorted_json ''BTC'' (output_row sample_depths k))) = 121" by blast
    then show ?thesis using jsonl_output_row [OF sample_depths_clean, of k 3 cpu] that sp by simp
  qed
  then have "length (jsonl_output cpu (depth_lines ''BTC'' sample_depths) m) = sum_list (map (\<lambda>_. 122) [0..<m])"
    using assms by (auto simp: jsonl_output_def length_concat comp_def depth_lines_def sp(1) intro!: arg_cong [of _ _ sum_list])
  then show ?thesis by (simp add: sum_list_triv)
qed

lemma sample_depths_generated:
  obtains r out where "GenerateFile cpu sample_depth_options sample_depth_disk = Some (Inr r, Some out)"
    "gr_RowsWritten r = 2" "gr_BytesWritten r = int (length out)"
proof -
  let ?lines = "depth_lines ''BTC'' sample_depths"
  have ne: "?lines \<noteq> []" and cr: "dk_creatable sample_depth_disk (go_OutputPath sample_depth_options)"
    by (simp_all add: depth_lines_def sample_depths_def sample_depth_disk_def)
  have e: "GenerateFile cpu sample_depth_options sample_depth_disk = generateJSONL cpu sample_depth_options sample_depth_disk (concat ?lines)"
    by (simp add: GenerateFile_def sample_depth_disk_def sample_depth_options_def ToLower_def lower_char_def Ext_def)
  obtain n res out where g: "generateJSONL cpu sample_depth_options sample_depth_disk (concat ?lines) = Some (res, Some out)"
    "\<forall>m<n. int (length (jsonl_output cpu ?lines m)) < 130"
    "res = Inl OutputWrite \<and> 1000 < length (jsonl_output cpu ?lines (Suc n)) \<or>
     (\<exists>r. res = Inr r \<and> gr_RowsWritten r = int n \<and> gr_BytesWritten r = int (length (jsonl_output cpu ?lines n)) \<and>
       130 \<le> gr_BytesWritten r \<and> out = take 1000 (jsonl_output cpu ?lines n))"
    using generateJSONL_output [OF readLines_depths [OF sample_depths_clean] ne cr, of cpu]
    by (auto simp: sample_depth_options_def sample_depth_disk_def)
  have n: "n \<le> 2"
  proof (rule ccontr)
    assume "\<not> n \<le> 2"
    then show False using g(2) [rule_format, of 2] sample_depth_output [of 2 cpu] by simp
  qed
  then have l: "length (jsonl_output cpu ?lines n) = n * 122" "length (jsonl_output cpu ?lines (Suc n)) = Suc n * 122"
    using sample_depth_output by simp_all
  then obtain r where "res = Inr r" "gr_RowsWritten r = int n" "gr_BytesWritten r = int (n * 122)" "130 \<le> gr_BytesWritten r"
    "out = take 1000 (jsonl_output cpu ?lines n)"
    using g(3) n by auto
  then show ?thesis using that [of r out] g(1) e l(1) n by simp
qed

theorem generated_depths_clean_witness:
  "\<exists>r out res. GenerateFile (\<lambda>_. 0) sample_depth_options sample_depth_disk = Some (Inr r, Some out) \<and> gr_RowsWritten r = 2 \<and>
    validate_Reader 0 0 out FormatJSONL \<lparr>op_Symbol = ''''\<rparr> = Inr res \<and> vr_Rows res = 2 \<and> vr_Failures res = []"
proof -
  obtain r out where g: "GenerateFile (\<lambda>_. 0) sample_depth_options sample_depth_disk = Some (Inr r, Some out)"
    "gr_RowsWritten r = 2" "gr_BytesWritten r = int (length out)"
    by (rule sample_depths_generated)
  have "dk_files sample_depth_disk (go_SourcePath sample_depth_options) = Some (concat (depth_lines ''BTC'' sample_depths))"
    by (simp add: sample_depth_disk_def sample_depth_options_def)
  moreover have "ToLower (Ext (go_SourcePath sample_depth_options)) \<noteq> ''.csv''" by code_simp
  ultimately show ?thesis
    using generated_depths_clean [OF _ _ sample_depths_clean g(1), of 0 0] g(2,3) by (simp add: g(1) sample_depths_def)
qed

end
