(* ===== verification/Bench.thy ===== *)
theory Bench
  imports Workload_Jsonl
begin

section \<open>internal/bench: measuring a replay\<close>

text \<open>
  \<^verbatim>\<open>bench.go\<close>. The readings of the clock and of the memory statistics are numbered and come from an
  environment; the loop counts the readings it has made.
\<close>

record BenchEnv =
  be_now :: "nat \<Rightarrow> time"
  be_alloc :: "nat \<Rightarrow> int"
  be_mallocs :: "nat \<Rightarrow> int"

subsection \<open>Percentiles\<close>

definition rounded :: "rat \<Rightarrow> rat" where
  "rounded r = (case to_binary64 r of Some v \<Rightarrow> v | None \<Rightarrow> 0)"

definition percentile_index :: "nat \<Rightarrow> rat \<Rightarrow> nat" where
  "percentile_index n pct = nat \<lfloor>rounded (of_nat (n - 1) * pct)\<rfloor>"

text \<open>\<open>None\<close> is the panic of an index out of range. \<^verbatim>\<open>0.95\<close> is the nearest floating-point number.\<close>

definition percentile :: "duration list \<Rightarrow> rat \<Rightarrow> duration option" where
  "percentile vals pct =
     (if vals = [] then Some 0
      else let cp = sort vals; index = percentile_index (length cp) pct
           in if index < length cp then Some (cp ! index) else None)"

definition pct95 :: rat where
  "pct95 = rounded (95 / 100)"

subsection \<open>The loop\<close>

definition bench_metric ::
  "BenchEnv \<Rightarrow> Validator \<Rightarrow> duration list \<Rightarrow> int \<Rightarrow> time \<Rightarrow> int \<Rightarrow> nat \<Rightarrow> nat \<Rightarrow> ReplayMetric option" where
  "bench_metric env v latencies peak started mallocs0 t k =
     (let result = snd (Result_of (be_now env t) v);
          since = be_now env (t + 1) - started;
          dur = (if since \<le> 0 then 1 else since);
          peakAlloc = (if be_alloc env k > peak then be_alloc env k else peak);
          events = vr_Events result;
          perEvent = (if events > 0 \<and> be_mallocs env k \<ge> mallocs0
                      then FDiv (FInt (be_mallocs env k - mallocs0)) (FInt events) else FInt 0)
      in case percentile latencies pct95 of
           None \<Rightarrow> None
         | Some p95 \<Rightarrow>
             Some \<lparr>rm_Rows = vr_Rows result, rm_Events = events, rm_MalformedEvents = vr_MalformedEvents result,
               rm_SequenceGaps = vr_SequenceGaps result, rm_Duration = dur,
               rm_RowsPerSecond = FDiv (FInt (vr_Rows result)) (FSeconds dur),
               rm_EventsPerSecond = FDiv (FInt events) (FSeconds dur), rm_P95Latency = p95, rm_PeakAllocBytes = peakAlloc,
               rm_AllocsPerEvent = perEvent, rm_ProcessedAt = be_now env (t + 2), rm_WorkloadFilePath = ''''\<rparr>)"

text \<open>\<open>t\<close> and \<open>k\<close> are the numbers of readings of the clock and of the memory statistics; at most 4096 latencies are kept.\<close>

function bench_loop ::
  "BenchEnv \<Rightarrow> string \<Rightarrow> time \<Rightarrow> int \<Rightarrow> Stream \<Rightarrow> Validator \<Rightarrow> duration list \<Rightarrow> int \<Rightarrow> int \<Rightarrow> nat \<Rightarrow> nat \<Rightarrow>
    (stream_error + ReplayMetric) option" where
  "bench_loop env symb started mallocs0 s v latencies rows peak t k =
     (case Next s of
        NextEOF \<Rightarrow> map_option Inr (bench_metric env v latencies peak started mallocs0 (t + 1) k)
      | NextError e \<Rightarrow> Some (Inl e)
      | NextRecord rec s' \<Rightarrow>
          (let v' = Process v rec; rows' = rows + 1;
               measured = (rec_Err rec = None \<and> (symb = '''' \<or> ev_Symbol (rec_Event rec) = symb) \<and> length latencies < 4096);
               latencies' = (if measured then latencies @ [be_now env (t + 1) - be_now env t] else latencies);
               t' = (if measured then t + 2 else t + 1);
               sampled = (rows' mod 2048 = 0);
               peak' = (if sampled \<and> be_alloc env k > peak then be_alloc env k else peak);
               k' = (if sampled then k + 1 else k)
           in bench_loop env symb started mallocs0 s' v' latencies' rows' peak' t' k'))"
  by pat_completeness auto
termination
  by (relation "measure (\<lambda>(env, symb, started, mallocs0, s, v, latencies, rows, peak, t, k). unread s)")
    (auto dest: Next_shrinks)

declare bench_loop.simps [simp del]

definition bench_Stream :: "BenchEnv \<Rightarrow> Stream \<Rightarrow> string \<Rightarrow> (stream_error + ReplayMetric) option" where
  "bench_Stream env s symb =
     bench_loop env symb (be_now env 0) (be_mallocs env 0) s (NewValidator (be_now env 1) \<lparr>op_Symbol = symb\<rparr>) [] 0
       (be_alloc env 0) 2 1"

definition bench_File :: "BenchEnv \<Rightarrow> file_system \<Rightarrow> string \<Rightarrow> Format \<Rightarrow> string \<Rightarrow> (stream_error + ReplayMetric) option" where
  "bench_File env fs path format symb =
     (case Open fs path format of
        Inl e \<Rightarrow> Some (Inl e)
      | Inr s \<Rightarrow>
          (case bench_Stream env s symb of
             None \<Rightarrow> None
           | Some (Inl e) \<Rightarrow> Some (Inl e)
           | Some (Inr metric) \<Rightarrow> Some (Inr (metric\<lparr>rm_WorkloadFilePath := path\<rparr>))))"

subsection \<open>The index of a percentile is in range\<close>

lemma rounded_le:
  assumes "0 \<le> r" "r \<le> of_int z" "0 \<le> z" "z \<le> 2 ^ 53"
  shows "0 \<le> rounded r" "rounded r \<le> of_int z"
  using to_binary64_le [OF assms] by (auto simp: rounded_def)

lemma percentile_index_less:
  assumes "0 < n" "int n \<le> 2 ^ 53" "0 \<le> pct" "pct \<le> 1"
  shows "percentile_index n pct < n"
proof -
  have z: "(of_nat (n - 1) :: rat) = of_int (int n - 1)" using assms(1) by (simp add: of_nat_diff)
  have "(of_nat (n - 1) :: rat) * pct \<le> of_int (int n - 1)"
    unfolding z using assms(1,3,4) mult_left_mono [of pct 1 "of_int (int n - 1) :: rat"] by simp
  then have "rounded (of_nat (n - 1) * pct) \<le> of_int (int n - 1)"
    using assms by (intro rounded_le) simp_all
  then have "\<lfloor>rounded (of_nat (n - 1) * pct)\<rfloor> \<le> int n - 1" by (metis floor_mono floor_of_int)
  then show ?thesis using assms(1) unfolding percentile_index_def by linarith
qed

lemma pct95_range: "0 \<le> pct95" "pct95 \<le> 1"
  unfolding pct95_def using rounded_le [of "95 / 100" 1] by simp_all

lemma sorted_rank:
  assumes "sorted xs" "i < length xs"
  shows "Suc i \<le> length (filter (\<lambda>x. x \<le> xs ! i) xs)" "length xs - i \<le> length (filter (\<lambda>x. xs ! i \<le> x) xs)"
proof -
  have xs: "xs = take (Suc i) xs @ drop (Suc i) xs" "xs = take i xs @ drop i xs" by simp_all
  have "\<forall>x \<in> set (take (Suc i) xs). x \<le> xs ! i" "\<forall>x \<in> set (drop i xs). xs ! i \<le> x"
    using assms by (auto simp: in_set_conv_nth sorted_nth_mono)
  then have "filter (\<lambda>x. x \<le> xs ! i) (take (Suc i) xs) = take (Suc i) xs" "filter (\<lambda>x. xs ! i \<le> x) (drop i xs) = drop i xs"
    by (simp_all add: filter_id_conv)
  moreover have "filter P xs = filter P (take (Suc i) xs) @ filter P (drop (Suc i) xs)"
    "filter P xs = filter P (take i xs) @ filter P (drop i xs)" for P
    by (metis append_take_drop_id filter_append)+
  ultimately show "Suc i \<le> length (filter (\<lambda>x. x \<le> xs ! i) xs)" "length xs - i \<le> length (filter (\<lambda>x. xs ! i \<le> x) xs)"
    using assms(2) by (metis le_add1 length_append length_take min.absorb2 Suc_leI, metis le_add2 length_append length_drop)
qed

lemma length_filter_mset: "mset xs = mset ys \<Longrightarrow> length (filter P xs) = length (filter P ys)"
  by (metis mset_filter size_mset)

lemma percentile_defined:
  assumes "int (length vals) \<le> 2 ^ 53" "0 \<le> pct" "pct \<le> 1"
  shows "\<exists>d. percentile vals pct = Some d"
proof (cases "vals = []")
  case False
  then have "percentile_index (length vals) pct < length vals" using percentile_index_less [OF _ assms] by simp
  then show ?thesis using False by (simp add: percentile_def Let_def)
qed (simp add: percentile_def)

text \<open>
  The percentile of measured latencies is one of them and never an index out of range: with the index rounded as a
  floating-point number, so many of the latencies are at most as long as it says, and the others at least as long.
\<close>

theorem percentile_rank:
  assumes "vals \<noteq> []" "int (length vals) \<le> 2 ^ 53" "0 \<le> pct" "pct \<le> 1"
  shows "\<exists>d. percentile vals pct = Some d \<and> d \<in> set vals \<and> percentile_index (length vals) pct < length vals \<and>
    percentile_index (length vals) pct + 1 \<le> length (filter (\<lambda>x. x \<le> d) vals) \<and>
    length vals - percentile_index (length vals) pct \<le> length (filter (\<lambda>x. d \<le> x) vals)"
proof -
  let ?i = "percentile_index (length vals) pct"
  have i: "?i < length vals" using percentile_index_less [OF _ assms(2-4)] assms(1) by simp
  have "?i + 1 \<le> length (filter (\<lambda>x. x \<le> sort vals ! ?i) vals)"
    "length vals - ?i \<le> length (filter (\<lambda>x. sort vals ! ?i \<le> x) vals)"
    using sorted_rank [of "sort vals" ?i] i length_filter_mset [of "sort vals" vals] by simp_all
  moreover have "sort vals ! ?i \<in> set vals" using i by (metis length_sort nth_mem set_sort)
  ultimately show ?thesis using assms(1) i by (simp add: percentile_def Let_def)
qed

subsection \<open>The loop and the validator\<close>

text \<open>The counters of a metric are those of a validation.\<close>

definition counts :: "ReplayMetric \<Rightarrow> int \<times> int \<times> int \<times> int" where
  "counts m = (rm_Rows m, rm_Events m, rm_MalformedEvents m, rm_SequenceGaps m)"

definition result_counts :: "Result \<Rightarrow> int \<times> int \<times> int \<times> int" where
  "result_counts r = (vr_Rows r, vr_Events r, vr_MalformedEvents r, vr_SequenceGaps r)"

lemma bench_metric_ok:
  assumes "length latencies \<le> 4096"
  shows "\<exists>m. bench_metric env v latencies peak started mallocs0 t k = Some m \<and> counts m = result_counts (v_result v) \<and>
    0 < rm_Duration m \<and> peak \<le> rm_PeakAllocBytes m"
proof -
  obtain p where "percentile latencies pct95 = Some p"
    using percentile_defined [OF _ pct95_range, of latencies] assms by auto
  then show ?thesis by (simp add: bench_metric_def counts_def result_counts_def Let_def)
qed

lemma bench_loop_ok:
  assumes "length latencies \<le> 4096"
  shows "case drain s of
      (rs, Some e) \<Rightarrow> bench_loop env symb started mallocs0 s v latencies rows peak t k = Some (Inl e)
    | (rs, None) \<Rightarrow> \<exists>m. bench_loop env symb started mallocs0 s v latencies rows peak t k = Some (Inr m) \<and>
        counts m = result_counts (v_result (foldl Process v rs)) \<and> 0 < rm_Duration m \<and> peak \<le> rm_PeakAllocBytes m"
  using assms
proof (induction env symb started mallocs0 s v latencies rows peak t k rule: bench_loop.induct)
  case (1 env symb started mallocs0 s v latencies rows peak t k)
  show ?case
  proof (cases s rule: drain_cases)
    case eof
    then show ?thesis
      using bench_metric_ok [OF "1.prems", of env v peak started mallocs0 "t + 1" k] by (auto simp: bench_loop.simps [of _ _ _ _ s])
  next
    case (err e)
    then show ?thesis by (simp add: bench_loop.simps [of _ _ _ _ s])
  next
    case (more rec s')
    let ?measured = "rec_Err rec = None \<and> (symb = '''' \<or> ev_Symbol (rec_Event rec) = symb) \<and> length latencies < 4096"
    let ?lat = "if ?measured then latencies @ [be_now env (t + 1) - be_now env t] else latencies"
    let ?peak = "if (rows + 1) mod 2048 = 0 \<and> be_alloc env k > peak then be_alloc env k else peak"
    have len: "length ?lat \<le> 4096" using "1.prems" by auto
    have peak: "peak \<le> ?peak" by simp
    have step: "bench_loop env symb started mallocs0 s v latencies rows peak t k =
        bench_loop env symb started mallocs0 s' (Process v rec) ?lat (rows + 1) ?peak (if ?measured then t + 2 else t + 1)
          (if (rows + 1) mod 2048 = 0 then k + 1 else k)"
      using more(1) by (subst bench_loop.simps) (simp only: next_result.case Let_def)
    have "case drain s' of
        (rs, Some e) \<Rightarrow> bench_loop env symb started mallocs0 s v latencies rows peak t k = Some (Inl e)
      | (rs, None) \<Rightarrow> \<exists>m. bench_loop env symb started mallocs0 s v latencies rows peak t k = Some (Inr m) \<and>
          counts m = result_counts (v_result (foldl Process (Process v rec) rs)) \<and> 0 < rm_Duration m \<and> ?peak \<le> rm_PeakAllocBytes m"
      unfolding step by (rule "1.IH" [OF more(1) refl refl refl refl refl refl refl refl len])
    then show ?thesis
      using more(2) peak by (cases "drain s'") (auto split: option.splits intro: order_trans [OF peak])
  qed
qed

lemma bench_Stream_ok:
  "case drain s of
      (rs, Some e) \<Rightarrow> bench_Stream env s symb = Some (Inl e)
    | (rs, None) \<Rightarrow> \<exists>m. bench_Stream env s symb = Some (Inr m) \<and>
        counts m = result_counts (v_result (foldl Process (NewValidator (be_now env 1) \<lparr>op_Symbol = symb\<rparr>) rs)) \<and>
        0 < rm_Duration m \<and> be_alloc env 0 \<le> rm_PeakAllocBytes m"
  unfolding bench_Stream_def by (rule bench_loop_ok) simp

lemma started_counts: "result_counts (v_result (foldl Process (NewValidator t opts) rs)) = result_counts (v_result (foldl Process (NewValidator t' opts) rs))"
  by (simp add: result_counts_def foldl_Process_result NewValidator_def track_of_def)

lemma bench_run:
  "case bench_File env fs path format symb of
      None \<Rightarrow> False
    | Some (Inl e) \<Rightarrow> validate_File fs t0 t1 path format \<lparr>op_Symbol = symb\<rparr> = Inl e
    | Some (Inr m) \<Rightarrow> (\<exists>res. validate_File fs t0 t1 path format \<lparr>op_Symbol = symb\<rparr> = Inr res \<and> counts m = result_counts res) \<and>
        0 < rm_Duration m \<and> be_alloc env 0 \<le> rm_PeakAllocBytes m \<and> rm_WorkloadFilePath m = path"
proof (cases "Open fs path format")
  case (Inl e)
  then show ?thesis by (simp add: bench_File_def validate_File_def)
next
  case (Inr s)
  obtain rs oe where d: "drain s = (rs, oe)" by (cases "drain s")
  show ?thesis
  proof (cases oe)
    case None
    obtain m where "bench_Stream env s symb = Some (Inr m)" "0 < rm_Duration m" "be_alloc env 0 \<le> rm_PeakAllocBytes m"
      "counts m = result_counts (v_result (foldl Process (NewValidator (be_now env 1) \<lparr>op_Symbol = symb\<rparr>) rs))"
      using bench_Stream_ok [where s = s and env = env and symb = symb] d None by auto
    moreover have "result_counts (snd (Result_of t1 v)) = result_counts (v_result v)" for v
      by (simp add: Result_of_def result_counts_def)
    moreover have "counts (m\<lparr>rm_WorkloadFilePath := path\<rparr>) = counts m" by (simp add: counts_def)
    ultimately show ?thesis
      using Inr d None started_counts [of "be_now env 1" _ rs t0] by (simp add: bench_File_def validate_File_def validate_Stream_def)
  next
    case (Some e)
    then show ?thesis using bench_Stream_ok [where s = s and env = env and symb = symb] Inr d by (simp add: bench_File_def validate_File_def validate_Stream_def)
  qed
qed

text \<open>
  C36: a benchmark measures the work of the validator. It returns for every file, with the error of the validation where there is
  one, and else with the counters of the validation, whatever the clocks and the memory statistics said; the duration is positive and
  the peak at least what was in use at the start.
\<close>

theorem bench_counts:
  "case bench_File env fs path format symb of
      None \<Rightarrow> False
    | Some (Inl e) \<Rightarrow> validate_File fs t0 t1 path format \<lparr>op_Symbol = symb\<rparr> = Inl e
    | Some (Inr m) \<Rightarrow> (\<exists>res. validate_File fs t0 t1 path format \<lparr>op_Symbol = symb\<rparr> = Inr res \<and> counts m = result_counts res) \<and>
        0 < rm_Duration m \<and> be_alloc env 0 \<le> rm_PeakAllocBytes m \<and> rm_WorkloadFilePath m = path"
  by (rule bench_run)

theorem percentile_rank_witness:
  "\<exists>d. percentile [50, 10, 30] (1 / 2) = Some d \<and> d \<in> {10, 30, 50} \<and> percentile_index 3 (1 / 2) < 3"
  using percentile_rank [of "[50, 10, 30]" "1 / 2"] by (auto simp: numeral_3_eq_3)

end
