(* ===== verification/Kafka_Client.thy ===== *)
theory Kafka_Client
  imports Kafka_Stream Bench
begin

section \<open>The Kafka client and its commands\<close>

text \<open>
  \<^verbatim>\<open>kafkastream/kgo.go\<close>, the producer and the consumer over the client library, and the commands of
  \<^verbatim>\<open>cmd/kafka-replay\<close> after their flags are parsed. The library is not code of this repository: its calls act on a world
  and are fields of the record \<open>Kafka\<close>. The loops that wait for a broker may run forever and are partial functions.
\<close>

definition ErrNoMessage :: string where
  "ErrNoMessage = ''no kafka message available''"

record KgoRecord =
  kr_Topic :: string
  kr_Key :: bytes
  kr_Value :: bytes
  kr_Partition :: int
  kr_Offset :: int

text \<open>The records of a fetch, or its error: whether it is the end of the context, and its text.\<close>

record Fetches =
  fe_Err :: "(bool \<times> string) option"
  fe_Records :: "KgoRecord list"

datatype ack = Acked "string option" | ContextDone string

datatype topic_code = TopicOk | TopicAlreadyExists | TopicFailed string

record TopicSpec =
  ts_Name :: string
  ts_Partitions :: int
  ts_ReplicationFactor :: int

record 'w Kafka =
  kf_NewClient :: "string list \<Rightarrow> 'w \<Rightarrow> string option \<times> 'w"
  kf_NewGroupClient :: "string list \<Rightarrow> string \<Rightarrow> string list \<Rightarrow> 'w \<Rightarrow> string option \<times> 'w"
  kf_Send :: "string \<Rightarrow> bytes \<Rightarrow> bytes \<Rightarrow> 'w \<Rightarrow> ack \<times> 'w"
  kf_PollFetches :: "'w \<Rightarrow> Fetches \<times> 'w"
  kf_CreateTopics :: "TopicSpec list \<Rightarrow> 'w \<Rightarrow> (string + (string \<times> topic_code) list) \<times> 'w"
  kf_Metadata :: "string \<Rightarrow> 'w \<Rightarrow> bool \<times> 'w"
  kf_Wait :: "'w \<Rightarrow> string option \<times> 'w"

subsection \<open>kgo.go\<close>

definition kgo_Produce :: "'w Kafka \<Rightarrow> 'w Producer" where
  "kgo_Produce k msg w =
     (case kf_Send k (mg_Topic msg) (mg_Key msg) (mg_Value msg) w of
        (Acked err, w') \<Rightarrow> (err, w')
      | (ContextDone err, w') \<Rightarrow> (Some err, w'))"

record 'w KgoConsumer =
  kc_client :: 'w
  kc_pending :: "Message list"

definition kgo_message :: "KgoRecord \<Rightarrow> Message" where
  "kgo_message r = \<lparr>mg_Topic = kr_Topic r, mg_Key = kr_Key r, mg_Value = kr_Value r, mg_Partition = kr_Partition r,
     mg_Offset = kr_Offset r, mg_Lag = - 1\<rparr>"

definition kgo_Poll :: "('w \<Rightarrow> Fetches \<times> 'w) \<Rightarrow> 'w KgoConsumer Consumer" where
  "kgo_Poll pollFetches c =
     (case kc_pending c of
        msg # pending \<Rightarrow> (Inr msg, c\<lparr>kc_pending := pending\<rparr>)
      | [] \<Rightarrow>
          (case pollFetches (kc_client c) of
             (fetches, w) \<Rightarrow>
               (case fe_Err fetches of
                  Some (done, e) \<Rightarrow> (Inl (if done then e else ''poll kafka fetches: '' @ e), c\<lparr>kc_client := w\<rparr>)
                | None \<Rightarrow>
                    (case map kgo_message (fe_Records fetches) of
                       [] \<Rightarrow> (Inl ErrNoMessage, c\<lparr>kc_client := w\<rparr>)
                     | msg # pending \<Rightarrow> (Inr msg, \<lparr>kc_client = w, kc_pending = pending\<rparr>)))))"

datatype topics_error = AdminClient string | CreateRequest string | CreateTopic string string | WaitTopic string string

partial_function (option) waitTopicMetadata :: "'w Kafka \<Rightarrow> string \<Rightarrow> 'w \<Rightarrow> (topics_error option \<times> 'w) option" where
  "waitTopicMetadata k topic w =
     (case kf_Metadata k topic w of
        (found, w1) \<Rightarrow>
          (if found then Some (None, w1)
           else case kf_Wait k w1 of
                  (Some e, w2) \<Rightarrow> Some (Some (WaitTopic topic e), w2)
                | (None, w2) \<Rightarrow> waitTopicMetadata k topic w2))"

declare waitTopicMetadata.simps [code]

fun wait_topics :: "'w Kafka \<Rightarrow> string list \<Rightarrow> 'w \<Rightarrow> (topics_error option \<times> 'w) option" where
  "wait_topics k [] w = Some (None, w)"
| "wait_topics k (t # ts) w =
     (case waitTopicMetadata k t w of
        None \<Rightarrow> None
      | Some (Some e, w') \<Rightarrow> Some (Some e, w')
      | Some (None, w') \<Rightarrow> wait_topics k ts w')"

fun created_error :: "(string \<times> topic_code) list \<Rightarrow> topics_error option" where
  "created_error [] = None"
| "created_error ((t, code) # cs) = (case code of TopicFailed e \<Rightarrow> Some (CreateTopic t e) | _ \<Rightarrow> created_error cs)"

definition topic_request :: "TopicSpec \<Rightarrow> TopicSpec" where
  "topic_request spec = spec\<lparr>ts_Partitions := (if ts_Partitions spec \<le> 0 then 1 else ts_Partitions spec),
     ts_ReplicationFactor := (if ts_ReplicationFactor spec \<le> 0 then 1 else ts_ReplicationFactor spec)\<rparr>"

definition EnsureTopics :: "'w Kafka \<Rightarrow> string list \<Rightarrow> TopicSpec list \<Rightarrow> 'w \<Rightarrow> (topics_error option \<times> 'w) option" where
  "EnsureTopics k brokers specs w =
     (case kf_NewClient k brokers w of
        (Some e, w1) \<Rightarrow> Some (Some (AdminClient e), w1)
      | (None, w1) \<Rightarrow>
          (let named = filter (\<lambda>s. ts_Name s \<noteq> '''') specs; topics = map topic_request named
           in if topics = [] then Some (None, w1)
              else case kf_CreateTopics k topics w1 of
                     (Inl e, w2) \<Rightarrow> Some (Some (CreateRequest e), w2)
                   | (Inr res, w2) \<Rightarrow>
                       (case created_error res of
                          Some e \<Rightarrow> Some (Some e, w2)
                        | None \<Rightarrow> wait_topics k (map ts_Name named) w2)))"

subsection \<open>The commands\<close>

fun split_comma :: "string \<Rightarrow> string list" where
  "split_comma [] = ['''']"
| "split_comma (c # cs) =
     (if c = CHR '','' then '''' # split_comma cs
      else case split_comma cs of [] \<Rightarrow> [[c]] | p # ps \<Rightarrow> (c # p) # ps)"

definition splitCSV :: "string \<Rightarrow> string list" where
  "splitCSV val = filter (\<lambda>p. p \<noteq> '''') (map TrimSpace (split_comma val))"

definition perSecond :: "int \<Rightarrow> duration \<Rightarrow> float64" where
  "perSecond n dur = (if dur \<le> 0 then FInt 0 else FDiv (FInt n) (FSeconds dur))"

text \<open>The same text as \<^verbatim>\<open>percentile\<close> of the benchmarks, at another type.\<close>

definition percentileInt64 :: "int list \<Rightarrow> rat \<Rightarrow> int option" where
  "percentileInt64 vals pct = percentile vals pct"

datatype command_error =
    FileRequired | FormatError stream_error | KafkaClient string | Topics topics_error | PublishFailed publish_error
  | PollFailed string | RunFailed string

definition runProduce ::
  "'w Kafka \<Rightarrow> file_system \<Rightarrow> string \<Rightarrow> string \<Rightarrow> Format \<Rightarrow> 'w \<Rightarrow> (command_error + string) \<times> 'w" where
  "runProduce k fs brokers path format w =
     (if path = '''' then (Inl FileRequired, w)
      else case kf_NewClient k (splitCSV brokers) w of
             (Some e, w1) \<Rightarrow> (Inl (KafkaClient e), w1)
           | (None, w1) \<Rightarrow>
               (case PublishFile (kgo_Produce k) fs path format w1 of
                  (n, Some e, w2) \<Rightarrow> (Inl (PublishFailed e), w2)
                | (n, None, w2) \<Rightarrow> (Inr (''produced '' @ FormatInt n @ '' raw market events'' @ [CHR 0x0A]), w2)))"

text \<open>The environment of the validator: the consumer and the producer share the world.\<close>

definition kgo_env :: "'w Kafka \<Rightarrow> (cause \<Rightarrow> string) \<Rightarrow> ('w KgoConsumer \<Rightarrow> time) \<Rightarrow> 'w KgoConsumer KafkaEnv" where
  "kgo_env k etext now =
     \<lparr>ke_Poll = kgo_Poll (kf_PollFetches k),
      ke_Produce = (\<lambda>m c. case kgo_Produce k m (kc_client c) of (e, w) \<Rightarrow> (e, c\<lparr>kc_client := w\<rparr>)),
      ke_LagObserver = None, ke_now = now, ke_Error = etext\<rparr>"

definition runValidate ::
  "'w Kafka \<Rightarrow> (cause \<Rightarrow> string) \<Rightarrow> ('w KgoConsumer \<Rightarrow> time) \<Rightarrow> string \<Rightarrow> string \<Rightarrow> 'w \<Rightarrow> (command_error \<times> 'w) option" where
  "runValidate k etext now brokers grp w =
     (case kf_NewGroupClient k (splitCSV brokers) grp [TopicMarketDepthRaw, TopicMarketTradeRaw] w of
        (Some e, w1) \<Rightarrow> Some (KafkaClient e, w1)
      | (None, w1) \<Rightarrow>
          (case kf_NewClient k (splitCSV brokers) w1 of
             (Some e, w2) \<Rightarrow> Some (KafkaClient e, w2)
           | (None, w2) \<Rightarrow>
               (let c = \<lparr>kc_client = w2, kc_pending = []\<rparr>
                in map_option (\<lambda>(e, v, c'). (RunFailed e, kc_client c')) (kafka_Run (kgo_env k etext now) (NewValidatorWithOptions (now c) grp) c))))"

record benchResult =
  br_File :: string
  br_DepthTopic :: string
  br_TradeTopic :: string
  br_Group :: string
  br_ProducedEvents :: int
  br_ConsumedEvents :: int
  br_ProduceDuration :: duration
  br_ConsumeDuration :: duration
  br_EndToEndDuration :: duration
  br_ProducerEventsPerSecond :: float64
  br_ConsumerEventsPerSecond :: float64
  br_ObservedConsumerLagP95Events :: int

text \<open>Consuming until as many messages of the two topics have come as were produced.\<close>

partial_function (option) consume_loop ::
  "'c Consumer \<Rightarrow> string \<Rightarrow> string \<Rightarrow> int \<Rightarrow> int \<Rightarrow> int list \<Rightarrow> 'c \<Rightarrow> ((string + int \<times> int list) \<times> 'c) option" where
  "consume_loop poll depthTopic tradeTopic produced consumed lagSamples c =
     (if consumed < produced then
        (case poll c of
           (Inl e, c') \<Rightarrow>
             (if e = ErrNoMessage then consume_loop poll depthTopic tradeTopic produced consumed lagSamples c' else Some (Inl e, c'))
         | (Inr msg, c') \<Rightarrow>
             (if mg_Topic msg = depthTopic \<or> mg_Topic msg = tradeTopic
              then consume_loop poll depthTopic tradeTopic produced (consumed + 1) (lagSamples @ [produced - (consumed + 1)]) c'
              else consume_loop poll depthTopic tradeTopic produced consumed lagSamples c'))
      else Some (Inr (consumed, lagSamples), c))"

declare consume_loop.simps [code]

text \<open>
  \<open>now i\<close> is the \<open>i\<close>-th reading of the clock. \<open>None\<close> is a wait without an end, or the panic of an index out of range. The context with the
  timeout is part of the world.
\<close>

definition bench_result ::
  "(nat \<Rightarrow> time) \<Rightarrow> string \<Rightarrow> string \<Rightarrow> int \<Rightarrow> int \<Rightarrow> int list \<Rightarrow> benchResult option" where
  "bench_result now path topicPrefix produced consumed lagSamples =
     map_option (\<lambda>p95.
       \<lparr>br_File = path, br_DepthTopic = topicPrefix @ ''.depth.raw'', br_TradeTopic = topicPrefix @ ''.trade.raw'',
        br_Group = topicPrefix @ ''.replay-validator'', br_ProducedEvents = produced, br_ConsumedEvents = consumed,
        br_ProduceDuration = now 2 - now 1, br_ConsumeDuration = now 4 - now 3, br_EndToEndDuration = now 5 - now 0,
        br_ProducerEventsPerSecond = perSecond produced (now 2 - now 1),
        br_ConsumerEventsPerSecond = perSecond consumed (now 4 - now 3), br_ObservedConsumerLagP95Events = p95\<rparr>)
     (percentileInt64 lagSamples pct95)"

definition bench_consume ::
  "'w Kafka \<Rightarrow> (nat \<Rightarrow> time) \<Rightarrow> string list \<Rightarrow> string \<Rightarrow> string \<Rightarrow> int \<Rightarrow> 'w \<Rightarrow> ((command_error + benchResult) \<times> 'w) option" where
  "bench_consume k now brokers path topicPrefix produced w =
     (let depthTopic = topicPrefix @ ''.depth.raw''; tradeTopic = topicPrefix @ ''.trade.raw''
      in case kf_NewGroupClient k brokers (topicPrefix @ ''.replay-validator'') [depthTopic, tradeTopic] w of
           (Some e, w1) \<Rightarrow> Some (Inl (KafkaClient e), w1)
         | (None, w1) \<Rightarrow>
             (case consume_loop (kgo_Poll (kf_PollFetches k)) depthTopic tradeTopic produced 0 [] \<lparr>kc_client = w1, kc_pending = []\<rparr> of
                None \<Rightarrow> None
              | Some (Inl e, c) \<Rightarrow> Some (Inl (PollFailed e), kc_client c)
              | Some (Inr (consumed, lagSamples), c) \<Rightarrow>
                  map_option (\<lambda>r. (Inr r, kc_client c)) (bench_result now path topicPrefix produced consumed lagSamples)))"

definition kafka_runBench ::
  "'w Kafka \<Rightarrow> file_system \<Rightarrow> (nat \<Rightarrow> time) \<Rightarrow> string \<Rightarrow> string \<Rightarrow> Format \<Rightarrow> string \<Rightarrow> 'w \<Rightarrow> ((command_error + benchResult) \<times> 'w) option" where
  "kafka_runBench k fs now brokers path format topicPrefix w =
     (if path = '''' then Some (Inl FileRequired, w)
      else case ResolveFormat path format of
        Inl e \<Rightarrow> Some (Inl (FormatError e), w)
      | Inr resolved \<Rightarrow>
          (let brokerList = splitCSV brokers; depthTopic = topicPrefix @ ''.depth.raw''; tradeTopic = topicPrefix @ ''.trade.raw''
           in case EnsureTopics k brokerList
                     [\<lparr>ts_Name = depthTopic, ts_Partitions = 1, ts_ReplicationFactor = 1\<rparr>,
                      \<lparr>ts_Name = tradeTopic, ts_Partitions = 1, ts_ReplicationFactor = 1\<rparr>] w of
                None \<Rightarrow> None
              | Some (Some e, w1) \<Rightarrow> Some (Inl (Topics e), w1)
              | Some (None, w1) \<Rightarrow>
                  (case kf_NewClient k brokerList w1 of
                     (Some e, w2) \<Rightarrow> Some (Inl (KafkaClient e), w2)
                   | (None, w2) \<Rightarrow>
                       (case PublishFileWithTopics (kgo_Produce k) fs path resolved depthTopic tradeTopic w2 of
                          (produced, Some e, w3) \<Rightarrow> Some (Inl (PublishFailed e), w3)
                        | (produced, None, w3) \<Rightarrow> bench_consume k now brokerList path topicPrefix produced w3))))"

subsection \<open>Waiting for a topic\<close>

definition wait_step :: "'w Kafka \<Rightarrow> string \<Rightarrow> 'w \<Rightarrow> 'w" where
  "wait_step k topic w = snd (kf_Wait k (snd (kf_Metadata k topic w)))"

text \<open>The wait ends as soon as the topic is there or the context is done.\<close>

lemma waitTopicMetadata_returns:
  assumes "fst (kf_Metadata k topic ((wait_step k topic ^^ n) w)) \<or>
    fst (kf_Wait k (snd (kf_Metadata k topic ((wait_step k topic ^^ n) w)))) \<noteq> None"
  shows "\<exists>out. waitTopicMetadata k topic w = Some out"
  using assms
proof (induction n arbitrary: w)
  case 0
  then show ?case by (subst waitTopicMetadata.simps) (auto split: prod.splits option.splits)
next
  case (Suc n)
  then have "\<exists>out. waitTopicMetadata k topic (wait_step k topic w) = Some out"
    by (intro Suc.IH) (simp only: funpow_Suc_right comp_apply)
  then show ?case by (subst waitTopicMetadata.simps) (auto simp: wait_step_def split: prod.splits option.splits)
qed

subsection \<open>The lag of the benchmark\<close>

text \<open>The lag after each message is what is left of a number known before, so the samples say nothing on the broker.\<close>

definition lag_samples :: "int \<Rightarrow> nat \<Rightarrow> int list" where
  "lag_samples produced n = map (\<lambda>i. produced - 1 - int i) [0..<n]"

definition lags_ok :: "int \<Rightarrow> int \<Rightarrow> int list \<Rightarrow> (string + int \<times> int list) \<times> 'c \<Rightarrow> bool" where
  "lags_ok produced consumed lags out \<longleftrightarrow>
     (\<forall>n c' consumed' lags'. consumed = int n \<longrightarrow> int n \<le> produced \<longrightarrow> lags = lag_samples produced n \<longrightarrow>
       out = (Inr (consumed', lags'), c') \<longrightarrow> consumed' = produced \<and> lags' = lag_samples produced (nat produced))"

lemma lags_ok_step:
  assumes "lags_ok produced (consumed + 1) (lags @ [produced - (consumed + 1)]) out" "consumed < produced"
  shows "lags_ok produced consumed lags out"
proof -
  have "lags @ [produced - (consumed + 1)] = lag_samples produced (Suc n)" "consumed + 1 = int (Suc n)" "int (Suc n) \<le> produced"
    if "consumed = int n" "lags = lag_samples produced n" for n
    using that assms(2) by (simp_all add: lag_samples_def)
  then show ?thesis using assms(1) unfolding lags_ok_def by blast
qed

lemma consume_loop_lags:
  assumes "consume_loop poll d t produced consumed lags c = Some out"
  shows "lags_ok produced consumed lags out"
proof (rule consume_loop.raw_induct [where P = "\<lambda>poll d t produced consumed lags c out. lags_ok produced consumed lags out", OF _ assms],
    goal_cases)
  case (1 loop poll d t produced consumed lags c out)
  show ?case
  proof (cases "consumed < produced")
    case False
    then show ?thesis using 1(2) by (auto simp: lags_ok_def)
  next
    case True
    obtain res c1 where p: "poll c = (res, c1)" by (cases "poll c")
    show ?thesis
    proof (cases res)
      case (Inl e)
      then show ?thesis using 1 True p by (auto simp: lags_ok_def [of _ _ _ "(Inl _, _)"] split: if_splits)
    next
      case (Inr msg)
      then show ?thesis using 1 True p lags_ok_step [OF _ True, of lags out] by (auto split: if_splits)
    qed
  qed
qed

lemma sort_lag_samples: "sort (lag_samples (int n) n) = map int [0..<n]"
proof (rule properties_for_sort)
  have "rev (map int [0..<n]) = lag_samples (int n) n"
    by (rule nth_equalityI) (simp_all add: lag_samples_def rev_nth)
  then show "mset (map int [0..<n]) = mset (lag_samples (int n) n)" by (metis mset_rev)
  show "sorted (map int [0..<n])" by (simp add: sorted_map sorted_wrt_upt)
qed

lemma bench_result_lag:
  assumes "bench_result now path topicPrefix produced consumed (lag_samples produced (nat produced)) = Some r" "0 \<le> produced"
  shows "br_ObservedConsumerLagP95Events r = (if produced = 0 then 0 else int (percentile_index (nat produced) pct95))"
proof -
  obtain n where n: "produced = int n" using assms(2) nonneg_int_cases by blast
  have len: "length (lag_samples produced n) = n" "lag_samples produced n = [] \<longleftrightarrow> n = 0" by (auto simp: lag_samples_def)
  show ?thesis
    using assms(1) len n
    by (auto simp: bench_result_def percentileInt64_def percentile_def sort_lag_samples Let_def split: if_splits)
qed

lemma publish_count_nonneg: "0 \<le> n \<Longrightarrow> 0 \<le> fst (publish_loop produce d t s n w)"
proof (induction produce d t s n w rule: publish_loop.induct)
  case (1 produce d t s n w)
  then show ?case by (subst publish_loop.simps) (auto split: next_result.splits option.splits prod.splits)
qed

text \<open>
  C39: the consumer lag that the Kafka benchmark reports does not depend on the broker. Whenever the command succeeds, as many
  events were consumed as produced, and the 95th percentile of the lag is a number that follows from the number of
  produced events alone: the samples are what was left to consume of a file that had been produced before.
\<close>

theorem bench_lag_fixed:
  assumes "kafka_runBench k fs now brokers path format topicPrefix w = Some (Inr r, w')"
  shows "br_ConsumedEvents r = br_ProducedEvents r \<and> 0 \<le> br_ProducedEvents r \<and>
    br_ObservedConsumerLagP95Events r =
      (if br_ProducedEvents r = 0 then 0 else int (percentile_index (nat (br_ProducedEvents r)) pct95))"
proof -
  let ?d = "topicPrefix @ ''.depth.raw''" and ?t = "topicPrefix @ ''.trade.raw''"
  obtain resolved produced w2 w3 where p: "PublishFileWithTopics (kgo_Produce k) fs path resolved ?d ?t w2 = (produced, None, w3)"
    and c: "bench_consume k now (splitCSV brokers) path topicPrefix produced w3 = Some (Inr r, w')"
    using assms unfolding kafka_runBench_def Let_def by (auto split: if_splits sum.splits option.splits prod.splits)
  have nonneg: "0 \<le> produced"
    using p publish_count_nonneg [of 0 "kgo_Produce k" ?d ?t] 
    by (auto simp: PublishFileWithTopics_def PublishStreamWithTopics_def split: sum.splits) (metis fst_conv order_refl)
  obtain w4 consumed lags cons where
    l: "consume_loop (kgo_Poll (kf_PollFetches k)) ?d ?t produced 0 [] \<lparr>kc_client = w4, kc_pending = []\<rparr> = Some (Inr (consumed, lags), cons)"
    and r: "bench_result now path topicPrefix produced consumed lags = Some r"
    using c unfolding bench_consume_def Let_def by (auto split: option.splits prod.splits sum.splits)
  have "lag_samples produced 0 = []" by (simp add: lag_samples_def)
  then have lags: "consumed = produced" "lags = lag_samples produced (nat produced)"
    using consume_loop_lags [OF l] nonneg unfolding lags_ok_def by fastforce+
  have "br_ConsumedEvents r = consumed" "br_ProducedEvents r = produced" using r by (auto simp: bench_result_def)
  then show ?thesis using bench_result_lag [OF r [unfolded lags(2)] nonneg] lags(1) nonneg by simp
qed

text \<open>The number in the published table: 47922 events and a lag of 45524.\<close>

lemma rounded_by:
  assumes "r \<noteq> 0" "top_exponent 2 r = e" "- 1022 \<le> e" "2 powi (e - 52) = u" "round_half_even (r / u) = m" "of_int m * u < (2 :: rat) ^ 1024"
  shows "rounded r = of_int m * u"
proof -
  have "max (e - 52) (- 1074) = e - 52" using assms(3) by simp
  then have "to_binary64 r = Some (of_int m * u)"
    unfolding to_binary64_def Let_def assms(2) by (simp only: assms(1,4-6) if_True if_False)
  then show ?thesis by (simp only: rounded_def option.case)
qed

lemma published_lag: "percentile_index 47922 pct95 = 45524"
proof -
  have "top_exponent 2 (95 / 100) = - 1" "round_half_even (95 / 100 / (1 / 9007199254740992)) = 8556839292003942"
    "(2 :: rat) powi (- 1 - 52) = 1 / 9007199254740992"
    by code_simp+
  then have p: "pct95 = 8556839292003942 / 9007199254740992"
    unfolding pct95_def by (subst rounded_by [of _ "- 1" "1 / 9007199254740992" 8556839292003942]) simp_all
  have "top_exponent 2 (47921 * pct95) = 15" "round_half_even (47921 * pct95 / (1 / 137438953472)) = 6256901484865126"
    "(2 :: rat) powi (15 - 52) = 1 / 137438953472"
    unfolding p by code_simp+
  then have "rounded (47921 * pct95) = of_int 6256901484865126 * (1 / 137438953472)"
    by (intro rounded_by [of _ 15]) (simp_all add: p)
  then have "\<lfloor>rounded (47921 * pct95)\<rfloor> = 45524" by (simp add: floor_eq_iff)
  then show ?thesis by (simp add: percentile_index_def)
qed

subsection \<open>A consumer that fetches in batches\<close>

text \<open>
  What the validator needs of a consumer and its environment: that an environment \<open>env\<close> behaves as \<open>env'\<close> does on the abstract
  worlds, in states that are \<open>ok\<close>.
\<close>

locale kafka_refines =
  fixes env :: "'c KafkaEnv" and env' :: "'a KafkaEnv" and abs :: "'c \<Rightarrow> 'a" and ok :: "'c \<Rightarrow> bool"
  assumes poll: "ok w \<Longrightarrow> ke_Poll env w = (r, w1) \<Longrightarrow> ok w1 \<and> ke_Poll env' (abs w) = (r, abs w1)"
    and produce: "ok w \<Longrightarrow> ke_Produce env (new_message t key val) w = (e, w1) \<Longrightarrow>
      ok w1 \<and> ke_Produce env' (new_message t key val) (abs w) = (e, abs w1)"
    and observers: "ke_LagObserver env = None" "ke_LagObserver env' = None"
    and now: "ok w \<Longrightarrow> ke_now env' (abs w) = ke_now env w"
    and errors: "ke_Error env' = ke_Error env"
begin

lemma cause_text_refines [simp]: "cause_text env' c = cause_text env c"
  by (auto simp: cause_text_def errors split: cause.splits message.splits)

lemma routeError_refines:
  assumes "ok w" "routeError env m s c w = (e, w1)"
  shows "ok w1 \<and> routeError env' m s c (abs w) = (e, abs w1)"
  using assms produce now [OF assms(1)]
  by (auto simp: routeError_def Let_def)

lemma kafka_Process_refines:
  assumes "ok w" "kafka_Process env v m w = (e, v1, w1)"
  shows "ok w1 \<and> kafka_Process env' v m (abs w) = (e, v1, abs w1)"
  using assms(2) routeError_refines [OF assms(1)] produce [OF assms(1)] now [OF assms(1)]
  unfolding kafka_Process_def Let_def
  by (auto split: sum.splits option.splits if_splits prod.splits)

lemma kafka_Run_refines:
  assumes "kafka_Run env' v a = Some out" "ok w" "abs w = a"
  shows "\<exists>w'. kafka_Run env v w = Some (fst out, fst (snd out), w') \<and> ok w' \<and> abs w' = snd (snd out)"
proof -
  have "env' = env' \<longrightarrow> (\<forall>w. ok w \<longrightarrow> abs w = a \<longrightarrow>
    (\<exists>w'. kafka_Run env v w = Some (fst out, fst (snd out), w') \<and> ok w' \<and> abs w' = snd (snd out)))"
  proof (rule kafka_Run.raw_induct [where P = "\<lambda>e v a out. e = env' \<longrightarrow> (\<forall>w. ok w \<longrightarrow> abs w = a \<longrightarrow>
      (\<exists>w'. kafka_Run env v w = Some (fst out, fst (snd out), w') \<and> ok w' \<and> abs w' = snd (snd out)))", OF _ assms(1)],
      intro impI allI, goal_cases)
    case (1 run e v a out w)
    obtain r w1 where p: "ke_Poll env w = (r, w1)" by (cases "ke_Poll env w")
    then have p': "ok w1" "ke_Poll env' a = (r, abs w1)" using poll 1(4,5) by blast+
    show ?case
    proof (cases r)
      case (Inl err)
      then show ?thesis using 1(2,3) p p' by (subst kafka_Run.simps) auto
    next
      case (Inr m)
      obtain err v1 w2 where q: "kafka_Process env v m w1 = (err, v1, w2)" by (cases "kafka_Process env v m w1")
      then have q': "ok w2" "kafka_Process env' v m (abs w1) = (err, v1, abs w2)" using kafka_Process_refines p'(1) by blast+
      have run: "kafka_Run env v w = (case err of None \<Rightarrow> kafka_Run env v1 w2 | Some x \<Rightarrow> Some (x, v1, w2))"
        using p Inr q observers(1) by (subst kafka_Run.simps) (simp add: Let_def split: option.splits)
      have "(case err of None \<Rightarrow> run env' v1 (abs w2) | Some x \<Rightarrow> Some (x, v1, abs w2)) = Some out"
        using 1(2,3) p'(2) Inr q'(2) observers(2) by (simp add: Let_def split: option.splits)
      then show ?thesis
        unfolding run using 1(1) [of env' v1 "abs w2" out] q'(1) by (cases err) auto
    qed
  qed
  then show ?thesis using assms(2,3) by blast
qed

end

subsection \<open>The validating command\<close>

text \<open>
  An instance of the client library: a broker that delivers given fetches and keeps what is sent. Behind the last one it returns
  fetches without records and without an error, which is what \<^verbatim>\<open>ErrNoMessage\<close> is there for; a client that waits for records
  instead does not return from the poll.
\<close>

definition scripted :: "(Fetches list \<times> Message list) Kafka" where
  "scripted =
     \<lparr>kf_NewClient = (\<lambda>_ w. (None, w)), kf_NewGroupClient = (\<lambda>_ _ _ w. (None, w)),
      kf_Send = (\<lambda>t key val (fetches, sent). (Acked None, (fetches, sent @ [new_message t key val]))),
      kf_PollFetches = (\<lambda>(fetches, sent).
        case fetches of [] \<Rightarrow> (\<lparr>fe_Err = None, fe_Records = []\<rparr>, ([], sent)) | f # fs \<Rightarrow> (f, (fs, sent))),
      kf_CreateTopics = (\<lambda>topics w. (Inr (map (\<lambda>s. (ts_Name s, TopicOk)) topics), w)),
      kf_Metadata = (\<lambda>_ w. (True, w)), kf_Wait = (\<lambda>w. (None, w))\<rparr>"

definition fetched :: "Fetches list \<Rightarrow> Message list" where
  "fetched fetches = map kgo_message (concat (map fe_Records fetches))"

definition contents :: "(Fetches list \<times> Message list) KgoConsumer \<Rightarrow> Message list \<times> Message list" where
  "contents c = (kc_pending c @ fetched (fst (kc_client c)), snd (kc_client c))"

definition full_batches :: "Fetches list \<Rightarrow> bool" where
  "full_batches fetches = list_all (\<lambda>f. fe_Err f = None \<and> fe_Records f \<noteq> []) fetches"

lemma scripted_poll:
  assumes "full_batches (fst (kc_client c))" "kgo_Poll (kf_PollFetches scripted) c = (r, c1)"
  shows "full_batches (fst (kc_client c1)) \<and> ke_Poll (mailbox etext now) (contents c) = (r, contents c1)"
proof -
  obtain fetches sent pending where c: "c = \<lparr>kc_client = (fetches, sent), kc_pending = pending\<rparr>"
    by (cases c) (auto intro: that)
  show ?thesis
    using assms c
    by (cases pending; cases fetches)
      (auto simp: kgo_Poll_def scripted_def mailbox_def contents_def fetched_def full_batches_def ErrNoMessage_def split: list.splits)
qed

interpretation batches: kafka_refines "kgo_env scripted etext (\<lambda>c. now (contents c))" "mailbox etext now" contents "\<lambda>c. full_batches (fst (kc_client c))"
  for etext now
proof (unfold_locales, goal_cases)
  case (1 w r w1)
  then show ?case using scripted_poll [of w r w1 etext now] by (simp add: kgo_env_def)
next
  case (2 w t key val e w1)
  then show ?case
    by (cases "kc_client w") (auto simp: kgo_env_def kgo_Produce_def scripted_def mailbox_def contents_def new_message_def)
qed (simp_all add: kgo_env_def mailbox_def)

text \<open>
  C38: the validating command over the client library. When the fetches bring the messages of publishable rows in their order, in
  batches of any sizes, the command handles each of them once, in order, although it polls one message at a time: it
  sends one message for each, to the validated topic when validating the file reports no failure for the row, and to the
  error topic when it does. It then ends with the error that there is no message, at the first fetch without records.
\<close>

theorem command_validates_batches:
  assumes "full_batches fetches" "list_all2 carries (fetched fetches) rs" "list_all publishable rs"
  shows "\<exists>outs. runValidate scripted etext (\<lambda>c. now (contents c)) brokers grp (fetches, []) = Some (RunFailed ErrNoMessage, ([], outs)) \<and>
    map mg_Topic outs = map (\<lambda>ok. if ok then TopicMarketReplayValidated else TopicMarketReplayErrors)
      (verdicts (NewValidator t0 \<lparr>op_Symbol = ''''\<rparr>) rs) \<and>
    map mg_Key outs = map (ev_Symbol \<circ> rec_Event) rs"
proof -
  let ?c = "\<lparr>kc_client = (fetches, []), kc_pending = []\<rparr>" and ?now = "\<lambda>c. now (contents c)"
  let ?v = "NewValidatorWithOptions (?now ?c) grp"
  have contents: "contents ?c = (fetched fetches, [])" by (simp add: contents_def)
  obtain v' outs where run: "kafka_Run (mailbox etext now) ?v (fetched fetches, []) = Some (ErrNoMessage, v', ([], outs))"
    and outs: "map mg_Topic outs = map (\<lambda>ok. if ok then TopicMarketReplayValidated else TopicMarketReplayErrors)
      (verdicts (NewValidator t0 \<lparr>op_Symbol = ''''\<rparr>) rs)" "map mg_Key outs = map (ev_Symbol \<circ> rec_Event) rs"
    using kafka_Run_mailbox [OF assms(2,3), of ?v "NewValidator t0 \<lparr>op_Symbol = ''''\<rparr>" etext now "[]"]
    by (auto simp: NewValidatorWithOptions_def ErrNoMessage_def)
  obtain c' where c': "kafka_Run (kgo_env scripted etext ?now) ?v ?c = Some (ErrNoMessage, v', c')"
    "full_batches (fst (kc_client c'))" "contents c' = ([], outs)"
    using batches.kafka_Run_refines [OF run, of ?c] assms(1) contents by auto
  then have "fst (kc_client c') = []"
    by (cases "fst (kc_client c')") (auto simp: contents_def fetched_def full_batches_def)
  then have "kc_client c' = ([], outs)" using c'(3) by (cases "kc_client c'") (simp add: contents_def)
  then have "runValidate scripted etext ?now brokers grp (fetches, []) = Some (RunFailed ErrNoMessage, ([], outs))"
    using c'(1) by (simp add: runValidate_def scripted_def Let_def)
  then show ?thesis using outs by blast
qed

subsection \<open>The theorems at work\<close>

definition record_of :: "Message \<Rightarrow> KgoRecord" where
  "record_of m = \<lparr>kr_Topic = mg_Topic m, kr_Key = mg_Key m, kr_Value = mg_Value m, kr_Partition = 0, kr_Offset = 7\<rparr>"

text \<open>A broker that delivers what was sent in one fetch.\<close>

definition loopback :: "Message list Kafka" where
  "loopback =
     \<lparr>kf_NewClient = (\<lambda>_ w. (None, w)), kf_NewGroupClient = (\<lambda>_ _ _ w. (None, w)),
      kf_Send = (\<lambda>t key val sent. (Acked None, sent @ [new_message t key val])),
      kf_PollFetches = (\<lambda>sent. (\<lparr>fe_Err = None, fe_Records = map record_of sent\<rparr>, [])),
      kf_CreateTopics = (\<lambda>topics w. (Inr (map (\<lambda>s. (ts_Name s, TopicOk)) topics), w)),
      kf_Metadata = (\<lambda>_ w. (True, w)), kf_Wait = (\<lambda>w. (None, w))\<rparr>"

definition loopback_fs :: file_system where
  "loopback_fs p = (if p = ''a.jsonl'' then Some (sample_line @ [CHR 0x0A]) else None)"

lemma loopback_steps:
  "EnsureTopics loopback [''b''] [\<lparr>ts_Name = ''p.depth.raw'', ts_Partitions = 1, ts_ReplicationFactor = 1\<rparr>,
     \<lparr>ts_Name = ''p.trade.raw'', ts_Partitions = 1, ts_ReplicationFactor = 1\<rparr>] [] = Some (None, [])"
  "case PublishFileWithTopics (kgo_Produce loopback) loopback_fs ''a.jsonl'' FormatJSONL ''p.depth.raw'' ''p.trade.raw'' [] of
     (n, e, sent) \<Rightarrow> n = 1 \<and> e = None \<and>
       (case consume_loop (kgo_Poll (kf_PollFetches loopback)) ''p.depth.raw'' ''p.trade.raw'' n 0 [] \<lparr>kc_client = sent, kc_pending = []\<rparr> of
          Some (Inr (consumed, lags), c) \<Rightarrow> consumed = 1 \<and> lags = [0] | _ \<Rightarrow> False)"
  by code_simp+

theorem bench_lag_fixed_witness:
  "\<exists>r w'. kafka_runBench loopback loopback_fs (\<lambda>i. int i) ''b'' ''a.jsonl'' FormatJSONL ''p'' [] = Some (Inr r, w') \<and>
    br_ProducedEvents r = 1 \<and> br_ConsumedEvents r = 1 \<and> br_ObservedConsumerLagP95Events r = int (percentile_index 1 pct95)"
proof -
  obtain p where p: "percentileInt64 [0] pct95 = Some p"
    using percentile_defined [OF _ pct95_range, of "[0]"] by (auto simp: percentileInt64_def)
  have brokers: "splitCSV ''b'' = [''b'']" "ResolveFormat ''a.jsonl'' FormatJSONL = Inr FormatJSONL" by code_simp+
  have clients: "kf_NewClient loopback bs w = (None, w)" "kf_NewGroupClient loopback bs g ts w = (None, w)" for bs g ts w
    by (simp_all add: loopback_def)
  obtain r w' where run: "kafka_runBench loopback loopback_fs (\<lambda>i. int i) ''b'' ''a.jsonl'' FormatJSONL ''p'' [] = Some (Inr r, w')"
    and "br_ProducedEvents r = 1"
    using loopback_steps p
    by (auto simp: kafka_runBench_def bench_consume_def bench_result_def brokers clients Let_def
        split: prod.splits option.splits sum.splits)
  then show ?thesis using bench_lag_fixed [OF run] by auto
qed

theorem command_validates_batches_witness:
  "\<exists>outs. runValidate scripted (\<lambda>_. ''error'') (\<lambda>c. (\<lambda>_. 0) (contents c)) ''b'' ''''
      ([\<lparr>fe_Err = None, fe_Records = [record_of (raw (sample_record 1 5 1 2))]\<rparr>], []) =
      Some (RunFailed ErrNoMessage, ([], outs)) \<and> map mg_Topic outs = [TopicMarketReplayValidated]"
proof -
  let ?r = "sample_record 1 5 1 2" and ?fs = "[\<lparr>fe_Err = None, fe_Records = [record_of (raw (sample_record 1 5 1 2))]\<rparr>]"
  have "list_all2 carries (fetched ?fs) [?r]"
    by (auto simp: fetched_def kgo_message_def record_of_def carries_def raw_message_def new_message_def)
  moreover have "list_all publishable [?r]"
    using sample_record_ok [of 5 1 2 1]
    by (simp add: publishable_def record_ok_def sample_record_def int64_def levels_named_def sample_depth_def zero_MarketEvent_def)
  moreover have "verdicts (NewValidator 0 \<lparr>op_Symbol = ''''\<rparr>) [?r] = [True]" by code_simp
  moreover have "full_batches ?fs" by (simp add: full_batches_def)
  ultimately show ?thesis
    using command_validates_batches [of ?fs "[?r]" "\<lambda>_. ''error''" "\<lambda>_. 0" "''b''" "''''" 0] by auto
qed

end
