(* ===== verification/Bench_Matrix.thy ===== *)
theory Bench_Matrix
  imports Bench Go_Path Store_Types
begin

section \<open>internal/bench: the benchmark matrix\<close>

text \<open>
  \<^verbatim>\<open>matrix.go\<close>: four workloads, two fixtures and two files generated from them, are measured several times. The disk is a map
  from paths to contents, to which the generated files are written. What the system answers in the \<open>i\<close>-th case (whether a
  directory can be made and a file created, the room for it, the readings of each run, and how the sort orders equal
  runs) comes from an environment.
\<close>

subsection \<open>The value of a rate\<close>

text \<open>
  A symbolic floating-point expression is evaluated with each operation rounded. A rate is divided by the seconds of a positive
  duration.
\<close>

definition rounded_signed :: "rat \<Rightarrow> rat" where
  "rounded_signed r = (if r < 0 then - rounded (- r) else rounded r)"

fun float_value :: "float64 \<Rightarrow> rat" where
  "float_value (FInt i) = rounded_signed (of_int i)"
| "float_value (FSeconds d) =
     (let sec = sgn d * (\<bar>d\<bar> div 1000000000); nsec = d - sec * 1000000000
      in rounded_signed (rounded_signed (of_int sec) + rounded_signed (rounded_signed (of_int nsec) / 1000000000)))"
| "float_value (FAdd a b) = rounded_signed (float_value a + float_value b)"
| "float_value (FDiv a b) = rounded_signed (float_value a / float_value b)"

subsection \<open>Options, cases and results\<close>

record MatrixOptions =
  mo_RootDir :: string
  mo_OutputDir :: string
  mo_Runs :: int
  mo_WorkloadBytes :: int
  mo_Symbol :: string

record MatrixResult =
  mx_Name :: string
  mx_Mode :: string
  mx_Format :: Format
  mx_SourcePath :: string
  mx_WorkloadFilePath :: string
  mx_WorkloadBytes :: int
  mx_Runs :: "ReplayMetric list"
  mx_Median :: ReplayMetric

record matrixCase =
  mc_name :: string
  mc_mode :: string
  mc_format :: Format
  mc_sourcePath :: string
  mc_outputName :: string

abbreviation MatrixModeFixture :: string where
  "MatrixModeFixture \<equiv> ''fixture''"

abbreviation MatrixModeGenerated :: string where
  "MatrixModeGenerated \<equiv> ''generated''"

definition fixture_cases :: "matrixCase list" where
  "fixture_cases =
     [\<lparr>mc_name = ''fixture-jsonl-btcusdt-depth'', mc_mode = MatrixModeFixture, mc_format = FormatJSONL,
       mc_sourcePath = Join [''testdata'', ''btcusdt_depth.jsonl''], mc_outputName = ''''\<rparr>,
      \<lparr>mc_name = ''fixture-csv-solusdt-aggtrade'', mc_mode = MatrixModeFixture, mc_format = FormatCSV,
       mc_sourcePath = Join [''testdata'', ''solusdt_aggtrade.csv''], mc_outputName = ''''\<rparr>]"

definition generated_cases :: "matrixCase list" where
  "generated_cases =
     [\<lparr>mc_name = ''generated-jsonl-btcusdt-depth'', mc_mode = MatrixModeGenerated, mc_format = FormatJSONL,
       mc_sourcePath = Join [''testdata'', ''btcusdt_depth.jsonl''], mc_outputName = ''btcusdt_depth.jsonl''\<rparr>,
      \<lparr>mc_name = ''generated-csv-solusdt-aggtrade'', mc_mode = MatrixModeGenerated, mc_format = FormatCSV,
       mc_sourcePath = Join [''testdata'', ''solusdt_aggtrade.csv''], mc_outputName = ''solusdt_aggtrade.csv''\<rparr>]"

definition normalizeMatrixOptions :: "MatrixOptions \<Rightarrow> MatrixOptions" where
  "normalizeMatrixOptions opts =
     (let o1 = (if mo_RootDir opts = '''' then opts\<lparr>mo_RootDir := ''.''\<rparr> else opts);
          o2 = (if mo_OutputDir o1 = '''' then o1\<lparr>mo_OutputDir := ''tmp/bench-matrix''\<rparr> else o1);
          o3 = (if mo_Runs o2 \<le> 0 then o2\<lparr>mo_Runs := 3\<rparr> else o2)
      in if mo_WorkloadBytes o3 \<le> 0 then o3\<lparr>mo_WorkloadBytes := 64 * 1024\<rparr> else o3)"

definition matrixPath :: "string \<Rightarrow> string \<Rightarrow> string" where
  "matrixPath rootDir path = (if IsAbs path \<or> rootDir = '''' \<or> rootDir = ''.'' then path else Join [rootDir, path])"

definition zero_ReplayMetric :: ReplayMetric where
  "zero_ReplayMetric = \<lparr>rm_Rows = 0, rm_Events = 0, rm_MalformedEvents = 0, rm_SequenceGaps = 0, rm_Duration = 0,
     rm_RowsPerSecond = FInt 0, rm_EventsPerSecond = FInt 0, rm_P95Latency = 0, rm_PeakAllocBytes = 0,
     rm_AllocsPerEvent = FInt 0, rm_ProcessedAt = 0, rm_WorkloadFilePath = ''''\<rparr>"

text \<open>\<^verbatim>\<open>sort.Slice\<close> may put runs of the same rate in any order, which \<open>order\<close> says.\<close>

definition rate :: "ReplayMetric \<Rightarrow> rat" where
  "rate m = float_value (rm_RowsPerSecond m)"

definition medianRun :: "nat list \<Rightarrow> ReplayMetric list \<Rightarrow> ReplayMetric" where
  "medianRun order runs =
     (if runs = [] then zero_ReplayMetric else sort_key rate (rearrange order runs) ! (length runs div 2))"

subsection \<open>The matrix\<close>

record MatrixEnv =
  me_mkdir :: "nat \<Rightarrow> bool"
  me_creatable :: "nat \<Rightarrow> string \<Rightarrow> bool"
  me_room :: "nat \<Rightarrow> nat"
  me_bench :: "nat \<Rightarrow> nat \<Rightarrow> BenchEnv"
  me_order :: "nat \<Rightarrow> nat list"

datatype matrix_error =
    MkdirFailed
  | GenerateFailed string generate_error
  | BenchFailed string int stream_error
  | StatFailed

definition fileSize :: "file_system \<Rightarrow> string \<Rightarrow> matrix_error + int" where
  "fileSize fs path = (case fs path of None \<Rightarrow> Inl StatFailed | Some contents \<Rightarrow> Inr (int (length contents)))"

fun matrix_runs ::
  "(nat \<Rightarrow> BenchEnv) \<Rightarrow> file_system \<Rightarrow> matrixCase \<Rightarrow> string \<Rightarrow> string \<Rightarrow> nat list \<Rightarrow> (matrix_error + ReplayMetric list) option" where
  "matrix_runs env fs c path symb [] = Some (Inr [])"
| "matrix_runs env fs c path symb (i # is) =
     (case bench_File (env i) fs path (mc_format c) symb of
        None \<Rightarrow> None
      | Some (Inl e) \<Rightarrow> Some (Inl (BenchFailed (mc_name c) (int i + 1) e))
      | Some (Inr metric) \<Rightarrow> map_option (map_sum id ((#) metric)) (matrix_runs env fs c path symb is))"

text \<open>The file that a case measures, and the disk with it.\<close>

definition matrix_workload ::
  "(binary64 \<Rightarrow> int) \<Rightarrow> MatrixEnv \<Rightarrow> MatrixOptions \<Rightarrow> nat \<Rightarrow> matrixCase \<Rightarrow> file_system \<Rightarrow>
    ((matrix_error + string) \<times> file_system) option" where
  "matrix_workload cpu env opts k c fs =
     (let sourcePath = matrixPath (mo_RootDir opts) (mc_sourcePath c)
      in if mc_mode c \<noteq> MatrixModeGenerated then Some (Inr sourcePath, fs)
         else if \<not> me_mkdir env k then Some (Inl MkdirFailed, fs)
         else let path = Join [mo_OutputDir opts, mc_outputName c]
              in case GenerateFile cpu \<lparr>go_SourcePath = sourcePath, go_OutputPath = path, go_TargetBytes = mo_WorkloadBytes opts\<rparr>
                        \<lparr>dk_files = fs, dk_creatable = me_creatable env k, dk_room = me_room env k\<rparr> of
                   None \<Rightarrow> None
                 | Some (res, out) \<Rightarrow>
                     (let fs' = (case out of None \<Rightarrow> fs | Some contents \<Rightarrow> fs(path \<mapsto> contents))
                      in case res of
                           Inl e \<Rightarrow> Some (Inl (GenerateFailed (mc_name c) e), fs')
                         | Inr _ \<Rightarrow> Some (Inr path, fs')))"

definition matrix_measure ::
  "MatrixEnv \<Rightarrow> MatrixOptions \<Rightarrow> nat \<Rightarrow> matrixCase \<Rightarrow> string \<Rightarrow> file_system \<Rightarrow> (matrix_error + MatrixResult) option" where
  "matrix_measure env opts k c path fs =
     (case matrix_runs (me_bench env k) fs c path (mo_Symbol opts) [0..<nat (mo_Runs opts)] of
        None \<Rightarrow> None
      | Some (Inl e) \<Rightarrow> Some (Inl e)
      | Some (Inr runs) \<Rightarrow>
          (case fileSize fs path of
             Inl e \<Rightarrow> Some (Inl e)
           | Inr bytes \<Rightarrow>
               Some (Inr \<lparr>mx_Name = mc_name c, mx_Mode = mc_mode c, mx_Format = mc_format c, mx_SourcePath = mc_sourcePath c,
                 mx_WorkloadFilePath = path, mx_WorkloadBytes = bytes, mx_Runs = runs, mx_Median = medianRun (me_order env k) runs\<rparr>)))"

fun matrix_loop ::
  "(binary64 \<Rightarrow> int) \<Rightarrow> MatrixEnv \<Rightarrow> MatrixOptions \<Rightarrow> nat \<Rightarrow> matrixCase list \<Rightarrow> file_system \<Rightarrow>
    ((matrix_error + MatrixResult list) \<times> file_system) option" where
  "matrix_loop cpu env opts k [] fs = Some (Inr [], fs)"
| "matrix_loop cpu env opts k (c # cs) fs =
     (case matrix_workload cpu env opts k c fs of
        None \<Rightarrow> None
      | Some (Inl e, fs') \<Rightarrow> Some (Inl e, fs')
      | Some (Inr path, fs') \<Rightarrow>
          (case matrix_measure env opts k c path fs' of
             None \<Rightarrow> None
           | Some (Inl e) \<Rightarrow> Some (Inl e, fs')
           | Some (Inr result) \<Rightarrow>
               map_option (map_prod (map_sum id ((#) result)) id) (matrix_loop cpu env opts (Suc k) cs fs')))"

definition RunMatrix ::
  "(binary64 \<Rightarrow> int) \<Rightarrow> MatrixEnv \<Rightarrow> MatrixOptions \<Rightarrow> file_system \<Rightarrow> ((matrix_error + MatrixResult list) \<times> file_system) option" where
  "RunMatrix cpu env opts fs = matrix_loop cpu env (normalizeMatrixOptions opts) 0 (fixture_cases @ generated_cases) fs"

subsection \<open>The generator returns\<close>

text \<open>Without an error there is an output, that has the bytes asked for but for those that a last flush could not write.\<close>

definition generated :: "GenerateOptions \<Rightarrow> (generate_error + GenerateResult) \<times> bytes option \<Rightarrow> bool" where
  "generated opts = (\<lambda>(res, out). case res of Inl _ \<Rightarrow> True
     | Inr r \<Rightarrow> \<exists>contents. out = Some contents \<and> go_TargetBytes opts \<le> gr_BytesWritten r \<and>
         gr_BytesWritten r \<le> int (length contents) + 4096)"

lemma generateJSONL_returns: "\<exists>out. generateJSONL cpu opts disk source = Some out \<and> generated opts out"
proof (cases "readLines source")
  case (Inr lines)
  show ?thesis
  proof (cases "lines = [] \<or> \<not> dk_creatable disk (go_OutputPath opts)")
    case False
    then show ?thesis using generateJSONL_output [OF Inr, of disk opts cpu] by (fastforce simp: generated_def)
  qed (auto simp: generateJSONL_def Inr generated_def)
qed (simp add: generateJSONL_def generated_def)

lemma generateCSV_returns: "\<exists>out. generateCSV opts disk source = Some out \<and> generated opts out"
proof (cases "csv_read_all False source")
  case (Inr records)
  show ?thesis
  proof (cases "length records < 2 \<or> \<not> dk_creatable disk (go_OutputPath opts)")
    case False
    then obtain header rows where "records = header # rows" "rows \<noteq> []"
      by (cases records rule: remdups_adj.cases) auto
    then show ?thesis using generateCSV_output [of source header rows disk opts] Inr False by (fastforce simp: generated_def)
  qed (auto simp: generateCSV_def Inr generated_def)
qed (simp add: generateCSV_def generated_def)

lemma GenerateFile_returns: obtains out where "GenerateFile cpu opts disk = Some out" "generated opts out"
proof (cases "dk_files disk (go_SourcePath opts)")
  case None
  then show ?thesis using that by (simp add: GenerateFile_def generated_def)
next
  case (Some source)
  then show ?thesis
    using that generateJSONL_returns [of cpu opts disk source] generateCSV_returns [of opts disk source]
    by (cases "ToLower (Ext (go_SourcePath opts)) = ''.csv''") (auto simp: GenerateFile_def)
qed

subsection \<open>The median\<close>

lemma median_rank:
  assumes "runs \<noteq> []"
  shows "medianRun order runs \<in> set runs"
    "length runs \<le> 2 * length (filter (\<lambda>m. rate m \<le> rate (medianRun order runs)) runs)"
    "length runs \<le> 2 * length (filter (\<lambda>m. rate (medianRun order runs) \<le> rate m) runs)"
proof -
  let ?xs = "sort_key rate (rearrange order runs)" and ?i = "length runs div 2"
  have len: "length ?xs = length runs" by (metis length_sort mset_rearrange size_mset)
  have i: "?i < length ?xs" using assms len by simp
  have m: "medianRun order runs = ?xs ! ?i" using assms by (simp add: medianRun_def)
  have mset: "mset ?xs = mset runs" by simp
  have count: "length (filter P runs) = length (filter P ?xs)" for P by (rule length_filter_mset) simp
  have "sorted (map rate ?xs)" by simp
  from sorted_rank [OF this, of ?i] i
  have "Suc ?i \<le> length (filter (\<lambda>m. rate m \<le> rate (?xs ! ?i)) ?xs)" "length runs - ?i \<le> length (filter (\<lambda>m. rate (?xs ! ?i) \<le> rate m) ?xs)"
    using len by (simp_all add: filter_map comp_def)
  then show "length runs \<le> 2 * length (filter (\<lambda>m. rate m \<le> rate (medianRun order runs)) runs)"
    "length runs \<le> 2 * length (filter (\<lambda>m. rate (medianRun order runs) \<le> rate m) runs)"
    unfolding m count by simp_all
  show "medianRun order runs \<in> set runs" using i mset unfolding m by (metis nth_mem set_mset_mset)
qed

subsection \<open>The results\<close>

definition case_path :: "MatrixOptions \<Rightarrow> matrixCase \<Rightarrow> string" where
  "case_path opts c =
     (if mc_mode c = MatrixModeGenerated then Join [mo_OutputDir opts, mc_outputName c]
      else matrixPath (mo_RootDir opts) (mc_sourcePath c))"

text \<open>A run counts what a validation of the contents counts.\<close>

definition counts_contents :: "MatrixOptions \<Rightarrow> matrixCase \<Rightarrow> bytes \<Rightarrow> ReplayMetric \<Rightarrow> bool" where
  "counts_contents opts c contents m \<longleftrightarrow>
     (\<exists>res. validate_File [case_path opts c \<mapsto> contents] 0 0 (case_path opts c) (mc_format c) \<lparr>op_Symbol = mo_Symbol opts\<rparr> = Inr res \<and>
       counts m = result_counts res)"

definition measured :: "MatrixOptions \<Rightarrow> matrixCase \<Rightarrow> bytes \<Rightarrow> MatrixResult \<Rightarrow> bool" where
  "measured opts c contents r \<longleftrightarrow>
     mx_Name r = mc_name c \<and> mx_Mode r = mc_mode c \<and> mx_Format r = mc_format c \<and> mx_SourcePath r = mc_sourcePath c \<and>
     mx_WorkloadFilePath r = case_path opts c \<and>
     mx_WorkloadBytes r = int (length contents) \<and> length (mx_Runs r) = nat (mo_Runs opts) \<and>
     list_all (counts_contents opts c contents) (mx_Runs r) \<and> mx_Median r \<in> set (mx_Runs r) \<and>
     length (mx_Runs r) \<le> 2 * length (filter (\<lambda>m. rate m \<le> rate (mx_Median r)) (mx_Runs r)) \<and>
     length (mx_Runs r) \<le> 2 * length (filter (\<lambda>m. rate (mx_Median r) \<le> rate m) (mx_Runs r))"

text \<open>
  The file of a case is in place: a fixture is the file as it is; a generated one is what the generator makes of the disk at that
  time, written to its path.
\<close>

definition generate_case ::
  "(binary64 \<Rightarrow> int) \<Rightarrow> MatrixEnv \<Rightarrow> MatrixOptions \<Rightarrow> nat \<Rightarrow> matrixCase \<Rightarrow> file_system \<Rightarrow>
    ((generate_error + GenerateResult) \<times> bytes option) option" where
  "generate_case cpu env opts k c fs =
     GenerateFile cpu \<lparr>go_SourcePath = matrixPath (mo_RootDir opts) (mc_sourcePath c), go_OutputPath = Join [mo_OutputDir opts, mc_outputName c],
         go_TargetBytes = mo_WorkloadBytes opts\<rparr>
       \<lparr>dk_files = fs, dk_creatable = me_creatable env k, dk_room = me_room env k\<rparr>"

definition prepared ::
  "(binary64 \<Rightarrow> int) \<Rightarrow> MatrixEnv \<Rightarrow> MatrixOptions \<Rightarrow> nat \<Rightarrow> matrixCase \<Rightarrow> file_system \<Rightarrow> file_system \<Rightarrow> bool" where
  "prepared cpu env opts k c fs fs1 \<longleftrightarrow>
     (if mc_mode c = MatrixModeGenerated then
        me_mkdir env k \<and> (\<exists>gr contents. generate_case cpu env opts k c fs = Some (Inr gr, Some contents) \<and>
          mo_WorkloadBytes opts \<le> int (length contents) + 4096 \<and> fs1 = fs(case_path opts c \<mapsto> contents))
      else fs1 = fs)"

text \<open>
  The cases one after the other, each on the disk that the one before left: all are measured, or the first that fails ends the
  matrix, because a directory or a file cannot be made or because the file cannot be validated.
\<close>

inductive matrix_done ::
  "(binary64 \<Rightarrow> int) \<Rightarrow> MatrixEnv \<Rightarrow> MatrixOptions \<Rightarrow> nat \<Rightarrow> matrixCase list \<Rightarrow> file_system \<Rightarrow>
    (matrix_error + MatrixResult list) \<Rightarrow> file_system \<Rightarrow> bool"
  for cpu env opts where
  finished: "matrix_done cpu env opts k [] fs (Inr []) fs"
| no_directory: "mc_mode c = MatrixModeGenerated \<Longrightarrow> \<not> me_mkdir env k \<Longrightarrow>
    matrix_done cpu env opts k (c # cs) fs (Inl MkdirFailed) fs"
| not_generated: "mc_mode c = MatrixModeGenerated \<Longrightarrow> me_mkdir env k \<Longrightarrow> generate_case cpu env opts k c fs = Some (Inl g, out) \<Longrightarrow>
    fs1 = (case out of None \<Rightarrow> fs | Some contents \<Rightarrow> fs(case_path opts c \<mapsto> contents)) \<Longrightarrow>
    matrix_done cpu env opts k (c # cs) fs (Inl (GenerateFailed (mc_name c) g)) fs1"
| not_readable: "prepared cpu env opts k c fs fs1 \<Longrightarrow>
    validate_File fs1 0 0 (case_path opts c) (mc_format c) \<lparr>op_Symbol = mo_Symbol opts\<rparr> = Inl g \<Longrightarrow>
    matrix_done cpu env opts k (c # cs) fs (Inl (BenchFailed (mc_name c) 1 g)) fs1"
| measuring: "prepared cpu env opts k c fs fs1 \<Longrightarrow> fs1 (case_path opts c) = Some contents \<Longrightarrow> measured opts c contents r \<Longrightarrow>
    matrix_done cpu env opts (Suc k) cs fs1 res fs' \<Longrightarrow>
    matrix_done cpu env opts k (c # cs) fs (map_sum id ((#) r) res) fs'"

lemma matrix_runs_ok:
  assumes "path = case_path opts c"
  shows "\<exists>out. matrix_runs env fs c path (mo_Symbol opts) is = Some out \<and>
    (\<forall>e. out = Inl e \<longrightarrow> (\<exists>g. e = BenchFailed (mc_name c) (int (hd is) + 1) g \<and>
      validate_File fs 0 0 path (mc_format c) \<lparr>op_Symbol = mo_Symbol opts\<rparr> = Inl g)) \<and>
    (\<forall>runs. out = Inr runs \<longrightarrow> length runs = length is \<and> (fs path = None \<longrightarrow> runs = []) \<and>
      (\<forall>contents. fs path = Some contents \<longrightarrow> list_all (counts_contents opts c contents) runs))"
proof (induction "is")
  case (Cons i "is")
  let ?validate = "validate_File fs 0 0 path (mc_format c) \<lparr>op_Symbol = mo_Symbol opts\<rparr>"
  obtain out where out: "matrix_runs env fs c path (mo_Symbol opts) is = Some out"
    "\<And>e. out = Inl e \<Longrightarrow> \<exists>g. ?validate = Inl g" "\<And>runs. out = Inr runs \<Longrightarrow> length runs = length is"
    "\<And>runs contents. out = Inr runs \<Longrightarrow> fs path = Some contents \<Longrightarrow> list_all (counts_contents opts c contents) runs"
    using Cons by blast
  have same: "?validate = validate_File [path \<mapsto> contents] 0 0 path (mc_format c) \<lparr>op_Symbol = mo_Symbol opts\<rparr>"
    if "fs path = Some contents" for contents
    using that by (simp add: validate_File_def Open_def)
  have missing: "fs path = None \<Longrightarrow> \<exists>g. ?validate = Inl g" by (simp add: validate_File_def Open_def)
  consider (err) e where "bench_File (env i) fs path (mc_format c) (mo_Symbol opts) = Some (Inl e)" "?validate = Inl e"
    | (ok) m res where "bench_File (env i) fs path (mc_format c) (mo_Symbol opts) = Some (Inr m)" "?validate = Inr res"
      "\<And>contents. fs path = Some contents \<Longrightarrow> counts_contents opts c contents m"
    using bench_run [where env = "env i" and fs = fs and path = path and format = "mc_format c" and symb = "mo_Symbol opts"
        and ?t0.0 = 0 and ?t1.0 = 0]
    by (auto simp: counts_contents_def assms [symmetric] same [symmetric] split: option.splits sum.splits)
  then show ?case
  proof cases
    case ok
    then show ?thesis using out missing by (cases out) auto
  qed simp
qed simp

lemma matrix_measure_ok:
  assumes "0 < mo_Runs opts" "path = case_path opts c"
  shows "\<exists>out. matrix_measure env opts k c path fs = Some out \<and>
    (case out of
       Inl e \<Rightarrow> \<exists>g. e = BenchFailed (mc_name c) 1 g \<and> validate_File fs 0 0 path (mc_format c) \<lparr>op_Symbol = mo_Symbol opts\<rparr> = Inl g
     | Inr r \<Rightarrow> \<exists>contents. fs path = Some contents \<and> measured opts c contents r)"
proof -
  obtain n where n: "nat (mo_Runs opts) = Suc n" using assms(1) by (cases "nat (mo_Runs opts)") auto
  have first: "hd [0..<nat (mo_Runs opts)] = 0" using n by (simp add: upt_conv_Cons del: upt_Suc)
  obtain out where out: "matrix_runs (me_bench env k) fs c path (mo_Symbol opts) [0..<nat (mo_Runs opts)] = Some out"
    "\<And>e. out = Inl e \<Longrightarrow> \<exists>g. e = BenchFailed (mc_name c) (int (hd [0..<nat (mo_Runs opts)]) + 1) g \<and>
      validate_File fs 0 0 path (mc_format c) \<lparr>op_Symbol = mo_Symbol opts\<rparr> = Inl g"
    "\<And>runs. out = Inr runs \<Longrightarrow> length runs = length [0..<nat (mo_Runs opts)] \<and> (fs path = None \<longrightarrow> runs = [])"
    "\<And>runs contents. out = Inr runs \<Longrightarrow> fs path = Some contents \<Longrightarrow> list_all (counts_contents opts c contents) runs"
    using matrix_runs_ok [OF assms(2), of "me_bench env k" fs "[0..<nat (mo_Runs opts)]"] by blast
  show ?thesis
  proof (cases out)
    case (Inl e)
    then show ?thesis using out(1) out(2) [OF Inl] first assms(2) by (auto simp: matrix_measure_def)
  next
    case (Inr runs)
    then have "runs \<noteq> []" using out(3) [OF Inr] n by auto
    then show ?thesis
      using out(1) out(3,4) [OF Inr] Inr median_rank [of runs "me_order env k"] assms(2)
      by (auto simp: matrix_measure_def fileSize_def measured_def split: option.splits)
  qed
qed

lemma matrix_workload_ok:
  "\<exists>res fs1. matrix_workload cpu env opts k c fs = Some (res, fs1) \<and>
    fs1 |` (- {case_path opts c}) = fs |` (- {case_path opts c}) \<and> (mc_mode c \<noteq> MatrixModeGenerated \<longrightarrow> fs1 = fs) \<and>
    (case res of
       Inl e \<Rightarrow> matrix_done cpu env opts k (c # cs) fs (Inl e) fs1
     | Inr path \<Rightarrow> path = case_path opts c \<and> prepared cpu env opts k c fs fs1)"
proof (cases "mc_mode c = MatrixModeGenerated \<and> me_mkdir env k")
  case True
  obtain res out where gen: "generate_case cpu env opts k c fs = Some (res, out)"
    "generated \<lparr>go_SourcePath = matrixPath (mo_RootDir opts) (mc_sourcePath c), go_OutputPath = Join [mo_OutputDir opts, mc_outputName c],
      go_TargetBytes = mo_WorkloadBytes opts\<rparr> (res, out)"
    unfolding generate_case_def by (metis GenerateFile_returns surj_pair)
  have path: "Join [mo_OutputDir opts, mc_outputName c] = case_path opts c" using True by (simp add: case_path_def)
  let ?fs1 = "case out of None \<Rightarrow> fs | Some contents \<Rightarrow> fs(case_path opts c \<mapsto> contents)"
  have w: "matrix_workload cpu env opts k c fs =
      Some (case res of Inl g \<Rightarrow> Inl (GenerateFailed (mc_name c) g) | Inr _ \<Rightarrow> Inr (case_path opts c), ?fs1)"
    using True gen(1) by (cases res) (simp_all add: matrix_workload_def Let_def generate_case_def path)
  have "?fs1 |` (- {case_path opts c}) = fs |` (- {case_path opts c})" by (simp split: option.split)
  moreover have "prepared cpu env opts k c fs ?fs1" if "res = Inr gr" for gr
    using True gen that by (auto simp: prepared_def generated_def)
  ultimately show ?thesis
    using w True gen(1) by (cases res) (auto intro: matrix_done.not_generated)
qed (auto simp: matrix_workload_def case_path_def prepared_def Let_def intro: matrix_done.no_directory)

lemma matrix_loop_ok:
  assumes "0 < mo_Runs opts" "\<forall>c \<in> set cs. mc_mode c = MatrixModeGenerated \<longrightarrow> case_path opts c \<in> outs"
  shows "\<exists>res fs'. matrix_loop cpu env opts k cs fs = Some (res, fs') \<and> fs' |` (- outs) = fs |` (- outs) \<and>
    matrix_done cpu env opts k cs fs res fs'"
  using assms(2)
proof (induction cs arbitrary: k fs)
  case Nil
  then show ?case by (simp add: matrix_done.finished)
next
  case (Cons c cs)
  obtain res fs1 where w: "matrix_workload cpu env opts k c fs = Some (res, fs1)"
    "fs1 |` (- {case_path opts c}) = fs |` (- {case_path opts c})" "mc_mode c \<noteq> MatrixModeGenerated \<Longrightarrow> fs1 = fs"
    "case res of Inl e \<Rightarrow> matrix_done cpu env opts k (c # cs) fs (Inl e) fs1
     | Inr path \<Rightarrow> path = case_path opts c \<and> prepared cpu env opts k c fs fs1"
    using matrix_workload_ok [of cpu env opts k c fs cs] by blast
  have outs: "fs1 |` (- outs) = fs |` (- outs)"
  proof (cases "mc_mode c = MatrixModeGenerated")
    case True
    then have "- outs \<inter> - {case_path opts c} = - outs" using Cons.prems by auto
    then show ?thesis using w(2) by (metis restrict_restrict inf_commute)
  qed (simp add: w(3))
  obtain res' fs' where l: "matrix_loop cpu env opts (Suc k) cs fs1 = Some (res', fs')" "fs' |` (- outs) = fs1 |` (- outs)"
    "matrix_done cpu env opts (Suc k) cs fs1 res' fs'"
    using Cons.IH [of "Suc k" fs1] Cons.prems by auto
  show ?case
  proof (cases res)
    case (Inl e)
    then show ?thesis using w(1,4) outs by simp
  next
    case (Inr path)
    then have path: "path = case_path opts c" and prep: "prepared cpu env opts k c fs fs1" using w(4) by simp_all
    obtain out where m: "matrix_measure env opts k c path fs1 = Some out"
      "case out of
         Inl e \<Rightarrow> \<exists>g. e = BenchFailed (mc_name c) 1 g \<and> validate_File fs1 0 0 path (mc_format c) \<lparr>op_Symbol = mo_Symbol opts\<rparr> = Inl g
       | Inr r \<Rightarrow> \<exists>contents. fs1 path = Some contents \<and> measured opts c contents r"
      using matrix_measure_ok [OF assms(1) path] by blast
    show ?thesis
    proof (cases out)
      case (Inl e)
      then show ?thesis
        using w(1) Inr m outs matrix_done.not_readable [OF prep] by (auto simp: path)
    next
      case out: (Inr r)
      then show ?thesis
        using w(1) Inr m l outs matrix_done.measuring [OF prep _ _ l(3)] by (auto simp: path)
    qed
  qed
qed

text \<open>
  C37: the benchmark matrix. It always returns, and writes to no other file than its two outputs. The two fixtures and the two
  generated files are measured in this order, each on the disk that the one before left: a fixture is the file as it is on that disk,
  a generated file is what the generator makes of that disk, written to its path, and at most a last buffer short of the size asked for.
  Without an error there is a result for each case: with the size of its file, as many runs as asked for, each with the counters of
  a validation of the file, and with one of the runs as the median, such that half of the runs are not faster and half
  not slower. The first case that fails ends the matrix with its reason: the directory or the file could not be made, or the
  validation of the file fails, which the first run reports.
\<close>

theorem matrix_results:
  "case RunMatrix cpu env opts fs of
      None \<Rightarrow> False
    | Some (res, fs') \<Rightarrow>
        (let o1 = normalizeMatrixOptions opts; cs = fixture_cases @ generated_cases; outs = set (map (case_path o1) generated_cases)
         in fs' |` (- outs) = fs |` (- outs) \<and> matrix_done cpu env o1 0 cs fs res fs')"
proof -
  let ?o = "normalizeMatrixOptions opts" and ?cs = "fixture_cases @ generated_cases"
  have "0 < mo_Runs ?o" by (simp add: normalizeMatrixOptions_def Let_def)
  moreover have "\<forall>c \<in> set ?cs. mc_mode c = MatrixModeGenerated \<longrightarrow> case_path ?o c \<in> set (map (case_path ?o) generated_cases)"
    by (simp add: fixture_cases_def generated_cases_def)
  ultimately obtain res fs' where "matrix_loop cpu env ?o 0 ?cs fs = Some (res, fs')"
    "fs' |` (- set (map (case_path ?o) generated_cases)) = fs |` (- set (map (case_path ?o) generated_cases))"
    "matrix_done cpu env ?o 0 ?cs fs res fs'"
    using matrix_loop_ok [of ?o ?cs _ cpu env 0 fs] by blast
  then show ?thesis by (simp add: RunMatrix_def Let_def)
qed

end
