(* ===== verification/Service_Bench.thy ===== *)
theory Service_Bench
  imports Bench_Matrix Job_Queue
begin

section \<open>internal/servicebench: measuring the queue and the database\<close>

text \<open>
  \<^verbatim>\<open>queue.go\<close> and \<^verbatim>\<open>db.go\<close>. Redis is behind the Asynq client, a parameter as in the theory of the queue; Postgres is behind a
  connection whose calls are fields of the record \<open>BenchConn\<close> and act on a world, the clock among them. SQL texts are values of a datatype, one
  for each statement. \<open>None\<close> is the panic of an index out of range, as for \<open>percentile\<close>.
\<close>

text \<open>\<^verbatim>\<open>%08d\<close>: eight digits, the sign among them.\<close>

definition pad08 :: "int \<Rightarrow> string" where
  "pad08 i =
     (if i < 0 then (let ds = format_nat (nat (- i)) in CHR ''-'' # replicate (7 - length ds) (CHR ''0'') @ ds)
      else let ds = format_nat (nat i) in replicate (8 - length ds) (CHR ''0'') @ ds)"

subsection \<open>queue.go\<close>

record QueueOptions =
  qo_RedisAddr :: string
  qo_Jobs :: int
  qo_QueueName :: string

record QueueResult =
  qr_RedisAddr :: string
  qr_QueueName :: string
  qr_Jobs :: int
  qr_EnqueueDuration :: duration
  qr_JobsPerMinute :: float64
  qr_EnqueueP50 :: duration
  qr_EnqueueP95 :: duration
  qr_DuplicateRejected :: bool
  qr_DuplicateRejectionCount :: int

definition replayTask :: "string \<Rightarrow> queue_error + Task" where
  "replayTask jobID =
     (case EncodeReplayPayload \<lparr>pa_JobID = jobID\<rparr> of
        Inl e \<Rightarrow> Inl e
      | Inr payload \<Rightarrow> Inr \<lparr>tk_Type = TypeReplayJob, tk_Payload = payload\<rparr>)"

definition hour :: duration where "hour = 60 * 60 * second"

definition job_options :: "string \<Rightarrow> int \<Rightarrow> task_option list" where
  "job_options queueName i =
     [OptQueue queueName, OptMaxRetry 3, OptTimeout (30 * 60 * second), OptTaskID (''queue-bench-task-'' @ pad08 i), OptUnique hour]"

text \<open>
  The loop over the jobs, with the latencies. The readings of the clock are numbered: 0 for a name of the queue, 1 for the start, then two
  for each job.
\<close>

fun enqueue_jobs ::
  "('c, 'i) Client \<Rightarrow> (nat \<Rightarrow> time) \<Rightarrow> string \<Rightarrow> nat list \<Rightarrow> 'c \<Rightarrow> (queue_error + duration list) \<times> 'c" where
  "enqueue_jobs client now queueName [] c = (Inr [], c)"
| "enqueue_jobs client now queueName (i # is) c =
     (case replayTask (''queue-bench-job-'' @ pad08 (int i)) of
        Inl e \<Rightarrow> (Inl e, c)
      | Inr task \<Rightarrow>
          (case client task (job_options queueName (int i)) c of
             (Inl e, c') \<Rightarrow> (Inl e, c')
           | (Inr _, c') \<Rightarrow>
               (case enqueue_jobs client now queueName is c' of
                  (Inl e, c'') \<Rightarrow> (Inl e, c'')
                | (Inr latencies, c'') \<Rightarrow> (Inr ((now (2 * i + 3) - now (2 * i + 2)) # latencies), c''))))"

text \<open>Submitting a task twice: whether the second time is refused.\<close>

definition submit_twice :: "('c, 'i) Client \<Rightarrow> string \<Rightarrow> 'c \<Rightarrow> (queue_error + int) \<times> 'c" where
  "submit_twice client queueName c =
     (case replayTask ''queue-bench-duplicate'' of
        Inl e \<Rightarrow> (Inl e, c)
      | Inr task \<Rightarrow>
          (let opts = [OptQueue queueName, OptTaskID ''queue-bench-duplicate-task'', OptUnique hour]
           in case client task opts c of
                (Inl e, c') \<Rightarrow> (Inl e, c')
              | (Inr _, c') \<Rightarrow>
                  (case client task opts c' of
                     (Inl e, c'') \<Rightarrow> (if e = ErrDuplicateTask \<or> e = ErrTaskIDConflict then (Inr 1, c'') else (Inl e, c''))
                   | (Inr _, c'') \<Rightarrow> (Inr 0, c''))))"

definition Minutes :: "duration \<Rightarrow> float64" where
  "Minutes d = FAdd (FInt (quot64 d (60 * second))) (FDiv (FInt (d - quot64 d (60 * second) * (60 * second))) (FInt (60 * second)))"

definition pct50 :: rat where
  "pct50 = 1 / 2"

definition percentileQueueDuration :: "duration list \<Rightarrow> rat \<Rightarrow> duration option" where
  "percentileQueueDuration vals pct = percentile vals pct"

definition queue_result :: "QueueOptions \<Rightarrow> duration \<Rightarrow> duration list \<Rightarrow> int \<Rightarrow> QueueResult option" where
  "queue_result opts dur latencies rejected =
     (case (percentileQueueDuration latencies pct50, percentileQueueDuration latencies pct95) of
        (Some p50, Some p95) \<Rightarrow>
          Some \<lparr>qr_RedisAddr = qo_RedisAddr opts, qr_QueueName = qo_QueueName opts, qr_Jobs = qo_Jobs opts, qr_EnqueueDuration = dur,
            qr_JobsPerMinute = FDiv (FInt (qo_Jobs opts)) (Minutes dur), qr_EnqueueP50 = p50, qr_EnqueueP95 = p95,
            qr_DuplicateRejected = (rejected = 1), qr_DuplicateRejectionCount = rejected\<rparr>
      | _ \<Rightarrow> None)"

datatype queue_bench_error = RedisRequired | QueueBench queue_error

definition queue_defaults :: "(nat \<Rightarrow> time) \<Rightarrow> QueueOptions \<Rightarrow> QueueOptions" where
  "queue_defaults now opts =
     (let o1 = (if qo_Jobs opts \<le> 0 then opts\<lparr>qo_Jobs := 1000\<rparr> else opts)
      in if qo_QueueName o1 = '''' then o1\<lparr>qo_QueueName := ''bench-replay-'' @ FormatInt (now 0)\<rparr> else o1)"

text \<open>The queue is deleted at the end, also after an error; \<open>delete\<close> is the inspector's call.\<close>

definition RunQueue ::
  "('c, 'i) Client \<Rightarrow> (string \<Rightarrow> 'c \<Rightarrow> 'c) \<Rightarrow> (nat \<Rightarrow> time) \<Rightarrow> QueueOptions \<Rightarrow> 'c \<Rightarrow> ((queue_bench_error + QueueResult) \<times> 'c) option" where
  "RunQueue client delete now opts0 c =
     (if qo_RedisAddr opts0 = '''' then Some (Inl RedisRequired, c)
      else let opts = queue_defaults now opts0; n = nat (qo_Jobs opts)
           in case enqueue_jobs client now (qo_QueueName opts) [0..<n] c of
                (Inl e, c1) \<Rightarrow> Some (Inl (QueueBench e), delete (qo_QueueName opts) c1)
              | (Inr latencies, c1) \<Rightarrow>
                  (case submit_twice client (qo_QueueName opts) c1 of
                     (Inl e, c2) \<Rightarrow> Some (Inl (QueueBench e), delete (qo_QueueName opts) c2)
                   | (Inr rejected, c2) \<Rightarrow>
                       map_option (\<lambda>r. (Inr r, delete (qo_QueueName opts) c2))
                         (queue_result opts (now (2 * n + 2) - now 1) latencies rejected)))"

subsection \<open>Numbered names\<close>

lemma parse_zeros: "parse_digits 0 (replicate k (CHR ''0'') @ s) = parse_digits 0 s"
  by (induction k) (simp_all add: is_digit_def digit_val_def)

lemma pad08_inj:
  assumes "0 \<le> i" "i < 2 ^ 64" "0 \<le> j" "j < 2 ^ 64" "pad08 i = pad08 j"
  shows "i = j"
proof -
  have "parse_digits 0 (pad08 k) = Inr k" if "0 \<le> k" "k < 2 ^ 64" for k
    using that parse_digits_format_nat [of "nat k"] by (simp add: pad08_def Let_def parse_zeros)
  then show ?thesis using assms by (metis sum.inject(2))
qed

definition bench_task :: "string \<Rightarrow> Task" where
  "bench_task jobID = \<lparr>tk_Type = TypeReplayJob, tk_Payload = ReplayPayload_Marshal \<lparr>pa_JobID = jobID\<rparr>\<rparr>"

lemma replayTask_ok: "replayTask (CHR ''q'' # s) = Inr (bench_task (CHR ''q'' # s))"
proof -
  have "TrimSpace (CHR ''q'' # s) \<noteq> ''''" by (rule TrimSpace_nonempty [of "CHR ''q''"]) (simp_all add: is_space_def)
  then show ?thesis by (simp add: replayTask_def EncodeReplayPayload_def bench_task_def)
qed

lemma bench_task_inj: "bench_task (CHR ''q'' # s) = bench_task (CHR ''q'' # t) \<Longrightarrow> s = t"
proof -
  have ne: "TrimSpace (CHR ''q'' # u) \<noteq> ''''" for u
    by (rule TrimSpace_nonempty [of "CHR ''q''"]) (simp_all add: is_space_def)
  have "DecodeReplayPayload (ReplayPayload_Marshal \<lparr>pa_JobID = CHR ''q'' # u\<rparr>) = Inr \<lparr>pa_JobID = CHR ''q'' # u\<rparr>" for u
    using payload_roundtrip [of "\<lparr>pa_JobID = CHR ''q'' # u\<rparr>"] ne [of u] by (simp add: EncodeReplayPayload_def)
  moreover assume "bench_task (CHR ''q'' # s) = bench_task (CHR ''q'' # t)"
  ultimately show "s = t" by (metis ReplayPayload.simps(1) Task.simps(2) bench_task_def list.inject sum.inject(2))
qed

subsection \<open>A queue that refuses duplicates\<close>

text \<open>
  What Asynq documents of tasks with an id that are to be unique: a task is refused when the queue has one with its id, or with the same
  type and payload, and is in the queue otherwise. \<open>entries c\<close> are the queue, the id and the task of what is stored.
  Of options given twice the last one counts.
\<close>

definition queue_of :: "task_option list \<Rightarrow> string option" where
  "queue_of opts = (case [q. OptQueue q \<leftarrow> opts] of [] \<Rightarrow> None | qs \<Rightarrow> Some (last qs))"

definition id_of :: "task_option list \<Rightarrow> string option" where
  "id_of opts = (case [i. OptTaskID i \<leftarrow> opts] of [] \<Rightarrow> None | is \<Rightarrow> Some (last is))"

definition asynq_ok :: "('c, 'i) Client \<Rightarrow> ('c \<Rightarrow> (string \<times> string \<times> Task) set) \<Rightarrow> bool" where
  "asynq_ok client entries \<longleftrightarrow>
     (\<forall>task opts q tid ttl c. queue_of opts = Some q \<and> id_of opts = Some tid \<and> OptUnique ttl \<in> set opts \<longrightarrow>
       (if \<exists>(q', tid', task') \<in> entries c. q' = q \<and> (tid' = tid \<or> task' = task)
        then \<exists>e c'. client task opts c = (Inl e, c') \<and> e \<in> {ErrDuplicateTask, ErrTaskIDConflict} \<and> entries c' = entries c
        else \<exists>i c'. client task opts c = (Inr i, c') \<and> entries c' = insert (q, tid, task) (entries c)))"

definition job_entry :: "string \<Rightarrow> nat \<Rightarrow> string \<times> string \<times> Task" where
  "job_entry q i = (q, ''queue-bench-task-'' @ pad08 (int i), bench_task (''queue-bench-job-'' @ pad08 (int i)))"

text \<open>No task of the queue has the id or the payload of another entry.\<close>

definition apart :: "(string \<times> string \<times> Task) set \<Rightarrow> string \<times> string \<times> Task \<Rightarrow> bool" where
  "apart es e \<longleftrightarrow> (\<forall>(q, tid, task) \<in> es. q = fst e \<longrightarrow> tid \<noteq> fst (snd e) \<and> task \<noteq> snd (snd e))"

lemma asynq_accepts:
  assumes "asynq_ok client entries" "queue_of opts = Some q" "id_of opts = Some tid" "OptUnique ttl \<in> set opts"
    "apart (entries c) (q, tid, task)"
  obtains i c' where "client task opts c = (Inr i, c')" "entries c' = insert (q, tid, task) (entries c)"
proof -
  have "\<not> (\<exists>(q', tid', task') \<in> entries c. q' = q \<and> (tid' = tid \<or> task' = task))" using assms(5) by (auto simp: apart_def)
  then show ?thesis using assms(1-4) that unfolding asynq_ok_def by (metis (no_types, lifting))
qed

lemma asynq_refuses:
  assumes "asynq_ok client entries" "queue_of opts = Some q" "id_of opts = Some tid" "OptUnique ttl \<in> set opts"
    "(q, tid, task) \<in> entries c"
  obtains e c' where "client task opts c = (Inl e, c')" "e = ErrDuplicateTask \<or> e = ErrTaskIDConflict" "entries c' = entries c"
proof -
  have "\<exists>(q', tid', task') \<in> entries c. q' = q \<and> (tid' = tid \<or> task' = task)" using assms(5) by auto
  then have "\<exists>e c'. client task opts c = (Inl e, c') \<and> e \<in> {ErrDuplicateTask, ErrTaskIDConflict} \<and> entries c' = entries c"
    using assms(1-4) unfolding asynq_ok_def by (metis (no_types, lifting))
  then show ?thesis using that by blast
qed

lemma job_entry_apart:
  assumes "i \<noteq> j" "int i < 2 ^ 64" "int j < 2 ^ 64"
  shows "apart {job_entry q i} (job_entry q j)"
proof -
  have "pad08 (int i) \<noteq> pad08 (int j)" using pad08_inj [of "int i" "int j"] assms by auto
  then show ?thesis
    using bench_task_inj [of "''ueue-bench-job-'' @ pad08 (int i)" "''ueue-bench-job-'' @ pad08 (int j)"]
    by (auto simp: apart_def job_entry_def)
qed

lemma apart_insert: "apart (insert x es) e \<longleftrightarrow> apart {x} e \<and> apart es e"
  by (auto simp: apart_def)

lemma apart_Un: "apart (es \<union> es') e \<longleftrightarrow> apart es e \<and> apart es' e"
  by (auto simp: apart_def)

lemma enqueue_jobs_ok:
  assumes "asynq_ok client entries" "distinct is" "\<forall>i \<in> set is. int i < 2 ^ 64" "\<forall>i \<in> set is. apart (entries c) (job_entry q i)"
  shows "\<exists>latencies c'. enqueue_jobs client now q is c = (Inr latencies, c') \<and> length latencies = length is \<and>
    entries c' = entries c \<union> job_entry q ` set is"
  using assms(2-)
proof (induction "is" arbitrary: c)
  case (Cons i "is")
  let ?task = "bench_task (''queue-bench-job-'' @ pad08 (int i))"
  obtain x c1 where c1: "client ?task (job_options q (int i)) c = (Inr x, c1)" "entries c1 = insert (job_entry q i) (entries c)"
    by (rule asynq_accepts [OF assms(1), of "job_options q (int i)" q "''queue-bench-task-'' @ pad08 (int i)" hour c ?task])
      (use Cons.prems(3) in \<open>auto simp: job_options_def job_entry_def queue_of_def id_of_def\<close>)
  have "\<forall>j \<in> set is. apart {job_entry q i} (job_entry q j)" using Cons.prems(1,2) by (intro ballI job_entry_apart) auto
  then have "\<forall>j \<in> set is. apart (entries c1) (job_entry q j)"
    unfolding c1(2) using Cons.prems(3) by (simp add: apart_insert [of "job_entry q i" "entries c"])
  then obtain latencies c2 where "enqueue_jobs client now q is c1 = (Inr latencies, c2)" "length latencies = length is"
    "entries c2 = entries c1 \<union> job_entry q ` set is"
    using Cons.IH [of c1] Cons.prems(1,2) by auto
  then show ?case using c1 by (simp add: replayTask_ok)
qed simp

lemma submit_twice_ok:
  assumes "asynq_ok client entries" "apart (entries c) (q, ''queue-bench-duplicate-task'', bench_task ''queue-bench-duplicate'')"
  shows "\<exists>c'. submit_twice client q c = (Inr 1, c')"
proof -
  let ?task = "bench_task ''queue-bench-duplicate''" and ?id = "''queue-bench-duplicate-task''"
  let ?opts = "[OptQueue q, OptTaskID ?id, OptUnique hour]"
  obtain x c1 where c1: "client ?task ?opts c = (Inr x, c1)" "entries c1 = insert (q, ?id, ?task) (entries c)"
    by (rule asynq_accepts [OF assms(1), of ?opts q ?id hour c ?task]) (use assms(2) in \<open>auto simp: queue_of_def id_of_def\<close>)
  obtain e c2 where "client ?task ?opts c1 = (Inl e, c2)" "e = ErrDuplicateTask \<or> e = ErrTaskIDConflict"
    by (rule asynq_refuses [OF assms(1), of ?opts q ?id hour ?task c1]) (use c1(2) in \<open>auto simp: queue_of_def id_of_def\<close>)
  then show ?thesis using c1(1) by (auto simp: submit_twice_def replayTask_ok)
qed

lemma duplicate_apart: "apart (job_entry q ` is) (q, ''queue-bench-duplicate-task'', bench_task ''queue-bench-duplicate'')"
proof -
  have "bench_task (''queue-bench-job-'' @ u) \<noteq> bench_task ''queue-bench-duplicate''" for u
    using bench_task_inj [of "''ueue-bench-job-'' @ u" "''ueue-bench-duplicate''"] by auto
  then show ?thesis by (auto simp: apart_def job_entry_def)
qed

lemma queue_result_defined:
  assumes "int (length latencies) \<le> 2 ^ 53"
  obtains r where "queue_result opts dur latencies rejected = Some r" "qr_Jobs r = qo_Jobs opts" "qr_QueueName r = qo_QueueName opts"
    "qr_DuplicateRejected r = (rejected = 1)" "qr_DuplicateRejectionCount r = rejected"
proof -
  obtain p50 p95 where "percentile latencies pct50 = Some p50" "percentile latencies pct95 = Some p95"
    using percentile_defined [OF assms pct95_range] percentile_defined [OF assms, of pct50] by (auto simp: pct50_def)
  then show ?thesis using that by (simp add: queue_result_def percentileQueueDuration_def)
qed

text \<open>
  The queue benchmark on a queue that refuses duplicates as Asynq documents. When the queue is empty at the start, none of the numbered
  jobs is taken for a duplicate of another: the benchmark ends without an error, counts all jobs, sees that its duplicate is
  refused, and deletes the queue.
\<close>

theorem queue_bench_succeeds:
  assumes "asynq_ok client entries" "qo_RedisAddr opts \<noteq> ''''" "qo_Jobs opts \<le> 2 ^ 53"
    "\<forall>(q, tid, task) \<in> entries c. q \<noteq> qo_QueueName (queue_defaults now opts)"
  shows "\<exists>r c'. RunQueue client delete now opts c = Some (Inr r, delete (qr_QueueName r) c') \<and>
    qr_QueueName r = qo_QueueName (queue_defaults now opts) \<and>
    qr_Jobs r = (if qo_Jobs opts \<le> 0 then 1000 else qo_Jobs opts) \<and> qr_DuplicateRejected r \<and> qr_DuplicateRejectionCount r = 1"
proof -
  let ?o = "queue_defaults now opts"
  let ?q = "qo_QueueName ?o" and ?n = "nat (qo_Jobs ?o)"
  have jobs: "qo_Jobs ?o = (if qo_Jobs opts \<le> 0 then 1000 else qo_Jobs opts)" by (simp add: queue_defaults_def Let_def)
  then have n: "int ?n \<le> 2 ^ 53" using assms(3) by simp
  have small: "\<forall>i \<in> set [0..<?n]. int i < 2 ^ 64"
  proof
    fix i
    assume "i \<in> set [0..<?n]"
    then have "int i < int ?n" unfolding of_nat_less_iff by simp
    then have "int i < 2 ^ 53" using n by (rule less_le_trans)
    then show "int i < 2 ^ 64" by simp
  qed
  have fst_job: "fst (job_entry ?q i) = ?q" for i by (simp add: job_entry_def)
  have apart: "apart (entries c) e" if "fst e = ?q" for e using assms(4) that by (auto simp: apart_def)
  obtain latencies c1 where c1: "enqueue_jobs client now ?q [0..<?n] c = (Inr latencies, c1)" "length latencies = ?n"
    "entries c1 = entries c \<union> job_entry ?q ` set [0..<?n]"
    using enqueue_jobs_ok [OF assms(1), of "[0..<?n]" c ?q now] apart small fst_job by auto
  have "apart (entries c1) (?q, ''queue-bench-duplicate-task'', bench_task ''queue-bench-duplicate'')"
    using duplicate_apart [of ?q "set [0..<?n]"] apart unfolding c1(3) apart_Un by simp
  then obtain c2 where c2: "submit_twice client ?q c1 = (Inr 1, c2)" using submit_twice_ok [OF assms(1)] by blast
  have len: "int (length latencies) \<le> 2 ^ 53" unfolding c1(2) by (rule n)
  obtain r where "queue_result ?o (now (2 * ?n + 2) - now 1) latencies 1 = Some r" "qr_Jobs r = qo_Jobs ?o" "qr_QueueName r = ?q"
    "qr_DuplicateRejected r = (1 = (1::int))" "qr_DuplicateRejectionCount r = 1"
    using queue_result_defined [OF len] by metis
  then show ?thesis using assms(2) c1(1) c2 jobs by (auto simp: RunQueue_def Let_def)
qed

subsection \<open>db.go\<close>

record DBOptions =
  do_DatabaseURL :: string
  do_Rows :: int
  do_Lookups :: int
  do_InsertRows :: int

record DBResult =
  dbr_Rows :: int
  dbr_Lookups :: int
  dbr_InsertRows :: int
  dbr_RowInsertDuration :: duration
  dbr_RowInsertRowsPerSecond :: float64
  dbr_CopyInsertDuration :: duration
  dbr_CopyInsertRowsPerSecond :: float64
  dbr_CopyVsRowInsertSpeedup :: float64
  dbr_LookupNoIndexP50 :: duration
  dbr_LookupNoIndexP95 :: duration
  dbr_LookupIndexedP50 :: duration
  dbr_LookupIndexedP95 :: duration
  dbr_LookupP95ImprovementMultiple :: float64

text \<open>The statements, each one SQL text of the source, with the tables and the values they name.\<close>

datatype bench_statement =
    CreateTemp string
  | InsertRow string string string
  | Analyze string
  | CreateIndex string

record 'w BenchConn =
  bc_Connect :: "string \<Rightarrow> 'w \<Rightarrow> (string + unit) \<times> 'w"
  bc_Ping :: "'w \<Rightarrow> (string + unit) \<times> 'w"
  bc_Acquire :: "'w \<Rightarrow> (string + unit) \<times> 'w"
  bc_Exec :: "bench_statement \<Rightarrow> 'w \<Rightarrow> (string + unit) \<times> 'w"
  bc_CopyFrom :: "string \<Rightarrow> (string \<times> string) list \<Rightarrow> 'w \<Rightarrow> (string + unit) \<times> 'w"
  bc_LookupID :: "string \<Rightarrow> 'w \<Rightarrow> (string + string) \<times> 'w"
  bc_Now :: "'w \<Rightarrow> (string + time) \<times> 'w"

definition normalizeDBOptions :: "DBOptions \<Rightarrow> DBOptions" where
  "normalizeDBOptions opts =
     (let o1 = (if do_Rows opts \<le> 0 then opts\<lparr>do_Rows := 50000\<rparr> else opts);
          o2 = (if do_Lookups o1 \<le> 0 then o1\<lparr>do_Lookups := 1000\<rparr> else o1)
      in if do_InsertRows o2 \<le> 0 then o2\<lparr>do_InsertRows := 10000\<rparr> else o2)"

definition benchID :: "int \<Rightarrow> string" where "benchID i = ''bench-job-'' @ pad08 i"
definition benchKey :: "int \<Rightarrow> string" where "benchKey i = ''bench-idempotency-'' @ pad08 i"
definition benchPayload :: "int \<Rightarrow> string" where "benchPayload i = ''payload-'' @ pad08 i"

text \<open>Go's remainder has the sign of the dividend.\<close>

definition lookup_index :: "int \<Rightarrow> int \<Rightarrow> int" where
  "lookup_index rows i = (let n = wrap64 (wrap64 (i * 7919) + 17) in n - quot64 n rows * rows)"

definition lookupKeys :: "int \<Rightarrow> int \<Rightarrow> string list" where
  "lookupKeys rows lookups = map (\<lambda>i. benchKey (lookup_index rows (int i))) [0..<nat lookups]"

fun insert_rows :: "'w BenchConn \<Rightarrow> nat list \<Rightarrow> 'w \<Rightarrow> (string + unit) \<times> 'w" where
  "insert_rows conn [] w = (Inr (), w)"
| "insert_rows conn (i # is) w =
     try_call (bc_Exec conn (InsertRow ''bench_row_insert'' (benchID (int i)) (benchPayload (int i)))) (\<lambda>_. insert_rows conn is) w"

definition measureRowInsert :: "'w BenchConn \<Rightarrow> int \<Rightarrow> 'w \<Rightarrow> (string + duration) \<times> 'w" where
  "measureRowInsert conn rows =
     try_call (bc_Acquire conn) (\<lambda>_.
     try_call (bc_Exec conn (CreateTemp ''bench_row_insert'')) (\<lambda>_.
     try_call (bc_Now conn) (\<lambda>started.
     try_call (insert_rows conn [0..<nat rows]) (\<lambda>_.
     try_call (bc_Now conn) (\<lambda>now w. (Inr (now - started), w))))))"

definition measureCopyInsert :: "'w BenchConn \<Rightarrow> int \<Rightarrow> 'w \<Rightarrow> (string + duration) \<times> 'w" where
  "measureCopyInsert conn rows =
     try_call (bc_Acquire conn) (\<lambda>_.
     try_call (bc_Exec conn (CreateTemp ''bench_copy_insert'')) (\<lambda>_.
     try_call (bc_Now conn) (\<lambda>started.
     try_call (bc_CopyFrom conn ''bench_copy_insert'' (map (\<lambda>i. (benchID (int i), benchPayload (int i))) [0..<nat rows])) (\<lambda>_.
     try_call (bc_Now conn) (\<lambda>now w. (Inr (now - started), w))))))"

fun measureLookups :: "'w BenchConn \<Rightarrow> string list \<Rightarrow> 'w \<Rightarrow> (string + duration list) \<times> 'w" where
  "measureLookups conn [] w = (Inr [], w)"
| "measureLookups conn (key # keys) w =
     try_call (bc_Now conn) (\<lambda>started.
     try_call (bc_LookupID conn key) (\<lambda>_.
     try_call (bc_Now conn) (\<lambda>now.
     try_call (measureLookups conn keys) (\<lambda>latencies w. (Inr ((now - started) # latencies), w))))) w"

text \<open>A row of the lookup table is kept with its id and its key; its status is always \<^verbatim>\<open>queued\<close>.\<close>

definition measureLookupIndex :: "'w BenchConn \<Rightarrow> int \<Rightarrow> int \<Rightarrow> 'w \<Rightarrow> (string + duration list \<times> duration list) \<times> 'w" where
  "measureLookupIndex conn rows lookups =
     try_call (bc_Acquire conn) (\<lambda>_.
     try_call (bc_Exec conn (CreateTemp ''bench_lookup_jobs'')) (\<lambda>_.
     try_call (bc_CopyFrom conn ''bench_lookup_jobs'' (map (\<lambda>i. (benchID (int i), benchKey (int i))) [0..<nat rows])) (\<lambda>_.
     try_call (bc_Exec conn (Analyze ''bench_lookup_jobs'')) (\<lambda>_.
     try_call (measureLookups conn (lookupKeys rows lookups)) (\<lambda>noIndex.
     try_call (bc_Exec conn (CreateIndex ''bench_lookup_jobs'')) (\<lambda>_.
     try_call (bc_Exec conn (Analyze ''bench_lookup_jobs'')) (\<lambda>_.
     try_call (measureLookups conn (lookupKeys rows lookups)) (\<lambda>indexed w. (Inr (noIndex, indexed), w)))))))))"

definition percentileDuration :: "duration list \<Rightarrow> rat \<Rightarrow> duration option" where
  "percentileDuration vals pct = percentile vals pct"

definition rows_per_second :: "int \<Rightarrow> duration \<Rightarrow> float64" where
  "rows_per_second n dur = (if dur \<le> 0 then FInt 0 else FDiv (FInt n) (FSeconds dur))"

definition ratio :: "float64 \<Rightarrow> float64 \<Rightarrow> float64" where
  "ratio numerator denominator = (if float_value denominator = 0 then FInt 0 else FDiv numerator denominator)"

definition db_result :: "DBOptions \<Rightarrow> duration \<Rightarrow> duration \<Rightarrow> duration list \<Rightarrow> duration list \<Rightarrow> DBResult option" where
  "db_result opts rowInsert copyInsert noIndex indexed =
     (case (percentileDuration noIndex pct50, percentileDuration noIndex pct95,
            percentileDuration indexed pct50, percentileDuration indexed pct95) of
        (Some n50, Some n95, Some i50, Some i95) \<Rightarrow>
          (let rowRate = rows_per_second (do_InsertRows opts) rowInsert; copyRate = rows_per_second (do_InsertRows opts) copyInsert
           in Some \<lparr>dbr_Rows = do_Rows opts, dbr_Lookups = do_Lookups opts, dbr_InsertRows = do_InsertRows opts,
                dbr_RowInsertDuration = rowInsert, dbr_RowInsertRowsPerSecond = rowRate, dbr_CopyInsertDuration = copyInsert,
                dbr_CopyInsertRowsPerSecond = copyRate, dbr_CopyVsRowInsertSpeedup = ratio copyRate rowRate,
                dbr_LookupNoIndexP50 = n50, dbr_LookupNoIndexP95 = n95, dbr_LookupIndexedP50 = i50, dbr_LookupIndexedP95 = i95,
                dbr_LookupP95ImprovementMultiple = ratio (FInt n95) (FInt i95)\<rparr>)
      | _ \<Rightarrow> None)"

definition RunDB :: "'w BenchConn \<Rightarrow> DBOptions \<Rightarrow> 'w \<Rightarrow> ((string + DBResult) \<times> 'w) option" where
  "RunDB conn opts0 w =
     (let opts = normalizeDBOptions opts0
      in if do_DatabaseURL opts = '''' then Some (Inl ''database URL is required'', w)
         else case
             (try_call (bc_Connect conn (do_DatabaseURL opts)) (\<lambda>_.
              try_call (bc_Ping conn) (\<lambda>_.
              try_call (measureRowInsert conn (do_InsertRows opts)) (\<lambda>rowInsert.
              try_call (measureCopyInsert conn (do_InsertRows opts)) (\<lambda>copyInsert.
              try_call (measureLookupIndex conn (do_Rows opts) (do_Lookups opts)) (\<lambda>(noIndex, indexed) w.
                (Inr (rowInsert, copyInsert, noIndex, indexed), w)))))) w) of
             (Inl e, w') \<Rightarrow> Some (Inl e, w')
           | (Inr (rowInsert, copyInsert, noIndex, indexed), w') \<Rightarrow>
               map_option (\<lambda>r. (Inr r, w')) (db_result opts rowInsert copyInsert noIndex indexed))"

subsection \<open>A database in order\<close>

text \<open>
  Postgres as far as the benchmark uses it: tables of rows with a primary key, each with a second column. Creating a table that exists and
  inserting an id twice are refused, and a lookup without a row is an error. \<open>clk\<close> are the readings of the clock.
\<close>

record BenchDb =
  bd_tables :: "string \<rightharpoonup> (string \<times> string) list"
  bd_ticks :: nat

definition bench_exec :: "bench_statement \<Rightarrow> BenchDb \<Rightarrow> (string + unit) \<times> BenchDb" where
  "bench_exec s w =
     (case s of
        CreateTemp t \<Rightarrow>
          (case bd_tables w t of
             None \<Rightarrow> (Inr (), w\<lparr>bd_tables := (bd_tables w)(t \<mapsto> [])\<rparr>)
           | Some _ \<Rightarrow> (Inl ''relation already exists'', w))
      | InsertRow t i p \<Rightarrow>
          (case bd_tables w t of
             None \<Rightarrow> (Inl ''relation does not exist'', w)
           | Some rows \<Rightarrow>
               (if i \<in> fst ` set rows then (Inl ''duplicate key'', w)
                else (Inr (), w\<lparr>bd_tables := (bd_tables w)(t \<mapsto> rows @ [(i, p)])\<rparr>)))
      | Analyze t \<Rightarrow> (if bd_tables w t = None then Inl ''relation does not exist'' else Inr (), w)
      | CreateIndex t \<Rightarrow> (if bd_tables w t = None then Inl ''relation does not exist'' else Inr (), w))"

definition bench_copy :: "string \<Rightarrow> (string \<times> string) list \<Rightarrow> BenchDb \<Rightarrow> (string + unit) \<times> BenchDb" where
  "bench_copy t rs w =
     (case bd_tables w t of
        None \<Rightarrow> (Inl ''relation does not exist'', w)
      | Some rows \<Rightarrow>
          (if distinct (map fst (rows @ rs)) then (Inr (), w\<lparr>bd_tables := (bd_tables w)(t \<mapsto> rows @ rs)\<rparr>)
           else (Inl ''duplicate key'', w)))"

definition bench_lookup :: "string \<Rightarrow> BenchDb \<Rightarrow> (string + string) \<times> BenchDb" where
  "bench_lookup key w =
     (case bd_tables w ''bench_lookup_jobs'' of
        None \<Rightarrow> (Inl ''relation does not exist'', w)
      | Some rows \<Rightarrow>
          (case find (\<lambda>r. snd r = key) rows of None \<Rightarrow> (Inl ''no rows in result set'', w) | Some r \<Rightarrow> (Inr (fst r), w)))"

text \<open>
  An instance of the connection: a database of one session, in which no statement fails but for a missing table, a duplicate id or a
  key without a row. The temporary tables of all connections of the pool are in one place here, where the server keeps
  them per session.
\<close>

definition healthy :: "(nat \<Rightarrow> time) \<Rightarrow> BenchDb BenchConn" where
  "healthy clk =
     \<lparr>bc_Connect = (\<lambda>_ w. (Inr (), w)), bc_Ping = (\<lambda>w. (Inr (), w)), bc_Acquire = (\<lambda>w. (Inr (), w)), bc_Exec = bench_exec,
      bc_CopyFrom = bench_copy, bc_LookupID = bench_lookup, bc_Now = (\<lambda>w. (Inr (clk (bd_ticks w)), w\<lparr>bd_ticks := bd_ticks w + 1\<rparr>))\<rparr>"

lemma healthy_simps [simp]:
  "bc_Connect (healthy clk) url w = (Inr (), w)" "bc_Ping (healthy clk) w = (Inr (), w)" "bc_Acquire (healthy clk) w = (Inr (), w)"
  "bc_Exec (healthy clk) = bench_exec" "bc_CopyFrom (healthy clk) = bench_copy" "bc_LookupID (healthy clk) = bench_lookup"
  "bc_Now (healthy clk) w = (Inr (clk (bd_ticks w)), w\<lparr>bd_ticks := bd_ticks w + 1\<rparr>)"
  by (simp_all add: healthy_def)

lemma benchID_inj: "int i < 2 ^ 64 \<Longrightarrow> int j < 2 ^ 64 \<Longrightarrow> benchID (int i) = benchID (int j) \<Longrightarrow> i = j"
  using pad08_inj [of "int i" "int j"] by (simp add: benchID_def)

lemma distinct_benchIDs: "int n \<le> 2 ^ 64 \<Longrightarrow> distinct (map (\<lambda>i. benchID (int i)) [0..<n])"
proof -
  assume n: "int n \<le> 2 ^ 64"
  have "i = j" if "i < n" "j < n" "benchID (int i) = benchID (int j)" for i j
  proof (rule benchID_inj [OF _ _ that(3)])
    have "int i < int n" "int j < int n" using that by simp_all
    then show "int i < 2 ^ 64" "int j < 2 ^ 64" using n by linarith+
  qed
  then show ?thesis by (auto simp: distinct_map inj_on_def)
qed

lemma insert_rows_ok:
  assumes "bd_tables w ''bench_row_insert'' = Some rows" "distinct (map (\<lambda>i. benchID (int i)) is)"
    "\<forall>i \<in> set is. benchID (int i) \<notin> fst ` set rows"
  shows "\<exists>rows'. insert_rows (healthy clk) is w = (Inr (), w\<lparr>bd_tables := (bd_tables w)(''bench_row_insert'' \<mapsto> rows')\<rparr>)"
  using assms
proof (induction "is" arbitrary: w rows)
  case Nil
  then have "w\<lparr>bd_tables := (bd_tables w)(''bench_row_insert'' \<mapsto> rows)\<rparr> = w" by (simp add: fun_upd_idem)
  then show ?case by (metis insert_rows.simps(1))
next
  case (Cons i "is")
  let ?rows = "rows @ [(benchID (int i), benchPayload (int i))]"
  let ?w = "w\<lparr>bd_tables := (bd_tables w)(''bench_row_insert'' \<mapsto> ?rows)\<rparr>"
  have "benchID (int i) \<notin> (\<lambda>j. benchID (int j)) ` set is" using Cons.prems(2) by simp
  then have "\<forall>j \<in> set is. benchID (int j) \<noteq> benchID (int i)" by (metis image_eqI)
  then have new: "\<forall>j \<in> set is. benchID (int j) \<notin> fst ` set ?rows" using Cons.prems(3) by simp
  have rows: "bd_tables ?w ''bench_row_insert'' = Some ?rows" and rest: "distinct (map (\<lambda>i. benchID (int i)) is)"
    using Cons.prems(2) by simp_all
  obtain rows' where ih: "insert_rows (healthy clk) is ?w = (Inr (), ?w\<lparr>bd_tables := (bd_tables ?w)(''bench_row_insert'' \<mapsto> rows')\<rparr>)"
    using Cons.IH [OF rows rest new] by blast
  have "bench_exec (InsertRow ''bench_row_insert'' (benchID (int i)) (benchPayload (int i))) w = (Inr (), ?w)"
    using Cons.prems(1,3) by (simp add: bench_exec_def)
  then have step: "insert_rows (healthy clk) (i # is) w = insert_rows (healthy clk) is ?w" by (simp add: try_call_def)
  have "?w\<lparr>bd_tables := (bd_tables ?w)(''bench_row_insert'' \<mapsto> rows')\<rparr> = w\<lparr>bd_tables := (bd_tables w)(''bench_row_insert'' \<mapsto> rows')\<rparr>"
    by simp
  then show ?case unfolding step ih by metis
qed

lemma measureLookups_ok:
  assumes "bd_tables w ''bench_lookup_jobs'' = Some rows" "set keys \<subseteq> snd ` set rows"
  shows "\<exists>latencies n. measureLookups (healthy clk) keys w = (Inr latencies, w\<lparr>bd_ticks := n\<rparr>) \<and> length latencies = length keys"
  using assms
proof (induction keys arbitrary: w)
  case Nil
  then show ?case by (intro exI [of _ "[]"] exI [of _ "bd_ticks w"]) simp
next
  case (Cons key keys)
  obtain r where "find (\<lambda>r. snd r = key) rows = Some r"
    using Cons.prems(2) by (cases "find (\<lambda>r. snd r = key) rows") (auto simp: find_None_iff)
  then have "bench_lookup key (w\<lparr>bd_ticks := n\<rparr>) = (Inr (fst r), w\<lparr>bd_ticks := n\<rparr>)" for n using Cons.prems(1) by (simp add: bench_lookup_def)
  moreover obtain latencies n where "measureLookups (healthy clk) keys (w\<lparr>bd_ticks := bd_ticks w + 2\<rparr>) = (Inr latencies, w\<lparr>bd_ticks := n\<rparr>)"
    "length latencies = length keys"
    using Cons.IH [of "w\<lparr>bd_ticks := bd_ticks w + 2\<rparr>"] Cons.prems by auto
  ultimately show ?case by (auto simp: try_call_def)
qed

lemma lookup_index_range:
  assumes "0 \<le> i" "i \<le> 10 ^ 15" "0 < rows"
  shows "0 \<le> lookup_index rows i \<and> lookup_index rows i < rows"
proof -
  have "int64 (i * 7919)" "int64 (i * 7919 + 17)" using assms(1,2) by (simp_all add: int64_def)
  then have "lookup_index rows i = (i * 7919 + 17) mod rows"
    using assms(1,3) by (simp add: lookup_index_def Let_def quot64_nonneg minus_div_mult_eq_mod)
  then show ?thesis using assms(3) by simp
qed

lemma lookupKeys_found:
  assumes "0 < rows" "lookups \<le> 10 ^ 15"
  shows "set (lookupKeys rows lookups) \<subseteq> snd ` set (map (\<lambda>i. (benchID (int i), benchKey (int i))) [0..<nat rows])"
proof
  fix key
  assume "key \<in> set (lookupKeys rows lookups)"
  then obtain i where i: "i < nat lookups" "key = benchKey (lookup_index rows (int i))" by (auto simp: lookupKeys_def)
  have "0 \<le> lookup_index rows (int i) \<and> lookup_index rows (int i) < rows"
    by (rule lookup_index_range) (use i(1) assms in auto)
  then obtain n where "lookup_index rows (int i) = int n" "n < nat rows"
    by (intro that [of "nat (lookup_index rows (int i))"]) auto
  then have "(benchID (int n), key) \<in> set (map (\<lambda>i. (benchID (int i), benchKey (int i))) [0..<nat rows])" using i(2) by auto
  then show "key \<in> snd ` set (map (\<lambda>i. (benchID (int i), benchKey (int i))) [0..<nat rows])" by force
qed

lemma measureRowInsert_ok:
  assumes "bd_tables w ''bench_row_insert'' = None" "rows \<le> 2 ^ 62"
  shows "\<exists>d rows' n. measureRowInsert (healthy clk) rows w =
    (Inr d, w\<lparr>bd_tables := (bd_tables w)(''bench_row_insert'' \<mapsto> rows'), bd_ticks := n\<rparr>)"
proof -
  let ?w = "w\<lparr>bd_tables := (bd_tables w)(''bench_row_insert'' \<mapsto> []), bd_ticks := bd_ticks w + 1\<rparr>"
  have "distinct (map (\<lambda>i. benchID (int i)) [0..<nat rows])" using assms(2) by (intro distinct_benchIDs) simp
  then obtain rows' where "insert_rows (healthy clk) [0..<nat rows] ?w = (Inr (), ?w\<lparr>bd_tables := (bd_tables ?w)(''bench_row_insert'' \<mapsto> rows')\<rparr>)"
    using insert_rows_ok [of ?w "[]" "[0..<nat rows]" clk] by auto
  then show ?thesis
    using assms(1) by (auto simp: measureRowInsert_def try_call_def bench_exec_def)
qed

lemma measureCopyInsert_ok:
  assumes "bd_tables w ''bench_copy_insert'' = None" "rows \<le> 2 ^ 62"
  shows "\<exists>d rows' n. measureCopyInsert (healthy clk) rows w =
    (Inr d, w\<lparr>bd_tables := (bd_tables w)(''bench_copy_insert'' \<mapsto> rows'), bd_ticks := n\<rparr>)"
proof -
  have "distinct (map (\<lambda>i. benchID (int i)) [0..<nat rows])" using assms(2) by (intro distinct_benchIDs) simp
  then show ?thesis
    using assms(1) by (auto simp: measureCopyInsert_def try_call_def bench_exec_def bench_copy_def comp_def)
qed

lemma measureLookupIndex_ok:
  assumes "bd_tables w ''bench_lookup_jobs'' = None" "0 < rows" "rows \<le> 2 ^ 62" "lookups \<le> 10 ^ 15"
  shows "\<exists>noIndex indexed w'. measureLookupIndex (healthy clk) rows lookups w = (Inr (noIndex, indexed), w') \<and>
    length noIndex = nat lookups \<and> length indexed = nat lookups"
proof -
  let ?rows = "map (\<lambda>i. (benchID (int i), benchKey (int i))) [0..<nat rows]"
  let ?w = "w\<lparr>bd_tables := (bd_tables w)(''bench_lookup_jobs'' \<mapsto> ?rows)\<rparr>"
  have copied: "bench_copy ''bench_lookup_jobs'' ?rows (w\<lparr>bd_tables := (bd_tables w)(''bench_lookup_jobs'' \<mapsto> [])\<rparr>) = (Inr (), ?w)"
    using distinct_benchIDs [of "nat rows"] assms(3) by (simp add: bench_copy_def comp_def)
  obtain noIndex n where first: "measureLookups (healthy clk) (lookupKeys rows lookups) ?w = (Inr noIndex, ?w\<lparr>bd_ticks := n\<rparr>)"
    "length noIndex = nat lookups"
    using measureLookups_ok [OF _ lookupKeys_found [OF assms(2,4)], of ?w clk] by (auto simp: lookupKeys_def)
  obtain indexed n' where again: "measureLookups (healthy clk) (lookupKeys rows lookups) (?w\<lparr>bd_ticks := n\<rparr>) = (Inr indexed, ?w\<lparr>bd_ticks := n'\<rparr>)"
    "length indexed = nat lookups"
    using measureLookups_ok [OF _ lookupKeys_found [OF assms(2,4)], of "?w\<lparr>bd_ticks := n\<rparr>" clk] by (auto simp: lookupKeys_def)
  show ?thesis
    using assms(1) copied first again by (simp add: measureLookupIndex_def try_call_def bench_exec_def)
qed

lemma db_result_defined:
  assumes "int (length noIndex) \<le> 2 ^ 53" "int (length indexed) \<le> 2 ^ 53"
  obtains r where "db_result opts a b noIndex indexed = Some r" "dbr_Rows r = do_Rows opts" "dbr_Lookups r = do_Lookups opts"
    "dbr_InsertRows r = do_InsertRows opts"
proof -
  have "0 \<le> pct50" "pct50 \<le> 1" by (simp_all add: pct50_def)
  then obtain n50 n95 i50 i95 where "percentile noIndex pct50 = Some n50" "percentile noIndex pct95 = Some n95"
    "percentile indexed pct50 = Some i50" "percentile indexed pct95 = Some i95"
    using percentile_defined [OF assms(1)] percentile_defined [OF assms(2)] pct95_range by metis
  then show ?thesis using that by (simp add: db_result_def percentileDuration_def Let_def)
qed

text \<open>
  C40: the database benchmark on a database in order. On a session without its tables it ends without an error, whatever the clock says: no
  numbered id is refused as a duplicate, and every key that is looked up has a row, because its number is below the
  number of rows. The result has the options with their defaults.
\<close>

theorem db_bench_succeeds:
  assumes "do_DatabaseURL opts \<noteq> ''''" "do_Rows opts \<le> 2 ^ 62" "do_InsertRows opts \<le> 2 ^ 62" "do_Lookups opts \<le> 10 ^ 15"
    "bd_tables w = Map.empty"
  shows "\<exists>r w'. RunDB (healthy clk) opts w = Some (Inr r, w') \<and>
    dbr_Rows r = (if do_Rows opts \<le> 0 then 50000 else do_Rows opts) \<and>
    dbr_Lookups r = (if do_Lookups opts \<le> 0 then 1000 else do_Lookups opts) \<and>
    dbr_InsertRows r = (if do_InsertRows opts \<le> 0 then 10000 else do_InsertRows opts)"
proof -
  let ?o = "normalizeDBOptions opts"
  have opts: "do_Rows ?o = (if do_Rows opts \<le> 0 then 50000 else do_Rows opts)"
    "do_Lookups ?o = (if do_Lookups opts \<le> 0 then 1000 else do_Lookups opts)"
    "do_InsertRows ?o = (if do_InsertRows opts \<le> 0 then 10000 else do_InsertRows opts)" "do_DatabaseURL ?o = do_DatabaseURL opts"
    by (simp_all add: normalizeDBOptions_def Let_def)
  have bounds: "0 < do_Rows ?o" "do_Rows ?o \<le> 2 ^ 62" "do_InsertRows ?o \<le> 2 ^ 62" "do_Lookups ?o \<le> 10 ^ 15"
    using assms(2-4) by (simp_all add: opts)
  obtain d1 rows1 n1 where s1: "measureRowInsert (healthy clk) (do_InsertRows ?o) w =
      (Inr d1, w\<lparr>bd_tables := (bd_tables w)(''bench_row_insert'' \<mapsto> rows1), bd_ticks := n1\<rparr>)" (is "_ = (_, ?w1)")
    using measureRowInsert_ok [OF _ bounds(3), of w clk] assms(5) by auto
  obtain d2 rows2 n2 where s2: "measureCopyInsert (healthy clk) (do_InsertRows ?o) ?w1 =
      (Inr d2, ?w1\<lparr>bd_tables := (bd_tables ?w1)(''bench_copy_insert'' \<mapsto> rows2), bd_ticks := n2\<rparr>)" (is "_ = (_, ?w2)")
    using measureCopyInsert_ok [OF _ bounds(3), of ?w1 clk] assms(5) by auto
  obtain noIndex indexed w3 where s3: "measureLookupIndex (healthy clk) (do_Rows ?o) (do_Lookups ?o) ?w2 = (Inr (noIndex, indexed), w3)"
    "length noIndex = nat (do_Lookups ?o)" "length indexed = nat (do_Lookups ?o)"
    using measureLookupIndex_ok [OF _ bounds(1,2,4), of ?w2 clk] assms(5) by auto
  have len: "int (length noIndex) \<le> 2 ^ 53" "int (length indexed) \<le> 2 ^ 53" using s3(2,3) bounds(4) by simp_all
  obtain r where r: "db_result ?o d1 d2 noIndex indexed = Some r" "dbr_Rows r = do_Rows ?o" "dbr_Lookups r = do_Lookups ?o"
    "dbr_InsertRows r = do_InsertRows ?o"
    by (rule db_result_defined [OF len])
  have "RunDB (healthy clk) opts w = Some (Inr r, w3)"
    using assms(1) s1 s2 s3(1) r(1) by (simp add: RunDB_def try_call_def Let_def opts(4))
  then show ?thesis using r(2-4) opts(1-3) by simp
qed

subsection \<open>The theorems at work\<close>

text \<open>A queue that keeps its tasks in a list.\<close>

definition list_client :: "((string \<times> string \<times> Task) list, unit) Client" where
  "list_client task opts c =
     (case (queue_of opts, id_of opts) of
        (Some q, Some tid) \<Rightarrow>
          (if \<exists>(q', tid', task') \<in> set c. q' = q \<and> tid' = tid then (Inl ErrTaskIDConflict, c)
           else if \<exists>(q', tid', task') \<in> set c. q' = q \<and> task' = task then (Inl ErrDuplicateTask, c)
           else (Inr (), (q, tid, task) # c))
      | _ \<Rightarrow> (Inl (EnqueueFailed ''no queue or id''), c))"

lemma list_client_ok: "asynq_ok list_client set"
  unfolding asynq_ok_def by (auto simp: list_client_def split: if_splits)

theorem queue_bench_succeeds_witness:
  "\<exists>r c'. RunQueue list_client (\<lambda>q. filter (\<lambda>e. fst e \<noteq> q)) (\<lambda>i. int i) \<lparr>qo_RedisAddr = ''r'', qo_Jobs = 5, qo_QueueName = ''bench''\<rparr> [] =
      Some (Inr r, filter (\<lambda>e. fst e \<noteq> ''bench'') c') \<and> qr_Jobs r = 5 \<and> qr_DuplicateRejected r"
  using queue_bench_succeeds [OF list_client_ok, of "\<lparr>qo_RedisAddr = ''r'', qo_Jobs = 5, qo_QueueName = ''bench''\<rparr>" "[]" "\<lambda>i. int i"
      "\<lambda>q. filter (\<lambda>e. fst e \<noteq> q)"]
  by (auto simp: queue_defaults_def Let_def)

theorem db_bench_succeeds_witness:
  "\<exists>r w'. RunDB (healthy (\<lambda>i. int i)) \<lparr>do_DatabaseURL = ''db'', do_Rows = 7, do_Lookups = 0, do_InsertRows = 2\<rparr>
      \<lparr>bd_tables = Map.empty, bd_ticks = 0\<rparr> = Some (Inr r, w') \<and> dbr_Rows r = 7 \<and> dbr_Lookups r = 1000 \<and> dbr_InsertRows r = 2"
  using db_bench_succeeds [of "\<lparr>do_DatabaseURL = ''db'', do_Rows = 7, do_Lookups = 0, do_InsertRows = 2\<rparr>" "\<lparr>bd_tables = Map.empty, bd_ticks = 0\<rparr>"
      "\<lambda>i. int i"]
  by simp

end
