(* ===== verification/Spec2Isabelle.thy ===== *)
theory Spec2Isabelle
  imports Replay_Runner Replay_Worker Store_Reports Http_Api Kafka_Stream Store_Refinement Postgres_Schema Dashboard Kafka_Client Service_Bench
begin

section \<open>The market replay service\<close>

text \<open>
  This library models the market replay service, a Go program that stores the metadata of market-data files, replays
  and validates them in background jobs, reports on their quality over HTTP and publishes them to
  Kafka topics. The paths below are under \<^verbatim>\<open>src/\<close>.

  \<^bold>\<open>How the parts interact.\<close> A file is read row by row (\<^verbatim>\<open>internal/parser\<close>) and its events are checked by a
  validator that keeps the last time and the last sequence numbers of each symbol (\<^verbatim>\<open>internal/validate\<close>). The
  command line replays a file with pacing (\<^verbatim>\<open>internal/replay\<close>). The API (\<^verbatim>\<open>internal/api\<close>) stores datasets, files and jobs
  in a repository (\<^verbatim>\<open>internal/store\<close>) and submits jobs to a queue (\<^verbatim>\<open>internal/queue\<close>); the worker
  (\<^verbatim>\<open>internal/worker\<close>) takes a task, runs its job through parser and validator with checkpoints, and writes the result
  back, counting in the metrics (\<^verbatim>\<open>internal/observability\<close>). Beside that, a file can be published to two
  Kafka topics and validated from there (\<^verbatim>\<open>internal/kafkastream\<close>), and large files are made by repeating small ones
  (\<^verbatim>\<open>internal/workload\<close>) and measured (\<^verbatim>\<open>internal/bench\<close>). A dashboard shows what the repository holds
  (\<^verbatim>\<open>internal/dashboard\<close>).

  \<^bold>\<open>Theories.\<close>
  \<^item> \<open>Prelude\<close>: generic lemmas. \<open>Go_Lib\<close>: 64-bit wrap-around, \<^verbatim>\<open>strings\<close>, \<^verbatim>\<open>strconv\<close>, \<^verbatim>\<open>bufio.Scanner\<close>.
    \<open>Go_Json\<close>: the JSON encoder and decoder with the round trip of a value. \<open>Go_Csv\<close>: the CSV reader and
    writer. \<open>Go_Bufio\<close>: a buffered writer on a file. \<open>Go_Float\<close>: reading and
    printing floating-point numbers. \<open>Go_Path\<close>: cleaning and joining paths. \<open>Go_Time\<close>: the layouts of times. These model the parts of the standard library that the code uses.
  \<^item> \<open>Event_Types\<close> (\<^verbatim>\<open>event/types.go\<close>), \<open>Event_Parser\<close> (\<^verbatim>\<open>parser/jsonl.go\<close>, \<^verbatim>\<open>csv.go\<close>, \<^verbatim>\<open>parser.go\<close>): a stream is
    a record of the reader, which is the bytes it has not delivered yet and the number of reads that fail behind them, and the line
    counter; \<open>Next\<close> returns a record, an error or the end. Shown: which events are accepted, that lines are numbered and a stream
    ends, what becomes of failing reads, that what is printed is read back, and which event is not.
  \<^item> \<open>Event_Validator\<close> (\<^verbatim>\<open>validate/validator.go\<close>): the validator as a record with its maps and the result so far.
    Shown: no failure exactly for a clean sequence, resuming behind a prefix, the counters, and filtering by symbol.
  \<^item> \<open>Replay_Runner\<close> (\<^verbatim>\<open>replay/replay.go\<close>): the pacing, with sleeping as an action on a world.
  \<^item> \<open>Store_Types\<close> (\<^verbatim>\<open>store/store.go\<close>): the records and the interface \<^verbatim>\<open>Repository\<close> as a record of
    operations; the locale \<open>repository\<close> states what every implementation promises over an abstract database, and proves what
    clients need. \<open>Memory_Store\<close> (\<^verbatim>\<open>store/memory.go\<close>): its operations, their invariant and the interpretation.
  \<^item> \<open>Store_Spec\<close>: what each operation that changes the store does to a database, and the locale \<open>refines_spec\<close> of an
    implementation that does so. \<open>Store_Manifest\<close>: a manifest in a JSONB column, with its round trip. \<open>Postgres_Queries\<close>
    (\<^verbatim>\<open>store/db/models.go\<close>, \<^verbatim>\<open>metadata.sql.go\<close>): the tables and each SQL statement as a function on them. \<open>Postgres_Schema\<close>
    (\<^verbatim>\<open>store/postgres_schema.go\<close>): creating and migrating the tables. \<open>Postgres_Store\<close> (\<^verbatim>\<open>store/postgres.go\<close>): the methods,
    over a server whose statements can fail or lose their reply while other clients change the tables. Shown: a job is completed as a whole or not at all, and a key is used once in every interleaving.
    \<open>Store_Refinement\<close>: the Postgres repository refines the specification as the memory repository does, and both hold the
    same rows after the same calls.
  \<^item> \<open>Store_Reports\<close> (\<^verbatim>\<open>store/reports.go\<close>): lineage, quality report and error summary over the interface.
  \<^item> \<open>Job_Queue\<close> (\<^verbatim>\<open>queue/replay.go\<close>): payloads, options, submission. \<open>Observability\<close>
    (\<^verbatim>\<open>observability/metrics.go\<close>, \<^verbatim>\<open>gin.go\<close>): the metric vectors as maps from label values.
  \<^item> \<open>Replay_Worker\<close> (\<^verbatim>\<open>worker/handler.go\<close>, \<^verbatim>\<open>server.go\<close>): the task handler and its loop, over the interface. Shown:
    what a completed, a failed and a canceled task leave behind, what a resumed one stores, tasks that are skipped, retry delays.
  \<^item> \<open>Http_Api\<close> (\<^verbatim>\<open>api/server.go\<close>, the submission of \<^verbatim>\<open>cmd/server/main.go\<close>): one handler per route. Shown: which
    status every request gets and what exactly it does to the store, repeated submissions, and the CSV report.
  \<^item> \<open>Kafka_Stream\<close> (\<^verbatim>\<open>kafkastream/types.go\<close>, \<^verbatim>\<open>publish.go\<close>, \<^verbatim>\<open>validator.go\<close>): publishing through any producer, and the validator over a consumer.
    \<open>Kafka_Client\<close> (\<^verbatim>\<open>kafkastream/kgo.go\<close>, \<^verbatim>\<open>cmd/kafka-replay\<close>): the consumer over the client library and the commands. The locale
    \<open>kafka_refines\<close> says when one environment of the validator behaves as another; the batches of the client refine a mailbox.
  \<^item> \<open>Workload\<close> (\<^verbatim>\<open>workload/generator.go\<close>): the loops that repeat a file onto a disk that can be full, and the CSV
    normalizer. Shown: the loops end, and what the file holds. \<open>Workload_Trades\<close>: repeated trades are clean for the validator.
    \<open>Workload_Jsonl\<close>: the normalizer for JSON lines, decoded into a map of floating-point numbers, and that repeated depth updates
    are clean.
  \<^item> \<open>Dashboard\<close> (\<^verbatim>\<open>dashboard/dashboard.go\<close>): the routes, the pages with the data handed to a template, and the summary of the
    metrics. Shown: no request changes the store, only a template that fails before
    its first output leads to an internal error, and what the metrics page sums up.
  \<^item> \<open>Bench\<close> (\<^verbatim>\<open>bench/bench.go\<close>): the measuring loop, with the readings of clock and memory from an environment, and the percentile.
    \<open>Bench_Matrix\<close> (\<^verbatim>\<open>bench/matrix.go\<close>): the matrix over the generator and the loop. Shown: what is counted is what a validation
    counts, a percentile is never out of range, and which files the matrix writes and which results and errors it has. \<open>Service_Bench\<close>
    (\<^verbatim>\<open>servicebench/db.go\<close>, \<^verbatim>\<open>queue.go\<close>): the benchmarks of Postgres and Redis, which end without an error on services in order.

  \<^bold>\<open>Conventions.\<close> Strings and byte slices are lists of characters, each one byte. An \<^verbatim>\<open>int64\<close> is an
  integer, with \<open>wrap64\<close> where the code's arithmetic can leave its range. An error is a value of a datatype with a constructor
  for each place that returns it; its text is kept where it is stored. Clocks, identifiers, map iteration orders and
  failures of a call are fields of a record passed to the operations (\<open>Io\<close>, \<open>Runtime\<close>, \<open>Context\<close>). A method under a
  mutex is one atomic step. Loops over a stream end because every read shortens
  the unread input or uses up one of the finitely many reads that fail; no fuel is used. The
  Kafka consumer's loop may run forever and is a \<^verbatim>\<open>partial_function\<close>, with a theorem that it returns.

  \<^bold>\<open>Parameters.\<close> SHA-256, the Asynq client, Gin's decoding of a body and its routing, the Kafka client library, HTML templates and the
  file system are arguments of the definitions that use them.

  \<^bold>\<open>Assumptions.\<close> A stream may be on any reader; the components that open a file themselves (worker, runner, benchmarks, commands) read
  its contents without I/O errors. Strings that are encoded as JSON are valid UTF-8. A priming of the validator loses update ids that are
  not positive, which the parser accepts: the theorems on resuming are for files without them. The theorems that
  say \<open>quiet\<close> are for a store that no other client changes during the call; those on Postgres, on races and on cancellation say
  what other clients may do.

  \<^bold>\<open>Not modelled.\<close> The metrics and profiling handlers register handlers of other libraries; the commands under \<^verbatim>\<open>cmd\<close> parse flags, connect the parts above
  and print.
\<close>

end
